(* ===== verification/Prelude.thy ===== *)
theory Prelude
  imports "HOL-Library.Word"
begin

text \<open>
  Shared vocabulary of the development: the fixed-width integers of
  \<^verbatim>\<open>include/or1kiss/types.h\<close>, the ways in which the C++ code can stop (exceptions, assertions,
  undefined behaviour of the host program), the result type of fallible operations with its
  sequencing operator, the development's collections of facts, and generic lemmas on words
  and lists that several components use.
\<close>

unbundle bit_operations_syntax

section \<open>Integers of the source\<close>

type_synonym u8 = "8 word"
type_synonym u16 = "16 word"
type_synonym u32 = "32 word"
type_synonym u64 = "64 word"

section \<open>Abnormal ends as values\<close>

text \<open>
  One constructor per \<^verbatim>\<open>OR1KISS_ERROR\<close> of the modelled code, and the three ends that the C++
  program has outside its own exceptions: a failed \<^verbatim>\<open>assert\<close>, \<^verbatim>\<open>std::exit\<close> and undefined
  behaviour of the host (a null or dangling pointer, an index outside an array, a trapping
  division).
\<close>

datatype or1k_error =
    Invalid_range u32 u32
  | Invalid_port_response
  | No_memory_access
  | Unknown_exception nat
  | Unknown_rounding_mode u32
  | Insn_not_supported u32 u32
  | Trace_stream_already_specified
  | Receive_error
  | Send_error
  | Packet_overflow
  | Not_connected
  | Cannot_read_memory u32 nat
  | Cannot_write_memory u32 nat
  | Translation_failed u32
  | Bad_rcmd_length nat
  | Unknown_remote_command "u8 list"
  | Bad_command "u8 list"
  | Register_out_of_range u32
  | Bad_length u32
  | Bad_breakpoint_type u32
  | Invalid_elf_header
  | Elf_error
  | Assertion_failed
  | Process_exit int
  | Host_fault
  | Diverges

type_synonym 'a res = "or1k_error + 'a"

definition bindE :: "'a res \<Rightarrow> ('a \<Rightarrow> 'b res) \<Rightarrow> 'b res" where
  "bindE m f = (case m of Inl e \<Rightarrow> Inl e | Inr x \<Rightarrow> f x)"

definition assertE :: "bool \<Rightarrow> or1k_error \<Rightarrow> unit res" where
  "assertE b e = (if b then Inr () else Inl e)"

text \<open>An address or pointer that has to be present.\<close>

definition requireE :: "or1k_error \<Rightarrow> 'a option \<Rightarrow> 'a res" where
  "requireE e x = (case x of None \<Rightarrow> Inl e | Some v \<Rightarrow> Inr v)"

fun mapE :: "('a \<Rightarrow> 'b res) \<Rightarrow> 'a list \<Rightarrow> 'b list res" where
  "mapE f [] = Inr []"
| "mapE f (x # xs) = bindE (f x) (\<lambda>y. bindE (mapE f xs) (\<lambda>ys. Inr (y # ys)))"

section \<open>Collections of facts\<close>

named_theorems iss_defs \<open>definitions of small state-changing operations\<close>
named_theorems bitfield_simps \<open>bits of the extracted fields\<close>
named_theorems frame_simps \<open>fields an operation leaves alone\<close>

section \<open>Sequencing\<close>

lemma bindE_Inl [simp]: "bindE (Inl e) f = Inl e"
  by (simp add: bindE_def)

lemma bindE_Inr [simp]: "bindE (Inr x) f = f x"
  by (simp add: bindE_def)

lemma bindE_eq_Inr: "bindE m f = Inr y \<longleftrightarrow> (\<exists>x. m = Inr x \<and> f x = Inr y)"
  by (cases m) auto

lemma bindE_eq_Inl: "bindE m f = Inl e \<longleftrightarrow> m = Inl e \<or> (\<exists>x. m = Inr x \<and> f x = Inl e)"
  by (cases m) auto

lemma bindE_assoc: "bindE (bindE m f) g = bindE m (\<lambda>x. bindE (f x) g)"
  by (cases m) auto

lemma bindE_Inr_right [simp]: "bindE m Inr = m"
  by (cases m) auto

lemma bindE_cong [fundef_cong]:
  "m = m' \<Longrightarrow> (\<And>x. m' = Inr x \<Longrightarrow> f x = f' x) \<Longrightarrow> bindE m f = bindE m' f'"
  by (cases m') auto

lemma assertE_eq_Inr [simp]: "assertE b e = Inr u \<longleftrightarrow> b"
  by (simp add: assertE_def)

lemma assertE_True [simp]: "b \<Longrightarrow> assertE b e = Inr ()"
  by (simp add: assertE_def)

lemma assertE_False [simp]: "\<not> b \<Longrightarrow> assertE b e = Inl e"
  by (simp add: assertE_def)

lemma requireE_Some [simp]: "requireE e (Some v) = Inr v"
  by (simp add: requireE_def)

lemma requireE_None [simp]: "requireE e None = Inl e"
  by (simp add: requireE_def)

lemma requireE_eq_Inr: "requireE e x = Inr v \<longleftrightarrow> x = Some v"
  by (cases x) auto

lemma mapE_length: "mapE f xs = Inr ys \<Longrightarrow> length ys = length xs"
  by (induction xs arbitrary: ys) (auto simp: bindE_eq_Inr)

lemma mapE_cong: "(\<And>x. x \<in> set xs \<Longrightarrow> f x = g x) \<Longrightarrow> mapE f xs = mapE g xs"
  by (induction xs) auto

lemma mapE_total: "(\<And>x. x \<in> set xs \<Longrightarrow> f x = Inr (g x)) \<Longrightarrow> mapE f xs = Inr (map g xs)"
  by (induction xs) auto

section \<open>Words\<close>

lemma bit_one_word [simp]: "bit (1 :: 'a::len word) n \<longleftrightarrow> n = 0"
  by (simp add: bit_1_iff)

lemma and_one_nonzero: "x AND 1 \<noteq> 0 \<longleftrightarrow> bit x 0" for x :: "'a::len word"
  by (simp add: and_one_eq odd_iff_mod_2_eq_one bit_0)

lemma and_push_bit_one: "x AND push_bit n 1 \<noteq> 0 \<longleftrightarrow> bit x n" for x :: "'a::len word"
proof (cases "n < LENGTH('a)")
  case True
  have "x AND push_bit n 1 = (if bit x n then push_bit n 1 else 0)"
    using True by (intro bit_word_eqI) (auto simp: bit_simps)
  moreover have "push_bit n (1 :: 'a word) \<noteq> 0"
    using True by (auto simp: bit_eq_iff[where 'a = "'a word"] bit_simps)
  ultimately show ?thesis by simp
next
  case False
  then have "push_bit n (1 :: 'a word) = 0"
    by (intro bit_word_eqI) (auto simp: bit_simps)
  with False show ?thesis
    by (auto simp del: push_bit_of_1 dest: bit_imp_le_length)
qed

lemma bit_push_bit_one: "bit (push_bit n 1 :: 'a::len word) i \<longleftrightarrow> i = n \<and> i < LENGTH('a)"
  by (auto simp: bit_simps simp del: push_bit_of_1)

lemma word_and_not_or: "(x AND NOT m) OR m = x OR m" for x :: "'a::len word"
  by (rule bit_word_eqI) (auto simp: bit_simps)

lemma word_or_not_and: "(x OR m) AND NOT m = x AND NOT m" for x :: "'a::len word"
  by (rule bit_word_eqI) (auto simp: bit_simps)

lemma unat_min_word: "unat (min a b) = min (unat a) (unat b)" for a b :: "'a::len word"
  by (simp add: min_def word_le_nat_alt)

lemma word_add_diff_same: "(a + x) - (b + x) = a - b" for a b x :: "'a::len word"
  by simp

text \<open>Masks of low bits, as the truncations they are.\<close>

lemma and_low_mask:
  "x AND 0xf = take_bit 4 x" "x AND 0x1f = take_bit 5 x" "x AND 0x7f = take_bit 7 x"
  "x AND 0xff = take_bit 8 x" "x AND 0xffff = take_bit 16 x"
  for x :: "'a::len word"
  by (simp_all add: take_bit_eq_mask mask_eq_exp_minus_1)

text \<open>Truncation to a narrower word is a ring homomorphism.\<close>

lemma ucast_down_add:
  "LENGTH('b) \<le> LENGTH('a) \<Longrightarrow> (ucast (a + b :: 'a::len word) :: 'b::len word) = ucast a + ucast b"
  by transfer (metis min.absorb1 take_bit_add take_bit_take_bit)

lemma scast_down_ucast:
  "LENGTH('b) \<le> LENGTH('a) \<Longrightarrow> (ucast (scast (c :: 'b::len word) :: 'a::len word) :: 'b word) = c"
proof (rule bit_word_eqI)
  fix n assume "LENGTH('b) \<le> LENGTH('a)" "n < LENGTH('b)"
  then show "bit (ucast (scast c :: 'a word) :: 'b word) n = bit c n"
    by (cases "n = LENGTH('b) - 1") (auto simp: bit_simps min_def)
qed

lemma unat_ucast_up:
  assumes "LENGTH('a) \<le> LENGTH('b)"
  shows "unat (ucast (x :: 'a::len word) :: 'b::len word) = unat x"
proof -
  have "unat x < 2 ^ LENGTH('b)"
    using assms by (intro less_le_trans[OF unsigned_less]) simp
  then show ?thesis by (simp add: unsigned_ucast_eq take_bit_nat_eq_self)
qed

lemma unat_ucast_u32_u64 [simp]: "unat (ucast (x :: u32) :: u64) = unat x"
  by (simp add: unat_ucast_up)

lemma unat_push_bit_one:
  assumes "k < LENGTH('a)"
  shows "unat (push_bit k 1 :: 'a::len word) = 2 ^ k"
proof -
  have "unat (push_bit k 1 :: 'a word) = take_bit LENGTH('a) (push_bit k 1)"
    by (simp only: unsigned_push_bit_eq unsigned_1)
  also have "\<dots> = push_bit k 1"
    using assms by (simp add: take_bit_nat_eq_self)
  finally show ?thesis by simp
qed

lemma unat_take_bit_less: "unat (take_bit n w) < 2 ^ n" for w :: "'a::len word"
  by (simp only: unsigned_take_bit_eq) simp

lemma unat_take_bit_le: "unat (take_bit n w) \<le> unat w" for w :: "'a::len word"
  by (simp only: unsigned_take_bit_eq) simp

lemma take_bit_small: "unat y < 2 ^ k \<Longrightarrow> take_bit k y = y" for y :: "'a::len word"
proof (rule unsigned_word_eqI)
  assume "unat y < 2 ^ k"
  then show "unat (take_bit k y) = unat y"
    by (simp only: unsigned_take_bit_eq take_bit_nat_eq_self)
qed

lemma not_bit_small: "unat y < 2 ^ k \<Longrightarrow> k \<le> n \<Longrightarrow> \<not> bit y n" for y :: "'a::len word"
  by (metis bit_take_bit_iff not_le take_bit_small)

end
