(* ===== verification/Bitops.thy ===== *)
theory Bitops
  imports Prelude
begin

text \<open>
  The bit-field helpers of \<^verbatim>\<open>include/or1kiss/bitops.h\<close>. Every shift amount the source passes is a
  constant below 32, so the \<^verbatim>\<open>int\<close> indices are natural numbers here and the lemmas ask for
  indices below 32. The lemmas give each helper its reading as a statement about single bits.
\<close>

section \<open>Definitions\<close>

definition is_aligned :: "u32 \<Rightarrow> u32 \<Rightarrow> bool" where
  "is_aligned addr sz \<longleftrightarrow> addr AND (min sz 4 - 1) = 0"

definition mask32 :: "nat \<Rightarrow> nat \<Rightarrow> u32" where
  "mask32 l r = drop_bit (31 - l) (push_bit (32 - (l - r + 1)) (NOT 0))"

definition bits32 :: "u32 \<Rightarrow> nat \<Rightarrow> nat \<Rightarrow> u32" where
  "bits32 v l r = drop_bit (31 - l + r) (push_bit (31 - l) v)"

definition bit32 :: "u32 \<Rightarrow> nat \<Rightarrow> u32" where
  "bit32 v idx = drop_bit idx v AND 1"

definition sign_extend32 :: "u32 \<Rightarrow> nat \<Rightarrow> u32" where
  "sign_extend32 v i = signed_drop_bit (31 - i) (push_bit (31 - i) v)"

text \<open>The library's \<^verbatim>\<open>ffs\<close>: one plus the index of the lowest set bit, zero for zero.\<close>

definition ffs32 :: "u32 \<Rightarrow> u32" where
  "ffs32 v = (case List.find (bit v) [0..<32] of None \<Rightarrow> 0 | Some i \<Rightarrow> of_nat (i + 1))"

text \<open>The loop of \<^verbatim>\<open>fls32\<close> counts down from 31; the argument is the index plus one.\<close>

fun fls32_loop :: "u32 \<Rightarrow> nat \<Rightarrow> u32" where
  "fls32_loop v 0 = 0"
| "fls32_loop v (Suc i) =
     (if drop_bit i v AND 1 \<noteq> 0 then of_nat (i + 1) else fls32_loop v i)"

definition fls32 :: "u32 \<Rightarrow> u32" where
  "fls32 v = fls32_loop v 32"

section \<open>Fields\<close>

lemma bit_bits32 [bitfield_simps]:
  "r \<le> l \<Longrightarrow> l < 32 \<Longrightarrow> bit (bits32 v l r) n \<longleftrightarrow> n \<le> l - r \<and> bit v (n + r)"
  by (auto simp: bits32_def bit_simps add.commute[of r n])

lemma bits32_eq_take_bit:
  "r \<le> l \<Longrightarrow> l < 32 \<Longrightarrow> bits32 v l r = take_bit (l - r + 1) (drop_bit r v)"
  by (rule bit_eqI) (auto simp: bit_simps bitfield_simps add.commute)

lemma unat_bits32:
  assumes "r \<le> l" "l < 32"
  shows "unat (bits32 v l r) = unat v div 2 ^ r mod 2 ^ (l - r + 1)"
proof -
  have "unat (bits32 v l r) = take_bit (l - r + 1) (drop_bit r (unat v))"
    using assms by (simp only: bits32_eq_take_bit unsigned_take_bit_eq unsigned_drop_bit_eq)
      (simp add: take_bit_drop_bit)
  then show ?thesis by (simp only: take_bit_eq_mod drop_bit_eq_div)
qed

lemma unat_bits32_less:
  assumes "r \<le> l" "l < 32"
  shows "unat (bits32 v l r) < 2 ^ (l - r + 1)"
  by (simp only: unat_bits32[OF assms]) simp

lemma bit_mask32 [bitfield_simps]:
  assumes "r \<le> l" "l < 32"
  shows "bit (mask32 l r) n \<longleftrightarrow> r \<le> n \<and> n \<le> l"
proof -
  have "31 - l + n < 32 \<and> 31 - (l - r) \<le> 31 - l + n \<longleftrightarrow> r \<le> n \<and> n \<le> l"
    using assms by arith
  then show ?thesis
    using assms by (auto simp: mask32_def bit_simps)
qed

lemma bit_sign_extend32 [bitfield_simps]:
  assumes "i < 32"
  shows "bit (sign_extend32 v i) n \<longleftrightarrow> n < 32 \<and> bit v (min i n)"
proof (cases "n < i")
  case True
  with assms show ?thesis by (auto simp: sign_extend32_def bit_simps min_def)
next
  case False
  then have "n = i \<or> i < n" by arith
  with assms show ?thesis by (auto simp: sign_extend32_def bit_simps min_def)
qed

lemma sint_sign_extend32: "i < 32 \<Longrightarrow> sint (sign_extend32 v i) = signed_take_bit i (uint v)"
  by (rule bit_eqI)
    (auto simp: bit_simps bitfield_simps min_def dest: bit_imp_le_length)

lemma bit32_nonzero [simp]: "bit32 v i = 0 \<longleftrightarrow> \<not> bit v i"
  using and_one_nonzero[of "drop_bit i v"] by (auto simp: bit32_def bit_simps)

section \<open>Positions of set bits\<close>

lemma find_upt_Some:
  "List.find P [0..<n] = Some i \<longleftrightarrow> i < n \<and> P i \<and> (\<forall>j<i. \<not> P j)"
proof -
  have "[0..<n] ! k = k" if "k < n" for k
    using that by simp
  then show ?thesis
    by (auto simp: find_Some_iff)
qed

lemma find_upt_None: "List.find P [0..<n] = None \<longleftrightarrow> (\<forall>j<n. \<not> P j)"
  by (auto simp: find_None_iff)

lemma ffs32_cases:
  obtains "v = 0" "ffs32 v = 0"
  | i where "i < 32" "bit v i" "\<And>j. j < i \<Longrightarrow> \<not> bit v j" "ffs32 v = of_nat (i + 1)"
proof (cases "List.find (bit v) [0..<32]")
  case None
  then have "v = 0" by (intro bit_word_eqI) (auto simp: find_upt_None)
  with None that(1) show ?thesis by (simp add: ffs32_def)
next
  case (Some i)
  with that(2)[of i] show ?thesis by (auto simp: find_upt_Some ffs32_def)
qed

lemma drop_bit_and_one: "drop_bit i v AND 1 = 0 \<longleftrightarrow> \<not> bit v i" for v :: u32
  using bit32_nonzero[of v i] by (simp add: bit32_def)

lemma fls32_loop_cases:
  obtains "fls32_loop v n = 0" "\<And>j. j < n \<Longrightarrow> \<not> bit v j"
  | i where "i < n" "bit v i" "\<And>j. i < j \<Longrightarrow> j < n \<Longrightarrow> \<not> bit v j"
      "fls32_loop v n = of_nat (i + 1)"
proof (induction n arbitrary: thesis)
  case 0
  show ?case by (rule "0.prems"(1)) simp_all
next
  case (Suc n)
  show ?case
  proof (cases "bit v n")
    case True
    then have "fls32_loop v (Suc n) = of_nat (n + 1)" by (simp add: drop_bit_and_one)
    with True show ?thesis by (intro Suc.prems(2)[of n]) auto
  next
    case False
    then have step: "fls32_loop v (Suc n) = fls32_loop v n" by (simp add: drop_bit_and_one)
    show ?thesis
      by (rule Suc.IH) (use False step Suc.prems less_Suc_eq in metis)+
  qed
qed

lemma unat_of_nat_small32: "n < 33 \<Longrightarrow> unat (of_nat n :: u32) = n"
  by (simp add: unat_of_nat)

section \<open>Alignment\<close>

lemma is_aligned_byte [simp]: "is_aligned a 1"
  by (simp add: is_aligned_def)

lemma is_aligned_mask: "is_aligned a (2 ^ k) \<longleftrightarrow> take_bit k a = 0" if "k \<le> 2"
proof -
  have "k = 0 \<or> k = 1 \<or> k = 2" using that by arith
  then show ?thesis
    by (auto simp: is_aligned_def take_bit_eq_mask mask_eq_exp_minus_1)
qed

lemma is_aligned_word_iff: "is_aligned a 4 \<longleftrightarrow> 4 dvd unat a"
  using is_aligned_mask[of 2 a]
  by (simp add: take_bit_eq_mod unat_arith_simps(3) dvd_eq_mod_eq_0 unat_mod)

lemma is_aligned_half_iff: "is_aligned a 2 \<longleftrightarrow> 2 dvd unat a"
  using is_aligned_mask[of 1 a]
  by (simp add: take_bit_eq_mod unat_arith_simps(3) dvd_eq_mod_eq_0 unat_mod)

lemma is_aligned_double: "is_aligned a 8 = is_aligned a 4"
  by (simp add: is_aligned_def)

end
