(* ===== verification/Cache.thy ===== *)
theory Cache
  imports Prelude
begin

text \<open>
  The contract of a lookup cache, as the translation look-aside buffer and the cache of decoded
  instructions provide it, and what a client may conclude from it: a cache that agrees with the
  table it caches keeps agreeing while entries of the table are installed, and after an entry of the
  table has changed once the key has been invalidated.
\<close>

definition cache_agrees :: "('c \<Rightarrow> 'k \<Rightarrow> 'v option) \<Rightarrow> 'c \<Rightarrow> ('k \<Rightarrow> 'v option) \<Rightarrow> bool" where
  "cache_agrees lookup c src \<longleftrightarrow> (\<forall>k v. lookup c k = Some v \<longrightarrow> src k = Some v)"

locale lookup_cache =
  fixes wf :: "'c \<Rightarrow> bool" and lookup :: "'c \<Rightarrow> 'k \<Rightarrow> 'v option"
    and install :: "'k \<Rightarrow> 'v \<Rightarrow> 'c \<Rightarrow> 'c" and drop :: "'k \<Rightarrow> 'c \<Rightarrow> 'c"
    and storable :: "'k \<Rightarrow> 'v \<Rightarrow> bool"
  assumes install_wf: "wf c \<Longrightarrow> lookup c k = None \<Longrightarrow> storable k v \<Longrightarrow> wf (install k v c)"
    and drop_wf: "wf c \<Longrightarrow> wf (drop k c)"
    and lookup_install: "wf c \<Longrightarrow> lookup c k = None \<Longrightarrow> storable k v \<Longrightarrow>
      lookup (install k v c) k = Some v"
    and lookup_install_other: "wf c \<Longrightarrow> lookup c k = None \<Longrightarrow> storable k v \<Longrightarrow> j \<noteq> k \<Longrightarrow>
      lookup (install k v c) j = lookup c j \<or> lookup (install k v c) j = None"
    and lookup_drop: "wf c \<Longrightarrow> lookup (drop k c) k = None"
    and lookup_drop_other: "wf c \<Longrightarrow> j \<noteq> k \<Longrightarrow> lookup (drop k c) j = lookup c j"
begin

lemma agrees_install:
  assumes "wf c" "lookup c k = None" "storable k v" "src k = Some v" "cache_agrees lookup c src"
  shows "cache_agrees lookup (install k v c) src"
  unfolding cache_agrees_def
proof (intro allI impI)
  fix j w assume j: "lookup (install k v c) j = Some w"
  show "src j = Some w"
  proof (cases "j = k")
    case True
    with j lookup_install[OF assms(1-3)] assms(4) show ?thesis by simp
  next
    case False
    from lookup_install_other[OF assms(1-3) False] j have "lookup c j = Some w" by auto
    with assms(5) show ?thesis by (simp add: cache_agrees_def)
  qed
qed

lemma agrees_drop_update:
  assumes "wf c" "cache_agrees lookup c src"
  shows "cache_agrees lookup (drop k c) (src(k := x))"
  unfolding cache_agrees_def
proof (intro allI impI)
  fix j w assume j: "lookup (drop k c) j = Some w"
  then have "j \<noteq> k" using lookup_drop[OF assms(1)] by auto
  with j lookup_drop_other[OF assms(1)] assms(2) show "(src(k := x)) j = Some w"
    by (simp add: cache_agrees_def)
qed

end

end
