(* ===== verification/Insn.thy ===== *)
theory Insn
  imports Bitops Cache
begin

text \<open>
  Decoded instructions and their cache (\<^verbatim>\<open>include/or1kiss/insn.h\<close>, \<^verbatim>\<open>src/or1kiss/insn.cpp\<close>). A
  pointer to an \<^verbatim>\<open>execute_function\<close> is its name; the pointers \<^verbatim>\<open>dest\<close>, \<^verbatim>\<open>src1\<close> and \<^verbatim>\<open>src2\<close> point
  to a general purpose register, to the instruction's own immediate or nowhere. The cache is shown
  to be a \<open>lookup_cache\<close> from addresses to decoded instructions.
\<close>

section \<open>Instructions\<close>

text \<open>
  The execute functions, in the groups of the class declaration; those of the two floating-point
  instruction sets have the same names. \<open>X_null\<close> stands for the null and the indeterminate member
  pointer.
\<close>

datatype sys_exec =
    X_mfspr | X_mtspr | X_movhi | X_nop | X_sys | X_trap | X_csync | X_msync | X_psync
  | X_rfe
datatype jump_exec =
    X_bf | X_bnf | X_jump_rel | X_jump_abs
datatype mem_exec =
    X_lwa | X_lw | X_lhz | X_lhs | X_lbz | X_lbs | X_swa | X_sw | X_sh | X_sb
datatype alu_exec =
    X_extw | X_exthz | X_exths | X_extbz | X_extbs | X_add | X_addc | X_sub | X_and | X_or
  | X_xor | X_cmov | X_ff1 | X_fl1 | X_sll | X_srl | X_sra | X_ror
datatype muldiv_exec =
    X_mul | X_mulu | X_muld | X_muldu | X_div | X_divu
datatype compare_exec =
    X_sfeq | X_sfne | X_sfgtu | X_sfgeu | X_sfltu | X_sfleu | X_sfgts | X_sfges | X_sflts
  | X_sfles
datatype mac_exec =
    X_mac | X_macu | X_msb | X_msbu | X_macrc
datatype fpx_exec =
    F_add | F_sub | F_mul | F_div | F_rem | F_madd | F_itof | F_ftoi | F_sfeq | F_sfne
  | F_sfgt | F_sfge | F_sflt | F_sfle

datatype execute_function =
    X_null | X_sysgrp sys_exec | X_jump jump_exec | X_mem mem_exec | X_alu alu_exec
  | X_muldiv muldiv_exec | X_compare compare_exec | X_macgrp mac_exec
  | X_orfpx32 fpx_exec | X_orfpx64 fpx_exec

datatype operand = PNull | PGpr nat | PImm

record instruction =
  i_exec :: execute_function
  i_insn :: u32
  i_addr :: u32
  i_dest :: operand
  i_src1 :: operand
  i_src2 :: operand
  i_imm :: u32

text \<open>\<^verbatim>\<open>memset(&insn, 0, sizeof(insn))\<close> and the bytes \<^verbatim>\<open>0xff\<close> of \<^verbatim>\<open>invalidate_all\<close>.\<close>

definition zero_insn :: instruction where
  "zero_insn = \<lparr>i_exec = X_null, i_insn = 0, i_addr = 0, i_dest = PNull, i_src1 = PNull,
     i_src2 = PNull, i_imm = 0\<rparr>"

definition invalid_insn :: instruction where
  "invalid_insn = \<lparr>i_exec = X_null, i_insn = -1, i_addr = -1, i_dest = PNull, i_src1 = PNull,
     i_src2 = PNull, i_imm = -1\<rparr>"

section \<open>The decode cache\<close>

definition DECODE_CACHE_OFF :: nat where "DECODE_CACHE_OFF = 0"
definition DECODE_CACHE_SIZE_1K :: nat where "DECODE_CACHE_SIZE_1K = 10"
definition DECODE_CACHE_SIZE_8M :: nat where "DECODE_CACHE_SIZE_8M = 23"

text \<open>The array is a function of the index, of which only the indices below \<open>m_count\<close> are used.\<close>

record decode_cache =
  dc_size :: nat
  m_mask :: u32
  m_count :: u32
  m_cache :: "u32 \<Rightarrow> instruction"

definition dc_invalidate_all :: "decode_cache \<Rightarrow> decode_cache" where
  "dc_invalidate_all c = c\<lparr>m_cache := \<lambda>i. if i < m_count c then invalid_insn else m_cache c i\<rparr>"

definition new_decode_cache :: "nat \<Rightarrow> (u32 \<Rightarrow> instruction) \<Rightarrow> decode_cache" where
  "new_decode_cache sz block =
     dc_invalidate_all
       \<lparr>dc_size = sz, m_mask = push_bit sz 1 - 1, m_count = push_bit sz 1, m_cache = block\<rparr>"

text \<open>The function has the source's name and its meaning: it holds when the cache is off.\<close>

definition dc_is_enabled :: "decode_cache \<Rightarrow> bool" where
  "dc_is_enabled c \<longleftrightarrow> dc_size c = DECODE_CACHE_OFF"

definition dc_index :: "decode_cache \<Rightarrow> u32 \<Rightarrow> u32" where
  "dc_index c addr = drop_bit 2 addr AND m_mask c"

definition dc_lookup :: "u32 \<Rightarrow> decode_cache \<Rightarrow> instruction" where
  "dc_lookup addr c = m_cache c (dc_index c addr)"

definition dc_store :: "u32 \<Rightarrow> instruction \<Rightarrow> decode_cache \<Rightarrow> decode_cache" where
  "dc_store addr insn c = c\<lparr>m_cache := (m_cache c)(dc_index c addr := insn)\<rparr>"

definition dc_invalidate :: "u32 \<Rightarrow> decode_cache \<Rightarrow> decode_cache" where
  "dc_invalidate addr c =
     (let insn = dc_lookup addr c
      in if i_addr insn = addr then dc_store addr (insn\<lparr>i_addr := -1\<rparr>) c else c)"

fun dc_invalidate_loop :: "nat \<Rightarrow> u32 \<Rightarrow> u32 \<Rightarrow> decode_cache \<Rightarrow> decode_cache" where
  "dc_invalidate_loop 0 addr off c = c"
| "dc_invalidate_loop (Suc n) addr off c =
     dc_invalidate_loop n addr (off + 4) (dc_invalidate (addr + off) c)"

text \<open>
  The loop runs while \<^verbatim>\<open>off < size\<close>; its only caller passes 32. For a size within three of
  \<^verbatim>\<open>2^32\<close> the counter would wrap and the loop not end.
\<close>

definition dc_invalidate_block :: "u32 \<Rightarrow> u32 \<Rightarrow> decode_cache \<Rightarrow> decode_cache" where
  "dc_invalidate_block addr sz c = dc_invalidate_loop ((unat sz + 3) div 4) addr 0 c"

section \<open>The decode cache is a cache\<close>

text \<open>The test of \<^verbatim>\<open>or1k::fetch\<close> for a hit; the address \<^verbatim>\<open>~0\<close> marks empty slots.\<close>

definition dc_entry :: "decode_cache \<Rightarrow> u32 \<Rightarrow> instruction option" where
  "dc_entry c addr =
     (if i_addr (dc_lookup addr c) = addr \<and> addr \<noteq> -1 then Some (dc_lookup addr c) else None)"

definition dc_storable :: "u32 \<Rightarrow> instruction \<Rightarrow> bool" where
  "dc_storable addr insn \<longleftrightarrow> i_addr insn = addr \<and> addr \<noteq> -1"

lemma dc_index_store [simp]: "dc_index (dc_store a i c) b = dc_index c b"
  by (simp add: dc_index_def dc_store_def)

lemma dc_lookup_store:
  "dc_lookup b (dc_store a i c) = (if dc_index c b = dc_index c a then i else dc_lookup b c)"
  unfolding dc_lookup_def dc_index_store by (simp add: dc_store_def)

lemma dc_entry_invalidate:
  "dc_entry (dc_invalidate a c) b = (if b = a then None else dc_entry c b)"
proof (cases "i_addr (dc_lookup a c) = a")
  case False
  then show ?thesis by (auto simp: dc_entry_def dc_invalidate_def Let_def)
next
  case True
  show ?thesis
  proof (cases "dc_index c b = dc_index c a")
    case same: True
    then have "dc_lookup b c = dc_lookup a c" by (simp add: dc_lookup_def)
    with True same show ?thesis
      by (auto simp: dc_entry_def dc_invalidate_def Let_def dc_lookup_store)
  next
    case False
    with True show ?thesis
      by (auto simp: dc_entry_def dc_invalidate_def Let_def dc_lookup_store)
  qed
qed

interpretation dc: lookup_cache "\<lambda>_. True" dc_entry dc_store dc_invalidate dc_storable
proof
  fix c :: decode_cache and k v j
  assume n: "dc_entry c k = None" and s: "dc_storable k v"
  then show "dc_entry (dc_store k v c) k = Some v"
    by (simp add: dc_entry_def dc_storable_def dc_lookup_store)
  show "dc_entry (dc_store k v c) j = dc_entry c j \<or> dc_entry (dc_store k v c) j = None"
    if "j \<noteq> k"
    using s that by (cases "dc_index c j = dc_index c k")
      (auto simp: dc_entry_def dc_storable_def dc_lookup_store)
qed (simp_all add: dc_entry_invalidate)

lemma dc_index_less:
  assumes "dc_size c < 32" "m_mask c = push_bit (dc_size c) 1 - 1" "m_count c = push_bit (dc_size c) 1"
  shows "dc_index c addr < m_count c"
proof -
  have m: "m_mask c = mask (dc_size c)" using assms(2) by (simp add: mask_eq_exp_minus_1)
  have "unat (dc_index c addr) = unat (take_bit (dc_size c) (drop_bit 2 addr))"
    by (simp add: dc_index_def m take_bit_eq_mask)
  also have "\<dots> < 2 ^ dc_size c" by (rule unat_take_bit_less)
  also have "\<dots> = unat (m_count c)"
    unfolding assms(3) using assms(1) by (subst unat_push_bit_one) simp_all
  finally show ?thesis by (simp add: word_less_nat_alt)
qed

lemma new_decode_cache_empty:
  assumes "sz < 32"
  shows "dc_entry (new_decode_cache sz block) addr = None"
proof -
  let ?c = "new_decode_cache sz block"
  have "dc_index ?c addr < m_count ?c"
    using assms by (intro dc_index_less) (simp_all add: new_decode_cache_def dc_invalidate_all_def)
  then have "dc_lookup addr ?c = invalid_insn"
    by (simp add: dc_lookup_def new_decode_cache_def dc_invalidate_all_def)
  then show ?thesis by (simp add: dc_entry_def invalid_insn_def)
qed

lemma dc_entry_invalidate_loop:
  "dc_entry (dc_invalidate_loop n a off c) b =
     (if \<exists>k < n. b = a + off + of_nat (4 * k) then None else dc_entry c b)"
proof (induction n arbitrary: off c)
  case (Suc n)
  have iff: "(\<exists>k < Suc n. b = a + off + of_nat (4 * k)) \<longleftrightarrow>
      b = a + off \<or> (\<exists>k < n. b = a + (off + 4) + of_nat (4 * k))"
    by (auto simp: less_Suc_eq_0_disj algebra_simps)
  show ?case unfolding dc_invalidate_loop.simps Suc dc_entry_invalidate iff
    by (cases "b = a + off") auto
qed simp

text \<open>C16: Invalidation and the cached code. A decode cache whose entries agree with the instructions
  of memory still agrees with them after any one of them has changed and its block has been
  invalidated; entries outside the block survive.\<close>

theorem invalidate_block_coherent:
  assumes "cache_agrees dc_entry c code" "k < (unat sz + 3) div 4"
  shows "cache_agrees dc_entry (dc_invalidate_block a sz c) (code(a + of_nat (4 * k) := x)) \<and>
    (\<forall>b. (\<forall>j < (unat sz + 3) div 4. b \<noteq> a + of_nat (4 * j)) \<longrightarrow>
       dc_entry (dc_invalidate_block a sz c) b = dc_entry c b)"
  using assms by (auto simp: cache_agrees_def dc_invalidate_block_def dc_entry_invalidate_loop)

theorem invalidate_block_coherent_witness:
  "cache_agrees dc_entry (dc_invalidate_block 0x100 32 (new_decode_cache 10 (\<lambda>_. zero_insn)))
     ((\<lambda>_. None)(0x104 := Some zero_insn))"
  using invalidate_block_coherent[of "new_decode_cache 10 (\<lambda>_. zero_insn)" "\<lambda>_. None" 1 32 "0x100"
      "Some zero_insn"]
  by (simp add: cache_agrees_def new_decode_cache_empty)

end
