(* ===== verification/Endian.thy ===== *)
theory Endian
  imports Bitops
begin

text \<open>
  Byte order (\<^verbatim>\<open>include/or1kiss/endian.h\<close>). Objects that the source accesses through pointers of
  several types are byte lists; \<open>le_bytes\<close> is the host's representation of an integer, that of
  a little-endian host, the only one the supported builds run on. The test \<^verbatim>\<open>host_endian\<close> is
  translated over that representation, so its answer is a lemma.
\<close>

section \<open>Host representation of integers\<close>

definition le_bytes :: "nat \<Rightarrow> 'a::len word \<Rightarrow> u8 list" where
  "le_bytes n w = map (\<lambda>i. ucast (drop_bit (8 * i) w)) [0..<n]"

fun of_le_bytes :: "u8 list \<Rightarrow> 'a::len word" where
  "of_le_bytes [] = 0"
| "of_le_bytes (b # bs) = ucast b OR push_bit 8 (of_le_bytes bs)"

lemma length_le_bytes [simp]: "length (le_bytes n w) = n"
  by (simp add: le_bytes_def)

lemma le_bytes_Suc: "le_bytes (Suc n) w = ucast w # le_bytes n (drop_bit 8 w)"
  by (simp add: le_bytes_def upt_rec[of 0] map_Suc_upt[symmetric] comp_def add.commute
      del: upt_Suc map_Suc_upt)

lemma nth_le_bytes: "i < n \<Longrightarrow> le_bytes n w ! i = ucast (drop_bit (8 * i) w)"
  by (simp add: le_bytes_def)

lemma of_le_bytes_le_bytes: "of_le_bytes (le_bytes n w) = take_bit (8 * n) w"
proof (induction n arbitrary: w)
  case 0
  show ?case by (simp add: le_bytes_def)
next
  case (Suc n)
  show ?case
    by (rule bit_word_eqI)
      (auto simp: le_bytes_Suc Suc.IH bit_simps)
qed

lemma of_le_bytes_le_bytes_word [simp]:
  "LENGTH('a) \<le> 8 * n \<Longrightarrow> of_le_bytes (le_bytes n (w :: 'a::len word)) = w"
  by (simp add: of_le_bytes_le_bytes take_bit_word_beyond_length_eq)

lemma bit_of_le_bytes:
  "bit (of_le_bytes bs :: 'a::len word) i \<longleftrightarrow>
     i < LENGTH('a) \<and> i div 8 < length bs \<and> bit (bs ! (i div 8)) (i mod 8)"
proof (induction bs arbitrary: i)
  case Nil
  show ?case by simp
next
  case (Cons b bs)
  show ?case
  proof (cases "i < 8")
    case True
    then show ?thesis by (auto simp: bit_simps)
  next
    case False
    then have "i div 8 = Suc ((i - 8) div 8)" "i mod 8 = (i - 8) mod 8"
      by (simp_all add: le_div_geq le_mod_geq)
    with False show ?thesis
      by (auto simp: bit_simps Cons.IH dest: bit_imp_le_length)
  qed
qed

lemma le_bytes_of_le_bytes:
  assumes "8 * length bs \<le> LENGTH('a)"
  shows "le_bytes (length bs) (of_le_bytes bs :: 'a::len word) = bs"
proof (rule nth_equalityI)
  fix i assume "i < length (le_bytes (length bs) (of_le_bytes bs :: 'a word))"
  then have i: "i < length bs" by simp
  show "le_bytes (length bs) (of_le_bytes bs :: 'a word) ! i = bs ! i"
  proof (rule bit_word_eqI)
    fix n assume "n < LENGTH(8)"
    then have "n < 8" by simp
    moreover from this i assms have "8 * i + n < LENGTH('a)" by simp
    ultimately show "bit (le_bytes (length bs) (of_le_bytes bs :: 'a word) ! i) n = bit (bs ! i) n"
      using i by (simp add: nth_le_bytes bit_simps bit_of_le_bytes)
  qed
qed simp

section \<open>Byte order\<close>

datatype endian = ENDIAN_LITTLE | ENDIAN_BIG | ENDIAN_UNKNOWN

definition host_endian :: endian where
  "host_endian =
     (let p = le_bytes 4 (1 :: u32)
      in if p ! 0 = 1 then ENDIAN_LITTLE else if p ! 3 = 1 then ENDIAN_BIG else ENDIAN_UNKNOWN)"

lemma host_endian_little [simp]: "host_endian = ENDIAN_LITTLE"
  by (simp add: host_endian_def nth_le_bytes)

text \<open>The compiler's \<^verbatim>\<open>__bswap_16/32/64\<close>, as the shifts and masks they stand for.\<close>

definition byte_swap16 :: "u16 \<Rightarrow> u16" where
  "byte_swap16 x = (drop_bit 8 x AND 0xff) OR push_bit 8 (x AND 0xff)"

definition byte_swap32 :: "u32 \<Rightarrow> u32" where
  "byte_swap32 x = drop_bit 24 (x AND 0xff000000) OR drop_bit 8 (x AND 0x00ff0000)
     OR push_bit 8 (x AND 0x0000ff00) OR push_bit 24 (x AND 0x000000ff)"

definition byte_swap64 :: "u64 \<Rightarrow> u64" where
  "byte_swap64 x = drop_bit 56 (x AND 0xff00000000000000) OR drop_bit 40 (x AND 0x00ff000000000000)
     OR drop_bit 24 (x AND 0x0000ff0000000000) OR drop_bit 8 (x AND 0x000000ff00000000)
     OR push_bit 8 (x AND 0x00000000ff000000) OR push_bit 24 (x AND 0x0000000000ff0000)
     OR push_bit 40 (x AND 0x000000000000ff00) OR push_bit 56 (x AND 0x00000000000000ff)"

text \<open>
  \<^verbatim>\<open>memcpyswp(to, from, size)\<close>: the object behind \<^verbatim>\<open>to\<close> afterwards. The four fixed sizes swap one
  integer, every other size swaps 32-bit groups while more than three bytes are left and does
  not touch the rest of \<^verbatim>\<open>to\<close>.
\<close>

fun swap_groups :: "u8 list \<Rightarrow> u8 list \<Rightarrow> nat \<Rightarrow> u8 list" where
  "swap_groups dst src sz =
     (if sz > 3
      then le_bytes 4 (byte_swap32 (of_le_bytes (take 4 src)))
             @ swap_groups (drop 4 dst) (drop 4 src) (sz - 4)
      else dst)"

declare swap_groups.simps [simp del]

definition memcpyswp :: "u8 list \<Rightarrow> u8 list \<Rightarrow> nat \<Rightarrow> u8 list" where
  "memcpyswp dst src sz =
     (if sz = 1 then take 1 src @ drop 1 dst
      else if sz = 2 then le_bytes 2 (byte_swap16 (of_le_bytes (take 2 src))) @ drop 2 dst
      else if sz = 4 then le_bytes 4 (byte_swap32 (of_le_bytes (take 4 src))) @ drop 4 dst
      else if sz = 8 then le_bytes 8 (byte_swap64 (of_le_bytes (take 8 src))) @ drop 8 dst
      else swap_groups dst src sz)"

section \<open>Swapping is byte reversal\<close>

lemma swap_masks16: "(0xff :: u16) = push_bit 0 (mask 8)"
  by (simp add: mask_eq_exp_minus_1)

lemma swap_masks32:
  "(0xff000000 :: u32) = push_bit 24 (mask 8)" "(0x00ff0000 :: u32) = push_bit 16 (mask 8)"
  "(0x0000ff00 :: u32) = push_bit 8 (mask 8)" "(0x000000ff :: u32) = push_bit 0 (mask 8)"
  by (simp_all add: mask_eq_exp_minus_1)

lemma swap_masks64:
  "(0xff00000000000000 :: u64) = push_bit 56 (mask 8)"
  "(0x00ff000000000000 :: u64) = push_bit 48 (mask 8)"
  "(0x0000ff0000000000 :: u64) = push_bit 40 (mask 8)"
  "(0x000000ff00000000 :: u64) = push_bit 32 (mask 8)"
  "(0x00000000ff000000 :: u64) = push_bit 24 (mask 8)"
  "(0x0000000000ff0000 :: u64) = push_bit 16 (mask 8)"
  "(0x000000000000ff00 :: u64) = push_bit 8 (mask 8)"
  "(0x00000000000000ff :: u64) = push_bit 0 (mask 8)"
  by (simp_all add: mask_eq_exp_minus_1)

lemma bit_byte_swap16:
  assumes "q < 2" "k < 8"
  shows "bit (byte_swap16 x) (8 * q + k) \<longleftrightarrow> bit x (8 * (1 - q) + k)"
proof -
  from assms(1) have "q = 0 \<or> q = 1" by arith
  with assms(2) show ?thesis
    by (elim disjE) (simp_all add: byte_swap16_def swap_masks16 bit_simps)
qed

lemma bit_byte_swap32:
  assumes "q < 4" "k < 8"
  shows "bit (byte_swap32 x) (8 * q + k) \<longleftrightarrow> bit x (8 * (3 - q) + k)"
proof -
  from assms(1) have "q = 0 \<or> q = 1 \<or> q = 2 \<or> q = 3" by arith
  with assms(2) show ?thesis
    by (elim disjE) (simp_all add: byte_swap32_def swap_masks32 bit_simps)
qed

lemma bit_byte_swap64:
  assumes "q < 8" "k < 8"
  shows "bit (byte_swap64 x) (8 * q + k) \<longleftrightarrow> bit x (8 * (7 - q) + k)"
proof -
  from assms(1) have "q = 0 \<or> q = 1 \<or> q = 2 \<or> q = 3 \<or> q = 4 \<or> q = 5 \<or> q = 6 \<or> q = 7" by arith
  with assms(2) show ?thesis
    by (elim disjE) (simp_all add: byte_swap64_def swap_masks64 bit_simps)
qed

lemma le_bytes_eqI:
  assumes "\<And>q k. q < n \<Longrightarrow> k < 8 \<Longrightarrow> bit w (8 * q + k) \<longleftrightarrow> bit x (8 * (n - 1 - q) + k)"
  shows "le_bytes n w = rev (le_bytes n x)"
proof (rule nth_equalityI)
  fix i assume "i < length (le_bytes n w)"
  then have i: "i < n" by simp
  then have "rev (le_bytes n x) ! i = le_bytes n x ! (n - 1 - i)"
    by (simp add: rev_nth Suc_diff_Suc)
  also have "\<dots> = ucast (drop_bit (8 * (n - 1 - i)) x)"
    using i by (simp add: nth_le_bytes)
  finally show "le_bytes n w ! i = rev (le_bytes n x) ! i"
    using i assms by (auto simp: nth_le_bytes bit_simps intro: bit_word_eqI)
qed simp

lemma le_bytes_byte_swap:
  "le_bytes 2 (byte_swap16 x) = rev (le_bytes 2 x)"
  "le_bytes 4 (byte_swap32 y) = rev (le_bytes 4 y)"
  "le_bytes 8 (byte_swap64 z) = rev (le_bytes 8 z)"
  by (rule le_bytes_eqI; simp add: bit_byte_swap16 bit_byte_swap32 bit_byte_swap64)+

lemma byte_swap_bytes:
  assumes "length bs = n"
  shows "n = 2 \<Longrightarrow> le_bytes 2 (byte_swap16 (of_le_bytes bs)) = rev bs"
    and "n = 4 \<Longrightarrow> le_bytes 4 (byte_swap32 (of_le_bytes bs)) = rev bs"
    and "n = 8 \<Longrightarrow> le_bytes 8 (byte_swap64 (of_le_bytes bs)) = rev bs"
  using assms
    le_bytes_of_le_bytes[of bs, where 'a = 16] le_bytes_of_le_bytes[of bs, where 'a = 32]
    le_bytes_of_le_bytes[of bs, where 'a = 64]
  by (simp_all add: le_bytes_byte_swap)

lemma le_bytes_inject:
  "LENGTH('a) \<le> 8 * n \<Longrightarrow> le_bytes n (x :: 'a::len word) = le_bytes n y \<longleftrightarrow> x = y"
  by (metis of_le_bytes_le_bytes_word)

lemma byte_swap_involutive:
  "byte_swap16 (byte_swap16 x) = x"
  "byte_swap32 (byte_swap32 y) = y"
  "byte_swap64 (byte_swap64 z) = z"
  using le_bytes_inject[of 2 "byte_swap16 (byte_swap16 x)" x]
    le_bytes_inject[of 4 "byte_swap32 (byte_swap32 y)" y]
    le_bytes_inject[of 8 "byte_swap64 (byte_swap64 z)" z]
  by (simp_all add: le_bytes_byte_swap)

section \<open>Copying with a swap\<close>

lemma length_swap_groups: "sz \<le> length dst \<Longrightarrow> length (swap_groups dst src sz) = length dst"
proof (induction dst src sz rule: swap_groups.induct)
  case (1 dst src sz)
  then show ?case by (auto simp: swap_groups.simps[of dst src sz])
qed

lemma length_memcpyswp [simp]:
  "sz \<le> length dst \<Longrightarrow> sz \<le> length src \<Longrightarrow> length (memcpyswp dst src sz) = length dst"
  by (auto simp: memcpyswp_def length_swap_groups)

lemma rev_take_1: "rev (take (Suc 0) xs) = take (Suc 0) xs"
  by (cases xs) simp_all

lemma memcpyswp_basic:
  assumes "sz \<in> {1, 2, 4, 8}" "sz \<le> length src"
  shows "memcpyswp dst src sz = rev (take sz src) @ drop sz dst"
proof -
  have l: "length (take sz src) = sz" using assms(2) by simp
  from assms(1) show ?thesis
    by (elim insertE emptyE; hypsubst)
      (use byte_swap_bytes[OF l] in \<open>simp_all add: memcpyswp_def rev_take_1\<close>)
qed

lemma swap_groups_twice:
  "length src = sz \<Longrightarrow> length dst = sz \<Longrightarrow> swap_groups src (swap_groups dst src sz) sz = src"
proof (induction dst src sz rule: swap_groups.induct)
  case (1 dst src sz)
  show ?case
  proof (cases "sz > 3")
    case True
    let ?g = "le_bytes 4 (byte_swap32 (of_le_bytes (take 4 src)))"
    let ?t = "swap_groups (drop 4 dst) (drop 4 src) (sz - 4)"
    have t4: "length (take 4 src) = 4" using True "1.prems" by simp
    have IH: "swap_groups (drop 4 src) ?t (sz - 4) = drop 4 src"
      using True "1.prems" by (intro "1.IH") simp_all
    have "swap_groups src (?g @ ?t) sz
        = le_bytes 4 (byte_swap32 (of_le_bytes ?g)) @ swap_groups (drop 4 src) ?t (sz - 4)"
      using True by (simp add: swap_groups.simps[of src])
    also have "\<dots> = take 4 src @ drop 4 src"
      using t4 le_bytes_of_le_bytes[of "take 4 src", where 'a = 32]
      by (simp add: IH byte_swap_involutive)
    finally show ?thesis
      using True by (simp add: swap_groups.simps[of dst])
  next
    case False
    then show ?thesis by (simp add: swap_groups.simps)
  qed
qed

text \<open>
  Converting to the other byte order and back leaves a buffer as it was, for every size: the
  bytes of an incomplete last group are never written, and \<^verbatim>\<open>to\<close> is the original buffer on the
  way back.
\<close>

lemma memcpyswp_twice:
  assumes "length src = sz" "length dst = sz"
  shows "memcpyswp src (memcpyswp dst src sz) sz = src"
proof (cases "sz \<in> {1, 2, 4, 8}")
  case True
  with assms show ?thesis by (simp add: memcpyswp_basic)
next
  case False
  with assms show ?thesis by (simp add: memcpyswp_def swap_groups_twice)
qed

end
