(* ===== verification/Env.thy ===== *)
theory Env
  imports Endian
begin

text \<open>
  Memory requests and the port between the simulator and its environment
  (\<^verbatim>\<open>include/or1kiss/env.h\<close>, \<^verbatim>\<open>src/or1kiss/env.cpp\<close>). Host memory is one partial map from host
  addresses to bytes, so that the data pointer and the instruction pointer of an environment may
  alias, as they do in the standalone simulator; an access outside it is a host fault. The pure
  virtual \<^verbatim>\<open>env::transact\<close>, \<^verbatim>\<open>env::sleep\<close> and the contents of a fresh \<^verbatim>\<open>malloc\<close> block come from a
  \<open>env_vtable\<close>, a parameter of every definition that reaches them.
\<close>

section \<open>Host memory\<close>

type_synonym hmem = "nat \<Rightarrow> u8 option"

definition load_bytes :: "hmem \<Rightarrow> nat \<Rightarrow> nat \<Rightarrow> u8 list res" where
  "load_bytes m p n = mapE (\<lambda>a. requireE Host_fault (m a)) [p..<p + n]"

definition allocated :: "hmem \<Rightarrow> nat \<Rightarrow> nat \<Rightarrow> bool" where
  "allocated m p n \<longleftrightarrow> list_all (\<lambda>a. m a \<noteq> None) [p..<p + n]"

definition store_bytes :: "hmem \<Rightarrow> nat \<Rightarrow> u8 list \<Rightarrow> hmem res" where
  "store_bytes m p bs =
     (if allocated m p (length bs)
      then Inr (\<lambda>a. if p \<le> a \<and> a < p + length bs then Some (bs ! (a - p)) else m a)
      else Inl Host_fault)"

lemma allocated_iff: "allocated m p n \<longleftrightarrow> (\<forall>a. p \<le> a \<and> a < p + n \<longrightarrow> m a \<noteq> None)"
  by (auto simp: allocated_def list_all_iff)

lemma load_bytes_allocated:
  "allocated m p n \<Longrightarrow> load_bytes m p n = Inr (map (\<lambda>a. the (m a)) [p..<p + n])"
  unfolding load_bytes_def
  by (rule mapE_total) (auto simp: allocated_iff requireE_eq_Inr)

lemma mapE_requireE_Inr:
  "mapE (\<lambda>a. requireE e (m a)) xs = Inr ys \<Longrightarrow> x \<in> set xs \<Longrightarrow> m x \<noteq> None"
  by (induction xs arbitrary: ys) (auto simp: bindE_eq_Inr requireE_eq_Inr)

lemma load_bytes_Inr:
  "load_bytes m p n = Inr bs \<longleftrightarrow> allocated m p n \<and> bs = map (\<lambda>a. the (m a)) [p..<p + n]"
proof
  assume l: "load_bytes m p n = Inr bs"
  then have "allocated m p n"
    by (auto simp: load_bytes_def allocated_iff dest: mapE_requireE_Inr)
  with l show "allocated m p n \<and> bs = map (\<lambda>a. the (m a)) [p..<p + n]"
    by (simp add: load_bytes_allocated)
qed (simp add: load_bytes_allocated)

lemma length_load_bytes: "load_bytes m p n = Inr bs \<Longrightarrow> length bs = n"
  by (auto simp: load_bytes_Inr)

lemma load_store_same:
  "store_bytes m p bs = Inr m' \<Longrightarrow> load_bytes m' p (length bs) = Inr bs"
  by (auto simp: store_bytes_def load_bytes_Inr allocated_iff intro!: nth_equalityI split: if_splits)

lemma allocated_store_bytes:
  "store_bytes m p bs = Inr m' \<Longrightarrow> allocated m' q n = allocated m q n"
  by (auto simp: store_bytes_def allocated_iff split: if_splits)

lemma load_store_disjoint:
  assumes "store_bytes m p bs = Inr m'" "q + n \<le> p \<or> p + length bs \<le> q"
  shows "load_bytes m' q n = load_bytes m q n"
proof -
  have "m' a = m a" if "a \<in> set [q..<q + n]" for a
    using assms that by (auto simp: store_bytes_def split: if_splits)
  then show ?thesis by (auto simp: load_bytes_def intro!: mapE_cong)
qed

section \<open>Requests\<close>

datatype response = RESP_SUCCESS | RESP_FAILED | RESP_ERROR

definition SIZE_BYTE :: u32 where "SIZE_BYTE = 1"
definition SIZE_HALFWORD :: u32 where "SIZE_HALFWORD = 2"
definition SIZE_WORD :: u32 where "SIZE_WORD = 4"
definition SIZE_DOUBLEWORD :: u32 where "SIZE_DOUBLEWORD = 8"

lemmas word_size_simps [simp] =
  SIZE_BYTE_def SIZE_HALFWORD_def SIZE_WORD_def SIZE_DOUBLEWORD_def

text \<open>
  The object behind \<^verbatim>\<open>void* data\<close> is the byte list \<open>req_data\<close>, which may be longer than the
  access: a byte load into a register sees the register's four bytes.
\<close>

record request =
  m_read :: bool
  m_imem :: bool
  m_excl :: bool
  m_super :: bool
  m_debug :: bool
  m_cache_coherent :: bool
  m_cache_inhibit :: bool
  m_cache_writeback :: bool
  m_weakly_ordered :: bool
  req_endian :: endian
  req_cycles :: u64
  req_addr :: u32
  req_data :: "u8 list"
  req_size :: u32

text \<open>The constructor \<^verbatim>\<open>request::request()\<close>.\<close>

definition new_request :: request where
  "new_request =
     \<lparr>m_read = False, m_imem = False, m_excl = False, m_super = False, m_debug = False,
      m_cache_coherent = False, m_cache_inhibit = False, m_cache_writeback = False,
      m_weakly_ordered = False, req_endian = host_endian, req_cycles = 0, req_addr = 0,
      req_data = [], req_size = 0\<rparr>"

definition is_write :: "request \<Rightarrow> bool" where
  "is_write req \<longleftrightarrow> \<not> m_read req"

definition is_dmem :: "request \<Rightarrow> bool" where
  "is_dmem req \<longleftrightarrow> \<not> m_imem req"

definition req_is_aligned :: "request \<Rightarrow> bool" where
  "req_is_aligned req = is_aligned (req_addr req) (req_size req)"

definition set_addr_and_data :: "request \<Rightarrow> u32 \<Rightarrow> u8 list \<Rightarrow> request" where
  "set_addr_and_data req tx_addr tx_data =
     req\<lparr>req_addr := tx_addr, req_data := tx_data, req_size := of_nat (length tx_data)\<rparr>"

section \<open>The environment\<close>

text \<open>Pointers are host addresses, a null pointer is \<open>None\<close>.\<close>

record env =
  env_endian :: endian
  m_data_ptr :: "nat option"
  m_data_start :: u32
  m_data_end :: u32
  m_data_cycles :: u64
  m_insn_ptr :: "nat option"
  m_insn_start :: u32
  m_insn_end :: u32
  m_insn_cycles :: u64
  m_excl_addr :: u32
  m_excl_data :: u32
  host_mem :: hmem

record env_vtable =
  vt_transact :: "request \<Rightarrow> env \<Rightarrow> (response \<times> u64 \<times> u8 list \<times> env) res"
  vt_sleep :: "u64 \<Rightarrow> env \<Rightarrow> u64 \<times> env"
  vt_malloc :: "nat \<Rightarrow> u8"

text \<open>The constructor \<^verbatim>\<open>env::env(endian)\<close>, on a given host memory.\<close>

definition new_env :: "endian \<Rightarrow> hmem \<Rightarrow> env" where
  "new_env e m =
     \<lparr>env_endian = e, m_data_ptr = None, m_data_start = 0, m_data_end = 0, m_data_cycles = 0,
      m_insn_ptr = None, m_insn_start = 0, m_insn_end = 0, m_insn_cycles = 0,
      m_excl_addr = -1, m_excl_data = 0, host_mem = m\<rparr>"

definition set_data_ptr :: "nat option \<Rightarrow> u32 \<Rightarrow> u32 \<Rightarrow> u64 \<Rightarrow> env \<Rightarrow> env res" where
  "set_data_ptr ptr start stop cyc e =
     (if stop < start then Inl (Invalid_range start stop)
      else Inr (e\<lparr>m_data_ptr := ptr, m_data_start := start, m_data_end := stop,
                  m_data_cycles := cyc\<rparr>))"

definition set_insn_ptr :: "nat option \<Rightarrow> u32 \<Rightarrow> u32 \<Rightarrow> u64 \<Rightarrow> env \<Rightarrow> env res" where
  "set_insn_ptr ptr start stop cyc e =
     (if stop < start then Inl (Invalid_range start stop)
      else Inr (e\<lparr>m_insn_ptr := ptr, m_insn_start := start, m_insn_end := stop,
                  m_insn_cycles := cyc\<rparr>))"

definition get_data_ptr :: "env \<Rightarrow> u32 \<Rightarrow> nat option" where
  "get_data_ptr e addr =
     (case m_data_ptr e of
        None \<Rightarrow> None
      | Some p \<Rightarrow>
          if addr < m_data_start e \<or> m_data_end e < addr then None
          else Some (p + unat addr - unat (m_data_start e)))"

definition get_insn_ptr :: "env \<Rightarrow> u32 \<Rightarrow> nat option" where
  "get_insn_ptr e addr =
     (case m_insn_ptr e of
        None \<Rightarrow> None
      | Some p \<Rightarrow>
          if addr < m_insn_start e \<or> m_insn_end e < addr then None
          else Some (p + unat addr - unat (m_insn_start e)))"

definition direct_memory_ptr :: "request \<Rightarrow> env \<Rightarrow> request \<times> nat option" where
  "direct_memory_ptr req e =
     (if is_dmem req
      then (req\<lparr>req_cycles := req_cycles req + m_data_cycles e\<rparr>, get_data_ptr e (req_addr req))
      else (req\<lparr>req_cycles := req_cycles req + m_insn_cycles e\<rparr>, get_insn_ptr e (req_addr req)))"

text \<open>\<^verbatim>\<open>memcpy\<close> of the request's size from and to host memory.\<close>

definition read_into :: "nat \<Rightarrow> request \<Rightarrow> env \<Rightarrow> request res" where
  "read_into ptr req e =
     bindE (load_bytes (host_mem e) ptr (unat (req_size req))) (\<lambda>bs.
     Inr (req\<lparr>req_data := bs @ drop (unat (req_size req)) (req_data req)\<rparr>))"

definition write_from :: "nat \<Rightarrow> request \<Rightarrow> env \<Rightarrow> env res" where
  "write_from ptr req e =
     bindE (store_bytes (host_mem e) ptr (take (unat (req_size req)) (req_data req))) (\<lambda>m.
     Inr (e\<lparr>host_mem := m\<rparr>))"

text \<open>\<^verbatim>\<open>utils.h: cas\<close>, the compare-and-swap of one aligned \<^verbatim>\<open>u32\<close> in host memory.\<close>

definition cas :: "nat \<Rightarrow> u32 \<Rightarrow> u32 \<Rightarrow> hmem \<Rightarrow> (bool \<times> hmem) res" where
  "cas ptr oldval newval m =
     bindE (load_bytes m ptr 4) (\<lambda>bs.
     if of_le_bytes bs = oldval
     then bindE (store_bytes m ptr (le_bytes 4 newval)) (\<lambda>m'. Inr (True, m'))
     else Inr (False, m))"

text \<open>
  \<^verbatim>\<open>env::exclusive_access\<close>. The reservation holds one \<^verbatim>\<open>u32\<close>: a read of more than four bytes
  overflows it, and a write reads four bytes of the buffer whatever the request's size.
\<close>

definition exclusive_access ::
  "nat \<Rightarrow> request \<Rightarrow> env \<Rightarrow> (response \<times> request \<times> env) res" where
  "exclusive_access ptr req e =
     (if m_read req
      then bindE (read_into ptr req e) (\<lambda>req'.
           bindE (assertE (unat (req_size req) \<le> 4) Host_fault) (\<lambda>_.
           Inr (RESP_SUCCESS, req',
                e\<lparr>m_excl_addr := req_addr req,
                  m_excl_data :=
                    of_le_bytes (take (unat (req_size req)) (req_data req')
                      @ drop (unat (req_size req)) (le_bytes 4 (m_excl_data e)))\<rparr>)))
      else if req_addr req \<noteq> m_excl_addr e then Inr (RESP_FAILED, req, e)
      else bindE (assertE (4 \<le> length (req_data req)) Host_fault) (\<lambda>_.
           bindE (cas ptr (m_excl_data e) (of_le_bytes (take 4 (req_data req))) (host_mem e))
             (\<lambda>(ok, m).
           Inr (if ok then (RESP_SUCCESS, req, e\<lparr>host_mem := m\<rparr>) else (RESP_FAILED, req, e)))))"

definition malloc_block :: "env_vtable \<Rightarrow> nat \<Rightarrow> u8 list" where
  "malloc_block vt n = map (vt_malloc vt) [0..<n]"

definition conversion_necessary :: "request \<Rightarrow> env \<Rightarrow> bool" where
  "conversion_necessary req e \<longleftrightarrow> 1 < req_size req \<and> req_endian req \<noteq> env_endian e"

text \<open>
  The transfer between the two conversions of \<^verbatim>\<open>env::convert_and_transact\<close>. The request is passed
  to \<^verbatim>\<open>transact\<close> as \<^verbatim>\<open>const\<close>: only its mutable \<^verbatim>\<open>cycles\<close> and the bytes behind \<^verbatim>\<open>data\<close> come back.
\<close>

definition send_request ::
  "env_vtable \<Rightarrow> request \<Rightarrow> env \<Rightarrow> (response \<times> request \<times> env) res" where
  "send_request vt req0 e =
     (case direct_memory_ptr req0 e of
        (req, Some ptr) \<Rightarrow>
          let req = req\<lparr>req_cycles := req_cycles req + m_data_cycles e\<rparr>
          in if m_excl req then exclusive_access ptr req e
             else if m_read req
               then bindE (read_into ptr req e) (\<lambda>req'. Inr (RESP_SUCCESS, req', e))
             else bindE (write_from ptr req e) (\<lambda>e'. Inr (RESP_SUCCESS, req, e'))
      | (req, None) \<Rightarrow>
          bindE (vt_transact vt (req\<lparr>req_endian := env_endian e\<rparr>) e) (\<lambda>(resp, cyc, dat, e').
          Inr (resp, req\<lparr>req_cycles := cyc, req_data := dat\<rparr>, e')))"

text \<open>
  \<^verbatim>\<open>env::convert_and_transact\<close>. Callers pass a buffer of at least the request's size; anything
  shorter is an overrun of the host. Converted data goes through \<^verbatim>\<open>buf\<close>, eight zero bytes, or
  through a fresh block when it is longer.
\<close>

definition convert_and_transact ::
  "env_vtable \<Rightarrow> request \<Rightarrow> env \<Rightarrow> (response \<times> request \<times> env) res" where
  "convert_and_transact vt req e =
     (let org = req_data req;
          sz = unat (req_size req);
          conv = conversion_necessary req e;
          tmp = (if sz > 8 then malloc_block vt sz else replicate 8 0)
      in bindE (assertE (sz \<le> length org) Host_fault) (\<lambda>_.
         bindE (send_request vt (if conv then req\<lparr>req_data := memcpyswp tmp org sz\<rparr> else req) e)
           (\<lambda>(resp, req', e').
         Inr (resp,
              if conv then req'\<lparr>req_data := memcpyswp org (req_data req') sz\<rparr> else req',
              e'))))"

text \<open>
  The templates \<^verbatim>\<open>env::read/read_dbg/write/write_dbg\<close>; the type argument is the length of the
  byte list that stands for the value.
\<close>

definition env_read ::
  "env_vtable \<Rightarrow> u32 \<Rightarrow> u8 list \<Rightarrow> u64 \<Rightarrow> env \<Rightarrow> (bool \<times> u8 list \<times> u64 \<times> env) res" where
  "env_read vt addr val cyc e =
     bindE (convert_and_transact vt
              ((set_addr_and_data new_request addr val)\<lparr>m_imem := False, m_read := True\<rparr>) e)
       (\<lambda>(rs, req, e'). Inr (rs = RESP_SUCCESS, req_data req, cyc + req_cycles req, e'))"

definition env_read_dbg ::
  "env_vtable \<Rightarrow> u32 \<Rightarrow> u8 list \<Rightarrow> env \<Rightarrow> (bool \<times> u8 list \<times> env) res" where
  "env_read_dbg vt addr val e =
     bindE (convert_and_transact vt
              ((set_addr_and_data new_request addr val)
                \<lparr>m_imem := False, m_read := True, m_debug := True\<rparr>) e)
       (\<lambda>(rs, req, e'). Inr (rs = RESP_SUCCESS, req_data req, e'))"

definition env_write ::
  "env_vtable \<Rightarrow> u32 \<Rightarrow> u8 list \<Rightarrow> u64 \<Rightarrow> env \<Rightarrow> (bool \<times> u64 \<times> env) res" where
  "env_write vt addr val cyc e =
     bindE (convert_and_transact vt
              ((set_addr_and_data new_request addr val)\<lparr>m_imem := False, m_read := False\<rparr>) e)
       (\<lambda>(rs, req, e'). Inr (rs = RESP_SUCCESS, cyc + req_cycles req, e'))"

definition env_write_dbg ::
  "env_vtable \<Rightarrow> u32 \<Rightarrow> u8 list \<Rightarrow> env \<Rightarrow> (bool \<times> env) res" where
  "env_write_dbg vt addr val e =
     bindE (convert_and_transact vt
              ((set_addr_and_data new_request addr val)
                \<lparr>m_imem := False, m_read := False, m_debug := True\<rparr>) e)
       (\<lambda>(rs, req, e'). Inr (rs = RESP_SUCCESS, e'))"

section \<open>The direct path\<close>

text \<open>
  For the integer sizes a conversion is a reversal of the bytes, so the direct path moves
  \<open>wire_bytes\<close>, the request's bytes in the environment's order.
\<close>

definition basic_size :: "u32 \<Rightarrow> bool" where
  "basic_size sz \<longleftrightarrow> sz = 1 \<or> sz = 2 \<or> sz = 4 \<or> sz = 8"

definition wire_bytes :: "request \<Rightarrow> env \<Rightarrow> u8 list \<Rightarrow> u8 list" where
  "wire_bytes req e bs = (if req_endian req \<noteq> env_endian e then rev bs else bs)"

lemma wire_bytes_twice [simp]: "wire_bytes req e (wire_bytes req e bs) = bs"
  by (simp add: wire_bytes_def)

lemma length_wire_bytes [simp]: "length (wire_bytes req e bs) = length bs"
  by (simp add: wire_bytes_def)

lemma basic_size_unat: "basic_size sz \<Longrightarrow> unat sz \<in> {1, 2, 4, 8}"
  by (auto simp: basic_size_def)

lemma direct_memory_ptr_frame [simp]:
  "req_data (fst (direct_memory_ptr req e)) = req_data req"
  "req_size (fst (direct_memory_ptr req e)) = req_size req"
  "req_addr (fst (direct_memory_ptr req e)) = req_addr req"
  "req_endian (fst (direct_memory_ptr req e)) = req_endian req"
  "m_read (fst (direct_memory_ptr req e)) = m_read req"
  "m_excl (fst (direct_memory_ptr req e)) = m_excl req"
  by (simp_all add: direct_memory_ptr_def)

lemma direct_memory_ptr_data [simp]:
  "direct_memory_ptr (req\<lparr>req_data := d\<rparr>) e =
     (let (req', p) = direct_memory_ptr req e in (req'\<lparr>req_data := d\<rparr>, p))"
  by (simp add: direct_memory_ptr_def is_dmem_def)

lemma send_request_data:
  "direct_memory_ptr req e = (req', Some p) \<Longrightarrow> \<not> m_excl req \<Longrightarrow>
   send_request vt (req\<lparr>req_data := d\<rparr>) e =
     (let r = req'\<lparr>req_data := d, req_cycles := req_cycles req' + m_data_cycles e\<rparr>
      in if m_read req then bindE (read_into p r e) (\<lambda>r'. Inr (RESP_SUCCESS, r', e))
         else bindE (write_from p r e) (\<lambda>e'. Inr (RESP_SUCCESS, r, e')))"
  using direct_memory_ptr_frame(5,6)[of req e]
  by (auto simp: send_request_def Let_def)

lemma conversion_buffer:
  assumes "basic_size (req_size req)" "unat (req_size req) \<le> length (req_data req)"
  shows "take (unat (req_size req))
           (memcpyswp (if unat (req_size req) > 8 then malloc_block vt (unat (req_size req))
                       else replicate 8 0) (req_data req) (unat (req_size req)))
         = rev (take (unat (req_size req)) (req_data req))"
  using assms basic_size_unat[OF assms(1)] by (simp add: memcpyswp_basic)

lemma memcpyswp_back:
  assumes "sz \<in> {1, 2, 4, 8}" "sz \<le> length org" "take sz buf = rev (take sz org)" "sz \<le> length buf"
  shows "memcpyswp org buf sz = org"
  using assms by (simp add: memcpyswp_basic)

lemma convert_and_transact_direct_write:
  assumes bs: "basic_size (req_size req)" and len: "unat (req_size req) \<le> length (req_data req)"
    and ptr: "direct_memory_ptr req e = (req', Some p)" and w: "\<not> m_read req" "\<not> m_excl req"
  shows "convert_and_transact vt req e =
     bindE (store_bytes (host_mem e) p (wire_bytes req e (take (unat (req_size req)) (req_data req))))
       (\<lambda>m. Inr (RESP_SUCCESS, req'\<lparr>req_cycles := req_cycles req' + m_data_cycles e\<rparr>,
                 e\<lparr>host_mem := m\<rparr>))"
proof -
  let ?sz = "unat (req_size req)"
  let ?tmp = "memcpyswp (if ?sz > 8 then malloc_block vt ?sz else replicate 8 0) (req_data req) ?sz"
  have sz: "?sz \<in> {1, 2, 4, 8}" using bs by (rule basic_size_unat)
  have r': "req_size req' = req_size req" "req_data req' = req_data req"
    using direct_memory_ptr_frame[of req e] ptr by simp_all
  have tmp: "take ?sz ?tmp = rev (take ?sz (req_data req))" "?sz \<le> length ?tmp"
    using conversion_buffer[OF bs len] sz len by (auto simp: malloc_block_def)
  have same: "req\<lparr>req_data := req_data req\<rparr> = req" "req'\<lparr>req_data := req_data req\<rparr> = req'"
    using r' by simp_all
  show ?thesis
  proof (cases "conversion_necessary req e")
    case True
    then have "req_endian req \<noteq> env_endian e" by (simp add: conversion_necessary_def)
    with True tmp sz len w r' memcpyswp_back[OF sz len tmp] show ?thesis
      by (simp add: convert_and_transact_def Let_def send_request_data[OF ptr w(2)] write_from_def
          wire_bytes_def bindE_assoc)
        (simp add: bindE_def split: sum.splits)
  next
    case False
    then have one: "req_endian req = env_endian e \<or> ?sz = 1"
      using bs by (auto simp: conversion_necessary_def basic_size_def)
    have "rev (take 1 (req_data req)) = take 1 (req_data req)"
      by (cases "req_data req") simp_all
    with one have "wire_bytes req e (take ?sz (req_data req)) = take ?sz (req_data req)"
      by (auto simp: wire_bytes_def)
    with False len w r' send_request_data[OF ptr w(2), of vt "req_data req"] same show ?thesis
      by (simp add: convert_and_transact_def Let_def write_from_def bindE_assoc)
  qed
qed


lemma convert_and_transact_direct_read:
  assumes bs: "basic_size (req_size req)" and len: "unat (req_size req) \<le> length (req_data req)"
    and ptr: "direct_memory_ptr req e = (req', Some p)" and r: "m_read req" "\<not> m_excl req"
  shows "convert_and_transact vt req e =
     bindE (load_bytes (host_mem e) p (unat (req_size req))) (\<lambda>bs.
       Inr (RESP_SUCCESS,
            req'\<lparr>req_cycles := req_cycles req' + m_data_cycles e,
                 req_data := wire_bytes req e bs @ drop (unat (req_size req)) (req_data req)\<rparr>,
            e))"
proof -
  let ?sz = "unat (req_size req)"
  have sz: "?sz \<in> {1, 2, 4, 8}" using bs by (rule basic_size_unat)
  have r': "req_size req' = req_size req" "req_data req' = req_data req"
    using direct_memory_ptr_frame[of req e] ptr by simp_all
  have same: "req\<lparr>req_data := req_data req\<rparr> = req" "req'\<lparr>req_data := req_data req\<rparr> = req'"
    using r' by simp_all
  show ?thesis
  proof (cases "load_bytes (host_mem e) p ?sz")
    case (Inl x)
    with r' len r send_request_data[OF ptr r(2), of vt "req_data req"] same show ?thesis
      by (simp add: convert_and_transact_def Let_def send_request_data[OF ptr r(2)] read_into_def)
  next
    case (Inr bs)
    then have lb: "length bs = ?sz" by (rule length_load_bytes)
    show ?thesis
    proof (cases "conversion_necessary req e")
      case True
      then have "req_endian req \<noteq> env_endian e" by (simp add: conversion_necessary_def)
      with True Inr sz len r r' lb show ?thesis
        by (simp add: convert_and_transact_def Let_def send_request_data[OF ptr r(2)] read_into_def
            wire_bytes_def memcpyswp_basic)
    next
      case False
      then have one: "req_endian req = env_endian e \<or> ?sz = 1"
        using \<open>basic_size (req_size req)\<close> by (auto simp: conversion_necessary_def basic_size_def)
      have "wire_bytes req e bs = bs"
        using one lb by (cases bs) (auto simp: wire_bytes_def)
      with False Inr len r r' send_request_data[OF ptr r(2), of vt "req_data req"] same
      show ?thesis
        by (simp add: convert_and_transact_def Let_def read_into_def)
    qed
  qed
qed

text \<open>
  Without a direct pointer the device sees the request in the environment's byte order: some buffer
  \<open>d0\<close> that begins with \<open>wire_bytes\<close>, and the caller gets back what the device leaves in it.
\<close>

lemma convert_and_transact_indirect:
  assumes bs: "basic_size (req_size req)" and len: "length (req_data req) = unat (req_size req)"
    and ptr: "direct_memory_ptr req e = (req', None)"
  obtains d0 D where "take (unat (req_size req)) d0 = wire_bytes req e (req_data req)"
    "unat (req_size req) \<le> length d0"
    "\<And>dat. length dat = length d0 \<Longrightarrow> D dat = wire_bytes req e (take (unat (req_size req)) dat)"
    "convert_and_transact vt req e =
       bindE (vt_transact vt (req'\<lparr>req_data := d0, req_endian := env_endian e\<rparr>) e)
         (\<lambda>(resp, cyc, dat, e').
       Inr (resp, req'\<lparr>req_cycles := cyc, req_data := D dat\<rparr>, e'))"
proof -
  let ?sz = "unat (req_size req)"
  let ?tmp = "memcpyswp (if ?sz > 8 then malloc_block vt ?sz else replicate 8 0) (req_data req) ?sz"
  have sz: "?sz \<in> {1, 2, 4, 8}" using bs by (rule basic_size_unat)
  have r': "req_data req' = req_data req"
    using direct_memory_ptr_frame[of req e] ptr by simp
  then have same: "req'\<lparr>req_data := req_data req\<rparr> = req'"
    by simp
  show thesis
  proof (cases "conversion_necessary req e")
    case True
    then have ne: "req_endian req \<noteq> env_endian e" by (simp add: conversion_necessary_def)
    show thesis
    proof (rule that[of ?tmp "\<lambda>dat. memcpyswp (req_data req) dat ?sz"])
      show "take ?sz ?tmp = wire_bytes req e (req_data req)"
        using conversion_buffer[OF bs] len ne by (simp add: wire_bytes_def)
      show "?sz \<le> length ?tmp" using len sz by (auto simp: malloc_block_def)
      show "memcpyswp (req_data req) dat ?sz = wire_bytes req e (take ?sz dat)"
        if "length dat = length ?tmp" for dat
        using that len sz ne by (auto simp: memcpyswp_basic wire_bytes_def malloc_block_def)
    qed (use True ptr len in \<open>simp add: convert_and_transact_def Let_def send_request_def
      bindE_assoc case_prod_beta'\<close>)
  next
    case False
    then have one: "req_endian req = env_endian e \<or> ?sz = 1"
      using bs by (auto simp: conversion_necessary_def basic_size_def)
    have wire: "wire_bytes req e dat = dat" if "length dat = ?sz" for dat
      using one that by (cases dat) (auto simp: wire_bytes_def)
    show thesis
    proof (rule that[of "req_data req" "\<lambda>dat. dat"])
      show "take ?sz (req_data req) = wire_bytes req e (req_data req)"
        using len by (simp add: wire)
      show "dat = wire_bytes req e (take ?sz dat)" if "length dat = length (req_data req)" for dat
        using that len by (simp add: wire)
    qed (use False ptr len same in \<open>simp_all add: convert_and_transact_def Let_def send_request_def
      bindE_assoc case_prod_beta'\<close>)
  qed
qed

section \<open>Typed accesses\<close>

text \<open>The width of a template argument: one of the integer types.\<close>

definition int_width :: "nat \<Rightarrow> bool" where
  "int_width n \<longleftrightarrow> n \<in> {1, 2, 4, 8}"

lemma int_width_basic: "int_width n \<Longrightarrow> basic_size (of_nat n) \<and> unat (of_nat n :: u32) = n"
  by (auto simp: int_width_def basic_size_def)

definition stored_bytes :: "env \<Rightarrow> u8 list \<Rightarrow> u8 list" where
  "stored_bytes e val = (if env_endian e = host_endian then val else rev val)"

lemma length_stored_bytes [simp]: "length (stored_bytes e val) = length val"
  by (simp add: stored_bytes_def)

lemma wire_bytes_stored: "req_endian req = host_endian \<Longrightarrow> wire_bytes req e bs = stored_bytes e bs"
  by (auto simp: wire_bytes_def stored_bytes_def)

lemma stored_bytes_twice [simp]: "stored_bytes e (stored_bytes e val) = val"
  by (simp add: stored_bytes_def)

lemma direct_typed_ptr:
  "get_data_ptr e addr = Some p \<Longrightarrow>
   direct_memory_ptr ((set_addr_and_data new_request addr val)\<lparr>m_imem := False, m_read := rd\<rparr>) e
     = ((set_addr_and_data new_request addr val)
          \<lparr>m_imem := False, m_read := rd, req_cycles := m_data_cycles e\<rparr>, Some p)"
  by (simp add: direct_memory_ptr_def is_dmem_def set_addr_and_data_def new_request_def)

lemma env_write_direct:
  assumes "int_width (length val)" "get_data_ptr e addr = Some p"
  shows "env_write vt addr val cyc e =
     bindE (store_bytes (host_mem e) p (stored_bytes e val)) (\<lambda>m.
       Inr (True, cyc + (m_data_cycles e + m_data_cycles e), e\<lparr>host_mem := m\<rparr>))"
  unfolding env_write_def
  using int_width_basic[OF assms(1)]
  by (subst convert_and_transact_direct_write[OF _ _ direct_typed_ptr[OF assms(2)]])
    (simp_all add: set_addr_and_data_def new_request_def bindE_assoc wire_bytes_stored)

lemma env_read_direct:
  assumes "int_width (length val)" "get_data_ptr e addr = Some p"
  shows "env_read vt addr val cyc e =
     bindE (load_bytes (host_mem e) p (length val)) (\<lambda>bs.
       Inr (True, stored_bytes e bs, cyc + (m_data_cycles e + m_data_cycles e), e))"
  unfolding env_read_def
  using int_width_basic[OF assms(1)]
  by (subst convert_and_transact_direct_read[OF _ _ direct_typed_ptr[OF assms(2)]])
    (simp_all add: set_addr_and_data_def new_request_def bindE_assoc wire_bytes_stored)

section \<open>Exclusive accesses\<close>

text \<open>
  The reservation of an exclusive load is the address and the four bytes it saw, in the
  environment's byte order.
\<close>

definition reserved_bytes :: "env \<Rightarrow> u8 list" where
  "reserved_bytes e = le_bytes 4 (m_excl_data e)"

definition excl_request :: "u32 \<Rightarrow> bool \<Rightarrow> u8 list \<Rightarrow> request" where
  "excl_request addr rd val =
     (set_addr_and_data new_request addr val)\<lparr>m_read := rd, m_excl := True\<rparr>"

lemma store_bytes_allocated: "allocated m p (length bs) \<Longrightarrow> \<exists>m'. store_bytes m p bs = Inr m'"
  by (simp add: store_bytes_def)

lemma excl_load_direct:
  assumes "length val = 4" "get_data_ptr e addr = Some p" "load_bytes (host_mem e) p 4 = Inr bs"
  shows "\<exists>req'. convert_and_transact vt (excl_request addr True val) e =
      Inr (RESP_SUCCESS, req', e\<lparr>m_excl_addr := addr, m_excl_data := of_le_bytes bs\<rparr>)
    \<and> req_data req' = stored_bytes e bs"
proof -
  have l: "length bs = 4" using assms(3) by (rule length_load_bytes)
  have s: "unat (of_nat 4 :: u32) = 4" by simp
  show ?thesis
    using assms l
    by (auto simp: convert_and_transact_def excl_request_def set_addr_and_data_def new_request_def
        send_request_def direct_memory_ptr_def is_dmem_def exclusive_access_def read_into_def
        conversion_necessary_def stored_bytes_def memcpyswp_basic Let_def)
qed

lemma excl_store_direct:
  assumes "length val = 4" "get_data_ptr e addr = Some p" "load_bytes (host_mem e) p 4 = Inr bs"
  shows "\<exists>req' m'. store_bytes (host_mem e) p (stored_bytes e val) = Inr m' \<and>
    convert_and_transact vt (excl_request addr False val) e =
      Inr (if addr = m_excl_addr e \<and> bs = reserved_bytes e
           then (RESP_SUCCESS, req', e\<lparr>host_mem := m'\<rparr>) else (RESP_FAILED, req', e))"
proof -
  have l: "length bs = 4" using assms(3) by (rule length_load_bytes)
  have "allocated (host_mem e) p (length (stored_bytes e val))"
    using assms by (simp add: load_bytes_Inr)
  then obtain m' where m': "store_bytes (host_mem e) p (stored_bytes e val) = Inr m'"
    using store_bytes_allocated by blast
  have eq: "of_le_bytes bs = m_excl_data e \<longleftrightarrow> bs = reserved_bytes e"
    using l le_bytes_of_le_bytes[of bs, where 'a = 32] by (auto simp: reserved_bytes_def)
  have t: "le_bytes 4 (of_le_bytes val :: u32) = val"
      "le_bytes 4 (of_le_bytes (rev val) :: u32) = rev val"
    using assms(1) le_bytes_of_le_bytes[of val, where 'a = 32]
      le_bytes_of_le_bytes[of "rev val", where 'a = 32] by simp_all
  show ?thesis
    using assms l m' t eq
    by (auto simp: convert_and_transact_def excl_request_def set_addr_and_data_def new_request_def
        send_request_def direct_memory_ptr_def is_dmem_def exclusive_access_def cas_def
        conversion_necessary_def stored_bytes_def memcpyswp_basic Let_def)
qed

end
