(* ===== verification/Mmu.thy ===== *)
theory Mmu
  imports Env Cache
begin

text \<open>
  The memory management units (\<^verbatim>\<open>include/or1kiss/mmu.h\<close>, \<^verbatim>\<open>src/or1kiss/mmu.cpp\<close>): the TLB with its
  match and translate registers in one array, the least-recently-used counters in the match
  registers, translation with the hardware table walk, and the flush operations. The lemmas show
  that indices stay inside the array, that rights and page offsets are respected, and that the TLB
  is a \<open>lookup_cache\<close> from pages to translations.
\<close>

section \<open>Constants\<close>

definition OR1KISS_PAGE_BITS :: nat where "OR1KISS_PAGE_BITS = 13"
definition OR1KISS_PAGE_SIZE :: u32 where "OR1KISS_PAGE_SIZE = push_bit OR1KISS_PAGE_BITS 1"
definition OR1KISS_PAGE_MASK :: u32 where "OR1KISS_PAGE_MASK = OR1KISS_PAGE_SIZE - 1"

definition page_number :: "u32 \<Rightarrow> u32" where
  "page_number addr = drop_bit OR1KISS_PAGE_BITS addr"
definition page_offset :: "u32 \<Rightarrow> u32" where
  "page_offset addr = addr AND OR1KISS_PAGE_MASK"
definition page_align :: "u32 \<Rightarrow> u32" where
  "page_align addr = addr AND NOT OR1KISS_PAGE_MASK"
definition page_boundary :: "u32 \<Rightarrow> u32" where
  "page_boundary addr = page_align (addr + OR1KISS_PAGE_SIZE)"
definition page_compare :: "u32 \<Rightarrow> u32 \<Rightarrow> bool" where
  "page_compare a b \<longleftrightarrow> page_align (a XOR b) = 0"
definition mkaddr :: "u32 \<Rightarrow> u32 \<Rightarrow> u32" where
  "mkaddr pn off = push_bit OR1KISS_PAGE_BITS pn OR off"

definition OR1KISS_TLB_MAX_WAYS :: nat where "OR1KISS_TLB_MAX_WAYS = 4"
definition OR1KISS_TLB_MAX_SETS :: nat where "OR1KISS_TLB_MAX_SETS = 128"
definition OR1KISS_TLB_MAX_REGS :: nat where
  "OR1KISS_TLB_MAX_REGS = 2 * OR1KISS_TLB_MAX_SETS * OR1KISS_TLB_MAX_WAYS"

definition tlb_mr :: "nat \<Rightarrow> nat \<Rightarrow> nat" where
  "tlb_mr way st = way * OR1KISS_TLB_MAX_SETS * 2 + st"
definition tlb_tr :: "nat \<Rightarrow> nat \<Rightarrow> nat" where
  "tlb_tr way st = tlb_mr way st + OR1KISS_TLB_MAX_SETS"

datatype mmu_result = MMU_OKAY | MMU_TLB_MISS | MMU_PAGE_FAULT

definition MMUCFG_NTW1 :: u32 where "MMUCFG_NTW1 = push_bit 0 0"
definition MMUCFG_NTW4 :: u32 where "MMUCFG_NTW4 = push_bit 0 3"
definition MMUCFG_NTS128 :: u32 where "MMUCFG_NTS128 = push_bit 2 7"
definition MMUCFG_CRI :: u32 where "MMUCFG_CRI = push_bit 8 1"
definition MMUCFG_PRI :: u32 where "MMUCFG_PRI = push_bit 9 1"
definition MMUCFG_TEIRI :: u32 where "MMUCFG_TEIRI = push_bit 10 1"
definition MMUCFG_HTR :: u32 where "MMUCFG_HTR = push_bit 11 1"

definition MMUCR_DTF :: u32 where "MMUCR_DTF = push_bit 0 1"
definition MMUCR_ITF :: u32 where "MMUCR_ITF = push_bit 0 1"
definition MMUCR_PGD :: u32 where "MMUCR_PGD = 0xfffffc00"

definition MMUPTE_CC :: u32 where "MMUPTE_CC = push_bit 0 1"
definition MMUPTE_CI :: u32 where "MMUPTE_CI = push_bit 1 1"
definition MMUPTE_WBC :: u32 where "MMUPTE_WBC = push_bit 2 1"
definition MMUPTE_WOM :: u32 where "MMUPTE_WOM = push_bit 3 1"
definition MMUPTE_A :: u32 where "MMUPTE_A = push_bit 4 1"
definition MMUPTE_D :: u32 where "MMUPTE_D = push_bit 5 1"
definition MMUPTE_EXEC :: u32 where "MMUPTE_EXEC = push_bit 10 1"

definition MMU_URE :: u32 where "MMU_URE = push_bit 6 1"
definition MMU_UWE :: u32 where "MMU_UWE = push_bit 7 1"
definition MMU_UXE :: u32 where "MMU_UXE = push_bit 7 1"
definition MMU_SRE :: u32 where "MMU_SRE = push_bit 8 1"
definition MMU_SWE :: u32 where "MMU_SWE = push_bit 9 1"
definition MMU_SXE :: u32 where "MMU_SXE = push_bit 6 1"

definition MMUM_V :: u32 where "MMUM_V = push_bit 0 1"
definition MMUM_LRU0 :: u32 where "MMUM_LRU0 = push_bit 6 0"
definition MMUM_LRU1 :: u32 where "MMUM_LRU1 = push_bit 6 1"
definition MMUM_LRU3 :: u32 where "MMUM_LRU3 = push_bit 6 3"

section \<open>State and operations\<close>

record mmu =
  m_cfg :: u32
  m_ctrl :: u32
  m_prot :: u32
  m_num_sets :: u32
  m_num_ways :: u32
  m_set_mask :: u32
  m_tlb :: "u32 list"

text \<open>The constructor; \<open>has_env\<close> tells whether it is given an environment.\<close>

definition new_mmu :: "u32 \<Rightarrow> bool \<Rightarrow> mmu res" where
  "new_mmu config has_env =
     (let sets = push_bit (unat (bits32 config 4 2)) 1;
          ways = 1 + bits32 config 1 0
      in if \<not> has_env \<and> config AND MMUCFG_HTR \<noteq> 0 then Inl No_memory_access
         else Inr \<lparr>m_cfg = config, m_ctrl = 0, m_prot = 0, m_num_sets = sets, m_num_ways = ways,
                   m_set_mask = sets - 1, m_tlb = replicate OR1KISS_TLB_MAX_REGS 0\<rparr>)"

definition access_mask :: "request \<Rightarrow> u32" where
  "access_mask req =
     (if m_debug req then MMU_SRE OR MMU_SWE OR MMU_URE OR MMU_UWE
      else if m_imem req then (if m_super req then MMU_SXE else MMU_UXE)
      else if is_write req then (if m_super req then MMU_SWE else MMU_UWE)
      else (if m_super req then MMU_SRE else MMU_URE))"

definition mmu_ways :: "mmu \<Rightarrow> nat list" where
  "mmu_ways t = [0..<unat (m_num_ways t)]"

fun oldest_way :: "mmu \<Rightarrow> nat \<Rightarrow> nat list \<Rightarrow> nat \<Rightarrow> u32 \<Rightarrow> nat" where
  "oldest_way t st [] sel oldest = sel"
| "oldest_way t st (way # ways) sel oldest =
     (let age = m_tlb t ! tlb_mr way st AND MMUM_LRU3
      in if oldest \<le> age then oldest_way t st ways way age else oldest_way t st ways sel oldest)"

definition find_empty_way :: "mmu \<Rightarrow> nat \<Rightarrow> nat" where
  "find_empty_way t st =
     (case List.find (\<lambda>way. m_tlb t ! tlb_mr way st AND MMUM_V = 0) (mmu_ways t) of
        Some way \<Rightarrow> way
      | None \<Rightarrow> oldest_way t st (mmu_ways t) 0 0)"

definition flush_tlb :: "mmu \<Rightarrow> mmu" where
  "flush_tlb t = t\<lparr>m_tlb := replicate (length (m_tlb t)) 0\<rparr>"

definition set_cr :: "u32 \<Rightarrow> mmu \<Rightarrow> mmu" where
  "set_cr val t =
     (let t' = (if m_cfg t AND MMUCFG_TEIRI \<noteq> 0 \<and> (val AND MMUCR_DTF \<noteq> 0 \<or> val AND MMUCR_ITF \<noteq> 0)
                then flush_tlb t else t)
      in t'\<lparr>m_ctrl := val AND NOT (MMUCR_DTF OR MMUCR_ITF)\<rparr>)"

definition set_pr :: "u32 \<Rightarrow> mmu \<Rightarrow> mmu" where
  "set_pr val t = t\<lparr>m_prot := val\<rparr>"

text \<open>Address translation buffers are not supported: a warning is printed.\<close>

definition get_atb :: "u32 \<Rightarrow> mmu \<Rightarrow> u32" where
  "get_atb reg t = 0"

definition set_atb :: "u32 \<Rightarrow> u32 \<Rightarrow> mmu \<Rightarrow> mmu" where
  "set_atb reg val t = t"

definition get_tlb :: "u32 \<Rightarrow> mmu \<Rightarrow> u32" where
  "get_tlb reg t =
     (let way = drop_bit 8 reg; st = reg AND 0x7f
      in if m_num_ways t \<le> way \<or> m_num_sets t \<le> st then 0 else m_tlb t ! unat reg)"

definition set_tlb :: "u32 \<Rightarrow> u32 \<Rightarrow> mmu \<Rightarrow> mmu" where
  "set_tlb reg val t =
     (let way = drop_bit 8 reg; st = reg AND 0x7f
      in if m_num_ways t \<le> way \<or> m_num_sets t \<le> st then t
         else t\<lparr>m_tlb := (m_tlb t)[unat reg := val]\<rparr>)"

definition mmu_set :: "mmu \<Rightarrow> u32 \<Rightarrow> nat" where
  "mmu_set t addr = unat (page_number addr AND m_set_mask t)"

definition flush_way :: "u32 \<Rightarrow> nat \<Rightarrow> nat \<Rightarrow> mmu \<Rightarrow> mmu" where
  "flush_way vpg st way t =
     (let i = tlb_mr way st; mtch = m_tlb t ! i
      in if page_compare vpg mtch then t\<lparr>m_tlb := (m_tlb t)[i := mtch AND NOT MMUM_V]\<rparr> else t)"

definition flush_tlb_entry :: "u32 \<Rightarrow> mmu \<Rightarrow> mmu" where
  "flush_tlb_entry ea t = fold (flush_way (page_align ea) (mmu_set t ea)) (mmu_ways t) t"

definition age_way :: "nat \<Rightarrow> nat \<Rightarrow> mmu \<Rightarrow> mmu" where
  "age_way st way t =
     (let i = tlb_mr way st; mtch = m_tlb t ! i
      in if mtch AND MMUM_V \<noteq> 0
         then t\<lparr>m_tlb := (m_tlb t)[i := (mtch AND NOT MMUM_LRU3)
                                        OR ((mtch AND MMUM_LRU3) + MMUM_LRU1)]\<rparr>
         else t)"

definition age_set :: "nat \<Rightarrow> mmu \<Rightarrow> mmu" where
  "age_set st t = fold (age_way st) (mmu_ways t) t"

definition find_way :: "mmu \<Rightarrow> u32 \<Rightarrow> nat \<Rightarrow> nat option" where
  "find_way t vpg st =
     List.find (\<lambda>way. let mtch = m_tlb t ! tlb_mr way st
                      in mtch AND MMUM_V \<noteq> 0 \<and> page_compare vpg mtch) (mmu_ways t)"

definition mark_accessed :: "request \<Rightarrow> u32 \<Rightarrow> u32" where
  "mark_accessed req tr =
     (let tr' = tr OR MMUPTE_A in if is_write req then tr' OR MMUPTE_D else tr')"

definition translated :: "request \<Rightarrow> u32 \<Rightarrow> request" where
  "translated req tr = req\<lparr>req_addr := page_align tr OR page_offset (req_addr req)\<rparr>"

text \<open>A matching entry.\<close>

definition tlb_hit :: "request \<Rightarrow> nat \<Rightarrow> nat \<Rightarrow> mmu \<Rightarrow> mmu_result \<times> request \<times> mmu" where
  "tlb_hit req st way t =
     (let mi = tlb_mr way st; ti = tlb_tr way st; tr = m_tlb t ! ti
      in if \<not> m_debug req \<and> tr AND access_mask req = 0 then (MMU_PAGE_FAULT, req, t)
         else
           let t' = (if m_debug req then t
                     else t\<lparr>m_tlb := (m_tlb t)[ti := mark_accessed req tr,
                                                mi := m_tlb t ! mi AND NOT MMUM_LRU3]\<rparr>);
               tr' = m_tlb t' ! ti
           in (MMU_OKAY,
               (translated req tr')
                 \<lparr>m_cache_coherent := tr' AND MMUPTE_CC \<noteq> 0,
                  m_cache_inhibit := tr' AND MMUPTE_CI \<noteq> 0,
                  m_cache_writeback := tr' AND MMUPTE_WBC \<noteq> 0,
                  m_weakly_ordered := tr' AND MMUPTE_WOM \<noteq> 0\<rparr>,
               t'))"

text \<open>The table walk reads an uninitialised \<^verbatim>\<open>u32\<close> through the port, twice.\<close>

definition read_pte :: "env_vtable \<Rightarrow> request \<Rightarrow> u32 \<Rightarrow> env \<Rightarrow> (u32 option \<times> request \<times> env) res" where
  "read_pte vt mmureq addr e =
     bindE (convert_and_transact vt (set_addr_and_data mmureq addr (malloc_block vt 4)) e)
       (\<lambda>(resp, q, e').
     Inr (if resp = RESP_SUCCESS then Some (of_le_bytes (take 4 (req_data q))) else None, q, e'))"

definition refill :: "request \<Rightarrow> nat \<Rightarrow> u32 \<Rightarrow> u32 \<Rightarrow> u64 \<Rightarrow> mmu \<Rightarrow> mmu_result \<times> request \<times> mmu" where
  "refill req st vpg pte2 walk_cycles t =
     (let mtch = vpg OR MMUM_LRU0 OR MMUM_V;
          tr0 = pte2 OR MMUPTE_CC;
          tr = (if m_imem req \<and> pte2 AND MMUPTE_EXEC \<noteq> 0
                   then tr0 OR (MMU_SXE OR MMU_UXE) else tr0)
      in if tr AND access_mask req = 0 \<and> \<not> m_debug req then (MMU_PAGE_FAULT, req, t)
         else
           let tr' = mark_accessed req tr;
               req' = translated req tr'
           in if m_debug req then (MMU_OKAY, req', t)
              else
                let way = find_empty_way t st
                in (MMU_OKAY, req'\<lparr>req_cycles := req_cycles req' + walk_cycles\<rparr>,
                    t\<lparr>m_tlb := (m_tlb t)[tlb_mr way st := mtch, tlb_tr way st := tr']\<rparr>))"

definition table_walk ::
  "env_vtable \<Rightarrow> request \<Rightarrow> mmu \<Rightarrow> env \<Rightarrow> (mmu_result \<times> request \<times> mmu \<times> env) res" where
  "table_walk vt req t e =
     (let vpg = page_align (req_addr req);
          pl1idx = bits32 (req_addr req) 31 24;
          pl2idx = bits32 (req_addr req) 23 13;
          page_directory = m_ctrl t AND MMUCR_PGD;
          mmureq = req\<lparr>req_endian := host_endian, m_imem := False, m_read := True, req_cycles := 0\<rparr>
      in if page_directory = 0 then Inr (MMU_TLB_MISS, req, t, e)
         else bindE (read_pte vt mmureq (page_directory + push_bit 2 pl1idx) e) (\<lambda>(pte1, q1, e1).
         case pte1 of
           None \<Rightarrow> Inr (MMU_TLB_MISS, req, t, e1)
         | Some pte1 \<Rightarrow>
             if pte1 = 0 then Inr (MMU_TLB_MISS, req, t, e1)
             else bindE (read_pte vt q1 (page_align pte1 + push_bit 2 pl2idx) e1) (\<lambda>(pte2, q2, e2).
             case pte2 of
               None \<Rightarrow> Inr (MMU_TLB_MISS, req, t, e2)
             | Some pte2 \<Rightarrow>
                 if pte2 = 0 then Inr (MMU_TLB_MISS, req, t, e2)
                 else
                   let (r, req', t') = refill req (mmu_set t (req_addr req)) vpg pte2 (req_cycles q2) t
                   in Inr (r, req', t', e2))))"

definition translate ::
  "env_vtable \<Rightarrow> request \<Rightarrow> mmu \<Rightarrow> env \<Rightarrow> (mmu_result \<times> request \<times> mmu \<times> env) res" where
  "translate vt req t e =
     (let vpg = page_align (req_addr req);
          st = mmu_set t (req_addr req);
          t1 = (if m_debug req then t else age_set st t)
      in case find_way t1 vpg st of
           Some way \<Rightarrow> (let (r, req', t') = tlb_hit req st way t1 in Inr (r, req', t', e))
         | None \<Rightarrow>
             if m_cfg t1 AND MMUCFG_HTR = 0 \<and> \<not> m_debug req then Inr (MMU_TLB_MISS, req, t1, e)
             else table_walk vt req t1 e)"

section \<open>Pages and bits\<close>

type_synonym page = "19 word"

definition page_of :: "u32 \<Rightarrow> page" where
  "page_of addr = ucast (drop_bit 13 addr)"

lemma page_mask: "OR1KISS_PAGE_MASK = mask 13"
  by (simp add: OR1KISS_PAGE_MASK_def OR1KISS_PAGE_SIZE_def OR1KISS_PAGE_BITS_def
      mask_eq_exp_minus_1)

lemma bit_page_align [bitfield_simps]: "bit (page_align a) n \<longleftrightarrow> 13 \<le> n \<and> bit a n"
  by (auto simp: page_align_def page_mask bit_simps dest: bit_imp_le_length)

lemma bit_page_offset [bitfield_simps]: "bit (page_offset a) n \<longleftrightarrow> n < 13 \<and> bit a n"
  by (auto simp: page_offset_def page_mask bit_simps dest: bit_imp_le_length)

lemma bit_page_of [bitfield_simps]: "bit (page_of a) n \<longleftrightarrow> n < 19 \<and> bit a (n + 13)"
  by (auto simp: page_of_def bit_simps add.commute)

lemma page_of_eq_iff: "page_of a = page_of b \<longleftrightarrow> (\<forall>n. 13 \<le> n \<and> n < 32 \<longrightarrow> bit a n = bit b n)"
proof
  assume e: "page_of a = page_of b"
  show "\<forall>n. 13 \<le> n \<and> n < 32 \<longrightarrow> bit a n = bit b n"
  proof (intro allI impI, elim conjE)
    fix n :: nat assume n: "13 \<le> n" "n < 32"
    then have "bit (page_of a) (n - 13) = bit a n" "bit (page_of b) (n - 13) = bit b n"
      using n less_diff_conv2[of 13 n 19] by (simp_all add: bitfield_simps)
    with e show "bit a n = bit b n" by simp
  qed
qed (auto intro!: bit_word_eqI simp: bitfield_simps)

lemma page_compare_iff [simp]: "page_compare a b \<longleftrightarrow> page_of a = page_of b"
  by (auto simp: page_compare_def page_of_eq_iff bit_eq_iff[where 'a = "32 word"] bitfield_simps
      bit_simps dest: bit_imp_le_length)

lemma page_of_align [simp]: "page_of (page_align a) = page_of a"
  by (auto simp: page_of_eq_iff bitfield_simps)

lemma page_align_or_offset: "page_align a OR page_offset a = a"
  by (rule bit_word_eqI) (auto simp: bitfield_simps bit_simps)

lemma page_of_frame [simp]: "page_of (page_align a OR page_offset b) = page_of a"
  by (auto simp: page_of_eq_iff bitfield_simps bit_simps)

lemma page_offset_frame [simp]: "page_offset (page_align a OR page_offset b) = page_offset b"
  by (rule bit_word_eqI) (auto simp: bitfield_simps bit_simps)

lemma page_align_frame [simp]: "page_align (page_align a OR page_offset b) = page_align a"
  by (rule bit_word_eqI) (auto simp: bitfield_simps bit_simps)

text \<open>Every address is its page number and its offset put together by \<^verbatim>\<open>OR1KISS_MKADDR\<close>.\<close>

lemma mkaddr_page: "mkaddr (page_number a) (page_offset a) = a"
  by (rule bit_word_eqI)
    (auto simp: mkaddr_def page_number_def OR1KISS_PAGE_BITS_def bitfield_simps bit_simps)

lemma valid_bit: "x AND MMUM_V \<noteq> 0 \<longleftrightarrow> bit x 0"
  by (simp add: MMUM_V_def and_one_nonzero)

lemma bit_MMUM_LRU3: "bit MMUM_LRU3 n \<longleftrightarrow> n = 6 \<or> n = 7"
proof -
  have m: "MMUM_LRU3 = push_bit 6 (mask 2)" by (simp add: MMUM_LRU3_def mask_eq_exp_minus_1)
  show ?thesis unfolding m by (auto simp: bit_simps)
qed

section \<open>Well-formed TLBs\<close>

definition mmu_wf :: "mmu \<Rightarrow> bool" where
  "mmu_wf t \<longleftrightarrow> length (m_tlb t) = OR1KISS_TLB_MAX_REGS \<and> 0 < unat (m_num_ways t)
     \<and> unat (m_num_ways t) \<le> OR1KISS_TLB_MAX_WAYS \<and> unat (m_num_sets t) \<le> OR1KISS_TLB_MAX_SETS
     \<and> (\<exists>k\<le>7. m_set_mask t = mask k \<and> m_num_sets t = 2 ^ k)"

lemmas tlb_index_defs = tlb_mr_def tlb_tr_def OR1KISS_TLB_MAX_REGS_def OR1KISS_TLB_MAX_SETS_def
  OR1KISS_TLB_MAX_WAYS_def

lemma unat_two_power: "k \<le> 7 \<Longrightarrow> unat (2 ^ k :: u32) = 2 ^ k"
proof -
  assume "k \<le> 7"
  then have "k \<in> {0, 1, 2, 3, 4, 5, 6, 7}" by auto
  then show ?thesis by auto
qed

lemma new_mmu_wf:
  assumes "new_mmu config b = Inr t"
  shows "mmu_wf t"
proof -
  let ?k = "unat (bits32 config 4 2)"
  have k: "?k \<le> 7" using unat_bits32_less[of 2 4 config] by simp
  have w: "unat (bits32 config 1 0) \<le> 3" using unat_bits32_less[of 0 1 config] by simp
  then have "unat (1 + bits32 config 1 0) = 1 + unat (bits32 config 1 0)"
    by (simp add: unat_word_ariths)
  moreover have "(2 :: nat) ^ ?k \<le> 2 ^ 7" using k by (intro power_increasing) simp_all
  ultimately show ?thesis
    using assms k w
    by (auto simp: new_mmu_def Let_def mmu_wf_def tlb_index_defs mask_eq_exp_minus_1
        unat_two_power split: if_splits)
qed

definition set_of :: "mmu \<Rightarrow> page \<Rightarrow> nat" where
  "set_of t p = unat ((ucast p :: u32) AND m_set_mask t)"

lemma mmu_set_of: "mmu_set t addr = set_of t (page_of addr)"
proof -
  have "page_number addr = ucast (page_of addr)"
    by (rule bit_word_eqI)
      (auto simp: page_number_def OR1KISS_PAGE_BITS_def bit_simps bitfield_simps add.commute
        dest: bit_imp_le_length)
  then show ?thesis by (simp add: mmu_set_def set_of_def)
qed

lemma set_of_less:
  assumes "mmu_wf t"
  shows "set_of t p < OR1KISS_TLB_MAX_SETS"
proof -
  obtain k where k: "k \<le> 7" "m_set_mask t = mask k" using assms by (auto simp: mmu_wf_def)
  have "set_of t p = unat (take_bit k (ucast p :: u32))"
    using k by (simp add: set_of_def take_bit_eq_mask)
  also have "\<dots> < 2 ^ k" by (rule unat_take_bit_less)
  also have "\<dots> \<le> 2 ^ 7" using k by (intro power_increasing) simp_all
  finally show ?thesis by (simp add: OR1KISS_TLB_MAX_SETS_def)
qed

lemma tlb_index_less:
  "mmu_wf t \<Longrightarrow> way < unat (m_num_ways t) \<Longrightarrow> st < OR1KISS_TLB_MAX_SETS \<Longrightarrow>
   tlb_mr way st < length (m_tlb t) \<and> tlb_tr way st < length (m_tlb t)"
  by (auto simp: mmu_wf_def tlb_index_defs)

lemma way_set_split:
  assumes "way * 256 + x = way' * 256 + x'" "x < 256" "x' < (256 :: nat)"
  shows "way = way' \<and> x = x'"
proof -
  have "(way * 256 + x) div 256 = way" "(way' * 256 + x') div 256 = way'"
    using assms(2,3) by simp_all
  with assms(1) show ?thesis by simp
qed

lemma tlb_index_inj:
  assumes "st < OR1KISS_TLB_MAX_SETS" "st' < OR1KISS_TLB_MAX_SETS"
  shows "tlb_mr way st = tlb_mr way' st' \<longleftrightarrow> way = way' \<and> st = st'"
    and "tlb_tr way st = tlb_tr way' st' \<longleftrightarrow> way = way' \<and> st = st'"
    and "tlb_mr way st \<noteq> tlb_tr way' st'" and "tlb_tr way' st' \<noteq> tlb_mr way st"
  using assms way_set_split[of way st way' st'] way_set_split[of way "st + 128" way' "st' + 128"]
    way_set_split[of way st way' "st' + 128"]
  by (auto simp: tlb_index_defs)

section \<open>The TLB as a partial map\<close>

definition tlb_match :: "mmu \<Rightarrow> nat \<Rightarrow> page \<Rightarrow> bool" where
  "tlb_match t way p \<longleftrightarrow>
     (let m = m_tlb t ! tlb_mr way (set_of t p) in bit m 0 \<and> page_of m = p)"

definition tlb_lookup :: "mmu \<Rightarrow> page \<Rightarrow> u32 option" where
  "tlb_lookup t p =
     map_option (\<lambda>way. m_tlb t ! tlb_tr way (set_of t p)) (List.find (\<lambda>way. tlb_match t way p) (mmu_ways t))"

text \<open>No page is matched by two ways of its set; the simulator's own operations keep this.\<close>

definition tlb_distinct :: "mmu \<Rightarrow> bool" where
  "tlb_distinct t \<longleftrightarrow> (\<forall>p. \<forall>w < unat (m_num_ways t). \<forall>w' < unat (m_num_ways t).
     tlb_match t w p \<and> tlb_match t w' p \<longrightarrow> w = w')"

lemma find_way_match:
  "find_way t (page_align addr) (mmu_set t addr) =
     List.find (\<lambda>way. tlb_match t way (page_of addr)) (mmu_ways t)"
  by (simp add: find_way_def tlb_match_def Let_def valid_bit mmu_set_of
      eq_commute[of "page_of addr"])

lemma tlb_lookup_Some:
  "tlb_lookup t p = Some v \<longleftrightarrow> (\<exists>w < unat (m_num_ways t). tlb_match t w p \<and>
     (\<forall>j<w. \<not> tlb_match t j p) \<and> v = m_tlb t ! tlb_tr w (set_of t p))"
  by (auto simp: tlb_lookup_def mmu_ways_def find_upt_Some)

lemma tlb_lookup_None:
  "tlb_lookup t p = None \<longleftrightarrow> (\<forall>w < unat (m_num_ways t). \<not> tlb_match t w p)"
  by (auto simp: tlb_lookup_def mmu_ways_def find_upt_None)

lemma tlb_lookup_way:
  "tlb_distinct t \<Longrightarrow> w < unat (m_num_ways t) \<Longrightarrow> tlb_match t w p \<Longrightarrow>
   tlb_lookup t p = Some (m_tlb t ! tlb_tr w (set_of t p))"
  unfolding tlb_lookup_Some tlb_distinct_def by (metis less_trans nat_neq_iff)

lemma oldest_way_mem: "oldest_way t st ways sel oldest \<in> insert sel (set ways)"
  by (induction ways arbitrary: sel oldest) (auto simp: Let_def)

lemma find_empty_way_less: "mmu_wf t \<Longrightarrow> find_empty_way t st < unat (m_num_ways t)"
  using oldest_way_mem[of t st "mmu_ways t" 0 0]
  by (auto simp: find_empty_way_def mmu_ways_def find_upt_Some mmu_wf_def split: option.splits)

text \<open>Two TLBs with the same keys and translations; counters may differ.\<close>

definition tlb_equiv :: "mmu \<Rightarrow> mmu \<Rightarrow> bool" where
  "tlb_equiv t t' \<longleftrightarrow>
     (\<exists>regs. t' = t\<lparr>m_tlb := regs\<rparr> \<and> length regs = length (m_tlb t)) \<and>
     (\<forall>way < unat (m_num_ways t). \<forall>st < OR1KISS_TLB_MAX_SETS.
        m_tlb t' ! tlb_tr way st = m_tlb t ! tlb_tr way st \<and>
        bit (m_tlb t' ! tlb_mr way st) 0 = bit (m_tlb t ! tlb_mr way st) 0 \<and>
        page_of (m_tlb t' ! tlb_mr way st) = page_of (m_tlb t ! tlb_mr way st))"

lemma tlb_equiv_refl [simp]: "tlb_equiv t t"
  by (auto simp: tlb_equiv_def intro!: exI[of _ "m_tlb t"])

lemma tlb_equiv_trans: "tlb_equiv t u \<Longrightarrow> tlb_equiv u v \<Longrightarrow> tlb_equiv t v"
  by (auto simp: tlb_equiv_def)

lemma tlb_equiv_fields:
  "tlb_equiv t t' \<Longrightarrow> m_num_ways t' = m_num_ways t" "tlb_equiv t t' \<Longrightarrow> set_of t' p = set_of t p"
  "tlb_equiv t t' \<Longrightarrow> m_cfg t' = m_cfg t" "tlb_equiv t t' \<Longrightarrow> m_ctrl t' = m_ctrl t"
  "tlb_equiv t t' \<Longrightarrow> mmu_ways t' = mmu_ways t" "tlb_equiv t t' \<Longrightarrow> mmu_set t' a = mmu_set t a"
  by (auto simp: tlb_equiv_def set_of_def mmu_ways_def mmu_set_def)

lemma tlb_equiv_wf: "tlb_equiv t t' \<Longrightarrow> mmu_wf t' = mmu_wf t"
  by (auto simp: tlb_equiv_def mmu_wf_def)

lemma tlb_equiv_match:
  assumes "tlb_equiv t t'" "mmu_wf t" "way < unat (m_num_ways t)"
  shows "tlb_match t' way p = tlb_match t way p"
  using assms set_of_less[OF assms(2), of p] tlb_equiv_fields[OF assms(1)]
  by (auto simp: tlb_match_def Let_def tlb_equiv_def)

lemma tlb_equiv_find:
  assumes "tlb_equiv t t'" "mmu_wf t"
  shows "List.find (\<lambda>way. tlb_match t' way p) (mmu_ways t')
       = List.find (\<lambda>way. tlb_match t way p) (mmu_ways t)"
  using assms tlb_equiv_fields(5)[OF assms(1)]
  by (intro find_cong) (auto simp: mmu_ways_def tlb_equiv_match)

lemma tlb_equiv_lookup:
  assumes "tlb_equiv t t'" "mmu_wf t"
  shows "tlb_lookup t' p = tlb_lookup t p"
proof (cases "List.find (\<lambda>way. tlb_match t way p) (mmu_ways t)")
  case None
  then show ?thesis by (simp add: tlb_lookup_def tlb_equiv_find[OF assms])
next
  case (Some w)
  then have "w < unat (m_num_ways t)" by (simp add: mmu_ways_def find_upt_Some)
  with Some assms set_of_less[OF assms(2), of p] show ?thesis
    by (simp add: tlb_lookup_def tlb_equiv_find[OF assms] tlb_equiv_fields(2)[OF assms(1)])
      (simp add: tlb_equiv_def)
qed

lemma tlb_equiv_distinct:
  "tlb_equiv t t' \<Longrightarrow> mmu_wf t \<Longrightarrow> tlb_distinct t' = tlb_distinct t"
  by (simp add: tlb_distinct_def tlb_equiv_fields tlb_equiv_match cong: conj_cong)

section \<open>Ageing\<close>

lemma aged_key:
  "bit ((m AND NOT MMUM_LRU3) OR ((m AND MMUM_LRU3) + MMUM_LRU1)) n = bit m n"
  if "n = 0 \<or> 13 \<le> n"
proof -
  let ?a = "m AND MMUM_LRU3"
  have "?a = 0 \<or> ?a = 0x40 \<or> ?a = 0x80 \<or> ?a = 0xc0"
  proof -
    have b: "bit ?a k \<longleftrightarrow> (k = 6 \<or> k = 7) \<and> bit m k" for k
      by (auto simp: bit_and_iff bit_MMUM_LRU3)
    have v: "?a = (if bit m 6 then push_bit 6 1 else 0) OR (if bit m 7 then push_bit 7 1 else 0)"
      by (rule bit_word_eqI) (auto simp: b bit_or_iff bit_push_bit_one simp del: push_bit_of_1)
    show ?thesis unfolding v by auto
  qed
  then have y: "?a + MMUM_LRU1 \<in> {0x40, 0x80, 0xc0, 0x100}"
    by (auto simp: MMUM_LRU1_def)
  then have "unat (?a + MMUM_LRU1) < 2 ^ 13" by auto
  from not_bit_small[OF this] have "\<not> bit (?a + MMUM_LRU1) n" if "13 \<le> n" using that .
  moreover have "\<not> bit y 0" if "y \<in> {0x40, 0x80, 0xc0, 0x100}" for y :: u32
    using that by (auto simp: bit_0)
  from this[OF y] have "\<not> bit (?a + MMUM_LRU1) 0" .
  ultimately have "\<not> bit (?a + MMUM_LRU1) n" using that by auto
  with that show ?thesis by (auto simp: bit_simps bit_MMUM_LRU3 dest: bit_imp_le_length)
qed

text \<open>Replacing one match register by one with the same key.\<close>

lemma tlb_equiv_update:
  assumes "mmu_wf t" "way < unat (m_num_ways t)" "st < OR1KISS_TLB_MAX_SETS"
    and "\<And>n. n = 0 \<or> 13 \<le> n \<Longrightarrow> bit m n = bit (m_tlb t ! tlb_mr way st) n"
  shows "tlb_equiv t (t\<lparr>m_tlb := (m_tlb t)[tlb_mr way st := m]\<rparr>)"
proof -
  have pg: "page_of m = page_of (m_tlb t ! tlb_mr way st)"
    using assms(4) by (simp add: page_of_eq_iff)
  have "m_tlb (t\<lparr>m_tlb := (m_tlb t)[tlb_mr way st := m]\<rparr>) ! tlb_tr w s = m_tlb t ! tlb_tr w s \<and>
      bit (m_tlb (t\<lparr>m_tlb := (m_tlb t)[tlb_mr way st := m]\<rparr>) ! tlb_mr w s) 0
        = bit (m_tlb t ! tlb_mr w s) 0 \<and>
      page_of (m_tlb (t\<lparr>m_tlb := (m_tlb t)[tlb_mr way st := m]\<rparr>) ! tlb_mr w s)
        = page_of (m_tlb t ! tlb_mr w s)"
    if "w < unat (m_num_ways t)" "s < OR1KISS_TLB_MAX_SETS" for w s
    using tlb_index_less[OF assms(1-3)] tlb_index_inj[OF assms(3) that(2), of way w] assms(4) pg
    by (cases "way = w \<and> st = s") (auto simp: nth_list_update)
  then show ?thesis
    by (auto simp: tlb_equiv_def intro!: exI[of _ "(m_tlb t)[tlb_mr way st := m]"])
qed

lemma age_way_equiv:
  "mmu_wf t \<Longrightarrow> way < unat (m_num_ways t) \<Longrightarrow> st < OR1KISS_TLB_MAX_SETS \<Longrightarrow>
   tlb_equiv t (age_way st way t)"
  by (auto simp: age_way_def Let_def aged_key intro!: tlb_equiv_update)

lemma age_fold_equiv:
  "mmu_wf t \<Longrightarrow> (\<forall>w \<in> set ws. w < unat (m_num_ways t)) \<Longrightarrow> st < OR1KISS_TLB_MAX_SETS \<Longrightarrow>
   tlb_equiv t (fold (age_way st) ws t)"
proof (induction ws arbitrary: t)
  case (Cons w ws)
  have e: "tlb_equiv t (age_way st w t)" using Cons.prems by (intro age_way_equiv) auto
  have "tlb_equiv (age_way st w t) (fold (age_way st) ws (age_way st w t))"
    using Cons.prems tlb_equiv_wf[OF e] tlb_equiv_fields(1)[OF e] by (intro Cons.IH) auto
  with e show ?case by (auto intro: tlb_equiv_trans)
qed simp

lemma age_set_equiv:
  "mmu_wf t \<Longrightarrow> st < OR1KISS_TLB_MAX_SETS \<Longrightarrow> tlb_equiv t (age_set st t)"
  by (simp add: age_set_def mmu_ways_def age_fold_equiv)

section \<open>Hits, refills and flushes\<close>

definition tlb_install :: "page \<Rightarrow> u32 \<Rightarrow> mmu \<Rightarrow> mmu" where
  "tlb_install p v t =
     (let st = set_of t p; way = find_empty_way t st
      in t\<lparr>m_tlb := (m_tlb t)[tlb_mr way st := push_bit 13 (ucast p) OR MMUM_V, tlb_tr way st := v]\<rparr>)"

definition tlb_flush :: "page \<Rightarrow> mmu \<Rightarrow> mmu" where
  "tlb_flush p t = flush_tlb_entry (push_bit 13 (ucast p)) t"

lemma page_of_push [simp]: "page_of (push_bit 13 (ucast p)) = p"
  by (rule bit_word_eqI) (auto simp: bitfield_simps bit_simps)

lemma page_align_push: "page_align a = push_bit 13 (ucast (page_of a))"
  by (rule bit_word_eqI) (auto simp: bitfield_simps bit_simps dest: bit_imp_le_length)

lemma match_word:
  "bit (push_bit 13 (ucast p) OR MMUM_V :: u32) 0" "page_of (push_bit 13 (ucast p) OR MMUM_V) = p"
  by (auto simp: MMUM_V_def bit_or_iff)
    (auto simp: bitfield_simps bit_simps intro!: bit_word_eqI)

lemma set_of_update [simp]: "set_of (t\<lparr>m_tlb := r\<rparr>) p = set_of t p"
  by (simp add: set_of_def)

lemma mmu_ways_update [simp]: "mmu_ways (t\<lparr>m_tlb := r\<rparr>) = mmu_ways t"
  by (simp add: mmu_ways_def)

lemma mmu_wf_update [simp]: "length r = length (m_tlb t) \<Longrightarrow> mmu_wf (t\<lparr>m_tlb := r\<rparr>) = mmu_wf t"
  by (simp add: mmu_wf_def)

text \<open>The effect on the keys of overwriting both registers of one way.\<close>

lemma tlb_match_overwrite:
  assumes "mmu_wf t" "way < unat (m_num_ways t)" "w < unat (m_num_ways t)"
    and "st < OR1KISS_TLB_MAX_SETS"
  shows "tlb_match (t\<lparr>m_tlb := (m_tlb t)[tlb_mr way st := m, tlb_tr way st := v]\<rparr>) w p \<longleftrightarrow>
    (if w = way \<and> set_of t p = st then bit m 0 \<and> page_of m = p else tlb_match t w p)"
  using tlb_index_less[OF assms(1,2,4)] set_of_less[OF assms(1), of p]
    tlb_index_inj[OF assms(4) set_of_less[OF assms(1), of p], of way w]
    tlb_index_inj[OF set_of_less[OF assms(1), of p] assms(4), of w way]
  by (auto simp: tlb_match_def Let_def nth_list_update)

lemma tlb_tr_overwrite:
  assumes "mmu_wf t" "way < unat (m_num_ways t)" "w < unat (m_num_ways t)"
    and "st < OR1KISS_TLB_MAX_SETS" "s < OR1KISS_TLB_MAX_SETS"
  shows "(m_tlb t)[tlb_mr way st := m, tlb_tr way st := v] ! tlb_tr w s =
    (if w = way \<and> s = st then v else m_tlb t ! tlb_tr w s)"
  using tlb_index_less[OF assms(1,2,4)] tlb_index_inj[OF assms(4,5), of way w]
    tlb_index_inj[OF assms(5,4), of w way]
  by (auto simp: nth_list_update)

lemma tlb_match_install:
  assumes "mmu_wf t" "w < unat (m_num_ways t)"
  shows "tlb_match (tlb_install p v t) w q \<longleftrightarrow>
    (if w = find_empty_way t (set_of t p) \<and> set_of t q = set_of t p then p = q else tlb_match t w q)"
  using tlb_match_overwrite[OF assms(1) find_empty_way_less[OF assms(1)] assms(2)
      set_of_less[OF assms(1)], of "set_of t p" p "push_bit 13 (ucast p) OR MMUM_V" v q] match_word
  by (auto simp: tlb_install_def Let_def)

lemma tlb_match_installD:
  assumes "mmu_wf t" "w < unat (m_num_ways t)" "tlb_match (tlb_install p v t) w q"
  obtains "w = find_empty_way t (set_of t p)" "q = p"
  | "\<not> (w = find_empty_way t (set_of t p) \<and> set_of t q = set_of t p)" "tlb_match t w q"
proof (cases "w = find_empty_way t (set_of t p) \<and> set_of t q = set_of t p")
  case True
  with assms(3) have "q = p" unfolding tlb_match_install[OF assms(1,2)] by simp
  with True show thesis using that(1) by blast
next
  case False
  with assms(3) have "tlb_match t w q" unfolding tlb_match_install[OF assms(1,2)] by simp
  with False show thesis using that(2) by blast
qed

lemma tlb_tr_install:
  assumes "mmu_wf t" "w < unat (m_num_ways t)"
  shows "m_tlb (tlb_install p v t) ! tlb_tr w (set_of t q) =
    (if w = find_empty_way t (set_of t p) \<and> set_of t q = set_of t p then v
     else m_tlb t ! tlb_tr w (set_of t q))"
  using tlb_tr_overwrite[OF assms(1) find_empty_way_less[OF assms(1)] assms(2)
      set_of_less[OF assms(1)] set_of_less[OF assms(1)], of "set_of t p" p
      "push_bit 13 (ucast p) OR MMUM_V" v q]
  by (simp add: tlb_install_def Let_def)

lemma tlb_install_fields [simp]:
  "m_num_ways (tlb_install p v t) = m_num_ways t" "set_of (tlb_install p v t) q = set_of t q"
  "mmu_wf (tlb_install p v t) = mmu_wf t" "mmu_ways (tlb_install p v t) = mmu_ways t"
  by (simp_all add: tlb_install_def Let_def)

lemma tlb_distinct_install:
  assumes "mmu_wf t" "tlb_distinct t" "tlb_lookup t p = None"
  shows "tlb_distinct (tlb_install p v t)"
  unfolding tlb_distinct_def
proof (intro allI impI, elim conjE)
  fix q w w'
  assume "w < unat (m_num_ways (tlb_install p v t))" "w' < unat (m_num_ways (tlb_install p v t))"
    and m: "tlb_match (tlb_install p v t) w q" "tlb_match (tlb_install p v t) w' q"
  then have lt: "w < unat (m_num_ways t)" "w' < unat (m_num_ways t)" by simp_all
  have none: "\<not> tlb_match t x p" if "x < unat (m_num_ways t)" for x
    using assms(3) that by (simp add: tlb_lookup_None)
  note mi = tlb_match_installD[OF assms(1)]
  show "w = w'"
  proof (cases "q = p")
    case True
    have "x = find_empty_way t (set_of t p)"
      if "x < unat (m_num_ways t)" "tlb_match (tlb_install p v t) x q" for x
      using that by (rule mi) (use none[OF that(1)] True in auto)
    from this[OF lt(1) m(1)] this[OF lt(2) m(2)] show ?thesis by simp
  next
    case False
    have "tlb_match t x q" if "x < unat (m_num_ways t)" "tlb_match (tlb_install p v t) x q" for x
      using that by (rule mi) (use False in auto)
    from this[OF lt(1) m(1)] this[OF lt(2) m(2)] lt assms(2) show ?thesis
      by (simp add: tlb_distinct_def)
  qed
qed

lemma tlb_lookup_install:
  assumes "mmu_wf t" "tlb_distinct t" "tlb_lookup t p = None"
  shows "tlb_lookup (tlb_install p v t) p = Some v"
proof -
  let ?w = "find_empty_way t (set_of t p)" and ?t = "tlb_install p v t"
  have lt: "?w < unat (m_num_ways t)" by (rule find_empty_way_less[OF assms(1)])
  have "tlb_match ?t ?w p" unfolding tlb_match_install[OF assms(1) lt] by simp
  moreover have "m_tlb ?t ! tlb_tr ?w (set_of t p) = v"
    unfolding tlb_tr_install[OF assms(1) lt] by simp
  ultimately show ?thesis
    using tlb_lookup_way[OF tlb_distinct_install[OF assms, where v = v], where w = ?w and p = p] lt
    by simp
qed

lemma tlb_lookup_install_other:
  assumes "mmu_wf t" "tlb_distinct t" "tlb_lookup t p = None" "q \<noteq> p"
  shows "tlb_lookup (tlb_install p v t) q = tlb_lookup t q \<or> tlb_lookup (tlb_install p v t) q = None"
proof (cases "tlb_lookup (tlb_install p v t) q")
  case (Some x)
  then obtain w where w: "w < unat (m_num_ways t)" "tlb_match (tlb_install p v t) w q"
    "x = m_tlb (tlb_install p v t) ! tlb_tr w (set_of t q)"
    by (auto simp: tlb_lookup_Some)
  from w(1,2) have old: "tlb_match t w q \<and>
      \<not> (w = find_empty_way t (set_of t p) \<and> set_of t q = set_of t p)"
    by (rule tlb_match_installD[OF assms(1)]) (use assms(4) in auto)
  then have "x = m_tlb t ! tlb_tr w (set_of t q)"
    using w(3) unfolding tlb_tr_install[OF assms(1) w(1)] by (simp only: if_False)
  with tlb_lookup_way[OF assms(2) w(1) old[THEN conjunct1]] Some show ?thesis by simp
qed simp

text \<open>The outcome of invalidating the ways \<open>W\<close> of a set for one page.\<close>

definition flush_result :: "page \<Rightarrow> nat \<Rightarrow> nat set \<Rightarrow> mmu \<Rightarrow> mmu \<Rightarrow> bool" where
  "flush_result pg st W t t' \<longleftrightarrow>
     (\<exists>r. t' = t\<lparr>m_tlb := r\<rparr> \<and> length r = length (m_tlb t)) \<and>
     (\<forall>w < unat (m_num_ways t). \<forall>s < OR1KISS_TLB_MAX_SETS.
        m_tlb t' ! tlb_tr w s = m_tlb t ! tlb_tr w s \<and>
        m_tlb t' ! tlb_mr w s =
          (if s = st \<and> w \<in> W \<and> page_of (m_tlb t ! tlb_mr w s) = pg
           then m_tlb t ! tlb_mr w s AND NOT MMUM_V else m_tlb t ! tlb_mr w s))"

lemma invalid_key:
  "page_of (m AND NOT MMUM_V) = page_of m" "(m AND NOT MMUM_V) AND NOT MMUM_V = m AND NOT MMUM_V"
  "\<not> bit (m AND NOT MMUM_V) 0"
  by (auto simp: page_of_eq_iff MMUM_V_def bit_simps intro!: bit_word_eqI)

lemma flush_result_trans:
  assumes "flush_result pg st W t u" "flush_result pg st X u v"
  shows "flush_result pg st (W \<union> X) t v"
proof -
  obtain r where u: "u = t\<lparr>m_tlb := r\<rparr>" "length r = length (m_tlb t)"
    using assms(1) by (auto simp: flush_result_def)
  obtain r' where v: "v = u\<lparr>m_tlb := r'\<rparr>" "length r' = length (m_tlb u)"
    using assms(2) by (auto simp: flush_result_def)
  have "m_tlb v ! tlb_tr w s = m_tlb t ! tlb_tr w s \<and>
      m_tlb v ! tlb_mr w s =
        (if s = st \<and> w \<in> W \<union> X \<and> page_of (m_tlb t ! tlb_mr w s) = pg
         then m_tlb t ! tlb_mr w s AND NOT MMUM_V else m_tlb t ! tlb_mr w s)"
    if ws: "w < unat (m_num_ways t)" "s < OR1KISS_TLB_MAX_SETS" for w s
  proof -
    have a: "m_tlb u ! tlb_tr w s = m_tlb t ! tlb_tr w s"
      "m_tlb u ! tlb_mr w s = (if s = st \<and> w \<in> W \<and> page_of (m_tlb t ! tlb_mr w s) = pg
         then m_tlb t ! tlb_mr w s AND NOT MMUM_V else m_tlb t ! tlb_mr w s)"
      using assms(1) ws unfolding flush_result_def by blast+
    have "w < unat (m_num_ways u)" using ws u by simp
    then have b: "m_tlb v ! tlb_tr w s = m_tlb u ! tlb_tr w s"
      "m_tlb v ! tlb_mr w s = (if s = st \<and> w \<in> X \<and> page_of (m_tlb u ! tlb_mr w s) = pg
         then m_tlb u ! tlb_mr w s AND NOT MMUM_V else m_tlb u ! tlb_mr w s)"
      using assms(2) ws unfolding flush_result_def by blast+
    show ?thesis unfolding b a by (auto simp: invalid_key)
  qed
  with u v show ?thesis by (auto simp: flush_result_def)
qed

lemma flush_way_result:
  assumes "mmu_wf t" "x < unat (m_num_ways t)" "st < OR1KISS_TLB_MAX_SETS"
  shows "flush_result (page_of vpg) st {x} t (flush_way vpg st x t)"
proof -
  have "m_tlb (flush_way vpg st x t) ! tlb_tr w s = m_tlb t ! tlb_tr w s \<and>
      m_tlb (flush_way vpg st x t) ! tlb_mr w s =
        (if s = st \<and> w = x \<and> page_of (m_tlb t ! tlb_mr w s) = page_of vpg
         then m_tlb t ! tlb_mr w s AND NOT MMUM_V else m_tlb t ! tlb_mr w s)"
    if "s < OR1KISS_TLB_MAX_SETS" for w s
    using tlb_index_less[OF assms] tlb_index_inj[OF assms(3) that, of x w]
    by (cases "x = w \<and> st = s")
      (auto simp: flush_way_def Let_def nth_list_update eq_commute[of "page_of vpg"])
  moreover have "\<exists>r. flush_way vpg st x t = t\<lparr>m_tlb := r\<rparr> \<and> length r = length (m_tlb t)"
    by (auto simp: flush_way_def Let_def intro: exI[of _ "m_tlb t"]
        exI[of _ "(m_tlb t)[tlb_mr x st := m_tlb t ! tlb_mr x st AND NOT MMUM_V]"])
  ultimately show ?thesis by (auto simp: flush_result_def)
qed

lemma flush_fold:
  assumes "mmu_wf t" "\<forall>w \<in> set ws. w < unat (m_num_ways t)" "st < OR1KISS_TLB_MAX_SETS"
  shows "flush_result (page_of vpg) st (set ws) t (fold (flush_way vpg st) ws t)"
  using assms
proof (induction ws arbitrary: t)
  case Nil
  show ?case by (auto simp: flush_result_def intro!: exI[of _ "m_tlb t"])
next
  case (Cons x ws)
  have f: "flush_result (page_of vpg) st {x} t (flush_way vpg st x t)"
    using Cons.prems by (intro flush_way_result) auto
  then obtain r where "flush_way vpg st x t = t\<lparr>m_tlb := r\<rparr>" "length r = length (m_tlb t)"
    by (auto simp: flush_result_def)
  then have "flush_result (page_of vpg) st (set ws) (flush_way vpg st x t)
      (fold (flush_way vpg st) ws (flush_way vpg st x t))"
    using Cons.prems by (intro Cons.IH) auto
  from flush_result_trans[OF f this] show ?case by simp
qed

lemma flush_entry_match:
  assumes "mmu_wf t" "w < unat (m_num_ways t)"
  shows "tlb_match (flush_tlb_entry a t) w q \<longleftrightarrow> q \<noteq> page_of a \<and> tlb_match t w q"
    and "m_tlb (flush_tlb_entry a t) ! tlb_tr w (set_of t q) = m_tlb t ! tlb_tr w (set_of t q)"
    and "m_num_ways (flush_tlb_entry a t) = m_num_ways t"
    and "set_of (flush_tlb_entry a t) q = set_of t q" and "mmu_wf (flush_tlb_entry a t)"
proof -
  have f: "flush_result (page_of a) (set_of t (page_of a)) (set (mmu_ways t)) t (flush_tlb_entry a t)"
    using flush_fold[OF assms(1), of "mmu_ways t" "set_of t (page_of a)" "page_align a"]
      set_of_less[OF assms(1)]
    by (simp add: flush_tlb_entry_def mmu_ways_def mmu_set_of)
  then obtain r where r: "flush_tlb_entry a t = t\<lparr>m_tlb := r\<rparr>" "length r = length (m_tlb t)"
    by (auto simp: flush_result_def)
  have "w \<in> set (mmu_ways t)" using assms(2) by (simp add: mmu_ways_def)
  then have rw: "r ! tlb_mr w (set_of t q) =
      (if set_of t q = set_of t (page_of a) \<and> page_of (m_tlb t ! tlb_mr w (set_of t q)) = page_of a
       then m_tlb t ! tlb_mr w (set_of t q) AND NOT MMUM_V else m_tlb t ! tlb_mr w (set_of t q))"
    and e: "r ! tlb_tr w (set_of t q) = m_tlb t ! tlb_tr w (set_of t q)"
    using f assms set_of_less[OF assms(1), of q] unfolding flush_result_def r by auto
  show "tlb_match (flush_tlb_entry a t) w q \<longleftrightarrow> q \<noteq> page_of a \<and> tlb_match t w q"
    unfolding r tlb_match_def Let_def using rw invalid_key by auto
  show "m_tlb (flush_tlb_entry a t) ! tlb_tr w (set_of t q) = m_tlb t ! tlb_tr w (set_of t q)"
    using e by (simp add: r)
  show "m_num_ways (flush_tlb_entry a t) = m_num_ways t" "set_of (flush_tlb_entry a t) q = set_of t q"
    "mmu_wf (flush_tlb_entry a t)"
    using assms r by simp_all
qed

lemma flush_entry_lookup:
  assumes "mmu_wf t" "tlb_distinct t"
  shows "tlb_distinct (flush_tlb_entry a t)"
    and "tlb_lookup (flush_tlb_entry a t) q = (if q = page_of a then None else tlb_lookup t q)"
proof -
  let ?t = "flush_tlb_entry a t"
  have n: "m_num_ways ?t = m_num_ways t" "set_of ?t q = set_of t q" for q
    using flush_entry_match[OF assms(1)] assms(1) by (auto simp: mmu_wf_def)
  note m = flush_entry_match(1,2)[OF assms(1)]
  show "tlb_distinct ?t"
    using assms(2) by (auto simp: tlb_distinct_def n m)
  show "tlb_lookup ?t q = (if q = page_of a then None else tlb_lookup t q)"
  proof (cases "q = page_of a")
    case True
    then show ?thesis by (simp add: tlb_lookup_None n m)
  next
    case False
    have "List.find (\<lambda>way. tlb_match ?t way q) (mmu_ways ?t)
        = List.find (\<lambda>way. tlb_match t way q) (mmu_ways t)"
      using False by (intro find_cong) (auto simp: mmu_ways_def n m)
    moreover have "m_tlb ?t ! tlb_tr way (set_of t q) = m_tlb t ! tlb_tr way (set_of t q)"
      if "List.find (\<lambda>way. tlb_match t way q) (mmu_ways t) = Some way" for way
      using that by (auto simp: mmu_ways_def find_upt_Some m)
    ultimately show ?thesis
      using False by (cases "List.find (\<lambda>way. tlb_match t way q) (mmu_ways t)")
        (simp_all add: tlb_lookup_def n)
  qed
qed

definition tlb_wf :: "mmu \<Rightarrow> bool" where
  "tlb_wf t \<longleftrightarrow> mmu_wf t \<and> tlb_distinct t"

interpretation tlb: lookup_cache tlb_wf tlb_lookup tlb_install tlb_flush "\<lambda>_ _. True"
proof
  fix t p v
  assume a: "tlb_wf t" "tlb_lookup t p = None"
  then show "tlb_wf (tlb_install p v t)" "tlb_lookup (tlb_install p v t) p = Some v"
    by (simp_all add: tlb_wf_def tlb_distinct_install tlb_lookup_install)
  show "tlb_lookup (tlb_install p v t) q = tlb_lookup t q \<or> tlb_lookup (tlb_install p v t) q = None"
    if "q \<noteq> p" for q
    using a that by (simp add: tlb_wf_def tlb_lookup_install_other)
next
  fix t p
  assume a: "tlb_wf t"
  then have "0 < unat (m_num_ways t)" by (simp add: tlb_wf_def mmu_wf_def)
  with a show "tlb_wf (tlb_flush p t)"
    by (auto simp: tlb_wf_def tlb_flush_def flush_entry_lookup flush_entry_match)
  show "tlb_lookup (tlb_flush p t) p = None"
    using a by (simp add: tlb_wf_def tlb_flush_def flush_entry_lookup)
  show "tlb_lookup (tlb_flush p t) q = tlb_lookup t q" if "q \<noteq> p" for q
    using a that by (simp add: tlb_wf_def tlb_flush_def flush_entry_lookup)
qed

lemma new_mmu_tlb_wf:
  assumes "new_mmu config b = Inr t"
  shows "tlb_wf t" "tlb_lookup t p = None"
proof -
  have wf: "mmu_wf t" using assms by (rule new_mmu_wf)
  have z: "m_tlb t = replicate OR1KISS_TLB_MAX_REGS 0"
    using assms by (auto simp: new_mmu_def Let_def split: if_splits)
  have "\<not> tlb_match t w q" if "w < unat (m_num_ways t)" for w q
    using tlb_index_less[OF wf that set_of_less[OF wf, of q]]
    by (simp add: tlb_match_def z)
  then show "tlb_wf t" "tlb_lookup t p = None"
    using wf by (auto simp: tlb_wf_def tlb_distinct_def tlb_lookup_None)
qed

lemma flush_tlb_lookup:
  assumes "mmu_wf t"
  shows "tlb_wf (flush_tlb t)" "tlb_lookup (flush_tlb t) p = None"
proof -
  have wf: "mmu_wf (flush_tlb t)" using assms by (simp add: flush_tlb_def)
  have "\<not> tlb_match (flush_tlb t) w q" if "w < unat (m_num_ways t)" for w q
    using tlb_index_less[OF assms that set_of_less[OF assms, of q]]
    by (simp add: tlb_match_def flush_tlb_def)
  then show "tlb_wf (flush_tlb t)" "tlb_lookup (flush_tlb t) p = None"
    using wf by (auto simp: tlb_wf_def tlb_distinct_def tlb_lookup_None flush_tlb_def)
qed

section \<open>Translation\<close>

text \<open>The request and the TLB after a hit, in terms of the map.\<close>

lemma bit_MMU_small: "bit MMUPTE_A n \<longleftrightarrow> n = 4" "bit MMUPTE_D n \<longleftrightarrow> n = 5"
  by (auto simp: MMUPTE_A_def MMUPTE_D_def bit_push_bit_one simp del: push_bit_of_1)

lemma bit_mark_accessed:
  "bit (mark_accessed req tr) n \<longleftrightarrow> bit tr n \<or> n = 4 \<or> n = 5 \<and> is_write req"
  by (auto simp: mark_accessed_def Let_def bit_or_iff bit_MMU_small)

lemma page_align_mark [simp]: "page_align (mark_accessed req tr) = page_align tr"
  by (rule bit_word_eqI) (auto simp: bitfield_simps bit_mark_accessed)

lemma mark_accessed_idem [simp]: "mark_accessed req (mark_accessed req tr) = mark_accessed req tr"
  by (rule bit_word_eqI) (auto simp: bit_mark_accessed)

lemma mark_accessed_rights: "tr AND m \<noteq> 0 \<Longrightarrow> mark_accessed req tr AND m \<noteq> 0"
  by (auto simp: bit_eq_iff[where 'a = "32 word"] bit_and_iff bit_mark_accessed)

text \<open>Marking the entry of a matching way.\<close>

definition tlb_touch :: "page \<Rightarrow> nat \<Rightarrow> u32 \<Rightarrow> mmu \<Rightarrow> mmu" where
  "tlb_touch p way tr t =
     (let st = set_of t p
      in t\<lparr>m_tlb := (m_tlb t)[tlb_tr way st := tr,
             tlb_mr way st := m_tlb t ! tlb_mr way st AND NOT MMUM_LRU3]\<rparr>)"

lemma tlb_touch:
  assumes wf: "tlb_wf t" and way: "way < unat (m_num_ways t)" "tlb_match t way p"
  shows "tlb_wf (tlb_touch p way tr t)"
    and "tlb_lookup (tlb_touch p way tr t) q = (if q = p then Some tr else tlb_lookup t q)"
proof -
  let ?st = "set_of t p" and ?t = "tlb_touch p way tr t"
  let ?m = "m_tlb t ! tlb_mr way ?st AND NOT MMUM_LRU3"
  have mw: "mmu_wf t" using wf by (simp add: tlb_wf_def)
  note st = set_of_less[OF mw, of p]
  have swap: "?t = t\<lparr>m_tlb := (m_tlb t)[tlb_mr way ?st := ?m, tlb_tr way ?st := tr]\<rparr>"
    using tlb_index_inj(3)[OF st st, of way way]
    by (simp add: tlb_touch_def Let_def list_update_swap)
  have key: "bit ?m 0 = bit (m_tlb t ! tlb_mr way ?st) 0" "page_of ?m = page_of (m_tlb t ! tlb_mr way ?st)"
    by (auto simp: page_of_eq_iff bit_simps bit_MMUM_LRU3)
  have m: "tlb_match ?t w q = tlb_match t w q" if "w < unat (m_num_ways t)" for w q
    unfolding swap tlb_match_overwrite[OF mw way(1) that st]
    by (cases "w = way \<and> set_of t q = ?st") (auto simp: key tlb_match_def Let_def)
  have f [simp]: "m_num_ways ?t = m_num_ways t" "set_of ?t q = set_of t q" "mmu_ways ?t = mmu_ways t" for q
    by (simp_all add: swap)
  show w: "tlb_wf ?t"
    using wf m by (auto simp: tlb_wf_def tlb_distinct_def) (simp add: swap)
  have e: "m_tlb ?t ! tlb_tr w (set_of t q) =
      (if w = way \<and> set_of t q = ?st then tr else m_tlb t ! tlb_tr w (set_of t q))"
    if "w < unat (m_num_ways t)" for w q
    using tlb_tr_overwrite[OF mw way(1) that st set_of_less[OF mw, of q]] by (simp add: swap)
  show "tlb_lookup ?t q = (if q = p then Some tr else tlb_lookup t q)"
  proof (cases "tlb_lookup t q")
    case None
    then have "q \<noteq> p" using way by (auto simp: tlb_lookup_None)
    moreover have "tlb_lookup ?t q = None" using None by (auto simp: tlb_lookup_None m)
    ultimately show ?thesis using None by simp
  next
    case (Some v)
    then obtain w where q: "w < unat (m_num_ways t)" "tlb_match t w q"
      "v = m_tlb t ! tlb_tr w (set_of t q)" by (auto simp: tlb_lookup_Some)
    have "tlb_lookup ?t q = Some (m_tlb ?t ! tlb_tr w (set_of t q))"
      using tlb_lookup_way[of ?t w q] w q m by (simp add: tlb_wf_def)
    moreover have "q = p \<longleftrightarrow> w = way \<and> set_of t q = ?st"
    proof
      assume "q = p"
      then show "w = way \<and> set_of t q = ?st"
        using wf q(1,2) way by (auto simp: tlb_wf_def tlb_distinct_def)
    next
      assume "w = way \<and> set_of t q = ?st"
      then show "q = p" using q(2) way(2) by (auto simp: tlb_match_def Let_def)
    qed
    ultimately show ?thesis using Some q e by auto
  qed
qed

lemma tlb_wf_equiv:
  assumes "tlb_wf t" "tlb_equiv t t'"
  shows "tlb_wf t'" "tlb_lookup t' p = tlb_lookup t p"
  using assms tlb_equiv_wf[OF assms(2)] tlb_equiv_distinct[OF assms(2)] tlb_equiv_lookup[OF assms(2)]
  by (auto simp: tlb_wf_def)

lemma aged_tlb:
  assumes "tlb_wf t"
  shows "tlb_equiv t (age_set (mmu_set t a) t)"
  using assms set_of_less[of t "page_of a"] by (simp add: tlb_wf_def mmu_set_of age_set_equiv)

text \<open>A hit, for an access that is not a debug access.\<close>

lemma tlb_hit_eq:
  assumes wf: "tlb_wf t" and w: "List.find (\<lambda>w. tlb_match t w (page_of (req_addr req))) (mmu_ways t) = Some way"
    and nd: "\<not> m_debug req" and tr: "tlb_lookup t (page_of (req_addr req)) = Some tr"
  shows "tlb_hit req (mmu_set t (req_addr req)) way t =
    (if tr AND access_mask req = 0 then (MMU_PAGE_FAULT, req, t)
     else let tr' = mark_accessed req tr
          in (MMU_OKAY,
              (translated req tr')
                \<lparr>m_cache_coherent := tr' AND MMUPTE_CC \<noteq> 0,
                 m_cache_inhibit := tr' AND MMUPTE_CI \<noteq> 0,
                 m_cache_writeback := tr' AND MMUPTE_WBC \<noteq> 0,
                 m_weakly_ordered := tr' AND MMUPTE_WOM \<noteq> 0\<rparr>,
              tlb_touch (page_of (req_addr req)) way tr' t))"
proof -
  let ?p = "page_of (req_addr req)"
  have mw: "mmu_wf t" using wf by (simp add: tlb_wf_def)
  have way: "way < unat (m_num_ways t)" using w by (simp add: mmu_ways_def find_upt_Some)
  have e: "m_tlb t ! tlb_tr way (set_of t ?p) = tr"
    using tr w by (simp add: tlb_lookup_def)
  have "tlb_tr way (set_of t ?p) < length (m_tlb t)"
    using tlb_index_less[OF mw way set_of_less[OF mw]] by blast
  moreover have "tlb_mr way (set_of t ?p) \<noteq> tlb_tr way (set_of t ?p)"
    using tlb_index_inj(3)[OF set_of_less[OF mw] set_of_less[OF mw]] .
  ultimately show ?thesis
    using nd e by (simp add: tlb_hit_def Let_def mmu_set_of tlb_touch_def)
qed

text \<open>
  Translation as the client sees it. \<open>aged\<close> is the TLB with the counters of the set advanced, which
  has the same entries.
\<close>

definition aged :: "request \<Rightarrow> mmu \<Rightarrow> mmu" where
  "aged req t = (if m_debug req then t else age_set (mmu_set t (req_addr req)) t)"

lemma aged_facts:
  assumes "tlb_wf t"
  shows "tlb_wf (aged req t)" "tlb_lookup (aged req t) p = tlb_lookup t p"
    "m_cfg (aged req t) = m_cfg t" "m_ctrl (aged req t) = m_ctrl t"
    "set_of (aged req t) p = set_of t p" "mmu_set (aged req t) a = mmu_set t a"
proof -
  have e: "tlb_equiv t (aged req t)"
    using aged_tlb[OF assms] by (simp add: aged_def)
  show "tlb_wf (aged req t)" "tlb_lookup (aged req t) p = tlb_lookup t p"
    using tlb_wf_equiv[OF assms e] by simp_all
  show "m_cfg (aged req t) = m_cfg t" "m_ctrl (aged req t) = m_ctrl t"
    "set_of (aged req t) p = set_of t p" "mmu_set (aged req t) a = mmu_set t a"
    using tlb_equiv_fields[OF e] by simp_all
qed

lemma translate_unfold:
  assumes "tlb_wf t"
  shows "translate vt req t e =
    (case List.find (\<lambda>way. tlb_match (aged req t) way (page_of (req_addr req))) (mmu_ways (aged req t)) of
       Some way \<Rightarrow> (let (r, req', t') = tlb_hit req (mmu_set t (req_addr req)) way (aged req t)
                    in Inr (r, req', t', e))
     | None \<Rightarrow> if m_cfg t AND MMUCFG_HTR = 0 \<and> \<not> m_debug req then Inr (MMU_TLB_MISS, req, aged req t, e)
               else table_walk vt req (aged req t) e)"
proof -
  have "find_way (aged req t) (page_align (req_addr req)) (mmu_set t (req_addr req)) =
      List.find (\<lambda>way. tlb_match (aged req t) way (page_of (req_addr req))) (mmu_ways (aged req t))"
    using find_way_match[of "aged req t" "req_addr req"] aged_facts(6)[OF assms] by simp
  then show ?thesis
    unfolding translate_def Let_def aged_def[symmetric]
    by (simp only: aged_facts(3)[OF assms])
qed

lemma lookup_find:
  "tlb_lookup t p = None \<longleftrightarrow> List.find (\<lambda>way. tlb_match t way p) (mmu_ways t) = None"
  by (simp add: tlb_lookup_def)

text \<open>A non-debug refill is an installation in the map.\<close>

lemma refill_eq:
  assumes wf: "tlb_wf t" and nd: "\<not> m_debug req"
    and r: "refill req (mmu_set t (req_addr req)) (page_align (req_addr req)) pte2 cyc t = (MMU_OKAY, req', t')"
  obtains tr where "tr AND access_mask req \<noteq> 0"
    "t' = tlb_install (page_of (req_addr req)) (mark_accessed req tr) t"
    "req_addr req' = page_align tr OR page_offset (req_addr req)"
proof -
  define tr where "tr = (if m_imem req \<and> pte2 AND MMUPTE_EXEC \<noteq> 0
    then (pte2 OR MMUPTE_CC) OR (MMU_SXE OR MMU_UXE) else pte2 OR MMUPTE_CC)"
  have lru: "MMUM_LRU0 OR x = x" for x
    by (simp add: MMUM_LRU0_def)
  have rights: "tr AND access_mask req \<noteq> 0"
    using r nd by (auto simp: refill_def Let_def tr_def[symmetric] split: if_splits)
  show thesis
    by (rule that[OF rights])
      (use r nd rights in \<open>auto simp: refill_def Let_def tr_def[symmetric] tlb_install_def mmu_set_of
        lru page_align_push[of "req_addr req"] translated_def\<close>)
qed

lemma table_walk_cases:
  assumes "table_walk vt req t e = Inr (r, req', t', e')"
  obtains "r = MMU_TLB_MISS" "req' = req" "t' = t"
  | pte2 cyc where
    "refill req (mmu_set t (req_addr req)) (page_align (req_addr req)) pte2 cyc t = (r, req', t')"
proof -
  let ?q = "req\<lparr>req_endian := host_endian, m_imem := False, m_read := True, req_cycles := 0\<rparr>"
  let ?pd = "m_ctrl t AND MMUCR_PGD"
  have pd: "?pd \<noteq> 0 \<or> r = MMU_TLB_MISS \<and> req' = req \<and> t' = t"
    using assms by (auto simp: table_walk_def)
  show thesis
  proof (cases "?pd = 0")
    case True
    with pd that(1) show thesis by blast
  next
    case False
    note walk = assms[unfolded table_walk_def Let_def if_not_P[OF False]]
    obtain p1 q1 e1 where r1: "read_pte vt ?q (?pd + push_bit 2 (bits32 (req_addr req) 31 24)) e
        = Inr (p1, q1, e1)"
      using walk by (auto simp: bindE_eq_Inr)
    show thesis
    proof (cases "p1 = None \<or> p1 = Some 0")
      case True
      with walk r1 that(1) show thesis by auto
    next
      case False
      then obtain pte1 where p1: "p1 = Some pte1" "pte1 \<noteq> 0" by auto
      then obtain p2 q2 e2 where r2: "read_pte vt q1 (page_align pte1 +
          push_bit 2 (bits32 (req_addr req) 23 13)) e1 = Inr (p2, q2, e2)"
        using walk r1 by (auto simp: bindE_eq_Inr)
      show thesis
      proof (cases "p2 = None \<or> p2 = Some 0")
        case True
        with walk r1 r2 p1 that(1) show thesis by auto
      next
        case False
        then obtain pte2 where "p2 = Some pte2" "pte2 \<noteq> 0" by auto
        with walk r1 r2 p1 that(2) show thesis by (auto split: prod.split_asm)
      qed
    qed
  qed
qed

text \<open>C2: A successful translation respects the protection of the page: it has an entry for the page in
  the TLB, valid in one way only, that grants the kind of access requested (user or supervisor,
  read, write or execute), is marked accessed (and dirty for a write), and gives the frame of the
  physical address; the offset inside the page is the one of the virtual address.\<close>

theorem translate_enforces_rights:
  assumes wf: "tlb_wf t" and nd: "\<not> m_debug req"
    and tr: "translate vt req t e = Inr (MMU_OKAY, req', t', e')"
  shows "tlb_wf t' \<and> page_offset (req_addr req') = page_offset (req_addr req) \<and>
    (\<exists>tr. tlb_lookup t' (page_of (req_addr req)) = Some tr \<and> tr AND access_mask req \<noteq> 0 \<and>
       page_align (req_addr req') = page_align tr \<and> bit tr 4 \<and> (is_write req \<longrightarrow> bit tr 5))"
proof (cases "List.find (\<lambda>way. tlb_match (aged req t) way (page_of (req_addr req))) (mmu_ways (aged req t))")
  case None
  let ?p = "page_of (req_addr req)"
  have "table_walk vt req (aged req t) e = Inr (MMU_OKAY, req', t', e')"
    using tr None by (simp add: translate_unfold[OF wf] split: if_splits)
  then obtain pte2 cyc where
    "refill req (mmu_set (aged req t) (req_addr req)) (page_align (req_addr req)) pte2 cyc (aged req t)
      = (MMU_OKAY, req', t')" by (rule table_walk_cases) auto
  with refill_eq[OF aged_facts(1)[OF wf] nd] obtain v where v: "v AND access_mask req \<noteq> 0"
    "t' = tlb_install ?p (mark_accessed req v) (aged req t)"
    "req_addr req' = page_align v OR page_offset (req_addr req)" by blast
  have "tlb_lookup (aged req t) ?p = None" using None by (simp add: lookup_find)
  with v tlb.lookup_install[OF aged_facts(1)[OF wf]] tlb.install_wf[OF aged_facts(1)[OF wf]]
    mark_accessed_rights
  show ?thesis by (auto simp: bit_mark_accessed)
next
  case (Some way)
  let ?p = "page_of (req_addr req)"
  from Some obtain v where v: "tlb_lookup (aged req t) ?p = Some v"
    by (simp add: tlb_lookup_def)
  have m: "way < unat (m_num_ways (aged req t))" "tlb_match (aged req t) way ?p"
    using Some by (auto simp: mmu_ways_def find_upt_Some)
  have h: "tlb_hit req (mmu_set t (req_addr req)) way (aged req t) = (MMU_OKAY, req', t')"
    using tr Some by (auto simp: translate_unfold[OF wf] split: prod.splits)
  with tlb_hit_eq[OF aged_facts(1)[OF wf] Some nd v] aged_facts(6)[OF wf, of req "req_addr req"]
  have t': "v AND access_mask req \<noteq> 0" "t' = tlb_touch ?p way (mark_accessed req v) (aged req t)"
    "req_addr req' = page_align v OR page_offset (req_addr req)"
    by (auto simp: Let_def translated_def split: if_splits)
  with tlb_touch[OF aged_facts(1)[OF wf] m] mark_accessed_rights
  show ?thesis by (auto simp: bit_mark_accessed)
qed

lemma translate_hit_okay:
  assumes wf: "tlb_wf t" and nd: "\<not> m_debug req"
    and v: "tlb_lookup t (page_of (req_addr req)) = Some v" "v AND access_mask req \<noteq> 0"
  shows "\<exists>q t''. translate vt req t e = Inr (MMU_OKAY, q, t'', e) \<and>
    req_addr q = page_align v OR page_offset (req_addr req)"
proof -
  have l: "tlb_lookup (aged req t) (page_of (req_addr req)) = Some v"
    using v(1) aged_facts(2)[OF wf] by simp
  then obtain way where w:
    "List.find (\<lambda>way. tlb_match (aged req t) way (page_of (req_addr req))) (mmu_ways (aged req t)) = Some way"
    by (auto simp: tlb_lookup_def)
  show ?thesis
    using tlb_hit_eq[OF aged_facts(1)[OF wf] w nd l] v(2) aged_facts(6)[OF wf, of req "req_addr req"]
    by (simp add: translate_unfold[OF wf] w Let_def translated_def)
qed

text \<open>C12: What the TLB has translated once, it translates again without a table walk: after a
  successful translation, any further access to the same page that asks for the same right succeeds
  from the TLB, whatever the page tables in memory then hold (the environment is not touched), and
  reaches the same frame.\<close>

theorem translate_then_hit:
  assumes wf: "tlb_wf t" and nd: "\<not> m_debug req"
    and tr: "translate vt req t e = Inr (MMU_OKAY, req', t', e')"
    and again: "page_of (req_addr req2) = page_of (req_addr req)" "\<not> m_debug req2"
      "access_mask req2 = access_mask req"
  shows "\<exists>q t''. translate vt2 req2 t' e2 = Inr (MMU_OKAY, q, t'', e2) \<and>
    req_addr q = page_align (req_addr req') OR page_offset (req_addr req2)"
proof -
  let ?p = "page_of (req_addr req)"
  from translate_enforces_rights[OF wf nd tr] obtain v where wf': "tlb_wf t'"
    and v: "tlb_lookup t' ?p = Some v" "v AND access_mask req \<noteq> 0"
      "page_align (req_addr req') = page_align v" by blast
  have v2: "tlb_lookup t' (page_of (req_addr req2)) = Some v" "v AND access_mask req2 \<noteq> 0"
    using v again by simp_all
  from translate_hit_okay[OF wf' again(2) this] v(3) show ?thesis by auto
qed

text \<open>Translation changes the TLB only where it must. Whatever the outcome, the TLB stays well
  formed, the entries of other pages are kept or evicted but never altered, a debug access changes
  nothing at all, and a translation that does not succeed leaves the request and every entry as
  they were.\<close>

theorem translate_frame:
  assumes wf: "tlb_wf t" and tr: "translate vt req t e = Inr (r, req', t', e')"
  shows "tlb_wf t' \<and> (m_debug req \<longrightarrow> t' = t)
    \<and> (\<forall>q. q \<noteq> page_of (req_addr req) \<longrightarrow>
         tlb_lookup t' q = tlb_lookup t q \<or> tlb_lookup t' q = None)
    \<and> (r \<noteq> MMU_OKAY \<longrightarrow> req' = req \<and> (\<forall>q. tlb_lookup t' q = tlb_lookup t q))"
proof -
  let ?p = "page_of (req_addr req)" and ?a = "aged req t"
  note a = aged_facts[OF wf, of req]
  have deb: "?a = t" if "m_debug req" using that by (simp add: aged_def)
  show ?thesis
  proof (cases "List.find (\<lambda>way. tlb_match ?a way ?p) (mmu_ways ?a)")
    case (Some way)
    then obtain v where v: "tlb_lookup ?a ?p = Some v" by (simp add: tlb_lookup_def)
    have m: "way < unat (m_num_ways ?a)" "tlb_match ?a way ?p"
      using Some by (auto simp: mmu_ways_def find_upt_Some)
    have h: "tlb_hit req (mmu_set t (req_addr req)) way ?a = (r, req', t')"
      using tr Some by (auto simp: translate_unfold[OF wf] split: prod.splits)
    show ?thesis
    proof (cases "m_debug req")
      case True
      with h deb wf show ?thesis by (auto simp: tlb_hit_def Let_def)
    next
      case False
      with h tlb_hit_eq[OF a(1) Some False v] a(6)[of "req_addr req"] tlb_touch[OF a(1) m] a(1,2)
      show ?thesis by (auto simp: Let_def split: if_splits)
    qed
  next
    case None
    then have none: "tlb_lookup ?a ?p = None" by (simp add: lookup_find)
    show ?thesis
    proof (cases "m_cfg t AND MMUCFG_HTR = 0 \<and> \<not> m_debug req")
      case True
      with tr None a show ?thesis by (auto simp: translate_unfold[OF wf])
    next
      case False
      then have w: "table_walk vt req ?a e = Inr (r, req', t', e')"
        using tr None by (simp add: translate_unfold[OF wf] split: if_splits)
      then show ?thesis
      proof (rule table_walk_cases)
        assume "r = MMU_TLB_MISS" "req' = req" "t' = ?a"
        with a deb show ?thesis by simp
      next
        fix pte2 cyc
        assume rf: "refill req (mmu_set ?a (req_addr req)) (page_align (req_addr req)) pte2 cyc ?a
          = (r, req', t')"
        show ?thesis
        proof (cases "m_debug req \<or> r \<noteq> MMU_OKAY")
          case True
          then have "t' = ?a" "r \<noteq> MMU_OKAY \<longrightarrow> req' = req"
            using rf by (auto simp: refill_def Let_def split: if_splits)
          with a deb show ?thesis by simp
        next
          case False
          with rf refill_eq[OF a(1)] obtain v where "t' = tlb_install ?p (mark_accessed req v) ?a"
            by blast
          with False tlb.install_wf[OF a(1) none] tlb.lookup_install_other[OF a(1) none] a(2)
          show ?thesis by simp
        qed
      qed
    qed
  qed
qed

text \<open>C13: After \<^verbatim>\<open>flush_tlb_entry\<close> an address of the flushed page, and after \<^verbatim>\<open>flush_tlb\<close> any
  address, is not found in the TLB any more. The translation misses if the MMU does not reload in
  hardware or, as in the configuration that the simulator builds, there is no page directory to reload
  from; with a directory the translation is what the page tables in memory say, whatever entry the TLB
  held before. The entries of the other pages survive a single flush.\<close>

theorem flush_then_miss:
  assumes wf: "tlb_wf t" and nd: "\<not> m_debug req"
    and f: "f = flush_tlb_entry ea t \<and> page_of (req_addr req) = page_of ea \<or> f = flush_tlb t"
  shows "tlb_lookup (aged req f) (page_of (req_addr req)) = None \<and>
    translate vt req f e =
      (if m_cfg t AND MMUCFG_HTR = 0 \<or> m_ctrl t AND MMUCR_PGD = 0 then Inr (MMU_TLB_MISS, req, aged req f, e)
       else table_walk vt req (aged req f) e) \<and>
    (\<forall>q. q \<noteq> page_of ea \<longrightarrow> tlb_lookup (flush_tlb_entry ea t) q = tlb_lookup t q)"
proof -
  have mw: "mmu_wf t" "tlb_distinct t" using wf by (simp_all add: tlb_wf_def)
  have w0: "0 < unat (m_num_ways t)" using mw by (simp add: mmu_wf_def)
  have fe: "tlb_wf (flush_tlb_entry ea t)" "m_cfg (flush_tlb_entry ea t) = m_cfg t"
    "m_ctrl (flush_tlb_entry ea t) = m_ctrl t"
    using flush_entry_lookup(1)[OF mw] flush_entry_match(5)[OF mw(1) w0]
      flush_fold[OF mw(1), of "mmu_ways t" "set_of t (page_of ea)" "page_align ea"] set_of_less[OF mw(1)]
    by (auto simp: tlb_wf_def flush_tlb_entry_def mmu_ways_def mmu_set_of flush_result_def)
  have ff: "m_cfg (flush_tlb t) = m_cfg t" "m_ctrl (flush_tlb t) = m_ctrl t" by (simp_all add: flush_tlb_def)
  have wf': "tlb_wf f" "m_cfg f = m_cfg t" "m_ctrl f = m_ctrl t" "tlb_lookup f (page_of (req_addr req)) = None"
    using f fe ff flush_tlb_lookup[OF mw(1)] flush_entry_lookup(2)[OF mw] by auto
  note a = aged_facts(2,4)[OF wf'(1), of req]
  have "List.find (\<lambda>way. tlb_match (aged req f) way (page_of (req_addr req))) (mmu_ways (aged req f)) = None"
    using wf'(4) a(1) by (simp add: lookup_find[symmetric])
  then have "translate vt req f e =
      (if m_cfg t AND MMUCFG_HTR = 0 then Inr (MMU_TLB_MISS, req, aged req f, e)
       else table_walk vt req (aged req f) e)"
    using nd by (simp add: translate_unfold[OF wf'(1)] wf'(2))
  moreover have "table_walk vt req (aged req f) e = Inr (MMU_TLB_MISS, req, aged req f, e)"
    if "m_ctrl t AND MMUCR_PGD = 0"
    using that a(2) wf'(3) by (simp add: table_walk_def Let_def)
  ultimately show ?thesis using flush_entry_lookup(2)[OF mw] wf'(4) a(1) by auto
qed

text \<open>The array of TLB registers is never indexed out of its bounds: the registers of every way
  and set that translation, refill and flush compute, and the register numbers that pass the checks
  of \<^verbatim>\<open>get_tlb\<close> and \<^verbatim>\<open>set_tlb\<close>, are below its 1024 entries, and match and translate registers of
  different ways and sets do not share an index.\<close>

theorem tlb_indices_in_bounds:
  assumes wf: "mmu_wf t"
  shows "(\<forall>addr way. way < unat (m_num_ways t) \<longrightarrow>
            tlb_mr way (mmu_set t addr) < length (m_tlb t)
            \<and> tlb_tr way (mmu_set t addr) < length (m_tlb t))
    \<and> find_empty_way t st < unat (m_num_ways t)
    \<and> (\<forall>reg. drop_bit 8 reg < m_num_ways t \<longrightarrow> unat reg < length (m_tlb t))
    \<and> mmu_wf (set_tlb r v t)
    \<and> (\<forall>a b way way'. tlb_mr way (mmu_set t a) \<noteq> tlb_tr way' (mmu_set t b))"
proof -
  have reg: "unat reg < length (m_tlb t)" if "drop_bit 8 reg < m_num_ways t" for reg
  proof -
    have "unat (drop_bit 8 reg) < 4"
      using that wf by (simp add: mmu_wf_def word_less_nat_alt tlb_index_defs)
    then have "unat reg div 256 < 4"
      by (simp only: unsigned_drop_bit_eq drop_bit_eq_div) (simp add: unat_div)
    then show ?thesis using wf by (simp add: mmu_wf_def tlb_index_defs)
  qed
  have "mmu_wf (set_tlb r v t)"
    using wf by (simp add: set_tlb_def Let_def)
  with reg show ?thesis
    using tlb_index_less[OF wf _ set_of_less[OF wf]] find_empty_way_less[OF wf]
      tlb_index_inj(3)[OF set_of_less[OF wf] set_of_less[OF wf]]
    by (auto simp: mmu_set_of)
qed

section \<open>Instances\<close>

text \<open>A TLB without hardware reload that maps page 1 to frame 2 with all rights.\<close>

definition demo_mmu :: mmu where
  "demo_mmu = tlb_install 1 0x43c0 (case new_mmu 0x1f False of Inr t \<Rightarrow> t | Inl _ \<Rightarrow> undefined)"

definition demo_read :: request where
  "demo_read = new_request\<lparr>m_read := True, m_super := True, req_addr := 0x2004\<rparr>"

lemma new_demo_mmu: "\<exists>t. new_mmu 0x1f False = Inr t \<and> m_cfg t = 0x1f"
  by (simp add: new_mmu_def MMUCFG_HTR_def Let_def)

lemma demo_mmu_facts:
  "tlb_wf demo_mmu" "tlb_lookup demo_mmu 1 = Some 0x43c0" "m_cfg demo_mmu = 0x1f"
proof -
  obtain t where t: "new_mmu 0x1f False = Inr t" "m_cfg t = 0x1f" using new_demo_mmu by blast
  then have d: "demo_mmu = tlb_install 1 0x43c0 t" by (simp add: demo_mmu_def)
  show "tlb_wf demo_mmu" "tlb_lookup demo_mmu 1 = Some 0x43c0"
    using new_mmu_tlb_wf[OF t(1)] tlb.install_wf tlb.lookup_install unfolding d by auto
  show "m_cfg demo_mmu = 0x1f" by (simp add: d tlb_install_def Let_def t)
qed

lemma demo_read_facts:
  "page_of (req_addr demo_read) = 1" "\<not> m_debug demo_read" "access_mask demo_read = 0x100"
  "0x43c0 AND access_mask demo_read \<noteq> 0" "req_addr demo_read = 0x2004"
proof -
  show "page_of (req_addr demo_read) = 1" by (simp add: demo_read_def new_request_def page_of_def)
  show "\<not> m_debug demo_read" "req_addr demo_read = 0x2004"
    by (simp_all add: demo_read_def new_request_def)
  show m: "access_mask demo_read = 0x100"
    by (simp add: demo_read_def new_request_def access_mask_def is_write_def MMU_SRE_def)
  show "0x43c0 AND access_mask demo_read \<noteq> 0" by (simp add: m)
qed

lemma demo_translate: "\<exists>q t'. translate vt demo_read demo_mmu e = Inr (MMU_OKAY, q, t', e)"
proof -
  have "tlb_lookup demo_mmu (page_of (req_addr demo_read)) = Some 0x43c0"
    by (simp only: demo_read_facts(1) demo_mmu_facts(2))
  from translate_hit_okay[OF demo_mmu_facts(1) demo_read_facts(2) this demo_read_facts(4)]
  show ?thesis by blast
qed

definition demo_vtable :: env_vtable where
  "demo_vtable = \<lparr>vt_transact = \<lambda>_ e. Inr (RESP_ERROR, 0, [], e), vt_sleep = \<lambda>_ e. (0, e),
     vt_malloc = \<lambda>_. 0\<rparr>"

definition demo_env :: env where "demo_env = new_env ENDIAN_BIG (\<lambda>_. None)"

theorem translate_enforces_rights_witness:
  "\<exists>q t'. translate demo_vtable demo_read demo_mmu demo_env = Inr (MMU_OKAY, q, t', demo_env)
     \<and> tlb_wf t' \<and> page_offset (req_addr q) = 4"
proof -
  obtain q t' where t: "translate demo_vtable demo_read demo_mmu demo_env = Inr (MMU_OKAY, q, t', demo_env)"
    using demo_translate by blast
  have "page_offset 0x2004 = 4" by (simp add: page_offset_def page_mask mask_eq_exp_minus_1)
  with t translate_enforces_rights[OF demo_mmu_facts(1) demo_read_facts(2) t] show ?thesis
    by (auto simp: demo_read_facts)
qed

theorem translate_then_hit_witness:
  "\<exists>q t' q' t''. translate demo_vtable demo_read demo_mmu demo_env = Inr (MMU_OKAY, q, t', demo_env)
     \<and> translate demo_vtable demo_read t' demo_env = Inr (MMU_OKAY, q', t'', demo_env)"
proof -
  obtain q t' where t: "translate demo_vtable demo_read demo_mmu demo_env = Inr (MMU_OKAY, q, t', demo_env)"
    using demo_translate by blast
  from translate_then_hit[OF demo_mmu_facts(1) demo_read_facts(2) t refl demo_read_facts(2) refl,
      of demo_vtable demo_env] t
  show ?thesis by blast
qed

theorem translate_frame_witness:
  "\<exists>q t'. translate demo_vtable demo_read demo_mmu demo_env = Inr (MMU_OKAY, q, t', demo_env) \<and> tlb_wf t'"
proof -
  obtain q t' where t: "translate demo_vtable demo_read demo_mmu demo_env = Inr (MMU_OKAY, q, t', demo_env)"
    using demo_translate by blast
  from translate_frame[OF demo_mmu_facts(1) t] t show ?thesis by blast
qed

text \<open>The configuration of the simulator's MMUs, with hardware reload: a page that hits and, flushed, misses.\<close>

definition demo_reload :: mmu where
  "demo_reload = tlb_install 1 0x43c0
     (case new_mmu (MMUCFG_NTS128 OR MMUCFG_NTW4 OR MMUCFG_CRI OR MMUCFG_HTR OR MMUCFG_TEIRI) True of
        Inr t \<Rightarrow> t | Inl _ \<Rightarrow> undefined)"

lemma demo_reload_facts:
  "tlb_wf demo_reload" "tlb_lookup demo_reload 1 = Some 0x43c0" "m_ctrl demo_reload = 0"
  "m_cfg demo_reload AND MMUCFG_HTR \<noteq> 0"
proof -
  let ?c = "MMUCFG_NTS128 OR MMUCFG_NTW4 OR MMUCFG_CRI OR MMUCFG_HTR OR MMUCFG_TEIRI"
  have "\<exists>t. new_mmu ?c True = Inr t \<and> m_ctrl t = 0 \<and> m_cfg t = ?c" by (simp add: new_mmu_def Let_def)
  then obtain t where t: "new_mmu ?c True = Inr t" "m_ctrl t = 0" "m_cfg t = ?c" by blast
  then have d: "demo_reload = tlb_install 1 0x43c0 t" by (simp add: demo_reload_def)
  show "tlb_wf demo_reload" "tlb_lookup demo_reload 1 = Some 0x43c0"
    using new_mmu_tlb_wf[OF t(1)] tlb.install_wf tlb.lookup_install unfolding d by auto
  show "m_ctrl demo_reload = 0" "m_cfg demo_reload AND MMUCFG_HTR \<noteq> 0"
    by (simp_all add: d tlb_install_def Let_def t MMUCFG_NTS128_def MMUCFG_NTW4_def MMUCFG_CRI_def
        MMUCFG_HTR_def MMUCFG_TEIRI_def)
qed

theorem flush_then_miss_witness:
  "m_cfg demo_reload AND MMUCFG_HTR \<noteq> 0 \<and>
   (\<exists>q t'. translate demo_vtable demo_read demo_reload demo_env = Inr (MMU_OKAY, q, t', demo_env)) \<and>
   (\<exists>t'. translate demo_vtable demo_read (flush_tlb_entry 0x2000 demo_reload) demo_env
     = Inr (MMU_TLB_MISS, demo_read, t', demo_env))"
proof -
  have p: "page_of (req_addr demo_read) = page_of 0x2000"
    by (simp add: demo_read_facts(5)) (simp add: page_of_def)
  then have f: "flush_tlb_entry 0x2000 demo_reload = flush_tlb_entry 0x2000 demo_reload \<and>
      page_of (req_addr demo_read) = page_of 0x2000 \<or>
      flush_tlb_entry 0x2000 demo_reload = flush_tlb demo_reload"
    by blast
  have "tlb_lookup demo_reload (page_of (req_addr demo_read)) = Some 0x43c0"
    by (simp only: demo_read_facts(1) demo_reload_facts(2))
  from translate_hit_okay[OF demo_reload_facts(1) demo_read_facts(2) this demo_read_facts(4)]
  have "\<exists>q t'. translate demo_vtable demo_read demo_reload demo_env = Inr (MMU_OKAY, q, t', demo_env)" by blast
  with flush_then_miss[OF demo_reload_facts(1) demo_read_facts(2) f, of demo_vtable demo_env] demo_reload_facts(3,4)
  show ?thesis by simp
qed

theorem tlb_indices_in_bounds_witness:
  "\<exists>t. mmu_wf t \<and> tlb_mr (find_empty_way t 3) 3 < length (m_tlb t)"
proof -
  have w: "mmu_wf demo_mmu" using demo_mmu_facts(1) by (simp add: tlb_wf_def)
  have "find_empty_way demo_mmu 3 < unat (m_num_ways demo_mmu)"
    using tlb_indices_in_bounds[OF w, where st = 3 and r = 0 and v = 0] by simp
  then show ?thesis
    using w tlb_index_less[OF w, of _ 3] by (auto simp: OR1KISS_TLB_MAX_SETS_def)
qed

text \<open>
  The counters of the match registers do not saturate: the fourth access that ages an entry carries
  out of the two counter bits into bit 8, and the entry becomes the youngest of its set.
\<close>

lemma ageing_wraps:
  "let m = 0x20c1 in (m AND NOT MMUM_LRU3) OR ((m AND MMUM_LRU3) + MMUM_LRU1) = (0x2101 :: u32)"
  by (simp add: MMUM_LRU3_def MMUM_LRU1_def)

end
