(* ===== verification/Tick.thy ===== *)
theory Tick
  imports Bitops
begin

text \<open>
  The tick timer (\<^verbatim>\<open>include/or1kiss/tick.h\<close>, \<^verbatim>\<open>src/or1kiss/tick.cpp\<close>): its registers, the update
  by a number of elapsed cycles, and the distance to the next tick with which the simulator
  schedules. What the scheduler relies on is the pair of locales \<open>quiet_timer\<close> and \<open>timer\<close>.
\<close>

section \<open>State and operations\<close>

definition TM_IP :: u32 where "TM_IP = push_bit 28 1"
definition TM_IE :: u32 where "TM_IE = push_bit 29 1"
definition TM_D :: u32 where "TM_D = push_bit 30 0"
definition TM_RS :: u32 where "TM_RS = push_bit 30 1"
definition TM_OS :: u32 where "TM_OS = push_bit 30 2"
definition TM_CT :: u32 where "TM_CT = push_bit 30 3"

record tick =
  m_done :: bool
  m_ttmr :: u32
  m_ttcr :: u32

definition new_tick :: tick where
  "new_tick = \<lparr>m_done = False, m_ttmr = 0, m_ttcr = 0\<rparr>"

definition tick_enabled :: "tick \<Rightarrow> bool" where
  "tick_enabled t \<longleftrightarrow> drop_bit 30 (m_ttmr t) \<noteq> 0"

definition tick_irq_enabled :: "tick \<Rightarrow> bool" where
  "tick_irq_enabled t \<longleftrightarrow> m_ttmr t AND TM_IE \<noteq> 0"

definition tick_irq_pending :: "tick \<Rightarrow> bool" where
  "tick_irq_pending t \<longleftrightarrow> m_ttmr t AND TM_IP \<noteq> 0"

definition tick_limit :: "tick \<Rightarrow> u32" where
  "tick_limit t = bits32 (m_ttmr t) 27 0"

definition tick_current :: "tick \<Rightarrow> u32" where
  "tick_current t = bits32 (m_ttcr t) 27 0"

definition next_tick :: "tick \<Rightarrow> u64" where
  "next_tick t =
     (if tick_current t < tick_limit t then ucast (tick_limit t - tick_current t)
      else 0x0fffffff - ucast (tick_current t) + ucast (tick_limit t) + 1)"

text \<open>The default case of the switch is unreachable, the mode being two bits.\<close>

definition tick_update :: "u64 \<Rightarrow> tick \<Rightarrow> tick" where
  "tick_update delta t =
     (let mode = m_ttmr t AND 0xc0000000
      in if mode = TM_D \<or> m_done t then t
         else
           let lim = ucast (tick_limit t) :: u64;
               cur = ucast (tick_current t) :: u64;
               irq_enabled = (m_ttmr t AND TM_IE \<noteq> 0);
               reached = (cur < lim \<and> lim \<le> cur + delta);
               advanced = t\<lparr>m_ttcr := m_ttcr t + ucast delta\<rparr>;
               (irq_set, t') =
                 (if mode = TM_RS
                  then if reached then (True, t\<lparr>m_ttcr := 0\<rparr>) else (False, advanced)
                  else if mode = TM_OS
                  then if reached then (True, t\<lparr>m_done := True, m_ttcr := ucast lim\<rparr>)
                       else (False, advanced)
                  else (reached, advanced))
           in if irq_enabled \<and> irq_set then t'\<lparr>m_ttmr := m_ttmr t' OR TM_IP\<rparr> else t')"

definition tick_set_ttmr :: "u32 \<Rightarrow> tick \<Rightarrow> tick" where
  "tick_set_ttmr v t = tick_update 0 (t\<lparr>m_ttmr := v\<rparr>)"

definition tick_set_ttcr :: "u32 \<Rightarrow> tick \<Rightarrow> tick" where
  "tick_set_ttcr v t = tick_update 0 (t\<lparr>m_ttcr := v, m_done := False\<rparr>)"

section \<open>What a scheduler relies on\<close>

text \<open>
  A timer that stays quiet for fewer cycles than it announces, and whose announcement counts down
  with the cycles it is given.
\<close>

locale quiet_timer =
  fixes update :: "u64 \<Rightarrow> 't \<Rightarrow> 't" and announced :: "'t \<Rightarrow> nat" and pending :: "'t \<Rightarrow> bool"
    and running :: "'t \<Rightarrow> bool"
  assumes quiet: "running t \<Longrightarrow> unat n < announced t \<Longrightarrow> pending (update n t) = pending t"
    and countdown: "running t \<Longrightarrow> unat n < announced t \<Longrightarrow>
      running (update n t) \<and> announced (update n t) = announced t - unat n"
begin

lemma quiet_fold:
  "running t \<Longrightarrow> sum_list (map unat ns) < announced t \<Longrightarrow>
   running (fold update ns t) \<and> pending (fold update ns t) = pending t \<and>
   announced (fold update ns t) = announced t - sum_list (map unat ns)"
proof (induction ns arbitrary: t)
  case (Cons n ns)
  then have n: "unat n < announced t" by simp
  with Cons.prems countdown[of t n] have "running (update n t)"
    "sum_list (map unat ns) < announced (update n t)" by auto
  from Cons.IH[OF this] show ?case
    using quiet[OF Cons.prems(1) n] countdown[OF Cons.prems(1) n] by simp
qed simp

end

text \<open>
  A timer that also raises its interrupt once the announced cycles have passed, and keeps it
  raised.
\<close>

locale timer = quiet_timer +
  fixes armed :: "'a \<Rightarrow> bool" and small :: "u64 \<Rightarrow> bool"
  assumes armed_running: "armed t \<Longrightarrow> running t"
    and armed_kept: "armed t \<Longrightarrow> unat n < announced t \<Longrightarrow> armed (update n t)"
    and fires: "armed t \<Longrightarrow> small n \<Longrightarrow> announced t \<le> unat n \<Longrightarrow> pending (update n t)"
    and sticky: "pending t \<Longrightarrow> pending (update n t)"
begin

lemma sticky_fold: "pending t \<Longrightarrow> pending (fold update ns t)"
  by (induction ns arbitrary: t) (simp_all add: sticky)

lemma fires_fold:
  "armed t \<Longrightarrow> list_all small ns \<Longrightarrow> announced t \<le> sum_list (map unat ns) \<Longrightarrow> ns \<noteq> [] \<Longrightarrow>
   pending (fold update ns t)"
proof (induction ns arbitrary: t)
  case (Cons n ns)
  show ?case
  proof (cases "unat n < announced t")
    case True
    with Cons.prems armed_kept armed_running countdown[of t n] have
      "armed (update n t)" "announced (update n t) \<le> sum_list (map unat ns)"
      "announced (update n t) > 0" by auto
    moreover from this have "ns \<noteq> []" by auto
    ultimately show ?thesis using Cons by simp
  next
    case False
    with Cons.prems fires[of t n] show ?thesis by (simp add: sticky_fold)
  qed
qed simp

end

section \<open>The tick timer is such a timer\<close>

definition tick_running :: "tick \<Rightarrow> bool" where
  "tick_running t \<longleftrightarrow> tick_enabled t \<and> \<not> m_done t"

definition tick_armed :: "tick \<Rightarrow> bool" where
  "tick_armed t \<longleftrightarrow> tick_running t \<and> tick_irq_enabled t \<and> tick_current t < tick_limit t"

lemma tick_irq_enabled_bit: "tick_irq_enabled t \<longleftrightarrow> bit (m_ttmr t) 29"
  using and_push_bit_one[of "m_ttmr t" 29] by (simp add: tick_irq_enabled_def TM_IE_def)

lemma tick_irq_pending_bit: "tick_irq_pending t \<longleftrightarrow> bit (m_ttmr t) 28"
  using and_push_bit_one[of "m_ttmr t" 28] by (simp add: tick_irq_pending_def TM_IP_def)

lemma bit_TM_IP: "bit TM_IP n \<longleftrightarrow> n = 28"
  by (auto simp only: TM_IP_def bit_push_bit_one) simp

lemma mode_field: "x AND 0xc0000000 = push_bit 30 (drop_bit 30 x)" for x :: u32
proof -
  have m: "(0xc0000000 :: u32) = push_bit 30 (mask 2)" by (simp add: mask_eq_exp_minus_1)
  show ?thesis
    unfolding m by (rule bit_word_eqI) (auto simp: bit_simps simp del: push_bit_mask_eq)
qed

lemma tick_mode_disabled: "m_ttmr t AND 0xc0000000 = TM_D \<longleftrightarrow> \<not> tick_enabled t"
proof -
  have "drop_bit 30 (push_bit 30 (drop_bit 30 x)) = drop_bit 30 x" for x :: u32
    by (rule bit_word_eqI) (auto simp: bit_simps dest: bit_imp_le_length)
  then have "push_bit 30 (drop_bit 30 x) = 0 \<longleftrightarrow> drop_bit 30 x = 0" for x :: u32
    by (metis drop_bit_of_0 push_bit_of_0)
  then show ?thesis by (simp only: mode_field) (simp add: tick_enabled_def TM_D_def)
qed

lemma unat_tick_limit: "unat (tick_limit t) < 2 ^ 28"
  using unat_bits32_less[of 0 27 "m_ttmr t"] by (simp add: tick_limit_def)

lemma unat_tick_current: "unat (tick_current t) = unat (m_ttcr t) mod 2 ^ 28"
  using unat_bits32[of 0 27 "m_ttcr t"] by (simp add: tick_current_def)

lemma unat_tick_current_less: "unat (tick_current t) < 2 ^ 28"
  unfolding unat_tick_current by simp

lemma tick_fields [simp]:
  "tick_limit (t\<lparr>m_ttcr := c\<rparr>) = tick_limit t" "tick_limit (t\<lparr>m_done := d\<rparr>) = tick_limit t"
  "tick_current (t\<lparr>m_ttmr := r\<rparr>) = tick_current t" "tick_current (t\<lparr>m_done := d\<rparr>) = tick_current t"
  "tick_enabled (t\<lparr>m_ttcr := c\<rparr>) = tick_enabled t" "tick_enabled (t\<lparr>m_done := d\<rparr>) = tick_enabled t"
  "tick_irq_enabled (t\<lparr>m_ttcr := c\<rparr>) = tick_irq_enabled t"
  "tick_irq_enabled (t\<lparr>m_done := d\<rparr>) = tick_irq_enabled t"
  "tick_irq_pending (t\<lparr>m_ttcr := c\<rparr>) = tick_irq_pending t"
  "tick_irq_pending (t\<lparr>m_done := d\<rparr>) = tick_irq_pending t"
  by (simp_all add: tick_limit_def tick_current_def tick_enabled_def tick_irq_enabled_def
      tick_irq_pending_def)

lemma unat_next_tick:
  "unat (next_tick t) =
     (if tick_current t < tick_limit t then unat (tick_limit t) - unat (tick_current t)
      else 2 ^ 28 - unat (tick_current t) + unat (tick_limit t))"
proof (cases "tick_current t < tick_limit t")
  case True
  then have "unat (tick_limit t - tick_current t) = unat (tick_limit t) - unat (tick_current t)"
    by (intro unat_sub) simp
  with True show ?thesis by (simp add: next_tick_def)
next
  case False
  let ?c = "tick_current t" and ?l = "tick_limit t"
  define x where "x = (0x0fffffff - ucast ?c :: u64)"
  have "unat x = 0x0fffffff - unat ?c"
    unfolding x_def using unat_tick_current_less[of t]
    by (subst unat_sub) (simp_all add: word_le_nat_alt)
  with unat_tick_limit[of t] unat_tick_current_less[of t] have
    "unat (x + ucast ?l + 1) = 0x0fffffff - unat ?c + unat ?l + 1"
    by (simp add: unat_word_ariths)
  with False unat_tick_current_less[of t] show ?thesis by (simp add: next_tick_def x_def)
qed

lemma tick_reached:
  assumes "unat n < 2 ^ 63"
  shows "(ucast (tick_current t) :: u64) < ucast (tick_limit t) \<and>
      (ucast (tick_limit t) :: u64) \<le> ucast (tick_current t) + n \<longleftrightarrow>
    tick_current t < tick_limit t \<and> unat (next_tick t) \<le> unat n"
proof -
  from assms unat_tick_current_less[of t] have
    "unat (ucast (tick_current t) + n :: u64) = unat (tick_current t) + unat n"
    by (simp add: unat_word_ariths)
  then show ?thesis
    by (auto simp: word_less_nat_alt word_le_nat_alt unat_next_tick)
qed

lemma unat_next_tick_less: "unat (next_tick t) < 2 ^ 63"
  using unat_tick_current_less[of t] unat_tick_limit[of t]
  by (auto simp: unat_next_tick)

lemma tick_update_quiet:
  assumes "tick_running t" "unat n < unat (next_tick t)"
  shows "tick_update n t = t\<lparr>m_ttcr := m_ttcr t + ucast n\<rparr>"
proof -
  have "\<not> unat (next_tick t) \<le> unat n" "unat n < 2 ^ 63"
    using assms(2) unat_next_tick_less[of t] by simp_all
  with tick_reached[of n t] assms(1) show ?thesis
    by (auto simp: tick_update_def Let_def tick_running_def tick_mode_disabled)
qed

lemma tick_current_advance:
  "unat (tick_current (t\<lparr>m_ttcr := m_ttcr t + ucast n\<rparr>)) =
     (unat (tick_current t) + unat n) mod 2 ^ 28" for n :: u64
proof -
  have "unat (m_ttcr t + ucast n) = (unat (m_ttcr t) + unat n mod 2 ^ 32) mod 2 ^ 32"
    by (simp add: unat_word_ariths unsigned_ucast_eq take_bit_eq_mod)
  also have "\<dots> mod 2 ^ 28 = (unat (m_ttcr t) + unat n) mod 2 ^ 28"
    by (simp add: mod_add_right_eq mod_mod_cancel)
  finally show ?thesis by (simp add: unat_tick_current mod_add_left_eq)
qed

lemma tick_quiet_next:
  assumes "tick_running t" "unat n < unat (next_tick t)"
  shows "unat (next_tick (tick_update n t)) = unat (next_tick t) - unat n"
proof -
  let ?c = "unat (tick_current t)" and ?l = "unat (tick_limit t)" and ?n = "unat n"
  let ?t = "tick_update n t"
  have l: "unat (tick_limit ?t) = ?l"
    using assms by (simp add: tick_update_quiet)
  have c: "unat (tick_current ?t) = (?c + ?n) mod 2 ^ 28"
    using assms tick_current_advance[of t n] by (simp only: tick_update_quiet)
  note b = unat_tick_current_less[of t] unat_tick_limit[of t]
  show ?thesis
  proof (cases "?c + ?n < 2 ^ 28")
    case True
    then have "unat (tick_current ?t) = ?c + ?n" using c by simp
    with assms(2) b l True show ?thesis
      by (auto simp: unat_next_tick word_less_nat_alt split: if_splits)
  next
    case False
    then have "?c + ?n < 2 ^ 28 + ?l" "\<not> ?c < ?l"
      using assms(2) b by (auto simp: unat_next_tick word_less_nat_alt split: if_splits)
    then have "unat (tick_current ?t) = ?c + ?n - 2 ^ 28"
      using c b False by (simp add: le_mod_geq)
    with assms(2) b l False \<open>\<not> ?c < ?l\<close> \<open>?c + ?n < 2 ^ 28 + ?l\<close> show ?thesis
      by (auto simp: unat_next_tick word_less_nat_alt)
  qed
qed

lemma tick_running_quiet:
  "tick_running t \<Longrightarrow> unat n < unat (next_tick t) \<Longrightarrow> tick_running (tick_update n t)"
  by (simp add: tick_update_quiet tick_running_def)

interpretation tick_q: quiet_timer tick_update "\<lambda>t. unat (next_tick t)" tick_irq_pending tick_running
proof
  fix t and n :: u64 assume "tick_running t" "unat n < unat (next_tick t)"
  then show "tick_irq_pending (tick_update n t) = tick_irq_pending t"
    by (simp add: tick_update_quiet)
qed (simp add: tick_running_quiet tick_quiet_next)

lemma tick_update_ttmr:
  assumes "tick_running t" "unat n < 2 ^ 63"
  shows "m_ttmr (tick_update n t) =
    (if tick_irq_enabled t \<and> tick_current t < tick_limit t \<and> unat (next_tick t) \<le> unat n
     then m_ttmr t OR TM_IP else m_ttmr t)"
  using tick_reached[OF assms(2), of t] assms(1)
  by (auto simp: tick_update_def Let_def tick_running_def tick_mode_disabled tick_irq_enabled_def)

lemma tick_update_sticky: "tick_irq_pending t \<Longrightarrow> tick_irq_pending (tick_update n t)"
  by (auto simp: tick_irq_pending_bit tick_update_def Let_def bit_or_iff)

lemma tick_armed_quiet:
  assumes "tick_armed t" "unat n < unat (next_tick t)"
  shows "tick_armed (tick_update n t)"
proof -
  have r: "tick_running t" "tick_current t < tick_limit t" using assms(1) by (auto simp: tick_armed_def)
  then have "unat (tick_current t) + unat n < unat (tick_limit t)"
    using assms(2) by (simp add: unat_next_tick)
  moreover from this unat_tick_limit[of t]
  have "unat (tick_current (tick_update n t)) = unat (tick_current t) + unat n"
    using tick_current_advance[of t n] r(1) assms(2) by (simp add: tick_update_quiet)
  ultimately show ?thesis
    using assms r tick_running_quiet[OF r(1) assms(2)]
    by (simp add: tick_armed_def tick_update_quiet word_less_nat_alt)
qed

interpretation tick_t: timer tick_update "\<lambda>t. unat (next_tick t)" tick_irq_pending tick_running
  tick_armed "\<lambda>n. unat n < 2 ^ 63"
proof
  fix t and n :: u64
  assume "tick_armed t" "unat n < 2 ^ 63" "unat (next_tick t) \<le> unat n"
  then show "tick_irq_pending (tick_update n t)"
    by (simp add: tick_update_ttmr tick_irq_pending_bit tick_armed_def bit_or_iff bit_TM_IP)
qed (simp_all add: tick_armed_def[THEN iffD1] tick_armed_quiet tick_update_sticky)

text \<open>C10: The announced distance to the next tick is exact. As long as the running timer has been
  given fewer cycles in total than \<^verbatim>\<open>next_tick\<close> returned, in whatever portions, its interrupt
  does not become pending; if it is armed (interrupt enabled, count below the limit) the interrupt
  is pending as soon as the portions sum up to that distance.\<close>

theorem next_tick_exact:
  assumes "tick_running t" "list_all (\<lambda>n. unat n < 2 ^ 63) ns" "ns \<noteq> []"
  shows "(if sum_list (map unat ns) < unat (next_tick t)
          then tick_irq_pending (fold tick_update ns t) = tick_irq_pending t
          else tick_armed t \<longrightarrow> tick_irq_pending (fold tick_update ns t))"
  using assms tick_q.quiet_fold[of t ns] tick_t.fires_fold[of t ns] by auto

definition demo_tick :: tick where
  "demo_tick = \<lparr>m_done = False, m_ttmr = 0x60000064, m_ttcr = 90\<rparr>"

lemma demo_tick_facts: "tick_armed demo_tick" "next_tick demo_tick = 10" "\<not> tick_irq_pending demo_tick"
  by (simp_all add: demo_tick_def tick_armed_def tick_running_def tick_enabled_def
      tick_irq_enabled_def TM_IE_def TM_IP_def tick_irq_pending_def tick_current_def tick_limit_def
      next_tick_def bits32_def)

theorem next_tick_exact_witness:
  "\<not> tick_irq_pending (fold tick_update [4, 5] demo_tick) \<and>
   tick_irq_pending (fold tick_update [4, 5, 1] demo_tick)"
proof -
  have r: "tick_running demo_tick" using demo_tick_facts(1) by (simp add: tick_armed_def)
  show ?thesis
    using next_tick_exact[OF r, of "[4, 5]"] next_tick_exact[OF r, of "[4, 5, 1]"]
    by (simp add: demo_tick_facts)
qed

text \<open>The timer driven by its own announcement, as the scheduler drives it: one update by the cycles that it
  has announced.\<close>

definition tick_announced :: "tick \<Rightarrow> tick" where
  "tick_announced t = tick_update (next_tick t) t"

lemma tick_announced_behind:
  assumes "tick_running t" "\<not> tick_current t < tick_limit t"
  shows "tick_announced t = t\<lparr>m_ttcr := m_ttcr t + ucast (next_tick t)\<rparr>"
    "tick_current (tick_announced t) = tick_limit (tick_announced t)"
    "tick_running (tick_announced t)" "tick_limit (tick_announced t) = tick_limit t"
proof -
  show s: "tick_announced t = t\<lparr>m_ttcr := m_ttcr t + ucast (next_tick t)\<rparr>"
    using assms tick_reached[OF unat_next_tick_less, of t t]
    by (auto simp: tick_announced_def tick_update_def Let_def tick_running_def tick_mode_disabled)
  have "unat (tick_current (tick_announced t)) = unat (tick_limit t)"
    using assms(2) tick_current_advance[of t "next_tick t"] unat_tick_current_less[of t] unat_tick_limit[of t]
    by (simp add: s unat_next_tick)
  then show "tick_current (tick_announced t) = tick_limit (tick_announced t)"
    by (simp add: unsigned_word_eqI s)
  show "tick_running (tick_announced t)" "tick_limit (tick_announced t) = tick_limit t"
    using assms(1) by (simp_all add: s tick_running_def)
qed

text \<open>C32: A timer whose count has reached or passed its limit never interrupts if it is driven by its own
  announcement: however many times it is advanced by the cycles that it has just announced, in every
  mode, it goes on running without a new interrupt; each time the count comes to rest on the limit
  itself, and the next announcement is a whole period of \<open>2 ^ 28\<close> cycles.\<close>

theorem wrapped_tick_is_lost:
  assumes "tick_running t" "\<not> tick_current t < tick_limit t"
  shows "let t' = (tick_announced ^^ n) t
    in tick_running t' \<and> m_ttmr t' = m_ttmr t \<and> tick_irq_pending t' = tick_irq_pending t \<and>
      (0 < n \<longrightarrow> tick_current t' = tick_limit t \<and> next_tick t' = 2 ^ 28)"
proof (induction n)
  case (Suc n)
  let ?u = "(tick_announced ^^ n) t"
  have u: "tick_running ?u" "m_ttmr ?u = m_ttmr t" "tick_irq_pending ?u = tick_irq_pending t"
    "\<not> tick_current ?u < tick_limit ?u"
    using Suc assms by (cases n; simp add: Let_def tick_limit_def)+
  note a = tick_announced_behind[OF u(1,4)]
  have m: "m_ttmr (tick_announced ?u) = m_ttmr t" by (simp add: a(1) u(2))
  then have l: "tick_limit (tick_announced ?u) = tick_limit t" by (simp add: tick_limit_def)
  have "unat (next_tick (tick_announced ?u)) = unat (2 ^ 28 :: u64)"
    using a(2) unat_tick_limit[of "tick_announced ?u"] by (simp add: unat_next_tick)
  then have "next_tick (tick_announced ?u) = 2 ^ 28" by (rule unsigned_word_eqI)
  with a(2,3) m l u(3) show ?case by (simp add: Let_def tick_irq_pending_def)
qed (use assms in \<open>simp add: Let_def\<close>)

text \<open>A timer on its limit of 100, restarting and with the interrupt on.\<close>

theorem wrapped_tick_is_lost_witness:
  "let t = \<lparr>m_done = False, m_ttmr = 0x60000064, m_ttcr = 100\<rparr>
   in tick_running ((tick_announced ^^ 7) t) \<and> \<not> tick_irq_pending ((tick_announced ^^ 7) t)"
proof -
  let ?t = "\<lparr>m_done = False, m_ttmr = 0x60000064, m_ttcr = 100\<rparr> :: tick"
  have "tick_running ?t" "\<not> tick_current ?t < tick_limit ?t" "\<not> tick_irq_pending ?t"
    by (simp_all add: tick_running_def tick_enabled_def tick_current_def tick_limit_def bits32_def
        tick_irq_pending_def TM_IP_def)
  with wrapped_tick_is_lost[of ?t 7] show ?thesis by (simp add: Let_def)
qed

end
