(* ===== verification/Memory.thy ===== *)
theory Memory
  imports Env
begin

text \<open>
  The memory of the standalone simulator (\<^verbatim>\<open>src/memory.cpp\<close>), a subclass of \<^verbatim>\<open>env\<close> whose
  \<^verbatim>\<open>transact\<close> copies between the request and one block of host memory. The contract of a device
  behind \<^verbatim>\<open>env::transact\<close> is the locale \<open>env_device\<close>; the memory provides it.
\<close>

section \<open>The memory device\<close>

record memory_dev =
  m_size :: u64
  m_memory :: nat

text \<open>
  \<^verbatim>\<open>memory::transact\<close>. The bound is checked on \<^verbatim>\<open>req.addr + req.size\<close>, a 32-bit sum; the typed
  assignments of the \<^verbatim>\<open>switch\<close> copy as many bytes as the \<^verbatim>\<open>memcpy\<close> of its default case.
\<close>

definition memory_transact ::
  "memory_dev \<Rightarrow> request \<Rightarrow> env \<Rightarrow> (response \<times> u64 \<times> u8 list \<times> env) res" where
  "memory_transact d req e =
     (let n = unat (req_size req);
          p = m_memory d + unat (req_addr req);
          cyc = (if m_debug req then req_cycles req else 1)
      in if m_size d < ucast (req_addr req + req_size req)
         then if m_debug req then Inr (RESP_ERROR, req_cycles req, req_data req, e)
              else Inl (Process_exit (-1))
         else if is_write req
         then bindE (store_bytes (host_mem e) p (take n (req_data req))) (\<lambda>m.
              Inr (RESP_SUCCESS, cyc, req_data req, e\<lparr>host_mem := m\<rparr>))
         else bindE (load_bytes (host_mem e) p n) (\<lambda>bs.
              Inr (RESP_SUCCESS, cyc, bs @ drop n (req_data req), e)))"

text \<open>\<^verbatim>\<open>env::sleep\<close>, not overridden by the memory.\<close>

definition env_sleep :: "u64 \<Rightarrow> env \<Rightarrow> u64 \<times> env" where
  "env_sleep cycles e = (0, e)"

definition memory_vtable :: "(nat \<Rightarrow> u8) \<Rightarrow> memory_dev \<Rightarrow> env_vtable" where
  "memory_vtable mal d = \<lparr>vt_transact = memory_transact d, vt_sleep = env_sleep, vt_malloc = mal\<rparr>"

text \<open>The constructor, given the host address of its zeroed block.\<close>

definition new_memory :: "u64 \<Rightarrow> nat \<Rightarrow> hmem \<Rightarrow> (memory_dev \<times> env) res" where
  "new_memory sz base m =
     (let m' = (\<lambda>a. if base \<le> a \<and> a < base + unat sz then Some 0 else m a)
      in bindE (set_data_ptr (Some base) 0 (ucast (sz - 1)) 1 (new_env ENDIAN_BIG m')) (\<lambda>e.
         bindE (set_insn_ptr (Some base) 0 (ucast (sz - 1)) 0 e) (\<lambda>e'.
         Inr (\<lparr>m_size = sz, m_memory = base\<rparr>, e'))))"

text \<open>\<^verbatim>\<open>memory::load\<close>, given the contents of the file, \<open>None\<close> if it cannot be opened.\<close>

definition memory_load :: "u8 list option \<Rightarrow> memory_dev \<Rightarrow> env \<Rightarrow> (bool \<times> env) res" where
  "memory_load file d e =
     (case file of
        None \<Rightarrow> Inr (False, e)
      | Some bs \<Rightarrow>
          bindE (store_bytes (host_mem e) (m_memory d) (take (min (length bs) (unat (m_size d))) bs))
            (\<lambda>m. Inr (True, e\<lparr>host_mem := m\<rparr>)))"

section \<open>The contract of a device\<close>

text \<open>
  What the simulator relies on when it calls \<^verbatim>\<open>transact\<close>: the buffer of the request keeps its
  length and the configuration of the port is not changed by the device.
\<close>

definition port_config :: "env \<Rightarrow> endian \<times> nat option \<times> nat option" where
  "port_config e = (env_endian e, m_data_ptr e, m_insn_ptr e)"

locale env_device =
  fixes transact :: "request \<Rightarrow> env \<Rightarrow> (response \<times> u64 \<times> u8 list \<times> env) res"
  assumes transact_length:
    "unat (req_size req) \<le> length (req_data req) \<Longrightarrow> transact req e = Inr (r, c, d, e') \<Longrightarrow>
     length d = length (req_data req)"
    and transact_config: "transact req e = Inr (r, c, d, e') \<Longrightarrow> port_config e' = port_config e"
begin

lemma exclusive_access_length:
  "unat (req_size req) \<le> length (req_data req) \<Longrightarrow>
   exclusive_access p req e = Inr (r, req', e') \<Longrightarrow> length (req_data req') = length (req_data req)"
  by (auto simp: exclusive_access_def read_into_def bindE_eq_Inr dest: length_load_bytes
      split: if_splits)

lemma exclusive_access_config:
  "exclusive_access p req e = Inr (r, req', e') \<Longrightarrow> port_config e' = port_config e"
  by (auto simp: exclusive_access_def bindE_eq_Inr port_config_def split: if_splits)

lemma send_request_length:
  assumes "unat (req_size req) \<le> length (req_data req)" "vt_transact vt = transact"
    and s: "send_request vt req e = Inr (r, req', e')"
  shows "length (req_data req') = length (req_data req)"
proof (cases "direct_memory_ptr req e")
  case (Pair q ptr)
  then have q: "req_data q = req_data req" "req_size q = req_size req"
    using direct_memory_ptr_frame[of req e] by simp_all
  show ?thesis
  proof (cases ptr)
    case None
    with Pair s assms q transact_length[of "q\<lparr>req_endian := env_endian e\<rparr>" e] show ?thesis
      by (auto simp: send_request_def bindE_eq_Inr)
  next
    case (Some p)
    with Pair s assms(1) q
      exclusive_access_length[of "q\<lparr>req_cycles := req_cycles q + m_data_cycles e\<rparr>" p e]
    show ?thesis
      by (auto simp: send_request_def Let_def read_into_def bindE_eq_Inr
          dest: length_load_bytes split: if_splits)
  qed
qed

lemma send_request_config:
  assumes "vt_transact vt = transact" and s: "send_request vt req e = Inr (r, req', e')"
  shows "port_config e' = port_config e"
proof (cases "direct_memory_ptr req e")
  case (Pair q ptr)
  with assms transact_config exclusive_access_config show ?thesis
    by (cases ptr)
      (auto simp: send_request_def Let_def write_from_def bindE_eq_Inr port_config_def
        split: if_splits)
qed

lemma convert_and_transact_length:
  assumes "vt_transact vt = transact" "convert_and_transact vt req e = Inr (r, req', e')"
  shows "length (req_data req') = length (req_data req)"
proof -
  let ?sz = "unat (req_size req)"
  let ?tmp = "memcpyswp (if ?sz > 8 then malloc_block vt ?sz else replicate 8 0) (req_data req) ?sz"
  let ?conv = "conversion_necessary req e"
  from assms(2) obtain q where len: "?sz \<le> length (req_data req)"
    and s: "send_request vt (if ?conv then req\<lparr>req_data := ?tmp\<rparr> else req) e = Inr (r, q, e')"
    and req': "req' = (if ?conv then q\<lparr>req_data := memcpyswp (req_data req) (req_data q) ?sz\<rparr> else q)"
    by (auto simp: convert_and_transact_def Let_def bindE_eq_Inr)
  have tmp: "?sz \<le> length ?tmp"
    using len by (auto simp: malloc_block_def)
  have "length (req_data q) = length (if ?conv then ?tmp else req_data req)"
    using send_request_length[OF _ assms(1) s] len tmp by (auto split: if_splits)
  with len tmp show ?thesis
    by (auto simp: req' split: if_splits)
qed

lemma convert_and_transact_config:
  assumes "vt_transact vt = transact" "convert_and_transact vt req e = Inr (r, req', e')"
  shows "port_config e' = port_config e"
  using assms send_request_config[OF assms(1)]
  by (auto simp: convert_and_transact_def Let_def bindE_eq_Inr)

end

lemma memory_transact_length:
  "unat (req_size req) \<le> length (req_data req) \<Longrightarrow>
   memory_transact d req e = Inr (r, c, bs, e') \<Longrightarrow> length bs = length (req_data req)"
  by (auto simp: memory_transact_def Let_def bindE_eq_Inr dest: length_load_bytes
      split: if_splits)

lemma memory_transact_config:
  "memory_transact d req e = Inr (r, c, bs, e') \<Longrightarrow> port_config e' = port_config e"
  by (auto simp: memory_transact_def Let_def bindE_eq_Inr port_config_def split: if_splits)

interpretation mem_dev: env_device "memory_transact d" for d
  by unfold_locales (fact memory_transact_length memory_transact_config)+


section \<open>The standalone memory\<close>

text \<open>A memory as its constructor leaves it, up to its contents and the reservation.\<close>

definition memory_env :: "memory_dev \<Rightarrow> env \<Rightarrow> bool" where
  "memory_env d e \<longleftrightarrow>
     0 < m_size d \<and> unat (m_size d) \<le> 2 ^ 32 \<and> allocated (host_mem e) (m_memory d) (unat (m_size d))
     \<and> env_endian e = ENDIAN_BIG
     \<and> m_data_ptr e = Some (m_memory d) \<and> m_data_start e = 0
     \<and> m_data_end e = ucast (m_size d - 1) \<and> m_data_cycles e = 1
     \<and> m_insn_ptr e = Some (m_memory d) \<and> m_insn_start e = 0
     \<and> m_insn_end e = ucast (m_size d - 1) \<and> m_insn_cycles e = 0"

lemma unat_size_minus_one:
  "0 < sz \<Longrightarrow> unat sz \<le> 2 ^ 32 \<Longrightarrow> unat (ucast (sz - 1) :: u32) = unat sz - 1" for sz :: u64
  by (simp add: unsigned_ucast_eq unat_minus_one take_bit_nat_eq_self unat_gt_0)

lemma new_memory_env:
  assumes "0 < sz" "unat sz \<le> 2 ^ 32"
  shows "\<exists>d e. new_memory sz base m = Inr (d, e) \<and> memory_env d e \<and> m_size d = sz"
  using assms
  by (auto simp: new_memory_def set_data_ptr_def set_insn_ptr_def new_env_def memory_env_def
      allocated_iff Let_def)

lemma allocated_sub: "allocated m p n \<Longrightarrow> p \<le> q \<Longrightarrow> q + k \<le> p + n \<Longrightarrow> allocated m q k"
  by (auto simp: allocated_iff)

lemma memory_data_ptr:
  assumes "memory_env d e" "unat addr + n \<le> unat (m_size d)" "0 < n"
  shows "get_data_ptr e addr = Some (m_memory d + unat addr)"
    and "allocated (host_mem e) (m_memory d + unat addr) n"
  using assms unat_size_minus_one[of "m_size d"]
  by (auto simp: memory_env_def get_data_ptr_def word_less_nat_alt intro: allocated_sub)

lemma memory_env_store:
  "memory_env d e \<Longrightarrow> store_bytes (host_mem e) p bs = Inr m \<Longrightarrow> memory_env d (e\<lparr>host_mem := m\<rparr>)"
  by (simp add: memory_env_def allocated_store_bytes)

definition guest_byte :: "memory_dev \<Rightarrow> env \<Rightarrow> nat \<Rightarrow> u8" where
  "guest_byte d e a = the (host_mem e (m_memory d + a))"

lemma memory_in_bounds:
  fixes addr n :: u32 and sz :: u64
  assumes "unat addr + unat n \<le> unat sz"
  shows "\<not> sz < ucast (addr + n)"
proof -
  have "unat (ucast (addr + n) :: u64) = (unat addr + unat n) mod 2 ^ 32"
    by (simp add: unsigned_ucast_eq unat_word_ariths take_bit_nat_eq_self)
  also have "\<dots> \<le> unat addr + unat n" by (rule mod_less_eq_dividend)
  finally show ?thesis using assms by (simp add: word_less_nat_alt)
qed

text \<open>The slow path of an access that no pointer covers.\<close>

lemma memory_transact_write:
  "\<not> m_size d < ucast (req_addr req + req_size req) \<Longrightarrow> \<not> m_read req \<Longrightarrow>
   memory_transact d req e =
     bindE (store_bytes (host_mem e) (m_memory d + unat (req_addr req))
              (take (unat (req_size req)) (req_data req))) (\<lambda>m.
     Inr (RESP_SUCCESS, if m_debug req then req_cycles req else 1, req_data req, e\<lparr>host_mem := m\<rparr>))"
  by (simp add: memory_transact_def is_write_def Let_def)

lemma memory_transact_read:
  "\<not> m_size d < ucast (req_addr req + req_size req) \<Longrightarrow> m_read req \<Longrightarrow>
   memory_transact d req e =
     bindE (load_bytes (host_mem e) (m_memory d + unat (req_addr req)) (unat (req_size req))) (\<lambda>bs.
     Inr (RESP_SUCCESS, if m_debug req then req_cycles req else 1,
          bs @ drop (unat (req_size req)) (req_data req), e))"
  by (simp add: memory_transact_def is_write_def Let_def)

lemma vt_transact_memory [simp]: "vt_transact (memory_vtable mal d) = memory_transact d"
  by (simp add: memory_vtable_def)

lemma memory_slow_path:
  assumes "memory_env d e" "unat addr + n \<le> unat (m_size d)" "int_width n" "length val = n"
  defines "e' \<equiv> e\<lparr>m_data_ptr := None\<rparr>"
  shows "env_write (memory_vtable mal d) addr val cyc e' =
      bindE (store_bytes (host_mem e) (m_memory d + unat addr) (stored_bytes e val)) (\<lambda>m.
        Inr (True, cyc + 1, e'\<lparr>host_mem := m\<rparr>))" (is ?wr)
    and "env_read (memory_vtable mal d) addr val cyc e' =
      bindE (load_bytes (host_mem e) (m_memory d + unat addr) n) (\<lambda>bs.
        Inr (True, stored_bytes e bs, cyc + 1, e'))" (is ?rd)
proof -
  define req where
    "req rd = (set_addr_and_data new_request addr val)\<lparr>m_imem := False, m_read := rd\<rparr>" for rd
  have nw: "unat (of_nat n :: u32) = n" "basic_size (of_nat n)"
    using int_width_basic[OF assms(3)] by simp_all
  have inb: "\<not> m_size d < ucast (addr + of_nat n)"
    using assms(2) nw by (intro memory_in_bounds) simp
  have fields [simp]: "req_size (req rd) = of_nat n" "req_addr (req rd) = addr"
    "req_data (req rd) = val" "req_endian (req rd) = host_endian" "m_debug (req rd) = False"
    "m_read (req rd) = rd" for rd
    using assms(4) by (simp_all add: req_def set_addr_and_data_def new_request_def)
  have ptr: "direct_memory_ptr (req rd) e' = ((req rd)\<lparr>req_cycles := m_data_cycles e\<rparr>, None)" for rd
    by (simp add: direct_memory_ptr_def get_data_ptr_def is_dmem_def e'_def req_def
        set_addr_and_data_def new_request_def)
  have wire: "wire_bytes (req rd) e' bs = stored_bytes e bs" for rd bs
    by (simp add: wire_bytes_stored stored_bytes_def e'_def)
  have hm: "host_mem e' = host_mem e" by (simp add: e'_def)
  show ?wr
  proof (rule convert_and_transact_indirect[where req = "req False", OF _ _ ptr,
        of "memory_vtable mal d"])
    fix d0 D
    assume "take (unat (req_size (req False))) d0 = wire_bytes (req False) e' (req_data (req False))"
      and c: "convert_and_transact (memory_vtable mal d) (req False) e' =
        bindE (vt_transact (memory_vtable mal d)
            ((req False)\<lparr>req_cycles := m_data_cycles e, req_data := d0, req_endian := env_endian e'\<rparr>) e')
          (\<lambda>(resp, cyc, dat, e''). Inr (resp,
            (req False)\<lparr>req_cycles := m_data_cycles e, req_cycles := cyc, req_data := D dat\<rparr>, e''))"
    then have d0: "take n d0 = stored_bytes e val" using nw by (simp add: wire)
    show ?thesis
      using inb nw d0 unfolding env_write_def req_def[symmetric] c
      by (simp add: memory_transact_write bindE_assoc hm)
  qed (use nw assms(4) in simp_all)
  show ?rd
  proof (rule convert_and_transact_indirect[where req = "req True", OF _ _ ptr,
        of "memory_vtable mal d"])
    fix d0 D
    assume d0: "unat (req_size (req True)) \<le> length d0"
      and D: "\<And>dat. length dat = length d0 \<Longrightarrow>
        D dat = wire_bytes (req True) e' (take (unat (req_size (req True))) dat)"
      and c: "convert_and_transact (memory_vtable mal d) (req True) e' =
        bindE (vt_transact (memory_vtable mal d)
            ((req True)\<lparr>req_cycles := m_data_cycles e, req_data := d0, req_endian := env_endian e'\<rparr>) e')
          (\<lambda>(resp, cyc, dat, e''). Inr (resp,
            (req True)\<lparr>req_cycles := m_data_cycles e, req_cycles := cyc, req_data := D dat\<rparr>, e''))"
    show ?thesis
    proof (cases "load_bytes (host_mem e) (m_memory d + unat addr) n")
      case (Inl x)
      then show ?thesis
        using inb nw unfolding env_read_def req_def[symmetric] c
        by (simp add: memory_transact_read hm)
    next
      case (Inr bs)
      then have "length bs = n" by (rule length_load_bytes)
      then have "D (bs @ drop n d0) = stored_bytes e bs"
        using d0 nw by (subst D) (simp_all add: wire)
      then show ?thesis
        using inb nw Inr unfolding env_read_def req_def[symmetric] c
        by (simp add: memory_transact_read hm)
    qed
  qed (use nw assms(4) in simp_all)
qed

text \<open>C4: The slow path of the port, through \<^verbatim>\<open>memory::transact\<close>, and the direct path through the
  data pointer agree for every integer access inside the memory: a write stores the same bytes, a
  read returns the same value. They differ in the cycles they charge, one against two.\<close>

theorem memory_paths_agree:
  assumes "memory_env d e" "unat addr + length val \<le> unat (m_size d)" "int_width (length val)"
  shows "\<exists>m bs.
      env_write (memory_vtable mal d) addr val cyc e = Inr (True, cyc + 2, e\<lparr>host_mem := m\<rparr>)
    \<and> env_write (memory_vtable mal d) addr val cyc (e\<lparr>m_data_ptr := None\<rparr>)
        = Inr (True, cyc + 1, e\<lparr>m_data_ptr := None, host_mem := m\<rparr>)
    \<and> env_read (memory_vtable mal d) addr val cyc e = Inr (True, bs, cyc + 2, e)
    \<and> env_read (memory_vtable mal d) addr val cyc (e\<lparr>m_data_ptr := None\<rparr>)
        = Inr (True, bs, cyc + 1, e\<lparr>m_data_ptr := None\<rparr>)"
proof -
  let ?p = "m_memory d + unat addr" and ?n = "length val"
  have n: "0 < ?n" using assms(3) by (auto simp: int_width_def)
  note dp = memory_data_ptr[OF assms(1,2) n]
  have cyc: "m_data_cycles e = 1"
    using assms(1) by (simp add: memory_env_def)
  obtain m where m: "store_bytes (host_mem e) ?p (stored_bytes e val) = Inr m"
    using store_bytes_allocated dp(2) by (metis length_stored_bytes)
  obtain bs where bs: "load_bytes (host_mem e) ?p ?n = Inr bs"
    using dp(2) by (simp add: load_bytes_allocated)
  show ?thesis
    using assms(3) m bs cyc dp(1) memory_slow_path[OF assms(1,2,3) refl]
    by (auto simp: env_write_direct env_read_direct)
qed


definition demo_memory :: "memory_dev \<times> env" where
  "demo_memory = (case new_memory 8192 65536 (\<lambda>_. None) of Inr x \<Rightarrow> x | Inl _ \<Rightarrow> undefined)"

lemma demo_memory_env:
  "memory_env (fst demo_memory) (snd demo_memory)" "m_size (fst demo_memory) = 8192"
  using new_memory_env[of 8192 65536 "\<lambda>_. None"] by (auto simp: demo_memory_def)

theorem memory_paths_agree_witness:
  "\<exists>m bs.
      env_write (memory_vtable (\<lambda>_. 0) (fst demo_memory)) 0x100 [1, 2, 3, 4] 5 (snd demo_memory)
        = Inr (True, 7, (snd demo_memory)\<lparr>host_mem := m\<rparr>)
    \<and> env_read (memory_vtable (\<lambda>_. 0) (fst demo_memory)) 0x100 [1, 2, 3, 4] 5 (snd demo_memory)
        = Inr (True, bs, 7, snd demo_memory)"
  using memory_paths_agree[OF demo_memory_env(1), where addr = "0x100" and val = "[1, 2, 3, 4]"
      and mal = "\<lambda>_. 0" and cyc = 5]
  by (auto simp: demo_memory_env int_width_def)

text \<open>The guest sees a big-endian memory: after a word is written, reading one byte at offset
  \<open>i\<close> from its address returns byte \<open>i\<close> counted from the most significant one, whatever the host's
  own byte order does to the value in between.\<close>

theorem memory_is_big_endian:
  assumes "memory_env d e" "unat addr + 4 \<le> unat (m_size d)" "i < 4"
    and "env_write (memory_vtable mal d) addr (le_bytes 4 (w :: u32)) cyc e = Inr (ok, cyc', e')"
  shows "ok \<and> env_read (memory_vtable mal d) (addr + of_nat i) [b] cyc e'
    = Inr (True, [ucast (drop_bit (8 * (3 - i)) w)], cyc + 2, e')"
proof -
  let ?p = "m_memory d + unat addr"
  have cfg: "m_data_cycles e = 1" "env_endian e = ENDIAN_BIG"
    using assms(1) by (simp_all add: memory_env_def)
  note dp = memory_data_ptr[OF assms(1,2)]
  have "int_width (length (le_bytes 4 w))" by (simp add: int_width_def)
  then obtain m where m: "store_bytes (host_mem e) ?p (rev (le_bytes 4 w)) = Inr m"
    and e': "e' = e\<lparr>host_mem := m\<rparr>" "ok"
    using assms(4) dp(1) cfg by (auto simp: env_write_direct stored_bytes_def bindE_eq_Inr)
  have me: "memory_env d e'"
    using memory_env_store[OF assms(1) m] e' by simp
  have ai: "unat (addr + of_nat i) = unat addr + i"
    using assms(1,2,3) by (simp add: unat_word_ariths unat_of_nat memory_env_def)
  then have dp': "get_data_ptr e' (addr + of_nat i) = Some (?p + i)"
      "allocated (host_mem e') (?p + i) 1"
    using memory_data_ptr[OF me, of "addr + of_nat i" 1] assms(2,3) by (simp_all add: add.assoc)
  have "the (m (?p + i)) = rev (le_bytes 4 w) ! i"
    using m assms(3) by (auto simp: store_bytes_def split: if_splits)
  also have "\<dots> = ucast (drop_bit (8 * (3 - i)) w)"
    using assms(3) by (simp add: rev_nth nth_le_bytes)
  finally have "load_bytes (host_mem e') (?p + i) 1 = Inr [ucast (drop_bit (8 * (3 - i)) w)]"
    using dp'(2) e' by (simp add: load_bytes_allocated)
  moreover have "int_width (length [b])" by (simp add: int_width_def)
  ultimately show ?thesis
    using dp'(1) e' cfg by (simp add: env_read_direct stored_bytes_def)
qed

theorem memory_is_big_endian_witness:
  "\<exists>e'. env_read (memory_vtable (\<lambda>_. 0) (fst demo_memory)) 0x101 [0] 0 e'
     = Inr (True, [0x22], 2, e')"
proof -
  obtain m where w: "env_write (memory_vtable (\<lambda>_. 0) (fst demo_memory)) 0x100
      (le_bytes 4 (0x11223344 :: u32)) 0 (snd demo_memory) = Inr (True, 2, (snd demo_memory)\<lparr>host_mem := m\<rparr>)"
    using memory_data_ptr[OF demo_memory_env(1), of "0x100" 4] demo_memory_env
      store_bytes_allocated[of "host_mem (snd demo_memory)" "m_memory (fst demo_memory) + 256"
        "stored_bytes (snd demo_memory) (le_bytes 4 (0x11223344 :: u32))"]
    by (auto simp: env_write_direct int_width_def memory_env_def)
  have b: "(ucast (drop_bit (8 * (3 - 1)) (0x11223344 :: u32)) :: u8) = 0x22" by simp
  have "env_read (memory_vtable (\<lambda>_. 0) (fst demo_memory)) (0x100 + of_nat 1) [0] 0
      ((snd demo_memory)\<lparr>host_mem := m\<rparr>) = Inr (True, [0x22], 0 + 2, (snd demo_memory)\<lparr>host_mem := m\<rparr>)"
    using memory_is_big_endian[OF demo_memory_env(1) _ _ w, where i = 1 and b = 0]
    unfolding b by (simp add: demo_memory_env)
  then show ?thesis by auto
qed

text \<open>
  The check of \<^verbatim>\<open>memory::transact\<close> adds in 32 bits: for an access at the top of the address space
  the sum wraps to a small number and the copy leaves the block.
\<close>

lemma memory_transact_wraps:
  "memory_transact \<lparr>m_size = 8192, m_memory = 65536\<rparr>
     ((set_addr_and_data new_request 0xfffffffc [0, 0, 0, 0])\<lparr>m_read := True\<rparr>)
     (snd demo_memory) = Inl Host_fault"
  by (simp add: memory_transact_def set_addr_and_data_def new_request_def is_write_def load_bytes_def
      demo_memory_def new_memory_def set_data_ptr_def set_insn_ptr_def new_env_def upt_rec)

end
