(* ===== verification/Utils.thy ===== *)
theory Utils
  imports Bitops
begin

text \<open>
  The helpers of \<^verbatim>\<open>include/or1kiss/utils.h\<close>: hexadecimal characters, the RSP checksum, unescaping
  and the container idioms. Characters are bytes; a C string is the list of its characters
  without the terminator.
\<close>

section \<open>Characters and numbers\<close>

text \<open>\<^verbatim>\<open>checksum\<close> adds \<^verbatim>\<open>int\<close> values and keeps the low eight bits, so a byte sum gives the same.\<close>

fun checksum_loop :: "u8 list \<Rightarrow> u32 \<Rightarrow> u32" where
  "checksum_loop [] result = result"
| "checksum_loop (c # str) result = checksum_loop str (result + scast c)"

definition checksum :: "u8 list \<Rightarrow> u32" where
  "checksum str = checksum_loop str 0 AND 0xff"

definition char2int :: "u8 \<Rightarrow> u32" where
  "char2int c =
     (if 0x61 \<le> c \<and> c \<le> 0x66 then ucast c - 0x61 + 10
      else if 0x41 \<le> c \<and> c \<le> 0x46 then ucast c - 0x41 + 10
      else if 0x30 \<le> c \<and> c \<le> 0x39 then ucast c - 0x30
      else 0)"

text \<open>\<^verbatim>\<open>str2int\<close> walks from the last of the \<open>n\<close> characters down to the first.\<close>

fun str2int_loop :: "u8 list \<Rightarrow> u32 \<Rightarrow> u32" where
  "str2int_loop [] val = val"
| "str2int_loop (c # cs) val = str2int_loop cs (push_bit 4 val OR char2int c)"

definition str2int :: "u8 list \<Rightarrow> nat \<Rightarrow> u32" where
  "str2int s n = str2int_loop (rev (take n s)) 0"

definition hexchars :: "u8 list" where
  "hexchars = [0x30, 0x31, 0x32, 0x33, 0x34, 0x35, 0x36, 0x37,
               0x38, 0x39, 0x41, 0x42, 0x43, 0x44, 0x45, 0x46]"

definition int2char :: "u32 \<Rightarrow> u8" where
  "int2char h = hexchars ! unat (h AND 0xf)"

fun char_unescape :: "u8 list \<Rightarrow> (u8 \<times> u8 list) res" where
  "char_unescape [] = Inl Host_fault"
| "char_unescape (result # s) =
     (if result = 0x7d
      then (case s of [] \<Rightarrow> Inl Host_fault | c # s' \<Rightarrow> Inr (c XOR 0x20, s'))
      else Inr (result, s))"

section \<open>Containers\<close>

definition stl_contains :: "'a list \<Rightarrow> 'a \<Rightarrow> bool" where
  "stl_contains v e \<longleftrightarrow> List.find (\<lambda>x. x = e) v \<noteq> None"

definition stl_remove_erase :: "'a list \<Rightarrow> 'a \<Rightarrow> 'a list" where
  "stl_remove_erase v e = filter (\<lambda>x. x \<noteq> e) v"

definition stl_remove_erase_if :: "'a list \<Rightarrow> ('a \<Rightarrow> bool) \<Rightarrow> 'a list" where
  "stl_remove_erase_if v p = filter (\<lambda>x. \<not> p x) v"

section \<open>Lemmas\<close>

lemma stl_contains_iff [simp]: "stl_contains v e \<longleftrightarrow> e \<in> set v"
  by (auto simp: stl_contains_def find_None_iff)

lemma set_stl_remove_erase [simp]: "set (stl_remove_erase v e) = set v - {e}"
  by (auto simp: stl_remove_erase_def)

lemma set_stl_remove_erase_if [simp]: "set (stl_remove_erase_if v p) = {x \<in> set v. \<not> p x}"
  by (auto simp: stl_remove_erase_if_def)

lemma checksum_loop_add: "checksum_loop (xs @ ys) a = checksum_loop ys (checksum_loop xs a)"
  by (induction xs arbitrary: a) auto

text \<open>The checksum is the sum of the bytes modulo 256.\<close>

lemma ucast_checksum_loop:
  "(ucast (checksum_loop str a) :: u8) = ucast a + sum_list str"
proof (induction str arbitrary: a)
  case (Cons c str)
  have "(ucast (a + scast c) :: u8) = ucast a + c"
    by (simp add: ucast_down_add scast_down_ucast)
  with Cons show ?case by (simp add: add.assoc)
qed simp

lemma checksum_byte: "(ucast (checksum str) :: u8) = sum_list str"
proof -
  have "(ucast (checksum str) :: u8) = ucast (checksum_loop str 0)"
    by (rule bit_word_eqI) (auto simp: checksum_def bit_simps and_low_mask)
  then show ?thesis by (simp add: ucast_checksum_loop)
qed

text \<open>The nibble a hexadecimal digit stands for, both cases of letters included.\<close>

lemma char2int_int2char: "char2int (int2char h) = h AND 0xf"
proof -
  have "unat (h AND 0xf) < 16"
    using unat_take_bit_less[of 4 h] by (simp add: and_low_mask)
  then have "unat (h AND 0xf) \<in> {..<16}" by simp
  moreover have "\<forall>n \<in> {..<16}. char2int (hexchars ! n) = of_nat n"
    by (simp add: lessThan_nat_numeral char2int_def hexchars_def)
  ultimately show ?thesis by (simp add: int2char_def)
qed

lemma str2int_Nil [simp]: "str2int [] n = 0"
  by (simp add: str2int_def)

lemma str2int_loop_append: "str2int_loop (xs @ ys) a = str2int_loop ys (str2int_loop xs a)"
  by (induction xs arbitrary: a) auto

lemma str2int_Cons:
  "str2int (c # s) (Suc n) = push_bit 4 (str2int s n) OR char2int c"
  by (simp add: str2int_def str2int_loop_append)

end
