(* ===== verification/Or1k_State.thy ===== *)
theory Or1k_State
  imports Insn Mmu Tick Memory Utils
begin

text \<open>
  The state of the simulator class (\<^verbatim>\<open>include/or1kiss/or1k.h\<close>): one record with a field per member,
  and the constants of its enumerations. Three fields are not members: the characters and messages
  sent to the standard output so far, the floating-point environment of the host thread, and the
  number of calls made so far to host functions whose answer the simulator cannot predict. The
  member \<^verbatim>\<open>m_tick_update\<close> is called \<open>m_tick_stamp\<close> here.
\<close>

section \<open>Constants\<close>

definition SR_SM :: u32 where "SR_SM = push_bit 0 1"
definition SR_TEE :: u32 where "SR_TEE = push_bit 1 1"
definition SR_IEE :: u32 where "SR_IEE = push_bit 2 1"
definition SR_DME :: u32 where "SR_DME = push_bit 5 1"
definition SR_IME :: u32 where "SR_IME = push_bit 6 1"
definition SR_F :: u32 where "SR_F = push_bit 9 1"
definition SR_CY :: u32 where "SR_CY = push_bit 10 1"
definition SR_OV :: u32 where "SR_OV = push_bit 11 1"
definition SR_OVE :: u32 where "SR_OVE = push_bit 12 1"
definition SR_DSX :: u32 where "SR_DSX = push_bit 13 1"
definition SR_EPH :: u32 where "SR_EPH = push_bit 14 1"
definition SR_FO :: u32 where "SR_FO = push_bit 15 1"
definition SR_SUMRA :: u32 where "SR_SUMRA = push_bit 16 1"

definition CPUCFGR_OB32S :: u32 where "CPUCFGR_OB32S = push_bit 5 1"
definition CPUCFGR_OF32S :: u32 where "CPUCFGR_OF32S = push_bit 7 1"
definition CPUCFGR_ND :: u32 where "CPUCFGR_ND = push_bit 10 1"
definition CPUCFGR_AVRP :: u32 where "CPUCFGR_AVRP = push_bit 11 1"
definition CPUCFGR_EVBARP :: u32 where "CPUCFGR_EVBARP = push_bit 12 1"
definition CPUCFGR_AECSRP :: u32 where "CPUCFGR_AECSRP = push_bit 14 1"

definition AE_CYADDE :: u32 where "AE_CYADDE = push_bit 0 1"
definition AE_OVADDE :: u32 where "AE_OVADDE = push_bit 1 1"
definition AE_CYMULE :: u32 where "AE_CYMULE = push_bit 2 1"
definition AE_OVMULE :: u32 where "AE_OVMULE = push_bit 3 1"
definition AE_DBZE :: u32 where "AE_DBZE = push_bit 4 1"
definition AE_CYMACADDE :: u32 where "AE_CYMACADDE = push_bit 5 1"
definition AE_OVMACADDE :: u32 where "AE_OVMACADDE = push_bit 6 1"

definition FPS_FPEE :: u32 where "FPS_FPEE = push_bit 0 1"
definition FPS_RMN :: u32 where "FPS_RMN = push_bit 1 0"
definition FPS_RMZ :: u32 where "FPS_RMZ = push_bit 1 1"
definition FPS_RMU :: u32 where "FPS_RMU = push_bit 1 2"
definition FPS_RMD :: u32 where "FPS_RMD = push_bit 1 3"
definition FPS_OV :: u32 where "FPS_OV = push_bit 3 1"
definition FPS_UNF :: u32 where "FPS_UNF = push_bit 4 1"
definition FPS_QNF :: u32 where "FPS_QNF = push_bit 6 1"
definition FPS_ZF :: u32 where "FPS_ZF = push_bit 7 1"
definition FPS_INF :: u32 where "FPS_INF = push_bit 10 1"
definition FPS_DZF :: u32 where "FPS_DZF = push_bit 11 1"

definition PMR_DME :: u32 where "PMR_DME = push_bit 4 1"

definition UPR_UP :: u32 where "UPR_UP = push_bit 0 1"
definition UPR_DMP :: u32 where "UPR_DMP = push_bit 3 1"
definition UPR_IMP :: u32 where "UPR_IMP = push_bit 4 1"
definition UPR_MP :: u32 where "UPR_MP = push_bit 5 1"
definition UPR_PICP :: u32 where "UPR_PICP = push_bit 8 1"
definition UPR_PMP :: u32 where "UPR_PMP = push_bit 9 1"
definition UPR_TTP :: u32 where "UPR_TTP = push_bit 10 1"

definition OR1KISS_REG_VERSION :: u32 where
  "OR1KISS_REG_VERSION = push_bit 24 (0x12 AND 0xff) OR push_bit 16 (0x00 AND 0xff)
     OR push_bit 6 (0x01 AND 0x01) OR (0x01 AND 0x3f)"
definition OR1KISS_CPU_VERSION :: u32 where
  "OR1KISS_CPU_VERSION = push_bit 24 (0x42 AND 0xff) OR (0x000001 AND 0xffffff)"
definition OR1KISS_ARCH_VERSION :: u32 where
  "OR1KISS_ARCH_VERSION = push_bit 24 (1 AND 0xff) OR push_bit 16 (0 AND 0xff) OR push_bit 8 (0 AND 0xff)"
definition OR1KISS_CLOCK :: u64 where "OR1KISS_CLOCK = 100000000"
definition OR1KISS_PIC_NMI :: u32 where "OR1KISS_PIC_NMI = 0x3"
definition OR1KISS_SHADOW_REGS :: nat where "OR1KISS_SHADOW_REGS = 512"

text \<open>The exceptions, in the order of their priority.\<close>

datatype exception_prio =
    EX_RESET | EX_INSN_ALIGNMENT | EX_INSN_TLB_MISS | EX_INSN_PAGE_FAULT | EX_INSN_BUS_ERROR
  | EX_DATA_ALIGNMENT | EX_DATA_TLB_MISS | EX_DATA_PAGE_FAULT | EX_DATA_BUS_ERROR
  | EX_ILLEGAL_INSN | EX_SYSCALL | EX_TRAP | EX_RANGE | EX_FP | EX_TICK_TIMER | EX_EXTERNAL

fun prio :: "exception_prio \<Rightarrow> nat" where
  "prio EX_RESET = 0"
| "prio EX_INSN_ALIGNMENT = 1"
| "prio EX_INSN_TLB_MISS = 2"
| "prio EX_INSN_PAGE_FAULT = 3"
| "prio EX_INSN_BUS_ERROR = 4"
| "prio EX_DATA_ALIGNMENT = 5"
| "prio EX_DATA_TLB_MISS = 6"
| "prio EX_DATA_PAGE_FAULT = 7"
| "prio EX_DATA_BUS_ERROR = 8"
| "prio EX_ILLEGAL_INSN = 9"
| "prio EX_SYSCALL = 10"
| "prio EX_TRAP = 11"
| "prio EX_RANGE = 12"
| "prio EX_FP = 13"
| "prio EX_TICK_TIMER = 14"
| "prio EX_EXTERNAL = 15"

lemma prio_inject: "prio x = prio y \<Longrightarrow> x = y"
  by (cases x; cases y) simp_all

instantiation exception_prio :: linorder
begin

definition less_eq_exception_prio :: "exception_prio \<Rightarrow> exception_prio \<Rightarrow> bool" where
  "less_eq_exception_prio x y \<longleftrightarrow> prio x \<le> prio y"

definition less_exception_prio :: "exception_prio \<Rightarrow> exception_prio \<Rightarrow> bool" where
  "less_exception_prio x y \<longleftrightarrow> prio x < prio y"

instance
  by standard (auto simp: less_eq_exception_prio_def less_exception_prio_def prio_inject)

end

datatype step_result = STEP_OK | STEP_EXIT | STEP_BREAKPOINT | STEP_WATCHPOINT

section \<open>State\<close>

record double_register =
  hi :: u32
  lo :: u32

record watchpoint =
  wp_addr :: u32
  wp_size :: u32

record watchpoint_event =
  wpe_addr :: u32
  wpe_size :: u32
  wpe_wval :: u64
  wpe_iswr :: bool
  wpe_hit :: bool

datatype trace_stream = Stream_cerr | Stream_given | Stream_file

datatype host_output =
    Out_exit u32 | Out_report u32 | Out_putc u8 | Out_stats_reset | Out_trace_on | Out_trace_off
  | Out_silent_exit u32 | Out_puts "nat option" | Out_trace string

text \<open>Rounding direction and sticky flags of the host's floating-point unit.\<close>

datatype fe_round = FE_TONEAREST | FE_TOWARDZERO | FE_UPWARD | FE_DOWNWARD

record fenv =
  fe_mode :: fe_round
  fe_overflow :: bool
  fe_underflow :: bool
  fe_divbyzero :: bool

record or1k =
  m_decode_cache :: decode_cache
  m_stop_requested :: bool
  m_break_requested :: bool
  m_instructions :: u64
  m_cycles :: u64
  m_compiles :: u64
  m_limit :: u64
  m_sleep_cycles :: u64
  m_clock :: u64
  m_jump_target :: u32
  m_jump_insn :: u64
  m_phys_ipg :: u32
  m_virt_ipg :: u32
  m_prev_pc :: u32
  m_next_pc :: u32
  m_version :: u32
  m_version2 :: u32
  m_avr :: u32
  m_dccfgr :: u32
  m_iccfgr :: u32
  m_unit :: u32
  m_cpucfg :: u32
  m_fpcfg :: u32
  m_status :: u32
  m_insn :: u32
  m_aecr :: u32
  m_aesr :: u32
  m_exsr :: u32
  m_expc :: u32
  m_exea :: u32
  m_evba :: u32
  m_shadow :: "u32 list"
  m_mac :: double_register
  m_fmac :: double_register
  m_pmr :: u32
  m_allow_sleep :: bool
  m_pic_level :: bool
  m_pic_mr :: u32
  m_pic_sr :: u32
  m_core_id :: u32
  m_num_cores :: u32
  m_num_excl_read :: u64
  m_num_excl_write :: u64
  m_num_excl_failed :: u64
  m_tick_stamp :: u64
  m_tick :: tick
  m_dmmu :: mmu
  m_immu :: mmu
  m_env :: env
  m_ireq :: request
  m_dreq :: request
  m_breakpoints :: "u32 list"
  m_watchpoints_r :: "watchpoint list"
  m_watchpoints_w :: "watchpoint list"
  m_wp_event :: watchpoint_event
  m_trace_enabled :: bool
  m_trace_addr :: u32
  m_user_trace_stream :: "trace_stream option"
  m_fp_round_mode :: fe_round
  gpr :: "u32 list"
  g_output :: "host_output list"
  g_fenv :: fenv
  g_calls :: nat

text \<open>
  The arithmetic of the host's floating-point unit: the results of the single and double precision
  operations as bit patterns, with the flags they raise, for a rounding direction. The second operand
  of a conversion is not used. Comparison and classification of floating-point numbers are defined
  on their bit patterns and need no parameter.
\<close>

record fpu_result =
  fr_bits :: u64
  fr_overflow :: bool
  fr_underflow :: bool
  fr_divbyzero :: bool

record fpu =
  fpu_single :: "fpx_exec \<Rightarrow> fe_round \<Rightarrow> u32 \<Rightarrow> u32 \<Rightarrow> fpu_result"
  fpu_double :: "fpx_exec \<Rightarrow> fe_round \<Rightarrow> u64 \<Rightarrow> u64 \<Rightarrow> fpu_result"

text \<open>
  Everything outside the sources that a simulation step may call: the environment's virtual
  functions, \<^verbatim>\<open>rand\<close>, \<^verbatim>\<open>gettimeofday\<close> (seconds and microseconds) and the floating-point unit. The
  answers of the library calls may differ from call to call.
\<close>

record host =
  h_env :: env_vtable
  h_rand :: "nat \<Rightarrow> u32"
  h_time_sec :: "nat \<Rightarrow> u64"
  h_time_usec :: "nat \<Rightarrow> u64"
  h_fpu :: fpu

section \<open>Queries\<close>

definition is_dmmu_active :: "or1k \<Rightarrow> bool" where
  "is_dmmu_active s \<longleftrightarrow> m_status s AND SR_DME \<noteq> 0"
definition is_immu_active :: "or1k \<Rightarrow> bool" where
  "is_immu_active s \<longleftrightarrow> m_status s AND SR_IME \<noteq> 0"
definition is_supervisor :: "or1k \<Rightarrow> bool" where
  "is_supervisor s \<longleftrightarrow> m_status s AND SR_SM \<noteq> 0"
definition is_ext_irq_enabled :: "or1k \<Rightarrow> bool" where
  "is_ext_irq_enabled s \<longleftrightarrow> m_status s AND SR_IEE \<noteq> 0"
definition is_tick_irq_enabled :: "or1k \<Rightarrow> bool" where
  "is_tick_irq_enabled s \<longleftrightarrow> m_status s AND SR_TEE \<noteq> 0"

definition is_interrupt_pending :: "or1k \<Rightarrow> bool" where
  "is_interrupt_pending s \<longleftrightarrow> m_pic_sr s AND m_pic_mr s \<noteq> 0"
definition is_exception_pending :: "or1k \<Rightarrow> bool" where
  "is_exception_pending s \<longleftrightarrow> is_interrupt_pending s \<or> tick_irq_pending (m_tick s)"
definition is_sleeping :: "or1k \<Rightarrow> bool" where
  "is_sleeping s \<longleftrightarrow> m_allow_sleep s \<and> \<not> is_exception_pending s \<and> m_pmr s AND PMR_DME \<noteq> 0"

definition is_decode_cache_off :: "or1k \<Rightarrow> bool" where
  "is_decode_cache_off s = dc_is_enabled (m_decode_cache s)"

definition wp_overlaps :: "watchpoint \<Rightarrow> u32 \<Rightarrow> u32 \<Rightarrow> bool" where
  "wp_overlaps wp addr sz \<longleftrightarrow> addr < wp_addr wp + wp_size wp \<and> wp_addr wp < addr + sz"

definition watchpoint_hit :: "or1k \<Rightarrow> bool" where
  "watchpoint_hit s = wpe_hit (m_wp_event s)"

definition get_watchpoint_event :: "or1k \<Rightarrow> watchpoint_event option" where
  "get_watchpoint_event s = (if wpe_hit (m_wp_event s) then Some (m_wp_event s) else None)"

definition next_breakpoint :: "or1k \<Rightarrow> u64" where
  "next_breakpoint s =
     foldl (\<lambda>next bp. min next (ucast ((bp - m_next_pc s) div 4))) 0xffffffff (rev (m_breakpoints s))
       + m_cycles s"

definition breakpoint_hit :: "or1k \<Rightarrow> bool" where
  "breakpoint_hit s \<longleftrightarrow> list_ex (\<lambda>bp. bp = m_next_pc s) (m_breakpoints s)"

section \<open>Small operations\<close>

definition reset_exclusive :: "or1k \<Rightarrow> or1k" where
  "reset_exclusive s = s\<lparr>m_num_excl_read := 0, m_num_excl_write := 0, m_num_excl_failed := 0\<rparr>"

definition insert_breakpoint :: "u32 \<Rightarrow> or1k \<Rightarrow> or1k" where
  "insert_breakpoint addr s =
     (if \<not> stl_contains (m_breakpoints s) addr
      then s\<lparr>m_breakpoints := m_breakpoints s @ [addr]\<rparr> else s)"

definition remove_breakpoint :: "u32 \<Rightarrow> or1k \<Rightarrow> or1k" where
  "remove_breakpoint addr s =
     (if stl_contains (m_breakpoints s) addr
      then s\<lparr>m_breakpoints := stl_remove_erase (m_breakpoints s) addr\<rparr> else s)"

definition insert_watchpoint_r :: "u32 \<Rightarrow> u32 \<Rightarrow> or1k \<Rightarrow> or1k" where
  "insert_watchpoint_r addr sz s =
     s\<lparr>m_watchpoints_r := m_watchpoints_r s @ [\<lparr>wp_addr = addr, wp_size = sz\<rparr>]\<rparr>"

definition remove_watchpoint_r :: "u32 \<Rightarrow> u32 \<Rightarrow> or1k \<Rightarrow> or1k" where
  "remove_watchpoint_r addr sz s =
     s\<lparr>m_watchpoints_r := stl_remove_erase_if (m_watchpoints_r s) (\<lambda>wp. wp_overlaps wp addr sz)\<rparr>"

definition insert_watchpoint_w :: "u32 \<Rightarrow> u32 \<Rightarrow> or1k \<Rightarrow> or1k" where
  "insert_watchpoint_w addr sz s =
     s\<lparr>m_watchpoints_w := m_watchpoints_w s @ [\<lparr>wp_addr = addr, wp_size = sz\<rparr>]\<rparr>"

definition remove_watchpoint_w :: "u32 \<Rightarrow> u32 \<Rightarrow> or1k \<Rightarrow> or1k" where
  "remove_watchpoint_w addr sz s =
     s\<lparr>m_watchpoints_w := stl_remove_erase_if (m_watchpoints_w s) (\<lambda>wp. wp_overlaps wp addr sz)\<rparr>"

definition interrupt_level :: "nat \<Rightarrow> bool \<Rightarrow> or1k \<Rightarrow> or1k" where
  "interrupt_level irq st s =
     (let irq_mask = push_bit irq 1
      in if st then s\<lparr>m_pic_sr := m_pic_sr s OR irq_mask\<rparr>
         else s\<lparr>m_pic_sr := m_pic_sr s AND NOT irq_mask\<rparr>)"

definition interrupt_edge :: "nat \<Rightarrow> bool \<Rightarrow> or1k \<Rightarrow> or1k" where
  "interrupt_edge irq st s =
     (let irq_mask = push_bit irq 1
      in if st then s\<lparr>m_pic_sr := m_pic_sr s OR irq_mask\<rparr> else s)"

definition interrupt :: "nat \<Rightarrow> bool \<Rightarrow> or1k \<Rightarrow> or1k" where
  "interrupt irq st s =
     (if m_pic_level s then interrupt_level irq st s else interrupt_edge irq st s)"

text \<open>Register access through the pointers of an instruction.\<close>

definition get_op :: "instruction \<Rightarrow> operand \<Rightarrow> or1k \<Rightarrow> u32 res" where
  "get_op ci p s =
     (case p of
        PNull \<Rightarrow> Inl Host_fault
      | PImm \<Rightarrow> Inr (i_imm ci)
      | PGpr n \<Rightarrow> if n < length (gpr s) then Inr (gpr s ! n) else Inl Host_fault)"

definition put_op :: "operand \<Rightarrow> u32 \<Rightarrow> or1k \<Rightarrow> or1k res" where
  "put_op p v s =
     (case p of
        PGpr n \<Rightarrow> if n < length (gpr s) then Inr (s\<lparr>gpr := (gpr s)[n := v]\<rparr>) else Inl Host_fault
      | _ \<Rightarrow> Inl Host_fault)"

end
