(* ===== verification/Core.thy ===== *)
theory Core
  imports Or1k_State
begin

text \<open>
  Exceptions, jumps, the timer and sleeping (\<^verbatim>\<open>src/or1kiss/or1k.cpp\<close>, \<^verbatim>\<open>schedule_jump\<close> in
  \<^verbatim>\<open>include/or1kiss/or1k.h\<close>). \<^verbatim>\<open>exception\<close> and \<^verbatim>\<open>schedule_jump\<close> call each other: a vector that is
  not aligned raises the alignment exception again, for ever. Both take fuel; one unit is enough
  when the vector base is aligned, and no amount is when it is not.
\<close>

section \<open>Exceptions and jumps\<close>

definition EXCEPTION_VECTOR :: "exception_prio \<Rightarrow> u32" where
  "EXCEPTION_VECTOR type =
     [0x00000100, 0x00000600, 0x00000a00, 0x00000400, 0x00000200, 0x00000600, 0x00000900, 0x00000300,
      0x00000200, 0x00000700, 0x00000c00, 0x00000e00, 0x00000b00, 0x00000d00, 0x00000500, 0x00000800]
     ! prio type"

text \<open>
  The values that the constructor of the simulator gives to its members; the decode cache and the
  two MMUs are constructed from their own arguments (\<open>new_or1k\<close>).
\<close>

definition power_on :: "env \<Rightarrow> decode_cache \<Rightarrow> mmu \<Rightarrow> mmu \<Rightarrow> or1k" where
  "power_on e c dmmu immu =
     \<lparr>m_decode_cache = c,
      m_stop_requested = False, m_break_requested = False,
      m_instructions = 0, m_cycles = 0, m_compiles = 0, m_limit = 0, m_sleep_cycles = 0,
      m_clock = OR1KISS_CLOCK, m_jump_target = 0, m_jump_insn = 0,
      m_phys_ipg = -1, m_virt_ipg = -1,
      m_prev_pc = EXCEPTION_VECTOR EX_RESET, m_next_pc = EXCEPTION_VECTOR EX_RESET,
      m_version = OR1KISS_REG_VERSION, m_version2 = OR1KISS_CPU_VERSION,
      m_avr = OR1KISS_ARCH_VERSION, m_dccfgr = 0, m_iccfgr = 0,
      m_unit = UPR_TTP OR UPR_PICP OR UPR_MP OR UPR_UP OR UPR_DMP OR UPR_IMP OR UPR_PMP,
      m_cpucfg = CPUCFGR_OB32S OR CPUCFGR_OF32S OR CPUCFGR_AECSRP OR CPUCFGR_AVRP OR CPUCFGR_EVBARP,
      m_fpcfg = 0, m_status = SR_FO OR SR_SM, m_insn = 0, m_aecr = 0, m_aesr = 0,
      m_exsr = 0, m_expc = 0, m_exea = 0, m_evba = 0,
      m_shadow = replicate OR1KISS_SHADOW_REGS 0,
      m_mac = \<lparr>hi = 0, lo = 0\<rparr>, m_fmac = \<lparr>hi = 0, lo = 0\<rparr>,
      m_pmr = 0, m_allow_sleep = True, m_pic_level = True, m_pic_mr = OR1KISS_PIC_NMI, m_pic_sr = 0,
      m_core_id = 0, m_num_cores = 1,
      m_num_excl_read = 0, m_num_excl_write = 0, m_num_excl_failed = 0,
      m_tick_stamp = 0, m_tick = new_tick,
      m_dmmu = dmmu, m_immu = immu,
      m_env = e,
      m_ireq = new_request\<lparr>m_read := True, m_imem := True, req_data := le_bytes 4 (0 :: u32),
                           req_size := SIZE_WORD\<rparr>,
      m_dreq = new_request\<lparr>m_imem := False\<rparr>,
      m_breakpoints = [], m_watchpoints_r = [], m_watchpoints_w = [],
      m_wp_event = \<lparr>wpe_addr = 0, wpe_size = 0, wpe_wval = 0, wpe_iswr = False, wpe_hit = False\<rparr>,
      m_trace_enabled = False, m_trace_addr = 0, m_user_trace_stream = None,
      m_fp_round_mode = FE_TONEAREST,
      gpr = replicate 32 0,
      g_output = [],
      g_fenv = \<lparr>fe_mode = FE_TONEAREST, fe_overflow = False, fe_underflow = False,
                fe_divbyzero = False\<rparr>,
      g_calls = 0\<rparr>"

text \<open>Whether the exception is turned off.\<close>

definition exception_masked :: "exception_prio \<Rightarrow> or1k \<Rightarrow> bool" where
  "exception_masked type s \<longleftrightarrow>
     type = EX_EXTERNAL \<and> m_status s AND SR_IEE = 0 \<or>
     type = EX_TICK_TIMER \<and> m_status s AND SR_TEE = 0"

definition is_jump_insn :: "or1k \<Rightarrow> bool" where
  "is_jump_insn s \<longleftrightarrow> m_instructions s = m_jump_insn s - 1"

definition is_delay_insn :: "or1k \<Rightarrow> bool" where
  "is_delay_insn s \<longleftrightarrow> m_instructions s = m_jump_insn s - 0"

definition exception_pc :: "exception_prio \<Rightarrow> or1k \<Rightarrow> u32" where
  "exception_pc type s =
     (if type = EX_SYSCALL \<or> type = EX_FP
      then if is_jump_insn s then m_jump_target s else m_next_pc s + 4
      else if type = EX_TICK_TIMER \<or> type = EX_EXTERNAL
      then if is_jump_insn s then m_prev_pc s else m_next_pc s
      else if is_delay_insn s then m_prev_pc s else m_next_pc s)"

text \<open>The registers after the exception has been recorded, before the jump to its vector.\<close>

definition exception_enter :: "exception_prio \<Rightarrow> u32 \<Rightarrow> or1k \<Rightarrow> or1k" where
  "exception_enter type addr s =
     (let status = m_status s OR SR_SM;
          status = (if is_delay_insn s then status OR SR_DSX else status);
          status = status AND NOT SR_IEE;
          status = status AND NOT SR_TEE;
          status = status AND NOT SR_IME;
          status = status AND NOT SR_DME
      in s\<lparr>m_expc := exception_pc type s, m_jump_insn := 0, m_exea := addr, m_exsr := m_status s,
           m_status := status, m_pmr := m_pmr s AND NOT PMR_DME\<rparr>)"

definition exception_target :: "exception_prio \<Rightarrow> or1k \<Rightarrow> u32" where
  "exception_target type s =
     (let target = EXCEPTION_VECTOR type + m_evba s
      in if m_status s AND SR_EPH \<noteq> 0 then target OR 0xf0000000 else target)"

fun exception_fuel :: "nat \<Rightarrow> exception_prio \<Rightarrow> u32 \<Rightarrow> or1k \<Rightarrow> or1k res"
and schedule_jump_fuel :: "nat \<Rightarrow> u32 \<Rightarrow> u32 \<Rightarrow> or1k \<Rightarrow> or1k res" where
  "exception_fuel 0 type addr s = Inl Diverges"
| "exception_fuel (Suc n) type addr s =
     (if exception_masked type s then Inr s
      else let s' = exception_enter type addr s;
               target = exception_target type s'
           in if type \<noteq> EX_TICK_TIMER \<and> type \<noteq> EX_EXTERNAL
              then schedule_jump_fuel n target 0 s'
              else Inr (s'\<lparr>m_next_pc := target\<rparr>))"
| "schedule_jump_fuel n target delay s =
     (let s' = s\<lparr>m_jump_target := target, m_jump_insn := m_instructions s + ucast delay\<rparr>
      in if is_aligned (m_jump_target s') 4 then Inr s'
         else exception_fuel n EX_INSN_ALIGNMENT (m_jump_target s') s')"

text \<open>Fuel 2 admits the one nested call that an aligned vector base can need.\<close>

definition exception :: "exception_prio \<Rightarrow> u32 \<Rightarrow> or1k \<Rightarrow> or1k res" where
  "exception type addr s = exception_fuel 2 type addr s"

definition schedule_jump :: "u32 \<Rightarrow> u32 \<Rightarrow> or1k \<Rightarrow> or1k res" where
  "schedule_jump target delay s = schedule_jump_fuel 2 target delay s"

definition trigger_tlb_miss :: "u32 \<Rightarrow> or1k \<Rightarrow> or1k res" where
  "trigger_tlb_miss addr s = exception EX_DATA_TLB_MISS addr s"

section \<open>Timer and sleeping\<close>

definition update_timer :: "or1k \<Rightarrow> or1k res" where
  "update_timer s =
     bindE (if tick_enabled (m_tick s)
            then let s' = s\<lparr>m_tick := tick_update (m_cycles s - m_tick_stamp s) (m_tick s)\<rparr>
                 in if tick_irq_pending (m_tick s') then exception EX_TICK_TIMER 0 s' else Inr s'
            else Inr s)
       (\<lambda>s. Inr (s\<lparr>m_tick_stamp := m_cycles s\<rparr>))"

definition doze :: "host \<Rightarrow> or1k \<Rightarrow> or1k res" where
  "doze h s =
     (if m_pmr s AND PMR_DME = 0 \<or> \<not> m_allow_sleep s then Inr s
      else
        let skip = (if tick_enabled (m_tick s) \<and> tick_irq_enabled (m_tick s)
                    then min (next_tick (m_tick s)) (ucast (tick_limit (m_tick s))) else NOT 0);
            (cycles, e) = vt_sleep (h_env h) skip (m_env s);
            s = s\<lparr>m_env := e\<rparr>
        in if cycles \<noteq> 0
           then Inr (s\<lparr>m_cycles := m_cycles s + cycles, m_sleep_cycles := m_sleep_cycles s + cycles,
                       m_limit := m_limit s + cycles, m_pmr := m_pmr s AND NOT PMR_DME\<rparr>)
           else let skip = min skip (m_limit s - m_cycles s)
                in update_timer (s\<lparr>m_cycles := m_cycles s + skip,
                                   m_sleep_cycles := m_sleep_cycles s + skip\<rparr>))"

section \<open>What an exception does\<close>

definition asynchronous :: "exception_prio \<Rightarrow> bool" where
  "asynchronous type \<longleftrightarrow> type = EX_TICK_TIMER \<or> type = EX_EXTERNAL"

definition vectors_aligned :: "or1k \<Rightarrow> bool" where
  "vectors_aligned s \<longleftrightarrow> is_aligned (m_evba s) 4"

lemma is_aligned_4_iff: "is_aligned a 4 \<longleftrightarrow> a AND 3 = 0"
  by (simp add: is_aligned_def)

lemma is_aligned_4_bits: "is_aligned a 4 \<longleftrightarrow> (\<forall>n<2. \<not> bit a n)"
proof -
  have "take_bit 2 a = 0 \<longleftrightarrow> (\<forall>n<2. \<not> bit a n)"
    unfolding bit_eq_iff by (auto simp: bit_take_bit_iff)
  then show ?thesis using is_aligned_mask[of 2 a] by simp
qed

lemma is_aligned_4_or: "is_aligned (a OR b) 4 \<longleftrightarrow> is_aligned a 4 \<and> is_aligned b 4"
  by (auto simp: is_aligned_4_bits bit_or_iff)

lemma is_aligned_4_add: "is_aligned a 4 \<Longrightarrow> is_aligned (a + b) 4 = is_aligned b 4"
  by (simp add: is_aligned_word_iff unat_word_ariths dvd_mod_iff dvd_add_right_iff)

lemma EXCEPTION_VECTOR_aligned: "is_aligned (EXCEPTION_VECTOR type) 4"
  by (cases type) (simp_all add: EXCEPTION_VECTOR_def is_aligned_4_iff)

lemma exception_target_aligned: "is_aligned (exception_target type s) 4 = vectors_aligned s"
proof -
  have "is_aligned (0xf0000000 :: u32) 4" by (simp add: is_aligned_4_iff)
  then show ?thesis
    unfolding exception_target_def Let_def vectors_aligned_def
    by (simp only: is_aligned_4_or is_aligned_4_add[OF EXCEPTION_VECTOR_aligned] split: if_split) simp
qed

text \<open>The state in which an exception leaves the core.\<close>

definition exception_taken :: "exception_prio \<Rightarrow> u32 \<Rightarrow> or1k \<Rightarrow> or1k" where
  "exception_taken type addr s =
     (let s' = exception_enter type addr s
      in if asynchronous type then s'\<lparr>m_next_pc := exception_target type s'\<rparr>
         else s'\<lparr>m_jump_target := exception_target type s', m_jump_insn := m_instructions s'\<rparr>)"

lemma exception_enter_fields [simp]:
  "m_evba (exception_enter type addr s) = m_evba s"
  "m_instructions (exception_enter type addr s) = m_instructions s"
  "gpr (exception_enter type addr s) = gpr s"
  "m_next_pc (exception_enter type addr s) = m_next_pc s"
  by (simp_all add: exception_enter_def Let_def)

lemma exception_fuel_cases:
  "exception_fuel (Suc n) type addr s =
     (if exception_masked type s then Inr s
      else if asynchronous type \<or> vectors_aligned s then Inr (exception_taken type addr s)
      else let s' = exception_enter type addr s; t = exception_target type s'
           in exception_fuel n EX_INSN_ALIGNMENT t (s'\<lparr>m_jump_target := t, m_jump_insn := m_instructions s'\<rparr>))"
  using exception_target_aligned[of type "exception_enter type addr s"]
  by (auto simp: exception_taken_def asynchronous_def vectors_aligned_def Let_def)

lemma synchronous_never_masked: "\<not> asynchronous type \<Longrightarrow> \<not> exception_masked type s"
  by (auto simp: asynchronous_def exception_masked_def)

lemma exception_fuel_unaligned:
  "\<not> asynchronous type \<Longrightarrow> \<not> vectors_aligned s \<Longrightarrow> exception_fuel n type addr s = Inl Diverges"
proof (induction n arbitrary: type addr s)
  case (Suc n)
  then show ?case
    unfolding exception_fuel_cases Let_def
    by (simp add: synchronous_never_masked) (rule Suc.IH, simp_all add: asynchronous_def vectors_aligned_def)
qed simp

lemma exception_fuel_enough:
  assumes "asynchronous type \<or> vectors_aligned s"
  shows "exception_fuel (Suc n) type addr s =
    Inr (if exception_masked type s then s else exception_taken type addr s)"
  using assms unfolding exception_fuel_cases by simp

lemma exception_eq:
  "exception type addr s =
     (if exception_masked type s then Inr s
      else if asynchronous type \<or> vectors_aligned s then Inr (exception_taken type addr s)
      else Inl Diverges)"
  using exception_fuel_unaligned[of type s 2 addr] exception_fuel_enough[of type s 1 addr]
  by (auto simp: exception_def numeral_2_eq_2 synchronous_never_masked asynchronous_def
      exception_masked_def)

lemma schedule_jump_fuel_cases:
  "schedule_jump_fuel (Suc n) target delay s =
     (let s' = s\<lparr>m_jump_target := target, m_jump_insn := m_instructions s + ucast delay\<rparr>
      in if is_aligned target 4 then Inr s'
         else if vectors_aligned s then Inr (exception_taken EX_INSN_ALIGNMENT target s')
         else Inl Diverges)"
proof -
  let ?s = "s\<lparr>m_jump_target := target, m_jump_insn := m_instructions s + ucast delay\<rparr>"
  have v: "vectors_aligned ?s = vectors_aligned s" by (simp add: vectors_aligned_def)
  have na: "\<not> asynchronous EX_INSN_ALIGNMENT" by (simp add: asynchronous_def)
  have nm: "\<not> exception_masked EX_INSN_ALIGNMENT ?s" by (rule synchronous_never_masked[OF na])
  show ?thesis
    using exception_fuel_unaligned[OF na, of ?s "Suc n" target]
      exception_fuel_enough[of EX_INSN_ALIGNMENT ?s n target] v nm
    by (simp add: Let_def del: exception_fuel.simps)
qed

lemma schedule_jump_eq:
  "schedule_jump target delay s =
     (let s' = s\<lparr>m_jump_target := target, m_jump_insn := m_instructions s + ucast delay\<rparr>
      in if is_aligned target 4 then Inr s'
         else if vectors_aligned s then Inr (exception_taken EX_INSN_ALIGNMENT target s')
         else Inl Diverges)"
  by (simp only: schedule_jump_def numeral_2_eq_2 schedule_jump_fuel_cases)

text \<open>C11: An exception and its nested alignment exceptions come to an end exactly when the
  exception is turned off, does not use a scheduled jump, or finds the vector base aligned. On an
  unaligned vector base the two functions call each other for ever, whatever the fuel.\<close>

theorem exception_ends_iff:
  "(\<exists>n s'. exception_fuel n type addr s = Inr s') \<longleftrightarrow>
     exception_masked type s \<or> asynchronous type \<or> vectors_aligned s"
proof
  assume "\<exists>n s'. exception_fuel n type addr s = Inr s'"
  then obtain n s' where "exception_fuel n type addr s = Inr s'" by blast
  then show "exception_masked type s \<or> asynchronous type \<or> vectors_aligned s"
    using exception_fuel_unaligned[of type s n addr] by fastforce
next
  assume a: "exception_masked type s \<or> asynchronous type \<or> vectors_aligned s"
  have "exception_fuel 1 type addr s = Inr (if exception_masked type s then s else exception_taken type addr s)"
    using a by (simp only: One_nat_def exception_fuel_cases) auto
  then show "\<exists>n s'. exception_fuel n type addr s = Inr s'" by blast
qed

section \<open>The state after an exception\<close>

lemma sr_queries:
  "is_supervisor s \<longleftrightarrow> bit (m_status s) 0"
  "is_tick_irq_enabled s \<longleftrightarrow> bit (m_status s) 1"
  "is_ext_irq_enabled s \<longleftrightarrow> bit (m_status s) 2"
  "is_dmmu_active s \<longleftrightarrow> bit (m_status s) 5"
  "is_immu_active s \<longleftrightarrow> bit (m_status s) 6"
  unfolding is_supervisor_def is_tick_irq_enabled_def is_ext_irq_enabled_def is_dmmu_active_def
    is_immu_active_def SR_SM_def SR_TEE_def SR_IEE_def SR_DME_def SR_IME_def
  by (rule and_push_bit_one)+

lemma bit_SR:
  "bit SR_SM n \<longleftrightarrow> n = 0" "bit SR_TEE n \<longleftrightarrow> n = 1" "bit SR_IEE n \<longleftrightarrow> n = 2" "bit SR_DME n \<longleftrightarrow> n = 5"
  "bit SR_IME n \<longleftrightarrow> n = 6" "bit SR_F n \<longleftrightarrow> n = 9" "bit SR_CY n \<longleftrightarrow> n = 10" "bit SR_OV n \<longleftrightarrow> n = 11"
  "bit SR_OVE n \<longleftrightarrow> n = 12" "bit SR_DSX n \<longleftrightarrow> n = 13" "bit SR_FO n \<longleftrightarrow> n = 15"
  unfolding SR_SM_def SR_TEE_def SR_IEE_def SR_DME_def SR_IME_def SR_F_def SR_CY_def SR_OV_def
    SR_OVE_def SR_DSX_def SR_FO_def bit_push_bit_one by auto

lemma bit_PMR_DME: "bit PMR_DME n \<longleftrightarrow> n = 4"
  unfolding PMR_DME_def bit_push_bit_one by auto

lemma pmr_doze: "m_pmr s AND PMR_DME \<noteq> 0 \<longleftrightarrow> bit (m_pmr s) 4"
  unfolding PMR_DME_def by (rule and_push_bit_one)

text \<open>The bits of the status register that an exception changes: the mode, the two interrupt
  enables, the two MMUs and, in a delay slot, the delay slot flag.\<close>

lemma exception_enter_status:
  "n < 32 \<Longrightarrow> bit (m_status (exception_enter type addr s)) n \<longleftrightarrow>
     (if n = 0 then True else if n \<in> {1, 2, 5, 6} then False
      else bit (m_status s) n \<or> n = 13 \<and> is_delay_insn s)"
  by (auto simp: exception_enter_def Let_def bit_simps bit_SR)

lemma exception_taken_fields:
  "m_status (exception_taken type addr s) = m_status (exception_enter type addr s)"
  "m_exsr (exception_taken type addr s) = m_status s"
  "m_expc (exception_taken type addr s) = exception_pc type s"
  "m_exea (exception_taken type addr s) = addr"
  "m_pmr (exception_taken type addr s) = m_pmr s AND NOT PMR_DME"
  "gpr (exception_taken type addr s) = gpr s"
  by (simp_all add: exception_taken_def exception_enter_def Let_def)

text \<open>C1: Exception entry. An exception that is not turned off saves the status register, the
  faulting address and the return address, enters supervisor mode with both interrupts and both
  MMUs off, wakes the core from doze, leaves every other bit of the status register (apart from the
  delay slot flag) and all general purpose registers alone, and continues at its word aligned
  vector.\<close>

theorem exception_entry:
  assumes "\<not> exception_masked type s" "vectors_aligned s"
  shows "\<exists>s'. exception type addr s = Inr s' \<and>
    m_exsr s' = m_status s \<and> m_expc s' = exception_pc type s \<and> m_exea s' = addr \<and> gpr s' = gpr s \<and>
    is_supervisor s' \<and> \<not> is_ext_irq_enabled s' \<and> \<not> is_tick_irq_enabled s' \<and>
    \<not> is_dmmu_active s' \<and> \<not> is_immu_active s' \<and> \<not> is_sleeping s' \<and>
    (\<forall>n<32. n \<notin> {0, 1, 2, 5, 6, 13} \<longrightarrow> bit (m_status s') n = bit (m_status s) n) \<and>
    is_aligned (exception_target type s') 4 \<and>
    (if asynchronous type then m_next_pc s' = exception_target type s'
     else m_jump_target s' = exception_target type s' \<and> m_jump_insn s' = m_instructions s')"
    (is "\<exists>s'. ?P s'")
proof
  let ?s = "exception_taken type addr s"
  have t: "exception_target type ?s = exception_target type (exception_enter type addr s)"
    by (simp add: exception_taken_def exception_target_def Let_def)
  then have "is_aligned (exception_target type ?s) 4"
    using assms(2) by (simp add: exception_target_aligned vectors_aligned_def)
  moreover have "\<not> is_sleeping ?s"
    using pmr_doze[of ?s] by (simp add: exception_taken_fields is_sleeping_def bit_and_iff bit_not_iff bit_PMR_DME)
  moreover have "if asynchronous type then m_next_pc ?s = exception_target type ?s
     else m_jump_target ?s = exception_target type ?s \<and> m_jump_insn ?s = m_instructions ?s"
    by (simp only: t) (simp add: exception_taken_def Let_def)
  moreover have "\<forall>n<32. n \<notin> {0, 1, 2, 5, 6, 13} \<longrightarrow> bit (m_status ?s) n = bit (m_status s) n"
    by (auto simp: exception_taken_fields exception_enter_status)
  moreover have "exception type addr s = Inr ?s" using assms by (simp add: exception_eq)
  ultimately show "?P ?s"
    by (simp add: sr_queries exception_taken_fields exception_enter_status)
qed

definition demo_core :: or1k where
  "demo_core = power_on (new_env ENDIAN_BIG (\<lambda>_. None)) (new_decode_cache 0 (\<lambda>_. zero_insn))
     demo_mmu demo_mmu"

definition demo_host :: host where
  "demo_host = \<lparr>h_env = demo_vtable, h_rand = (\<lambda>_. 4), h_time_sec = (\<lambda>_. 0), h_time_usec = (\<lambda>_. 0),
     h_fpu = \<lparr>fpu_single = (\<lambda>_ _ a _. \<lparr>fr_bits = ucast a, fr_overflow = False, fr_underflow = False,
                                       fr_divbyzero = False\<rparr>),
              fpu_double = (\<lambda>_ _ a _. \<lparr>fr_bits = a, fr_overflow = False, fr_underflow = False,
                                       fr_divbyzero = False\<rparr>)\<rparr>\<rparr>"

lemma demo_core_fields:
  "m_status demo_core = SR_FO OR SR_SM" "m_evba demo_core = 0" "m_jump_insn demo_core = 0"
  "gpr demo_core = replicate 32 0" "m_next_pc demo_core = 0x100" "m_instructions demo_core = 0"
  "m_prev_pc demo_core = 0x100"
  "m_shadow demo_core = replicate OR1KISS_SHADOW_REGS 0"
  by (simp_all add: demo_core_def power_on_def EXCEPTION_VECTOR_def)

lemma demo_core_masks: "exception_masked EX_EXTERNAL demo_core" "\<not> exception_masked EX_TRAP demo_core"
  using sr_queries(3)[of demo_core]
  by (simp_all add: exception_masked_def demo_core_fields is_ext_irq_enabled_def bit_or_iff bit_SR)

lemma demo_core_aligned: "vectors_aligned demo_core"
  by (simp add: vectors_aligned_def demo_core_fields is_aligned_def)

theorem exception_entry_witness:
  "\<exists>s'. exception EX_TRAP 0x24 demo_core = Inr s' \<and> m_expc s' = 0x100 \<and> is_supervisor s'"
  using exception_entry[OF demo_core_masks(2) demo_core_aligned, of "0x24"]
  by (auto simp: exception_pc_def is_delay_insn_def demo_core_fields)

text \<open>Interrupts do not nest. Right after any exception the timer and the external interrupt
  are turned off: raising them again changes nothing.\<close>

theorem interrupts_do_not_nest:
  assumes "exception type addr s = Inr s'" "\<not> exception_masked type s" "asynchronous again"
  shows "exception again addr' s' = Inr s'"
proof -
  have s': "s' = exception_taken type addr s"
    using assms(1,2) by (auto simp: exception_eq split: if_splits)
  have "\<not> bit (m_status s') 1" "\<not> bit (m_status s') 2"
    by (simp_all add: s' exception_taken_fields exception_enter_status)
  then have "exception_masked again s'"
    using assms(3) sr_queries(2,3)[of s']
    by (auto simp: asynchronous_def exception_masked_def is_tick_irq_enabled_def is_ext_irq_enabled_def)
  then show ?thesis by (simp add: exception_eq)
qed

theorem interrupts_do_not_nest_witness:
  "exception EX_EXTERNAL 0 (exception_taken EX_TRAP 0x24 demo_core) =
     Inr (exception_taken EX_TRAP 0x24 demo_core)"
  by (rule interrupts_do_not_nest[of EX_TRAP "0x24" demo_core])
    (simp_all add: exception_eq demo_core_masks demo_core_aligned asynchronous_def)

end
