(* ===== verification/Transact.thy ===== *)
theory Transact
  imports Core
begin

text \<open>
  Data memory accesses of the core, \<^verbatim>\<open>or1k::transact\<close> in \<^verbatim>\<open>src/or1kiss/or1k.cpp\<close>: watchpoints,
  alignment, translation, exclusive accesses, the transfer through the port and the accounting of its
  cycles. The request is passed by reference in the source and comes back as a result here.
\<close>

section \<open>Definitions\<close>

definition wp_triggered :: "request \<Rightarrow> or1k \<Rightarrow> bool" where
  "wp_triggered req s \<longleftrightarrow>
     \<not> m_debug req \<and> is_dmem req \<and>
     (m_read req \<and> list_ex (\<lambda>wp. wp_overlaps wp (req_addr req) (req_size req)) (m_watchpoints_r s) \<or>
      is_write req \<and> list_ex (\<lambda>wp. wp_overlaps wp (req_addr req) (req_size req)) (m_watchpoints_w s))"

text \<open>The event keeps at most the eight low bytes of what is written.\<close>

definition check_watchpoints :: "request \<Rightarrow> or1k \<Rightarrow> or1k" where
  "check_watchpoints req s =
     (if wp_triggered req s
      then s\<lparr>m_wp_event :=
               \<lparr>wpe_addr = req_addr req, wpe_size = req_size req,
                wpe_wval = (if is_write req
                            then of_le_bytes (take (min 8 (unat (req_size req))) (req_data req)) else 0),
                wpe_iswr = is_write req, wpe_hit = True\<rparr>\<rparr>
      else s)"

text \<open>An access that an exception has ended.\<close>

definition abort_access ::
  "exception_prio \<Rightarrow> request \<Rightarrow> or1k \<Rightarrow> (bool \<times> request \<times> or1k) res" where
  "abort_access type req s = bindE (exception type (req_addr req) s) (\<lambda>s. Inr (False, req, s))"

definition data_translate ::
  "host \<Rightarrow> request \<Rightarrow> or1k \<Rightarrow> (mmu_result \<times> request \<times> or1k) res" where
  "data_translate h req s =
     (if is_dmmu_active s
      then bindE (translate (h_env h) req (m_dmmu s) (m_env s)) (\<lambda>(r, req, t, e).
           Inr (r, req, s\<lparr>m_dmmu := t, m_env := e\<rparr>))
      else Inr (MMU_OKAY, req, s))"

definition count_exclusive :: "request \<Rightarrow> or1k \<Rightarrow> or1k" where
  "count_exclusive req s =
     (let s = (if m_read req then s\<lparr>m_num_excl_read := m_num_excl_read s + 1\<rparr> else s)
      in if is_write req then s\<lparr>m_num_excl_write := m_num_excl_write s + 1\<rparr> else s)"

text \<open>The transfer itself and its outcome.\<close>

definition port_access :: "host \<Rightarrow> request \<Rightarrow> or1k \<Rightarrow> (bool \<times> request \<times> or1k) res" where
  "port_access h req s =
     bindE (convert_and_transact (h_env h) req (m_env s)) (\<lambda>(resp, req, e).
     let s = s\<lparr>m_env := e\<rparr>;
         charge = (\<lambda>s. if m_debug req then s
                       else s\<lparr>m_cycles := m_cycles s + req_cycles req, m_limit := m_limit s + req_cycles req\<rparr>)
     in case resp of
          RESP_ERROR \<Rightarrow> abort_access EX_DATA_BUS_ERROR req s
        | RESP_FAILED \<Rightarrow>
            bindE (assertE (m_excl req) Invalid_port_response) (\<lambda>_.
            Inr (True, req, charge (s\<lparr>m_status := m_status s AND NOT SR_F,
                                      m_num_excl_failed := m_num_excl_failed s + 1\<rparr>)))
        | RESP_SUCCESS \<Rightarrow>
            Inr (True, req, charge (if m_excl req then s\<lparr>m_status := m_status s OR SR_F\<rparr> else s)))"

definition transact :: "host \<Rightarrow> request \<Rightarrow> or1k \<Rightarrow> (bool \<times> request \<times> or1k) res" where
  "transact h req0 s0 =
     (let req = req0\<lparr>m_super := is_supervisor s0, req_cycles := 0\<rparr>
      in bindE (assertE (is_dmem req) Assertion_failed) (\<lambda>_.
         let s = check_watchpoints req (s0\<lparr>m_trace_addr := req_addr req\<rparr>)
         in if \<not> req_is_aligned req \<and> \<not> m_debug req
            then abort_access EX_DATA_ALIGNMENT req s
            else bindE (data_translate h req s) (\<lambda>(r, req, s).
                 case r of
                   MMU_TLB_MISS \<Rightarrow> abort_access EX_DATA_TLB_MISS req s
                 | MMU_PAGE_FAULT \<Rightarrow> abort_access EX_DATA_PAGE_FAULT req s
                 | MMU_OKAY \<Rightarrow>
                     bindE (assertE (m_excl req \<longrightarrow> req_size req = SIZE_WORD) Assertion_failed) (\<lambda>_.
                     port_access h req (if m_excl req then count_exclusive req s else s)))))"

end
