(* ===== verification/Spr.thy ===== *)
theory Spr
  imports Core
begin

text \<open>
  Special purpose registers (\<^verbatim>\<open>include/or1kiss/spr.h\<close>, \<^verbatim>\<open>src/or1kiss/spr.cpp\<close>): their numbers, the
  access rights, reading and writing. A \<^verbatim>\<open>switch\<close> over register numbers is a table with \<open>map_of\<close> as
  its dispatch. Warnings go to the standard error stream and are not modelled. The lemmas give the
  access rule, which writes read back, and what a write leaves alone.
\<close>

section \<open>Register numbers\<close>

definition SPG_SYS :: u32 where "SPG_SYS = push_bit 11 0"
definition SPG_DMMU :: u32 where "SPG_DMMU = push_bit 11 1"
definition SPG_IMMU :: u32 where "SPG_IMMU = push_bit 11 2"
definition SPG_DC :: u32 where "SPG_DC = push_bit 11 3"
definition SPG_IC :: u32 where "SPG_IC = push_bit 11 4"
definition SPG_MAC :: u32 where "SPG_MAC = push_bit 11 5"
definition SPG_DBG :: u32 where "SPG_DBG = push_bit 11 6"
definition SPG_PC :: u32 where "SPG_PC = push_bit 11 7"
definition SPG_PM :: u32 where "SPG_PM = push_bit 11 8"
definition SPG_PIC :: u32 where "SPG_PIC = push_bit 11 9"
definition SPG_TT :: u32 where "SPG_TT = push_bit 11 10"
definition SPG_FPU :: u32 where "SPG_FPU = push_bit 11 11"

definition SPR_VR :: u32 where "SPR_VR = SPG_SYS + 0"
definition SPR_UPR :: u32 where "SPR_UPR = SPG_SYS + 1"
definition SPR_CPUCFGR :: u32 where "SPR_CPUCFGR = SPG_SYS + 2"
definition SPR_DMMUCFGR :: u32 where "SPR_DMMUCFGR = SPG_SYS + 3"
definition SPR_IMMUCFGR :: u32 where "SPR_IMMUCFGR = SPG_SYS + 4"
definition SPR_DCCFGR :: u32 where "SPR_DCCFGR = SPG_SYS + 5"
definition SPR_ICCFGR :: u32 where "SPR_ICCFGR = SPG_SYS + 6"
definition SPR_DCFGR :: u32 where "SPR_DCFGR = SPG_SYS + 7"
definition SPR_PCCFGR :: u32 where "SPR_PCCFGR = SPG_SYS + 8"
definition SPR_VR2 :: u32 where "SPR_VR2 = SPG_SYS + 9"
definition SPR_AVR :: u32 where "SPR_AVR = SPG_SYS + 10"
definition SPR_EVBAR :: u32 where "SPR_EVBAR = SPG_SYS + 11"
definition SPR_AECR :: u32 where "SPR_AECR = SPG_SYS + 12"
definition SPR_AESR :: u32 where "SPR_AESR = SPG_SYS + 13"
definition SPR_NPC :: u32 where "SPR_NPC = SPG_SYS + 16"
definition SPR_SR :: u32 where "SPR_SR = SPG_SYS + 17"
definition SPR_PPC :: u32 where "SPR_PPC = SPG_SYS + 18"
definition SPR_FPCSR :: u32 where "SPR_FPCSR = SPG_SYS + 20"
definition SPR_ISR :: u32 where "SPR_ISR = SPG_SYS + 21"
definition SPR_EPCR :: u32 where "SPR_EPCR = SPG_SYS + 32"
definition SPR_EEAR :: u32 where "SPR_EEAR = SPG_SYS + 48"
definition SPR_ESR :: u32 where "SPR_ESR = SPG_SYS + 64"
definition SPR_COREID :: u32 where "SPR_COREID = SPG_SYS + 128"
definition SPR_NUMCORES :: u32 where "SPR_NUMCORES = SPG_SYS + 129"
definition SPR_GPR :: u32 where "SPR_GPR = SPG_SYS + 1024"
definition SPR_DMMUCR :: u32 where "SPR_DMMUCR = SPG_DMMU + 0"
definition SPR_DMMUPR :: u32 where "SPR_DMMUPR = SPG_DMMU + 1"
definition SPR_DTLBEIR :: u32 where "SPR_DTLBEIR = SPG_DMMU + 2"
definition SPR_DATBMR :: u32 where "SPR_DATBMR = SPG_DMMU + 4"
definition SPR_DATBTR :: u32 where "SPR_DATBTR = SPG_DMMU + 8"
definition SPR_DTLBW0MR :: u32 where "SPR_DTLBW0MR = SPG_DMMU + 512"
definition SPR_DTLBW0TR :: u32 where "SPR_DTLBW0TR = SPG_DMMU + 640"
definition SPR_DTLBW1MR :: u32 where "SPR_DTLBW1MR = SPG_DMMU + 768"
definition SPR_DTLBW1TR :: u32 where "SPR_DTLBW1TR = SPG_DMMU + 896"
definition SPR_DTLBW2MR :: u32 where "SPR_DTLBW2MR = SPG_DMMU + 1024"
definition SPR_DTLBW2TR :: u32 where "SPR_DTLBW2TR = SPG_DMMU + 1152"
definition SPR_DTLBW3MR :: u32 where "SPR_DTLBW3MR = SPG_DMMU + 1280"
definition SPR_DTLBW3TR :: u32 where "SPR_DTLBW3TR = SPG_DMMU + 1408"
definition SPR_IMMUCR :: u32 where "SPR_IMMUCR = SPG_IMMU + 0"
definition SPR_IMMUPR :: u32 where "SPR_IMMUPR = SPG_IMMU + 1"
definition SPR_ITLBEIR :: u32 where "SPR_ITLBEIR = SPG_IMMU + 2"
definition SPR_IATBMR :: u32 where "SPR_IATBMR = SPG_IMMU + 4"
definition SPR_IATBTR :: u32 where "SPR_IATBTR = SPG_IMMU + 8"
definition SPR_ITLBW0MR :: u32 where "SPR_ITLBW0MR = SPG_IMMU + 512"
definition SPR_ITLBW0TR :: u32 where "SPR_ITLBW0TR = SPG_IMMU + 640"
definition SPR_ITLBW1MR :: u32 where "SPR_ITLBW1MR = SPG_IMMU + 768"
definition SPR_ITLBW1TR :: u32 where "SPR_ITLBW1TR = SPG_IMMU + 896"
definition SPR_ITLBW2MR :: u32 where "SPR_ITLBW2MR = SPG_IMMU + 1024"
definition SPR_ITLBW2TR :: u32 where "SPR_ITLBW2TR = SPG_IMMU + 1152"
definition SPR_ITLBW3MR :: u32 where "SPR_ITLBW3MR = SPG_IMMU + 1280"
definition SPR_ITLBW3TR :: u32 where "SPR_ITLBW3TR = SPG_IMMU + 1408"
definition SPR_DCCR :: u32 where "SPR_DCCR = SPG_DC + 0"
definition SPR_DCBPR :: u32 where "SPR_DCBPR = SPG_DC + 1"
definition SPR_DCBFR :: u32 where "SPR_DCBFR = SPG_DC + 2"
definition SPR_DCBIR :: u32 where "SPR_DCBIR = SPG_DC + 3"
definition SPR_DCBWR :: u32 where "SPR_DCBWR = SPG_DC + 4"
definition SPR_DCBLR :: u32 where "SPR_DCBLR = SPG_DC + 5"
definition SPR_ICCR :: u32 where "SPR_ICCR = SPG_IC + 0"
definition SPR_ICBPR :: u32 where "SPR_ICBPR = SPG_IC + 1"
definition SPR_ICBIR :: u32 where "SPR_ICBIR = SPG_IC + 2"
definition SPR_ICBLR :: u32 where "SPR_ICBLR = SPG_IC + 3"
definition SPR_MACLO :: u32 where "SPR_MACLO = SPG_MAC + 1"
definition SPR_MACHI :: u32 where "SPR_MACHI = SPG_MAC + 2"
definition SPR_PMR :: u32 where "SPR_PMR = SPG_PM + 0"
definition SPR_PICMR :: u32 where "SPR_PICMR = SPG_PIC + 0"
definition SPR_PICSR :: u32 where "SPR_PICSR = SPG_PIC + 2"
definition SPR_TTMR :: u32 where "SPR_TTMR = SPG_TT + 0"
definition SPR_TTCR :: u32 where "SPR_TTCR = SPG_TT + 1"

lemmas spr_number_defs =
  SPG_SYS_def SPG_DMMU_def SPG_IMMU_def SPG_DC_def SPG_IC_def SPG_MAC_def SPG_DBG_def SPG_PC_def
  SPG_PM_def SPG_PIC_def SPG_TT_def SPG_FPU_def SPR_VR_def SPR_UPR_def SPR_CPUCFGR_def
  SPR_DMMUCFGR_def SPR_IMMUCFGR_def SPR_DCCFGR_def SPR_ICCFGR_def SPR_DCFGR_def SPR_PCCFGR_def
  SPR_VR2_def SPR_AVR_def SPR_EVBAR_def SPR_AECR_def SPR_AESR_def SPR_NPC_def SPR_SR_def
  SPR_PPC_def SPR_FPCSR_def SPR_ISR_def SPR_EPCR_def SPR_EEAR_def SPR_ESR_def SPR_COREID_def
  SPR_NUMCORES_def SPR_GPR_def SPR_DMMUCR_def SPR_DMMUPR_def SPR_DTLBEIR_def SPR_DATBMR_def
  SPR_DATBTR_def SPR_DTLBW0MR_def SPR_DTLBW0TR_def SPR_DTLBW1MR_def SPR_DTLBW1TR_def
  SPR_DTLBW2MR_def SPR_DTLBW2TR_def SPR_DTLBW3MR_def SPR_DTLBW3TR_def SPR_IMMUCR_def
  SPR_IMMUPR_def SPR_ITLBEIR_def SPR_IATBMR_def SPR_IATBTR_def SPR_ITLBW0MR_def SPR_ITLBW0TR_def
  SPR_ITLBW1MR_def SPR_ITLBW1TR_def SPR_ITLBW2MR_def SPR_ITLBW2TR_def SPR_ITLBW3MR_def
  SPR_ITLBW3TR_def SPR_DCCR_def SPR_DCBPR_def SPR_DCBFR_def SPR_DCBIR_def SPR_DCBWR_def
  SPR_DCBLR_def SPR_ICCR_def SPR_ICBPR_def SPR_ICBIR_def SPR_ICBLR_def SPR_MACLO_def
  SPR_MACHI_def SPR_PMR_def SPR_PICMR_def SPR_PICSR_def SPR_TTMR_def SPR_TTCR_def

definition SPR_SRE :: u32 where "SPR_SRE = push_bit 0 1"
definition SPR_SWE :: u32 where "SPR_SWE = push_bit 1 1"
definition SPR_URE :: u32 where "SPR_URE = push_bit 2 1"
definition SPR_UWE :: u32 where "SPR_UWE = push_bit 3 1"

definition spr_group :: "u32 \<Rightarrow> u32" where
  "spr_group spr = drop_bit 11 spr"

definition spr_regno :: "u32 \<Rightarrow> u32" where
  "spr_regno spr = spr AND 0x7ff"

section \<open>Access rights\<close>

definition spr_access_table :: "(u32 \<times> u32) list" where
  "spr_access_table =
     [(SPR_VR, SPR_SRE), (SPR_UPR, SPR_SRE), (SPR_CPUCFGR, SPR_SRE), (SPR_DMMUCFGR, SPR_SRE),
      (SPR_IMMUCFGR, SPR_SRE), (SPR_DCCFGR, SPR_SRE), (SPR_ICCFGR, SPR_SRE), (SPR_DCFGR, SPR_SRE),
      (SPR_PCCFGR, SPR_SRE), (SPR_VR2, SPR_SRE), (SPR_AVR, SPR_SRE),
      (SPR_EVBAR, SPR_SRE OR SPR_SWE), (SPR_AECR, SPR_SRE OR SPR_SWE),
      (SPR_AESR, SPR_SRE OR SPR_SWE), (SPR_NPC, SPR_SRE OR SPR_SWE), (SPR_SR, SPR_SRE OR SPR_SWE),
      (SPR_PPC, SPR_SRE OR SPR_SWE), (SPR_FPCSR, SPR_SRE OR SPR_SWE),
      (SPR_EPCR, SPR_SRE OR SPR_SWE), (SPR_EEAR, SPR_SRE OR SPR_SWE), (SPR_ESR, SPR_SRE OR SPR_SWE),
      (SPR_COREID, SPR_SRE), (SPR_NUMCORES, SPR_SRE), (SPR_DMMUCR, SPR_SRE OR SPR_SWE),
      (SPR_DMMUPR, SPR_SRE OR SPR_SWE), (SPR_DTLBEIR, SPR_SWE), (SPR_IMMUCR, SPR_SRE OR SPR_SWE),
      (SPR_IMMUPR, SPR_SRE OR SPR_SWE), (SPR_ITLBEIR, SPR_SWE), (SPR_DCCR, SPR_SRE OR SPR_SWE),
      (SPR_DCBPR, SPR_SWE OR SPR_UWE), (SPR_DCBFR, SPR_SWE OR SPR_UWE), (SPR_DCBIR, SPR_SWE),
      (SPR_DCBWR, SPR_SWE OR SPR_UWE), (SPR_DCBLR, SPR_SWE OR SPR_UWE),
      (SPR_ICCR, SPR_SRE OR SPR_SWE), (SPR_ICBPR, SPR_SWE OR SPR_UWE), (SPR_ICBIR, SPR_SWE),
      (SPR_ICBLR, SPR_SWE OR SPR_UWE), (SPR_MACHI, SPR_SRE OR SPR_SWE),
      (SPR_MACLO, SPR_SRE OR SPR_SWE), (SPR_PMR, SPR_SRE OR SPR_SWE),
      (SPR_PICMR, SPR_SRE OR SPR_SWE), (SPR_PICSR, SPR_SRE OR SPR_SWE),
      (SPR_TTMR, SPR_SRE OR SPR_SWE), (SPR_TTCR, SPR_SRE OR SPR_SWE)]"

text \<open>The ranges of registers that the four lookups after the switch test.\<close>

definition in_shadow :: "u32 \<Rightarrow> bool" where
  "in_shadow reg \<longleftrightarrow> SPR_GPR \<le> reg \<and> reg < SPR_GPR + of_nat OR1KISS_SHADOW_REGS"
definition in_datb :: "u32 \<Rightarrow> bool" where
  "in_datb reg \<longleftrightarrow> SPR_DATBMR \<le> reg \<and> reg < SPR_DATBTR + 4"
definition in_dtlb :: "u32 \<Rightarrow> bool" where
  "in_dtlb reg \<longleftrightarrow> SPR_DTLBW0MR \<le> reg \<and> reg < SPR_DTLBW3TR + 128"
definition in_iatb :: "u32 \<Rightarrow> bool" where
  "in_iatb reg \<longleftrightarrow> SPR_IATBMR \<le> reg \<and> reg < SPR_IATBTR + 4"
definition in_itlb :: "u32 \<Rightarrow> bool" where
  "in_itlb reg \<longleftrightarrow> SPR_ITLBW0MR \<le> reg \<and> reg < SPR_ITLBW3TR + 128"

text \<open>
  The C function takes an \<^verbatim>\<open>int\<close>, so the numbers from \<^verbatim>\<open>2^31\<close> on are negative there and below every
  range; the instructions' register numbers reach them when the register operand is large.
\<close>

definition spr_get_access :: "u32 \<Rightarrow> u32" where
  "spr_get_access spr =
     (case map_of spr_access_table spr of
        Some a \<Rightarrow> a
      | None \<Rightarrow>
          if in_shadow spr then SPR_SRE OR SPR_SWE
          else if in_datb spr then SPR_SRE OR SPR_SWE
          else if in_dtlb spr then SPR_SRE OR SPR_SWE
          else if in_iatb spr then SPR_SRE OR SPR_SWE
          else if in_itlb spr then SPR_SRE OR SPR_SWE
          else SPR_SRE OR SPR_SWE OR SPR_URE OR SPR_UWE)"

definition spr_check_access :: "u32 \<Rightarrow> bool \<Rightarrow> bool \<Rightarrow> bool" where
  "spr_check_access spr is_wr is_super \<longleftrightarrow>
     (let a = spr_get_access spr
      in if is_super then a AND (if is_wr then SPR_SWE else SPR_SRE) \<noteq> 0
         else a AND (if is_wr then SPR_UWE else SPR_URE) \<noteq> 0)"

section \<open>Reading\<close>

definition get_spr_table :: "(u32 \<times> (or1k \<Rightarrow> u32)) list" where
  "get_spr_table =
     [(SPR_VR, m_version), (SPR_VR2, m_version2), (SPR_AVR, m_avr), (SPR_UPR, m_unit),
      (SPR_CPUCFGR, m_cpucfg), (SPR_DCCFGR, m_dccfgr), (SPR_ICCFGR, m_iccfgr),
      (SPR_DMMUCFGR, \<lambda>s. m_cfg (m_dmmu s)), (SPR_IMMUCFGR, \<lambda>s. m_cfg (m_immu s)),
      (SPR_AECR, m_aecr), (SPR_AESR, m_aesr), (SPR_SR, m_status), (SPR_NPC, m_next_pc),
      (SPR_PPC, m_prev_pc), (SPR_FPCSR, m_fpcfg), (SPR_EPCR, m_expc), (SPR_EEAR, m_exea),
      (SPR_ESR, m_exsr), (SPR_EVBAR, m_evba), (SPR_COREID, m_core_id), (SPR_NUMCORES, m_num_cores),
      (SPR_DMMUCR, \<lambda>s. m_ctrl (m_dmmu s)), (SPR_DMMUPR, \<lambda>s. m_prot (m_dmmu s)),
      (SPR_DTLBEIR, \<lambda>s. 0), (SPR_IMMUCR, \<lambda>s. m_ctrl (m_immu s)),
      (SPR_IMMUPR, \<lambda>s. m_prot (m_immu s)), (SPR_ITLBEIR, \<lambda>s. 0),
      (SPR_DCBPR, \<lambda>s. 0), (SPR_DCBFR, \<lambda>s. 0), (SPR_ICBPR, \<lambda>s. 0),
      (SPR_ICBIR, \<lambda>s. 0), (SPR_MACHI, \<lambda>s. hi (m_mac s)),
      (SPR_MACLO, \<lambda>s. lo (m_mac s)), (SPR_PMR, m_pmr), (SPR_PICMR, m_pic_mr),
      (SPR_PICSR, m_pic_sr), (SPR_TTMR, \<lambda>s. m_ttmr (m_tick s)),
      (SPR_TTCR, \<lambda>s. m_ttcr (m_tick s))]"

definition get_spr :: "u32 \<Rightarrow> bool \<Rightarrow> or1k \<Rightarrow> u32" where
  "get_spr reg debug s =
     (let is_super = is_supervisor s \<or> m_status s AND SR_SUMRA \<noteq> 0
      in if \<not> debug \<and> \<not> spr_check_access reg False is_super then 0
         else case map_of get_spr_table reg of
                Some f \<Rightarrow> f s
              | None \<Rightarrow>
                  if in_shadow reg then m_shadow s ! unat (reg - SPR_GPR)
                  else if in_datb reg then get_atb (reg - SPR_DATBMR) (m_dmmu s)
                  else if in_dtlb reg then get_tlb (reg - SPR_DTLBW0MR) (m_dmmu s)
                  else if in_iatb reg then get_atb (reg - SPR_IATBMR) (m_immu s)
                  else if in_itlb reg then get_tlb (reg - SPR_ITLBW0MR) (m_immu s)
                  else 0)"

section \<open>Writing\<close>

text \<open>Every case but that of the power management register, whose write may put the core to sleep.\<close>

definition set_spr_table :: "(u32 \<times> (u32 \<Rightarrow> or1k \<Rightarrow> or1k)) list" where
  "set_spr_table =
     [(SPR_VR, \<lambda>v s. s), (SPR_VR2, \<lambda>v s. s), (SPR_AVR, \<lambda>v s. s),
      (SPR_UPR, \<lambda>v s. s), (SPR_CPUCFGR, \<lambda>v s. s), (SPR_DCCFGR, \<lambda>v s. s),
      (SPR_ICCFGR, \<lambda>v s. s), (SPR_DMMUCFGR, \<lambda>v s. s),
      (SPR_IMMUCFGR, \<lambda>v s. s), (SPR_NPC, \<lambda>v s. s\<lparr>m_next_pc := v\<rparr>),
      (SPR_PPC, \<lambda>v s. s\<lparr>m_prev_pc := v\<rparr>),
      (SPR_FPCSR, \<lambda>v s. s\<lparr>m_fpcfg := v\<rparr>),
      (SPR_EPCR, \<lambda>v s. s\<lparr>m_expc := v\<rparr>),
      (SPR_EEAR, \<lambda>v s. s\<lparr>m_exea := v\<rparr>),
      (SPR_ESR, \<lambda>v s. s\<lparr>m_exsr := v\<rparr>),
      (SPR_EVBAR, \<lambda>v s. s\<lparr>m_evba := v\<rparr>),
      (SPR_AECR, \<lambda>v s. s\<lparr>m_aecr := v\<rparr>),
      (SPR_AESR, \<lambda>v s. s\<lparr>m_aesr := v\<rparr>), (SPR_COREID, \<lambda>v s. s),
      (SPR_NUMCORES, \<lambda>v s. s), (SPR_SR, \<lambda>v s. s\<lparr>m_status := v\<rparr>),
      (SPR_DMMUCR, \<lambda>v s. s\<lparr>m_dmmu := set_cr v (m_dmmu s)\<rparr>),
      (SPR_DTLBEIR, \<lambda>v s. s\<lparr>m_dmmu := flush_tlb_entry v (m_dmmu s)\<rparr>),
      (SPR_IMMUCR, \<lambda>v s. s\<lparr>m_immu := set_cr v (m_immu s)\<rparr>),
      (SPR_ITLBEIR, \<lambda>v s. s\<lparr>m_immu := flush_tlb_entry v (m_immu s)\<rparr>),
      (SPR_DCBPR, \<lambda>v s. s), (SPR_DCBFR, \<lambda>v s. s), (SPR_DCBIR, \<lambda>v s. s),
      (SPR_DCBWR, \<lambda>v s. s), (SPR_DCBLR, \<lambda>v s. s), (SPR_ICBPR, \<lambda>v s. s),
      (SPR_ICBIR, \<lambda>v s. s\<lparr>m_decode_cache := dc_invalidate_block v 32 (m_decode_cache s)\<rparr>),
      (SPR_ICBLR, \<lambda>v s. s),
      (SPR_MACHI, \<lambda>v s. s\<lparr>m_mac := (m_mac s)\<lparr>hi := v\<rparr>\<rparr>),
      (SPR_MACLO, \<lambda>v s. s\<lparr>m_mac := (m_mac s)\<lparr>lo := v\<rparr>\<rparr>),
      (SPR_PICMR, \<lambda>v s. s\<lparr>m_pic_mr := v OR OR1KISS_PIC_NMI\<rparr>),
      (SPR_PICSR, \<lambda>v s. if \<not> m_pic_level s then s\<lparr>m_pic_sr := m_pic_sr s AND NOT v\<rparr> else s),
      (SPR_TTMR, \<lambda>v s. s\<lparr>m_tick := tick_set_ttmr v (m_tick s)\<rparr>),
      (SPR_TTCR, \<lambda>v s. s\<lparr>m_tick := tick_set_ttcr v (m_tick s)\<rparr>)]"

definition set_spr :: "host \<Rightarrow> u32 \<Rightarrow> u32 \<Rightarrow> bool \<Rightarrow> or1k \<Rightarrow> or1k res" where
  "set_spr h reg val debug s =
     (let s = s\<lparr>m_break_requested := True\<rparr>
      in if \<not> debug \<and> \<not> spr_check_access reg True (is_supervisor s) then Inr s
         else if reg = SPR_PMR then doze h (s\<lparr>m_pmr := val\<rparr>)
         else case map_of set_spr_table reg of
                Some f \<Rightarrow> Inr (f val s)
              | None \<Rightarrow>
                  Inr (if in_shadow reg
                       then s\<lparr>m_shadow := (m_shadow s)[unat (reg - SPR_GPR) := val]\<rparr>
                       else if in_datb reg then s\<lparr>m_dmmu := set_atb (reg - SPR_DATBMR) val (m_dmmu s)\<rparr>
                       else if in_dtlb reg
                       then s\<lparr>m_dmmu := set_tlb (reg - SPR_DTLBW0MR) val (m_dmmu s)\<rparr>
                       else if in_iatb reg then s\<lparr>m_immu := set_atb (reg - SPR_IATBMR) val (m_immu s)\<rparr>
                       else if in_itlb reg
                       then s\<lparr>m_immu := set_tlb (reg - SPR_ITLBW0MR) val (m_immu s)\<rparr>
                       else s))"
section \<open>Privileges\<close>

lemma SPR_rights: "SPR_SRE = 1" "SPR_SWE = 2" "SPR_URE = 4" "SPR_UWE = 8"
  by (simp_all add: SPR_SRE_def SPR_SWE_def SPR_URE_def SPR_UWE_def)

lemmas spr_range_defs =
  in_shadow_def in_datb_def in_dtlb_def in_iatb_def in_itlb_def OR1KISS_SHADOW_REGS_def

text \<open>What user mode may write has no effect, and what it may read is zero.\<close>

lemma user_writable:
  "list_all (\<lambda>reg. spr_check_access reg True False \<longrightarrow>
      reg \<in> {SPR_DCBPR, SPR_DCBFR, SPR_DCBWR, SPR_DCBLR, SPR_ICBPR, SPR_ICBLR})
    (SPR_PMR # map fst set_spr_table)"
  by (simp add: set_spr_table_def spr_check_access_def spr_get_access_def spr_access_table_def
      spr_number_defs SPR_rights Let_def)

lemma user_readable: "list_all (\<lambda>reg. \<not> spr_check_access reg False False) (map fst get_spr_table)"
  by (simp add: get_spr_table_def spr_check_access_def spr_get_access_def spr_access_table_def
      spr_number_defs SPR_rights Let_def)

definition in_spr_range :: "u32 \<Rightarrow> bool" where
  "in_spr_range reg \<longleftrightarrow> in_shadow reg \<or> in_datb reg \<or> in_dtlb reg \<or> in_iatb reg \<or> in_itlb reg"

lemma access_keys_outside: "list_all (\<lambda>reg. \<not> in_spr_range reg) (map fst spr_access_table)"
  by (simp add: spr_access_table_def spr_number_defs spr_range_defs in_spr_range_def)
    (simp add: word_le_nat_alt)

lemma map_of_key: "map_of xs k = Some v \<Longrightarrow> list_all P (map fst xs) \<Longrightarrow> P k"
  by (metis list.pred_set map_of_SomeD image_eqI fst_conv list.set_map)

lemma access_table_range: "map_of spr_access_table reg = Some a \<Longrightarrow> \<not> in_spr_range reg"
  by (rule map_of_key[OF _ access_keys_outside])

lemma range_access: "in_spr_range reg \<Longrightarrow> spr_get_access reg = SPR_SRE OR SPR_SWE"
  using access_table_range[of reg]
  by (auto simp: spr_get_access_def in_spr_range_def split: option.split)

lemma range_not_user: "in_spr_range reg \<Longrightarrow> \<not> spr_check_access reg w False"
  by (simp add: range_access spr_check_access_def Let_def SPR_rights)

lemma set_spr_outside:
  "\<not> in_spr_range reg \<Longrightarrow> map_of set_spr_table reg = None \<Longrightarrow> reg \<noteq> SPR_PMR \<Longrightarrow>
   set_spr h reg val debug s = Inr (s\<lparr>m_break_requested := True\<rparr>)"
  by (simp add: set_spr_def Let_def in_spr_range_def)

lemma get_spr_outside:
  "\<not> in_spr_range reg \<Longrightarrow> map_of get_spr_table reg = None \<Longrightarrow> get_spr reg debug s = 0"
  by (simp add: get_spr_def Let_def in_spr_range_def)

lemma user_noops:
  "reg \<in> {SPR_DCBPR, SPR_DCBFR, SPR_DCBWR, SPR_DCBLR, SPR_ICBPR, SPR_ICBLR} \<Longrightarrow>
   map_of set_spr_table reg = Some (\<lambda>v s. s)"
  by (auto simp add: set_spr_table_def spr_number_defs)

text \<open>C30: User mode cannot change the machine through special purpose registers. Whatever the register
  number and the value, a write in user mode only asks for the end of the mini-quantum.\<close>

theorem user_write_harmless:
  assumes "\<not> is_supervisor s"
  shows "set_spr h reg val False s = Inr (s\<lparr>m_break_requested := True\<rparr>)"
proof (cases "spr_check_access reg True False")
  case False
  then show ?thesis using assms by (simp add: set_spr_def Let_def is_supervisor_def)
next
  case True
  then have outside: "\<not> in_spr_range reg" using range_not_user by blast
  have noop: "reg \<in> {SPR_DCBPR, SPR_DCBFR, SPR_DCBWR, SPR_DCBLR, SPR_ICBPR, SPR_ICBLR}"
    if "reg = SPR_PMR \<or> map_of set_spr_table reg \<noteq> None"
  proof -
    have "reg \<in> set (SPR_PMR # map fst set_spr_table)"
      using that by (auto simp: map_of_eq_None_iff)
    with user_writable True show ?thesis unfolding list.pred_set by blast
  qed
  have pmr: "reg \<noteq> SPR_PMR" using noop by (auto simp: spr_number_defs)
  show ?thesis
  proof (cases "map_of set_spr_table reg")
    case None
    with outside pmr show ?thesis by (simp add: set_spr_outside)
  next
    case (Some f)
    then have "map_of set_spr_table reg = Some (\<lambda>v s. s)" using noop user_noops by auto
    with pmr show ?thesis by (simp add: set_spr_def Let_def)
  qed
qed

text \<open>User mode cannot read special purpose registers, unless the supervisor has granted it: every
  register then reads as zero.\<close>

theorem user_reads_nothing:
  assumes "\<not> is_supervisor s" "m_status s AND SR_SUMRA = 0"
  shows "get_spr reg False s = 0"
proof (cases "spr_check_access reg False False")
  case False
  then show ?thesis using assms by (simp add: get_spr_def Let_def)
next
  case True
  then have "\<not> in_spr_range reg" using range_not_user by blast
  moreover have "map_of get_spr_table reg = None"
  proof (rule ccontr)
    assume "map_of get_spr_table reg \<noteq> None"
    then have "reg \<in> set (map fst get_spr_table)" by (auto simp: map_of_eq_None_iff)
    with user_readable True show False unfolding list.pred_set by blast
  qed
  ultimately show ?thesis by (rule get_spr_outside)
qed

definition plain_sprs :: "u32 list" where
  "plain_sprs = [SPR_EPCR, SPR_EEAR, SPR_ESR, SPR_EVBAR, SPR_AECR, SPR_AESR, SPR_FPCSR, SPR_MACHI, SPR_MACLO]"

lemma spr_shadow_get:
  assumes "is_supervisor s" "in_shadow reg"
  shows "get_spr reg False s = m_shadow s ! unat (reg - SPR_GPR)"
proof -
  have r: "in_spr_range reg" using assms(2) by (simp add: in_spr_range_def)
  have "map_of get_spr_table reg = None"
  proof (rule ccontr)
    assume "map_of get_spr_table reg \<noteq> None"
    then obtain f where f: "map_of get_spr_table reg = Some f" by blast
    have "list_all (\<lambda>r. \<not> in_shadow r) (map fst get_spr_table)"
      by (simp add: get_spr_table_def spr_number_defs spr_range_defs) (simp add: word_le_nat_alt)
    from map_of_key[OF f this] assms(2) show False by blast
  qed
  with assms range_access[OF r] show ?thesis
    by (simp add: get_spr_def Let_def spr_check_access_def SPR_rights)
qed

lemma spr_shadow_set:
  assumes "is_supervisor s" "in_shadow reg"
  shows "set_spr h reg val False s =
    Inr (s\<lparr>m_break_requested := True, m_shadow := (m_shadow s)[unat (reg - SPR_GPR) := val]\<rparr>)"
proof -
  have r: "in_spr_range reg" using assms(2) by (simp add: in_spr_range_def)
  have "map_of set_spr_table reg = None"
  proof (rule ccontr)
    assume "map_of set_spr_table reg \<noteq> None"
    then obtain f where f: "map_of set_spr_table reg = Some f" by blast
    have "list_all (\<lambda>r. \<not> in_shadow r) (map fst set_spr_table)"
      by (simp add: set_spr_table_def spr_number_defs spr_range_defs) (simp add: word_le_nat_alt)
    from map_of_key[OF f this] assms(2) show False by blast
  qed
  moreover have "reg \<noteq> SPR_PMR" using assms(2) by (auto simp: spr_number_defs spr_range_defs)
  ultimately show ?thesis using assms range_access[OF r]
    by (simp add: set_spr_def Let_def spr_check_access_def SPR_rights is_supervisor_def)
qed

lemmas spr_eval_defs = Let_def spr_check_access_def spr_get_access_def spr_access_table_def
  spr_number_defs SPR_rights

lemma plain_spr_get:
  assumes "is_supervisor s"
  shows "get_spr SPR_EPCR False s = m_expc s" "get_spr SPR_EEAR False s = m_exea s"
    "get_spr SPR_ESR False s = m_exsr s" "get_spr SPR_EVBAR False s = m_evba s"
    "get_spr SPR_AECR False s = m_aecr s" "get_spr SPR_AESR False s = m_aesr s"
    "get_spr SPR_FPCSR False s = m_fpcfg s"
    "get_spr SPR_MACHI False s = hi (m_mac s)" "get_spr SPR_MACLO False s = lo (m_mac s)"
  using assms by (simp_all add: get_spr_def get_spr_table_def spr_eval_defs)

lemma plain_spr_set:
  assumes "is_supervisor s"
  defines "t \<equiv> s\<lparr>m_break_requested := True\<rparr>"
  shows "set_spr h SPR_EPCR v False s = Inr (t\<lparr>m_expc := v\<rparr>)"
    "set_spr h SPR_EEAR v False s = Inr (t\<lparr>m_exea := v\<rparr>)"
    "set_spr h SPR_ESR v False s = Inr (t\<lparr>m_exsr := v\<rparr>)"
    "set_spr h SPR_EVBAR v False s = Inr (t\<lparr>m_evba := v\<rparr>)"
    "set_spr h SPR_AECR v False s = Inr (t\<lparr>m_aecr := v\<rparr>)"
    "set_spr h SPR_AESR v False s = Inr (t\<lparr>m_aesr := v\<rparr>)"
    "set_spr h SPR_FPCSR v False s = Inr (t\<lparr>m_fpcfg := v\<rparr>)"
    "set_spr h SPR_MACHI v False s = Inr (t\<lparr>m_mac := (m_mac s)\<lparr>hi := v\<rparr>\<rparr>)"
    "set_spr h SPR_MACLO v False s = Inr (t\<lparr>m_mac := (m_mac s)\<lparr>lo := v\<rparr>\<rparr>)"
  using assms(1)
  by (simp_all add: t_def set_spr_def set_spr_table_def spr_eval_defs is_supervisor_def)

lemma shadow_index:
  assumes "in_shadow r" "in_shadow q" "length (m_shadow s) = OR1KISS_SHADOW_REGS"
  shows "unat (r - SPR_GPR) < length (m_shadow s)" "unat (r - SPR_GPR) = unat (q - SPR_GPR) \<longleftrightarrow> r = q"
proof -
  have "unat r < 1536" "1024 \<le> unat r"
    using assms(1) by (simp_all add: spr_range_defs spr_number_defs word_less_nat_alt word_le_nat_alt)
  then show "unat (r - SPR_GPR) < length (m_shadow s)"
    by (simp add: assms(3) OR1KISS_SHADOW_REGS_def spr_number_defs unat_sub word_le_nat_alt)
  show "unat (r - SPR_GPR) = unat (q - SPR_GPR) \<longleftrightarrow> r = q"
    using unsigned_word_eqI[of "r - SPR_GPR" "q - SPR_GPR"] by auto
qed

text \<open>What the supervisor writes it reads back: the exception, arithmetic, vector base and
  multiply-accumulate registers and the 512 shadow registers return the value written last, and a
  write to one of them leaves the others alone.\<close>

theorem supervisor_reads_back:
  assumes "is_supervisor s" "length (m_shadow s) = OR1KISS_SHADOW_REGS"
    and "in_shadow reg \<or> reg \<in> set plain_sprs"
  shows "\<exists>s'. set_spr h reg val False s = Inr s' \<and> get_spr reg False s' = val \<and>
    (\<forall>r. r \<noteq> reg \<longrightarrow> in_shadow r \<or> r \<in> set plain_sprs \<longrightarrow> get_spr r False s' = get_spr r False s)"
proof (cases "in_shadow reg")
  case True
  let ?s = "s\<lparr>m_break_requested := True, m_shadow := (m_shadow s)[unat (reg - SPR_GPR) := val]\<rparr>"
  have su: "is_supervisor ?s" using assms(1) by (simp add: is_supervisor_def)
  have "get_spr reg False ?s = val"
    using True su shadow_index(1)[OF True True assms(2)] by (simp add: spr_shadow_get)
  moreover have "get_spr r False ?s = get_spr r False s" if "r \<noteq> reg" "in_shadow r" for r
    using that su shadow_index(2)[OF True that(2) assms(2)] assms(1) by (simp add: spr_shadow_get)
  moreover have "get_spr r False ?s = get_spr r False s" if "r \<in> set plain_sprs" for r
    using that su assms(1) by (auto simp: plain_sprs_def plain_spr_get)
  ultimately show ?thesis using True assms(1) by (auto simp: spr_shadow_set)
next
  case False
  then have "reg \<in> set plain_sprs" using assms(3) by simp
  then show ?thesis
    using assms(1) by (auto simp: plain_sprs_def plain_spr_set plain_spr_get spr_shadow_get
        is_supervisor_def)
qed

definition demo_user :: or1k where
  "demo_user = demo_core\<lparr>m_status := SR_FO\<rparr>"

lemma demo_modes: "is_supervisor demo_core" "\<not> is_supervisor demo_user" "m_status demo_user AND SR_SUMRA = 0"
  using and_push_bit_one[of SR_FO 16] unfolding SR_SUMRA_def
  by (simp_all add: sr_queries demo_user_def demo_core_fields bit_or_iff bit_SR)

theorem user_write_harmless_witness:
  "set_spr demo_host SPR_SR 0xffffffff False demo_user = Inr (demo_user\<lparr>m_break_requested := True\<rparr>)"
  by (rule user_write_harmless[OF demo_modes(2)])

theorem user_reads_nothing_witness: "get_spr SPR_SR False demo_user = 0 \<and> m_status demo_user = 0x8000"
  using user_reads_nothing[OF demo_modes(2,3), of SPR_SR] by (simp add: demo_user_def SR_FO_def)

theorem supervisor_reads_back_witness:
  "\<exists>s'. set_spr demo_host SPR_EPCR 0x2000 False demo_core = Inr s' \<and> get_spr SPR_EPCR False s' = 0x2000"
  using supervisor_reads_back[OF demo_modes(1), of SPR_EPCR demo_host "0x2000"]
  by (auto simp: demo_core_fields plain_sprs_def)

end
