(* ===== verification/Execute.thy ===== *)
theory Execute
  imports Transact Spr "HOL-Library.Signed_Division"
begin

text \<open>
  The execute functions of the integer instructions (\<^verbatim>\<open>src/or1kiss/execute.cpp\<close>), one definition
  per function, and their dispatch. Signed 32-bit values are \<^term>\<open>sint\<close> of a register; 64-bit products
  and sums are 64-bit words, which wrap as the compiled code does. A division of the smallest integer
  by minus one traps on the host. Text written to the standard output is a list of messages.
\<close>

section \<open>Operands\<close>

definition with_src1 :: "instruction \<Rightarrow> (u32 \<Rightarrow> or1k \<Rightarrow> 'a res) \<Rightarrow> or1k \<Rightarrow> 'a res" where
  "with_src1 ci f s = bindE (get_op ci (i_src1 ci) s) (\<lambda>a. f a s)"

definition with_srcs :: "instruction \<Rightarrow> (u32 \<Rightarrow> u32 \<Rightarrow> or1k \<Rightarrow> 'a res) \<Rightarrow> or1k \<Rightarrow> 'a res" where
  "with_srcs ci f s =
     bindE (get_op ci (i_src1 ci) s) (\<lambda>a. bindE (get_op ci (i_src2 ci) s) (\<lambda>b. f a b s))"

definition set_dest :: "instruction \<Rightarrow> u32 \<Rightarrow> or1k \<Rightarrow> or1k res" where
  "set_dest ci v s = put_op (i_dest ci) v s"

definition status_or :: "u32 \<Rightarrow> or1k \<Rightarrow> or1k" where
  "status_or x s = s\<lparr>m_status := m_status s OR x\<rparr>"

definition status_clear :: "u32 \<Rightarrow> or1k \<Rightarrow> or1k" where
  "status_clear x s = s\<lparr>m_status := m_status s AND NOT x\<rparr>"

text \<open>The range exception, raised when it is enabled in general and for the cause \<open>ae\<close>.\<close>

definition range_exception :: "u32 \<Rightarrow> or1k \<Rightarrow> or1k res" where
  "range_exception ae s =
     (if m_status s AND SR_OVE \<noteq> 0 \<and> m_aecr s AND ae \<noteq> 0
      then exception EX_RANGE 0 (s\<lparr>m_aesr := m_aesr s OR ae\<rparr>) else Inr s)"

text \<open>\<open>if (c) { m_status |= flag; range exception }\<close>.\<close>

definition flag_when :: "bool \<Rightarrow> u32 \<Rightarrow> u32 \<Rightarrow> or1k \<Rightarrow> or1k res" where
  "flag_when c flag ae s = (if c then range_exception ae (status_or flag s) else Inr s)"

section \<open>System instructions\<close>

definition execute_orbis32_mfspr :: "host \<Rightarrow> instruction \<Rightarrow> or1k \<Rightarrow> or1k res" where
  "execute_orbis32_mfspr h ci =
     with_src1 ci (\<lambda>a s. set_dest ci (get_spr (a OR i_imm ci) False s) s)"

definition execute_orbis32_mtspr :: "host \<Rightarrow> instruction \<Rightarrow> or1k \<Rightarrow> or1k res" where
  "execute_orbis32_mtspr h ci =
     with_src1 ci (\<lambda>b s. bindE (get_op ci (i_dest ci) s) (\<lambda>a. set_spr h (a OR i_imm ci) b False s))"

definition execute_orbis32_movhi :: "host \<Rightarrow> instruction \<Rightarrow> or1k \<Rightarrow> or1k res" where
  "execute_orbis32_movhi h ci s = set_dest ci (i_imm ci) s"

definition put_reg :: "nat \<Rightarrow> u32 \<Rightarrow> or1k \<Rightarrow> or1k" where
  "put_reg n v s = s\<lparr>gpr := (gpr s)[n := v]\<rparr>"

definition emit :: "host_output \<Rightarrow> or1k \<Rightarrow> or1k" where
  "emit out s = s\<lparr>g_output := g_output s @ [out]\<rparr>"

text \<open>The exits of \<^verbatim>\<open>NOP_EXIT\<close> and \<^verbatim>\<open>NOP_SILENT_EXIT\<close>: the last cycle is not counted.\<close>

definition request_stop :: "or1k \<Rightarrow> or1k" where
  "request_stop s = s\<lparr>m_cycles := m_cycles s - 1, m_instructions := m_instructions s - 1,
                      m_stop_requested := True\<rparr>"

text \<open>
  The modes of \<^verbatim>\<open>l.nop\<close>, numbered as in \<^verbatim>\<open>nop_mode\<close>. \<^verbatim>\<open>NOP_PUTS\<close> prints the string at a host
  address, which is recorded; its characters are not modelled.
\<close>

definition execute_orbis32_nop :: "host \<Rightarrow> instruction \<Rightarrow> or1k \<Rightarrow> or1k res" where
  "execute_orbis32_nop h ci s0 =
     (let mode = i_imm ci
      in if mode = 0x1
         then with_src1 ci (\<lambda>v s. Inr (request_stop (emit (Out_exit v) s))) s0
         else if mode = 0x2 then with_src1 ci (\<lambda>v s. Inr (emit (Out_report v) s)) s0
         else if mode = 0x4 then with_src1 ci (\<lambda>v s. Inr (emit (Out_putc (ucast v)) s)) s0
         else if mode = 0x5
         then Inr ((emit Out_stats_reset s0)\<lparr>m_instructions := 0, m_compiles := 0,
                                             m_break_requested := True\<rparr>)
         else if mode = 0x6
         then Inr (put_reg 12 (ucast (drop_bit 32 (m_cycles s0)))
                    (put_reg 11 (ucast (m_cycles s0 AND 0xffffffff)) s0))
         else if mode = 0x7
         then (if m_clock s0 = 0 then Inl Host_fault
               else Inr (put_reg 11 (ucast (1000000000000 div m_clock s0)) s0))
         else if mode = 0x8 then Inr (emit Out_trace_on (s0\<lparr>m_trace_enabled := True\<rparr>))
         else if mode = 0x9 then Inr (emit Out_trace_off (s0\<lparr>m_trace_enabled := False\<rparr>))
         else if mode = 0xa
         then Inr ((put_reg 11 (h_rand h (g_calls s0)) s0)\<lparr>g_calls := g_calls s0 + 1\<rparr>)
         else if mode = 0xb then Inr (put_reg 11 2 s0)
         else if mode = 0xc
         then with_src1 ci (\<lambda>v s. Inr (request_stop (emit (Out_silent_exit v) s))) s0
         else if mode = 0xd
         then (let ms = h_time_sec h (g_calls s0) * 1000 + h_time_usec h (g_calls s0) div 1000
               in Inr ((put_reg 12 (ucast (drop_bit 32 ms))
                         (put_reg 11 (ucast (ms AND 0xffffffff)) s0))\<lparr>g_calls := g_calls s0 + 1\<rparr>))
         else if mode = 0xe then Inr (emit (Out_puts (get_data_ptr (m_env s0) (gpr s0 ! 3))) s0)
         else Inr s0)"

definition execute_orbis32_sys :: "host \<Rightarrow> instruction \<Rightarrow> or1k \<Rightarrow> or1k res" where
  "execute_orbis32_sys h ci s = exception EX_SYSCALL 0 s"

definition execute_orbis32_trap :: "host \<Rightarrow> instruction \<Rightarrow> or1k \<Rightarrow> or1k res" where
  "execute_orbis32_trap h ci s = exception EX_TRAP 0 s"

definition execute_orbis32_csync :: "host \<Rightarrow> instruction \<Rightarrow> or1k \<Rightarrow> or1k res" where
  "execute_orbis32_csync h ci s = Inr s"

definition execute_orbis32_msync :: "host \<Rightarrow> instruction \<Rightarrow> or1k \<Rightarrow> or1k res" where
  "execute_orbis32_msync h ci s = Inr s"

definition execute_orbis32_psync :: "host \<Rightarrow> instruction \<Rightarrow> or1k \<Rightarrow> or1k res" where
  "execute_orbis32_psync h ci s = Inr s"

definition execute_orbis32_rfe :: "host \<Rightarrow> instruction \<Rightarrow> or1k \<Rightarrow> or1k res" where
  "execute_orbis32_rfe h ci s =
     (let target = get_spr SPR_EPCR False s
      in bindE (schedule_jump target 0 s) (\<lambda>s.
         let status = get_spr SPR_ESR False s
         in set_spr h SPR_SR status False s))"

section \<open>Control\<close>

definition jump_delay :: "or1k \<Rightarrow> u32" where
  "jump_delay s = (if m_cpucfg s AND CPUCFGR_ND \<noteq> 0 then 0 else 1)"

definition execute_orbis32_bf :: "host \<Rightarrow> instruction \<Rightarrow> or1k \<Rightarrow> or1k res" where
  "execute_orbis32_bf h ci s =
     (let target = i_imm ci + m_next_pc s; delay = jump_delay s
      in if m_status s AND SR_F \<noteq> 0 then schedule_jump target delay s else Inr s)"

definition execute_orbis32_bnf :: "host \<Rightarrow> instruction \<Rightarrow> or1k \<Rightarrow> or1k res" where
  "execute_orbis32_bnf h ci s =
     (let target = i_imm ci + m_next_pc s; delay = jump_delay s
      in if m_status s AND SR_F = 0 then schedule_jump target delay s else Inr s)"

text \<open>The link register is set when the instruction has one.\<close>

definition set_link :: "instruction \<Rightarrow> or1k \<Rightarrow> or1k res" where
  "set_link ci s =
     (if i_src1 ci = PNull then Inr s
      else put_op (i_src1 ci) (m_next_pc s + (jump_delay s + 1) * 4) s)"

definition execute_orbis32_jump_rel :: "host \<Rightarrow> instruction \<Rightarrow> or1k \<Rightarrow> or1k res" where
  "execute_orbis32_jump_rel h ci s =
     bindE (get_op ci (i_src2 ci) s) (\<lambda>b.
     let target = b + m_next_pc s; delay = jump_delay s
     in bindE (set_link ci s) (schedule_jump target delay))"

definition execute_orbis32_jump_abs :: "host \<Rightarrow> instruction \<Rightarrow> or1k \<Rightarrow> or1k res" where
  "execute_orbis32_jump_abs h ci s =
     bindE (get_op ci (i_src2 ci) s) (\<lambda>b.
     let target = b; delay = jump_delay s
     in bindE (set_link ci s) (schedule_jump target delay))"

section \<open>Load and store\<close>

text \<open>
  All ten functions set up \<^verbatim>\<open>m_dreq\<close> and call \<^verbatim>\<open>transact\<close> with the register \<open>r\<close> as the buffer; the
  bytes that come back are stored into that register, whether the access succeeded or not.
\<close>

definition data_access ::
  "host \<Rightarrow> bool \<Rightarrow> bool \<Rightarrow> u32 \<Rightarrow> operand \<Rightarrow> instruction \<Rightarrow> or1k \<Rightarrow> (bool \<times> or1k) res" where
  "data_access h rd excl sz r ci s =
     bindE (get_op ci (i_src1 ci) s) (\<lambda>a.
     bindE (get_op ci r s) (\<lambda>v.
     let req = (m_dreq s)\<lparr>m_read := rd, m_excl := excl, req_addr := a + i_imm ci,
                          req_data := le_bytes 4 v, req_size := sz\<rparr>
     in bindE (transact h req s) (\<lambda>(ok, req, s).
        bindE (put_op r (of_le_bytes (req_data req)) s) (\<lambda>s.
        Inr (ok, s\<lparr>m_dreq := req\<rparr>)))))"

text \<open>\<open>if (transact(m_dreq)) *d = f(*d)\<close>.\<close>

definition then_dest :: "(u32 \<Rightarrow> u32) \<Rightarrow> instruction \<Rightarrow> bool \<times> or1k \<Rightarrow> or1k res" where
  "then_dest f ci = (\<lambda>(ok, s).
     if ok then bindE (get_op ci (i_dest ci) s) (\<lambda>v. set_dest ci (f v) s) else Inr s)"

definition execute_orbis32_lwa :: "host \<Rightarrow> instruction \<Rightarrow> or1k \<Rightarrow> or1k res" where
  "execute_orbis32_lwa h ci s =
     bindE (data_access h True True SIZE_WORD (i_dest ci) ci s) (\<lambda>(ok, s). Inr s)"

definition execute_orbis32_lw :: "host \<Rightarrow> instruction \<Rightarrow> or1k \<Rightarrow> or1k res" where
  "execute_orbis32_lw h ci s =
     bindE (data_access h True False SIZE_WORD (i_dest ci) ci s) (\<lambda>(ok, s). Inr s)"

definition execute_orbis32_lhz :: "host \<Rightarrow> instruction \<Rightarrow> or1k \<Rightarrow> or1k res" where
  "execute_orbis32_lhz h ci s =
     bindE (data_access h True False SIZE_HALFWORD (i_dest ci) ci s) (then_dest (\<lambda>d. d AND 0xffff) ci)"

definition execute_orbis32_lhs :: "host \<Rightarrow> instruction \<Rightarrow> or1k \<Rightarrow> or1k res" where
  "execute_orbis32_lhs h ci s =
     bindE (data_access h True False SIZE_HALFWORD (i_dest ci) ci s)
       (then_dest (\<lambda>d. sign_extend32 d 15) ci)"

definition execute_orbis32_lbz :: "host \<Rightarrow> instruction \<Rightarrow> or1k \<Rightarrow> or1k res" where
  "execute_orbis32_lbz h ci s =
     bindE (data_access h True False SIZE_BYTE (i_dest ci) ci s) (then_dest (\<lambda>d. d AND 0xff) ci)"

definition execute_orbis32_lbs :: "host \<Rightarrow> instruction \<Rightarrow> or1k \<Rightarrow> or1k res" where
  "execute_orbis32_lbs h ci s =
     bindE (data_access h True False SIZE_BYTE (i_dest ci) ci s) (then_dest (\<lambda>d. sign_extend32 d 7) ci)"

definition execute_orbis32_swa :: "host \<Rightarrow> instruction \<Rightarrow> or1k \<Rightarrow> or1k res" where
  "execute_orbis32_swa h ci s =
     bindE (data_access h False True SIZE_WORD (i_src2 ci) ci s) (\<lambda>(ok, s). Inr s)"

definition execute_orbis32_sw :: "host \<Rightarrow> instruction \<Rightarrow> or1k \<Rightarrow> or1k res" where
  "execute_orbis32_sw h ci s =
     bindE (data_access h False False SIZE_WORD (i_src2 ci) ci s) (\<lambda>(ok, s). Inr s)"

definition execute_orbis32_sh :: "host \<Rightarrow> instruction \<Rightarrow> or1k \<Rightarrow> or1k res" where
  "execute_orbis32_sh h ci s =
     bindE (data_access h False False SIZE_HALFWORD (i_src2 ci) ci s) (\<lambda>(ok, s). Inr s)"

definition execute_orbis32_sb :: "host \<Rightarrow> instruction \<Rightarrow> or1k \<Rightarrow> or1k res" where
  "execute_orbis32_sb h ci s =
     bindE (data_access h False False SIZE_BYTE (i_src2 ci) ci s) (\<lambda>(ok, s). Inr s)"

section \<open>Arithmetic and logic\<close>

definition execute_orbis32_extw :: "host \<Rightarrow> instruction \<Rightarrow> or1k \<Rightarrow> or1k res" where
  "execute_orbis32_extw h ci = with_src1 ci (\<lambda>a. set_dest ci (a))"

definition execute_orbis32_exthz :: "host \<Rightarrow> instruction \<Rightarrow> or1k \<Rightarrow> or1k res" where
  "execute_orbis32_exthz h ci = with_src1 ci (\<lambda>a. set_dest ci (a AND 0xffff))"

definition execute_orbis32_exths :: "host \<Rightarrow> instruction \<Rightarrow> or1k \<Rightarrow> or1k res" where
  "execute_orbis32_exths h ci = with_src1 ci (\<lambda>a. set_dest ci (sign_extend32 a 15))"

definition execute_orbis32_extbz :: "host \<Rightarrow> instruction \<Rightarrow> or1k \<Rightarrow> or1k res" where
  "execute_orbis32_extbz h ci = with_src1 ci (\<lambda>a. set_dest ci (a AND 0xff))"

definition execute_orbis32_extbs :: "host \<Rightarrow> instruction \<Rightarrow> or1k \<Rightarrow> or1k res" where
  "execute_orbis32_extbs h ci = with_src1 ci (\<lambda>a. set_dest ci (sign_extend32 a 7))"

text \<open>
  The signed overflow tests of addition and subtraction, on the operands and the result.
\<close>

definition add_overflows :: "u32 \<Rightarrow> u32 \<Rightarrow> u32 \<Rightarrow> bool" where
  "add_overflows src1 src2 result \<longleftrightarrow>
     sint src1 < 0 \<and> sint src2 < 0 \<and> 0 \<le> sint result \<or>
     0 \<le> sint src1 \<and> 0 \<le> sint src2 \<and> sint result < 0"

definition sub_overflows :: "u32 \<Rightarrow> u32 \<Rightarrow> u32 \<Rightarrow> bool" where
  "sub_overflows src1 src2 result \<longleftrightarrow>
     sint src1 < 0 \<and> 0 \<le> sint src2 \<and> 0 \<le> sint result \<or>
     0 \<le> sint src1 \<and> sint src2 < 0 \<and> sint result < 0"

definition clear_carry_overflow :: "or1k \<Rightarrow> or1k" where
  "clear_carry_overflow s = status_clear SR_OV (status_clear SR_CY s)"

text \<open>For \<^verbatim>\<open>l.add\<close> the carry sets its flag but raises no exception.\<close>

definition execute_orbis32_add :: "host \<Rightarrow> instruction \<Rightarrow> or1k \<Rightarrow> or1k res" where
  "execute_orbis32_add h ci = with_srcs ci (\<lambda>src1 src2 s.
     let result = src1 + src2
     in bindE (set_dest ci result s) (\<lambda>s.
        let s = clear_carry_overflow s;
            s = (if result < src1 then status_or SR_CY s else s)
        in flag_when (add_overflows src1 src2 result) SR_OV AE_OVADDE s))"

definition execute_orbis32_addc :: "host \<Rightarrow> instruction \<Rightarrow> or1k \<Rightarrow> or1k res" where
  "execute_orbis32_addc h ci = with_srcs ci (\<lambda>src1 src2 s.
     let result = (if m_status s AND SR_CY \<noteq> 0 then src1 + src2 + 1 else src1 + src2)
     in bindE (set_dest ci result s) (\<lambda>s.
        bindE (flag_when (result < src1) SR_CY AE_CYADDE (clear_carry_overflow s)) (\<lambda>s.
        flag_when (add_overflows src1 src2 result) SR_OV AE_OVADDE s)))"

definition execute_orbis32_sub :: "host \<Rightarrow> instruction \<Rightarrow> or1k \<Rightarrow> or1k res" where
  "execute_orbis32_sub h ci = with_srcs ci (\<lambda>src1 src2 s.
     let result = src1 - src2
     in bindE (set_dest ci result s) (\<lambda>s.
        bindE (flag_when (src1 < src2) SR_CY AE_CYADDE (clear_carry_overflow s)) (\<lambda>s.
        flag_when (sub_overflows src1 src2 result) SR_OV AE_OVADDE s)))"

definition execute_orbis32_and :: "host \<Rightarrow> instruction \<Rightarrow> or1k \<Rightarrow> or1k res" where
  "execute_orbis32_and h ci = with_srcs ci (\<lambda>a b. set_dest ci (a AND b))"

definition execute_orbis32_or :: "host \<Rightarrow> instruction \<Rightarrow> or1k \<Rightarrow> or1k res" where
  "execute_orbis32_or h ci = with_srcs ci (\<lambda>a b. set_dest ci (a OR b))"

definition execute_orbis32_xor :: "host \<Rightarrow> instruction \<Rightarrow> or1k \<Rightarrow> or1k res" where
  "execute_orbis32_xor h ci = with_srcs ci (\<lambda>a b. set_dest ci (a XOR b))"

definition execute_orbis32_cmov :: "host \<Rightarrow> instruction \<Rightarrow> or1k \<Rightarrow> or1k res" where
  "execute_orbis32_cmov h ci = with_srcs ci (\<lambda>a b s.
     set_dest ci (if m_status s AND SR_F \<noteq> 0 then a else b) s)"

definition execute_orbis32_ff1 :: "host \<Rightarrow> instruction \<Rightarrow> or1k \<Rightarrow> or1k res" where
  "execute_orbis32_ff1 h ci = with_src1 ci (\<lambda>a. set_dest ci (ffs32 a))"

definition execute_orbis32_fl1 :: "host \<Rightarrow> instruction \<Rightarrow> or1k \<Rightarrow> or1k res" where
  "execute_orbis32_fl1 h ci = with_src1 ci (\<lambda>a. set_dest ci (fls32 a))"

text \<open>\<^verbatim>\<open>*b & 0x1f\<close>, the shift amount.\<close>

definition shift_amount :: "u32 \<Rightarrow> nat" where
  "shift_amount b = unat (b AND 0x1f)"

definition execute_orbis32_sll :: "host \<Rightarrow> instruction \<Rightarrow> or1k \<Rightarrow> or1k res" where
  "execute_orbis32_sll h ci = with_srcs ci (\<lambda>a b. set_dest ci (push_bit (shift_amount b) a))"

definition execute_orbis32_srl :: "host \<Rightarrow> instruction \<Rightarrow> or1k \<Rightarrow> or1k res" where
  "execute_orbis32_srl h ci = with_srcs ci (\<lambda>a b. set_dest ci (drop_bit (shift_amount b) a))"

definition execute_orbis32_sra :: "host \<Rightarrow> instruction \<Rightarrow> or1k \<Rightarrow> or1k res" where
  "execute_orbis32_sra h ci = with_srcs ci (\<lambda>a b.
     set_dest ci (sign_extend32 (drop_bit (shift_amount b) a) (31 - shift_amount b)))"

definition execute_orbis32_ror :: "host \<Rightarrow> instruction \<Rightarrow> or1k \<Rightarrow> or1k res" where
  "execute_orbis32_ror h ci = with_srcs ci (\<lambda>a b.
     set_dest ci (drop_bit (shift_amount b) a OR push_bit (31 - shift_amount b) a))"

section \<open>Multiplication and division\<close>

text \<open>Whether a signed, respectively unsigned, 64-bit result is outside 32 bits.\<close>

definition exceeds_s32 :: "u64 \<Rightarrow> bool" where
  "exceeds_s32 result \<longleftrightarrow> 2147483647 < sint result \<or> sint result < - 2147483648"

definition exceeds_u32 :: "u64 \<Rightarrow> bool" where
  "exceeds_u32 result \<longleftrightarrow> 0xffffffff < result"

definition set_mac :: "u64 \<Rightarrow> or1k \<Rightarrow> or1k" where
  "set_mac result s = s\<lparr>m_mac := \<lparr>hi = ucast (drop_bit 32 result), lo = ucast result\<rparr>\<rparr>"

definition get_mac :: "or1k \<Rightarrow> u64" where
  "get_mac s = push_bit 32 (ucast (hi (m_mac s))) OR ucast (lo (m_mac s))"

definition execute_orbis32_mul :: "host \<Rightarrow> instruction \<Rightarrow> or1k \<Rightarrow> or1k res" where
  "execute_orbis32_mul h ci = with_srcs ci (\<lambda>a b s.
     let result = scast a * scast b :: u64
     in bindE (set_dest ci (ucast result) s) (\<lambda>s.
        flag_when (exceeds_s32 result) SR_OV AE_OVMULE (status_clear SR_OV s)))"

definition execute_orbis32_mulu :: "host \<Rightarrow> instruction \<Rightarrow> or1k \<Rightarrow> or1k res" where
  "execute_orbis32_mulu h ci = with_srcs ci (\<lambda>a b s.
     let result = ucast a * ucast b :: u64
     in bindE (set_dest ci (ucast result) s) (\<lambda>s.
        flag_when (exceeds_u32 result) SR_CY AE_CYMULE (status_clear SR_CY s)))"

definition execute_orbis32_muld :: "host \<Rightarrow> instruction \<Rightarrow> or1k \<Rightarrow> or1k res" where
  "execute_orbis32_muld h ci = with_srcs ci (\<lambda>a b s.
     let result = scast a * scast b :: u64
     in flag_when (exceeds_s32 result) SR_OV AE_OVMULE (status_clear SR_OV (set_mac result s)))"

definition execute_orbis32_muldu :: "host \<Rightarrow> instruction \<Rightarrow> or1k \<Rightarrow> or1k res" where
  "execute_orbis32_muldu h ci = with_srcs ci (\<lambda>a b s.
     let result = ucast a * ucast b :: u64
     in flag_when (exceeds_u32 result) SR_CY AE_CYMULE (status_clear SR_CY (set_mac result s)))"

definition execute_orbis32_div :: "host \<Rightarrow> instruction \<Rightarrow> or1k \<Rightarrow> or1k res" where
  "execute_orbis32_div h ci = with_srcs ci (\<lambda>a b s.
     if b = 0 then flag_when True SR_OV AE_DBZE s
     else if sint a = - 2147483648 \<and> sint b = -1 then Inl Host_fault
     else set_dest ci (word_of_int (sint a sdiv sint b)) (status_clear SR_OV s))"

definition execute_orbis32_divu :: "host \<Rightarrow> instruction \<Rightarrow> or1k \<Rightarrow> or1k res" where
  "execute_orbis32_divu h ci = with_srcs ci (\<lambda>a b s.
     if b = 0 then flag_when True SR_CY AE_DBZE s
     else set_dest ci (a div b) (status_clear SR_CY s))"

section \<open>Comparison\<close>

definition set_flag :: "bool \<Rightarrow> or1k \<Rightarrow> or1k" where
  "set_flag c s = (if c then status_or SR_F s else status_clear SR_F s)"

definition execute_orbis32_sfeq :: "host \<Rightarrow> instruction \<Rightarrow> or1k \<Rightarrow> or1k res" where
  "execute_orbis32_sfeq h ci = with_srcs ci (\<lambda>a b s. Inr (set_flag (a = b) s))"

definition execute_orbis32_sfne :: "host \<Rightarrow> instruction \<Rightarrow> or1k \<Rightarrow> or1k res" where
  "execute_orbis32_sfne h ci = with_srcs ci (\<lambda>a b s. Inr (set_flag (a \<noteq> b) s))"

definition execute_orbis32_sfgtu :: "host \<Rightarrow> instruction \<Rightarrow> or1k \<Rightarrow> or1k res" where
  "execute_orbis32_sfgtu h ci = with_srcs ci (\<lambda>a b s. Inr (set_flag (b < a) s))"

definition execute_orbis32_sfgeu :: "host \<Rightarrow> instruction \<Rightarrow> or1k \<Rightarrow> or1k res" where
  "execute_orbis32_sfgeu h ci = with_srcs ci (\<lambda>a b s. Inr (set_flag (b \<le> a) s))"

definition execute_orbis32_sfltu :: "host \<Rightarrow> instruction \<Rightarrow> or1k \<Rightarrow> or1k res" where
  "execute_orbis32_sfltu h ci = with_srcs ci (\<lambda>a b s. Inr (set_flag (a < b) s))"

definition execute_orbis32_sfleu :: "host \<Rightarrow> instruction \<Rightarrow> or1k \<Rightarrow> or1k res" where
  "execute_orbis32_sfleu h ci = with_srcs ci (\<lambda>a b s. Inr (set_flag (a \<le> b) s))"

definition execute_orbis32_sfgts :: "host \<Rightarrow> instruction \<Rightarrow> or1k \<Rightarrow> or1k res" where
  "execute_orbis32_sfgts h ci = with_srcs ci (\<lambda>a b s. Inr (set_flag (sint b < sint a) s))"

definition execute_orbis32_sfges :: "host \<Rightarrow> instruction \<Rightarrow> or1k \<Rightarrow> or1k res" where
  "execute_orbis32_sfges h ci = with_srcs ci (\<lambda>a b s. Inr (set_flag (sint b \<le> sint a) s))"

definition execute_orbis32_sflts :: "host \<Rightarrow> instruction \<Rightarrow> or1k \<Rightarrow> or1k res" where
  "execute_orbis32_sflts h ci = with_srcs ci (\<lambda>a b s. Inr (set_flag (sint a < sint b) s))"

definition execute_orbis32_sfles :: "host \<Rightarrow> instruction \<Rightarrow> or1k \<Rightarrow> or1k res" where
  "execute_orbis32_sfles h ci = with_srcs ci (\<lambda>a b s. Inr (set_flag (sint a \<le> sint b) s))"

section \<open>Multiply and accumulate\<close>

definition execute_orbis32_mac :: "host \<Rightarrow> instruction \<Rightarrow> or1k \<Rightarrow> or1k res" where
  "execute_orbis32_mac h ci = with_srcs ci (\<lambda>a b s.
     let result = get_mac s + scast a * scast b
     in flag_when (exceeds_s32 result) SR_OV AE_OVMACADDE (status_clear SR_OV (set_mac result s)))"

definition execute_orbis32_macu :: "host \<Rightarrow> instruction \<Rightarrow> or1k \<Rightarrow> or1k res" where
  "execute_orbis32_macu h ci = with_srcs ci (\<lambda>a b s.
     let result = get_mac s + ucast a * ucast b
     in flag_when (exceeds_u32 result) SR_CY AE_CYMACADDE (status_clear SR_CY (set_mac result s)))"

definition execute_orbis32_msb :: "host \<Rightarrow> instruction \<Rightarrow> or1k \<Rightarrow> or1k res" where
  "execute_orbis32_msb h ci = with_srcs ci (\<lambda>a b s.
     let result = get_mac s - scast a * scast b
     in flag_when (exceeds_s32 result) SR_OV AE_OVMACADDE (status_clear SR_OV (set_mac result s)))"

definition execute_orbis32_msbu :: "host \<Rightarrow> instruction \<Rightarrow> or1k \<Rightarrow> or1k res" where
  "execute_orbis32_msbu h ci = with_srcs ci (\<lambda>a b s.
     let result = get_mac s - ucast a * ucast b
     in flag_when (exceeds_u32 result) SR_CY AE_CYMACADDE (status_clear SR_CY (set_mac result s)))"

definition execute_orbis32_macrc :: "host \<Rightarrow> instruction \<Rightarrow> or1k \<Rightarrow> or1k res" where
  "execute_orbis32_macrc h ci s =
     bindE (set_dest ci (lo (m_mac s)) s) (\<lambda>s. Inr (s\<lparr>m_mac := \<lparr>hi = 0, lo = 0\<rparr>\<rparr>))"

section \<open>Dispatch\<close>

fun exec_sys :: "sys_exec \<Rightarrow> host \<Rightarrow> instruction \<Rightarrow> or1k \<Rightarrow> or1k res" where
  "exec_sys X_mfspr = execute_orbis32_mfspr"
| "exec_sys X_mtspr = execute_orbis32_mtspr"
| "exec_sys X_movhi = execute_orbis32_movhi"
| "exec_sys X_nop = execute_orbis32_nop"
| "exec_sys X_sys = execute_orbis32_sys"
| "exec_sys X_trap = execute_orbis32_trap"
| "exec_sys X_csync = execute_orbis32_csync"
| "exec_sys X_msync = execute_orbis32_msync"
| "exec_sys X_psync = execute_orbis32_psync"
| "exec_sys X_rfe = execute_orbis32_rfe"

fun exec_jump :: "jump_exec \<Rightarrow> host \<Rightarrow> instruction \<Rightarrow> or1k \<Rightarrow> or1k res" where
  "exec_jump X_bf = execute_orbis32_bf"
| "exec_jump X_bnf = execute_orbis32_bnf"
| "exec_jump X_jump_rel = execute_orbis32_jump_rel"
| "exec_jump X_jump_abs = execute_orbis32_jump_abs"

fun exec_mem :: "mem_exec \<Rightarrow> host \<Rightarrow> instruction \<Rightarrow> or1k \<Rightarrow> or1k res" where
  "exec_mem X_lwa = execute_orbis32_lwa"
| "exec_mem X_lw = execute_orbis32_lw"
| "exec_mem X_lhz = execute_orbis32_lhz"
| "exec_mem X_lhs = execute_orbis32_lhs"
| "exec_mem X_lbz = execute_orbis32_lbz"
| "exec_mem X_lbs = execute_orbis32_lbs"
| "exec_mem X_swa = execute_orbis32_swa"
| "exec_mem X_sw = execute_orbis32_sw"
| "exec_mem X_sh = execute_orbis32_sh"
| "exec_mem X_sb = execute_orbis32_sb"

fun exec_alu :: "alu_exec \<Rightarrow> host \<Rightarrow> instruction \<Rightarrow> or1k \<Rightarrow> or1k res" where
  "exec_alu X_extw = execute_orbis32_extw"
| "exec_alu X_exthz = execute_orbis32_exthz"
| "exec_alu X_exths = execute_orbis32_exths"
| "exec_alu X_extbz = execute_orbis32_extbz"
| "exec_alu X_extbs = execute_orbis32_extbs"
| "exec_alu X_add = execute_orbis32_add"
| "exec_alu X_addc = execute_orbis32_addc"
| "exec_alu X_sub = execute_orbis32_sub"
| "exec_alu X_and = execute_orbis32_and"
| "exec_alu X_or = execute_orbis32_or"
| "exec_alu X_xor = execute_orbis32_xor"
| "exec_alu X_cmov = execute_orbis32_cmov"
| "exec_alu X_ff1 = execute_orbis32_ff1"
| "exec_alu X_fl1 = execute_orbis32_fl1"
| "exec_alu X_sll = execute_orbis32_sll"
| "exec_alu X_srl = execute_orbis32_srl"
| "exec_alu X_sra = execute_orbis32_sra"
| "exec_alu X_ror = execute_orbis32_ror"

fun exec_muldiv :: "muldiv_exec \<Rightarrow> host \<Rightarrow> instruction \<Rightarrow> or1k \<Rightarrow> or1k res" where
  "exec_muldiv X_mul = execute_orbis32_mul"
| "exec_muldiv X_mulu = execute_orbis32_mulu"
| "exec_muldiv X_muld = execute_orbis32_muld"
| "exec_muldiv X_muldu = execute_orbis32_muldu"
| "exec_muldiv X_div = execute_orbis32_div"
| "exec_muldiv X_divu = execute_orbis32_divu"

fun exec_compare :: "compare_exec \<Rightarrow> host \<Rightarrow> instruction \<Rightarrow> or1k \<Rightarrow> or1k res" where
  "exec_compare X_sfeq = execute_orbis32_sfeq"
| "exec_compare X_sfne = execute_orbis32_sfne"
| "exec_compare X_sfgtu = execute_orbis32_sfgtu"
| "exec_compare X_sfgeu = execute_orbis32_sfgeu"
| "exec_compare X_sfltu = execute_orbis32_sfltu"
| "exec_compare X_sfleu = execute_orbis32_sfleu"
| "exec_compare X_sfgts = execute_orbis32_sfgts"
| "exec_compare X_sfges = execute_orbis32_sfges"
| "exec_compare X_sflts = execute_orbis32_sflts"
| "exec_compare X_sfles = execute_orbis32_sfles"

fun exec_mac :: "mac_exec \<Rightarrow> host \<Rightarrow> instruction \<Rightarrow> or1k \<Rightarrow> or1k res" where
  "exec_mac X_mac = execute_orbis32_mac"
| "exec_mac X_macu = execute_orbis32_macu"
| "exec_mac X_msb = execute_orbis32_msb"
| "exec_mac X_msbu = execute_orbis32_msbu"
| "exec_mac X_macrc = execute_orbis32_macrc"

section \<open>Flags of the adder\<close>

lemma sint32_bounds: "- 2147483648 \<le> sint (a :: u32)" "sint (a :: u32) < 2147483648"
  using sint_greater_eq[of a] sint_less[of a] by simp_all

text \<open>\<open>sint\<close> of a 32-bit sum or difference, by the carry out of the range.\<close>

lemma sint32_of_int:
  assumes "- 4294967296 \<le> i" "i < 4294967296"
  shows "sint (word_of_int i :: u32) =
     (if i < - 2147483648 then i + 4294967296 else if 2147483648 \<le> i then i - 4294967296 else i)"
proof -
  let ?M = "4294967296 :: int" and ?j = "i + 2147483648"
  have s: "sint (word_of_int i :: u32) = ?j mod ?M - 2147483648"
    by (simp add: signed_of_int signed_take_bit_eq_take_bit_shift take_bit_eq_mod)
  consider "i < - 2147483648" | "2147483648 \<le> i" | "- 2147483648 \<le> i" "i < 2147483648" by linarith
  then show ?thesis
  proof cases
    case 1
    have "?j mod ?M = (?j + ?M) mod ?M" by (rule mod_add_self2[symmetric])
    also have "\<dots> = ?j + ?M" using 1 assms by (intro mod_pos_pos_trivial) auto
    finally show ?thesis using 1 s by simp
  next
    case 2
    have "?j mod ?M = (?j - ?M + ?M) mod ?M" by (simp only: diff_add_cancel)
    also have "\<dots> = (?j - ?M) mod ?M" by (rule mod_add_self2)
    also have "\<dots> = ?j - ?M" using 2 assms by (intro mod_pos_pos_trivial) auto
    finally show ?thesis using 2 s by simp
  next
    case 3
    then have "?j mod ?M = ?j" by (intro mod_pos_pos_trivial) auto
    then show ?thesis using 3 s by simp
  qed
qed

lemma sint32_add: "sint (a + b :: u32) =
    (let i = sint a + sint b
     in if i < - 2147483648 then i + 4294967296 else if 2147483648 \<le> i then i - 4294967296 else i)"
proof -
  have "a + b = word_of_int (sint a + sint b)" by simp
  then show ?thesis
    using sint32_of_int[of "sint a + sint b"] sint32_bounds[of a] sint32_bounds[of b]
    by (simp only: Let_def)
qed

lemma sint32_sub: "sint (a - b :: u32) =
    (let i = sint a - sint b
     in if i < - 2147483648 then i + 4294967296 else if 2147483648 \<le> i then i - 4294967296 else i)"
proof -
  have "a - b = word_of_int (sint a - sint b)" by simp
  then show ?thesis
    using sint32_of_int[of "sint a - sint b"] sint32_bounds[of a] sint32_bounds[of b]
    by (simp only: Let_def)
qed

lemma add_overflows_iff:
  "add_overflows a b (a + b) \<longleftrightarrow> sint a + sint b < - 2147483648 \<or> 2147483648 \<le> sint a + sint b"
  using sint32_bounds[of a] sint32_bounds[of b]
  by (auto simp: add_overflows_def sint32_add Let_def split: if_splits)

lemma sub_overflows_iff:
  "sub_overflows a b (a - b) \<longleftrightarrow> sint a - sint b < - 2147483648 \<or> 2147483648 \<le> sint a - sint b"
  using sint32_bounds[of a] sint32_bounds[of b]
  by (auto simp: sub_overflows_def sint32_sub Let_def split: if_splits)

lemma carry_iff: "a + b < a \<longleftrightarrow> 2 ^ 32 \<le> unat a + unat b" for a b :: u32
proof -
  have "unat a < 2 ^ 32" "unat b < 2 ^ 32"
    using unsigned_less[of a, where 'a = nat] unsigned_less[of b, where 'a = nat] by simp_all
  then show ?thesis unfolding word_less_nat_alt unat_plus_if' by simp linarith
qed

text \<open>An instruction whose operands are registers and an immediate that exist.\<close>

lemma get_op_simps [simp]:
  "get_op ci PImm s = Inr (i_imm ci)"
  "n < length (gpr s) \<Longrightarrow> get_op ci (PGpr n) s = Inr (gpr s ! n)"
  by (simp_all add: get_op_def)

lemma put_op_simp [simp]: "d < length (gpr s) \<Longrightarrow> put_op (PGpr d) v s = Inr (s\<lparr>gpr := (gpr s)[d := v]\<rparr>)"
  by (simp add: put_op_def)

lemma with_srcs_eq:
  "get_op ci (i_src1 ci) s = Inr a \<Longrightarrow> get_op ci (i_src2 ci) s = Inr b \<Longrightarrow> with_srcs ci f s = f a b s"
  by (simp add: with_srcs_def)

lemma with_src1_eq: "get_op ci (i_src1 ci) s = Inr a \<Longrightarrow> with_src1 ci f s = f a s"
  by (simp add: with_src1_def)

lemma set_dest_eq:
  "i_dest ci = PGpr d \<Longrightarrow> d < length (gpr s) \<Longrightarrow> set_dest ci v s = Inr (s\<lparr>gpr := (gpr s)[d := v]\<rparr>)"
  by (simp add: set_dest_def)

text \<open>\<open>flagged p q st\<close> is \<open>st\<close> with its carry and overflow bits replaced by \<open>p\<close> and \<open>q\<close>.\<close>

definition flagged :: "bool \<Rightarrow> bool \<Rightarrow> u32 \<Rightarrow> u32" where
  "flagged p q st =
     (let st = st AND NOT SR_CY AND NOT SR_OV;
          st = (if p then st OR SR_CY else st)
      in if q then st OR SR_OV else st)"

lemma bit_flagged:
  "n < 32 \<Longrightarrow> bit (flagged p q st) n = (if n = 10 then p else if n = 11 then q else bit st n)"
  by (auto simp: flagged_def Let_def bit_simps bit_SR)

lemma flagged_OVE: "flagged p q st AND SR_OVE \<noteq> 0 \<longleftrightarrow> st AND SR_OVE \<noteq> 0"
  unfolding SR_OVE_def and_push_bit_one by (simp add: bit_flagged)

lemma flag_when_False [simp]: "flag_when False x ae s = Inr s"
  by (simp add: flag_when_def)

text \<open>C3: Addition. \<^verbatim>\<open>l.add\<close> stores the sum modulo \<open>2^32\<close>, sets the carry flag exactly when the
  unsigned sum does not fit and the overflow flag exactly when the signed sum does not fit, changes
  nothing else, and then raises the range exception if the overflow is enabled to do so.\<close>

theorem add_semantics:
  assumes "get_op ci (i_src1 ci) s = Inr a" "get_op ci (i_src2 ci) s = Inr b"
    and "i_dest ci = PGpr d" "d < length (gpr s)"
  defines "overflow \<equiv> sint a + sint b < - (2 ^ 31) \<or> 2 ^ 31 \<le> sint a + sint b"
  shows "execute_orbis32_add h ci s =
    (let s' = s\<lparr>gpr := (gpr s)[d := a + b],
                m_status := flagged (2 ^ 32 \<le> unat a + unat b) overflow (m_status s)\<rparr>
     in if overflow then range_exception AE_OVADDE s' else Inr s')"
  using assms(1-4) unfolding execute_orbis32_add_def overflow_def Let_def
  by (simp add: with_srcs_eq set_dest_eq flag_when_def add_overflows_iff carry_iff flagged_def
      status_or_def clear_carry_overflow_def status_clear_def and.assoc)

lemma range_exception_off: "m_status s AND SR_OVE = 0 \<Longrightarrow> range_exception ae s = Inr s"
  by (simp add: range_exception_def)

lemma SR_OVE_zero: "x AND SR_OVE = 0 \<longleftrightarrow> \<not> bit x 12"
  using and_push_bit_one[of x 12] by (auto simp only: SR_OVE_def)

lemma flag_when_off:
  "m_status s AND SR_OVE = 0 \<Longrightarrow> x AND SR_OVE = 0 \<Longrightarrow>
   flag_when c x ae s = Inr (if c then status_or x s else s)"
  by (simp add: flag_when_def range_exception_def SR_OVE_zero status_or_def bit_or_iff)

lemma set_flags:
  assumes "m_status s AND SR_OVE = 0"
  shows "bindE (flag_when p SR_CY ae (clear_carry_overflow s)) (flag_when q SR_OV ae') =
    Inr (s\<lparr>m_status := flagged p q (m_status s)\<rparr>)"
proof -
  have "m_status (clear_carry_overflow s) AND SR_OVE = 0"
    using assms by (simp add: SR_OVE_zero clear_carry_overflow_def status_clear_def bit_and_iff)
  moreover from this have "m_status (status_or SR_CY (clear_carry_overflow s)) AND SR_OVE = 0"
    by (simp add: SR_OVE_zero status_or_def bit_or_iff bit_SR)
  moreover have "SR_CY AND SR_OVE = 0" "SR_OV AND SR_OVE = 0"
    by (simp_all add: SR_OVE_zero bit_SR)
  ultimately show ?thesis
    by (simp add: flag_when_off flagged_def status_or_def clear_carry_overflow_def
        status_clear_def and.assoc)
qed

text \<open>Subtraction. With the range exception disabled, \<^verbatim>\<open>l.sub\<close> stores the difference modulo
  \<open>2^32\<close>, sets the carry flag exactly when there is a borrow and the overflow flag exactly when the
  signed difference does not fit, and changes nothing else.\<close>

theorem sub_semantics:
  assumes "get_op ci (i_src1 ci) s = Inr a" "get_op ci (i_src2 ci) s = Inr b"
    and "i_dest ci = PGpr d" "d < length (gpr s)" "m_status s AND SR_OVE = 0"
  shows "execute_orbis32_sub h ci s =
    Inr (s\<lparr>gpr := (gpr s)[d := a - b],
           m_status := flagged (unat a < unat b)
             (sint a - sint b < - (2 ^ 31) \<or> 2 ^ 31 \<le> sint a - sint b) (m_status s)\<rparr>)"
  using assms unfolding execute_orbis32_sub_def Let_def
  by (simp add: with_srcs_eq set_dest_eq set_flags sub_overflows_iff word_less_nat_alt)

lemma sint32_add_1: "sint (a + b + 1 :: u32) =
    (let i = sint a + sint b + 1
     in if i < - 2147483648 then i + 4294967296 else if 2147483648 \<le> i then i - 4294967296 else i)"
proof -
  have "a + b + 1 = word_of_int (sint a + sint b + 1)" by simp
  then show ?thesis
    using sint32_of_int[of "sint a + sint b + 1"] sint32_bounds[of a] sint32_bounds[of b]
    by (simp only: Let_def)
qed

lemma addc_overflows_iff:
  "add_overflows a b (a + b + 1) \<longleftrightarrow>
     sint a + sint b + 1 < - 2147483648 \<or> 2147483648 \<le> sint a + sint b + 1"
  using sint32_bounds[of a] sint32_bounds[of b]
  by (auto simp: add_overflows_def sint32_add_1 Let_def split: if_splits)

lemma carry_in_iff:
  "a + b + 1 < a \<longleftrightarrow> 2 ^ 32 \<le> unat a + unat b + 1 \<and> b \<noteq> -1" for a b :: u32
proof (cases "b = -1")
  case False
  then have "unat (b + 1) = unat b + 1"
    using unatSuc[of b] by (auto simp: add_eq_0_iff add.commute)
  with False carry_iff[of a "b + 1"] show ?thesis by (simp add: add.assoc)
qed simp

text \<open>C14: Addition with carry. With the range exception disabled, \<^verbatim>\<open>l.addc\<close> stores the sum with the
  carry modulo \<open>2^32\<close> and sets the overflow flag exactly when the signed sum does not fit. The carry
  flag it sets exactly when the unsigned sum does not fit, except that the carry is lost when the
  carry flag was set and the second operand is all ones.\<close>

theorem addc_semantics:
  assumes "get_op ci (i_src1 ci) s = Inr a" "get_op ci (i_src2 ci) s = Inr b"
    and "i_dest ci = PGpr d" "d < length (gpr s)" "m_status s AND SR_OVE = 0"
  defines "c \<equiv> of_bool (m_status s AND SR_CY \<noteq> 0) :: nat"
  shows "execute_orbis32_addc h ci s =
    Inr (s\<lparr>gpr := (gpr s)[d := a + b + of_nat c],
           m_status := flagged (2 ^ 32 \<le> unat a + unat b + c \<and> \<not> (c = 1 \<and> b = -1))
             (sint a + sint b + int c < - (2 ^ 31) \<or> 2 ^ 31 \<le> sint a + sint b + int c) (m_status s)\<rparr>)"
proof (cases "m_status s AND SR_CY = 0")
  case True
  then show ?thesis
    using assms(1-5) unfolding execute_orbis32_addc_def Let_def c_def
    by (simp add: with_srcs_eq set_dest_eq set_flags add_overflows_iff carry_iff)
next
  case False
  then show ?thesis
    using assms(1-5) unfolding execute_orbis32_addc_def Let_def c_def
    by (simp add: with_srcs_eq set_dest_eq set_flags addc_overflows_iff carry_in_iff)
qed

section \<open>Multiplication, division and shifts\<close>

lemma sint_scast_u64: "sint (scast (a :: u32) :: u64) = sint a"
  using sint32_bounds[of a] by (simp only: signed_scast_eq) (intro signed_take_bit_int_eq_self, auto)

lemma sint_product: "sint (scast a * scast b :: u64) = sint a * sint b" for a b :: u32
proof -
  have "\<bar>sint a\<bar> \<le> 2 ^ 31" "\<bar>sint b\<bar> \<le> 2 ^ 31"
    using sint32_bounds[of a] sint32_bounds[of b] by auto
  then have "\<bar>sint a * sint b\<bar> \<le> 2 ^ 31 * 2 ^ 31"
    unfolding abs_mult by (intro mult_mono) auto
  then have "signed_take_bit 63 (sint a * sint b) = sint a * sint b"
    by (intro signed_take_bit_int_eq_self) auto
  then show ?thesis by (simp add: sint_word_ariths(3) sint_scast_u64)
qed

lemma word_of_int_sint_u64: "(word_of_int (sint (x :: u64)) :: u32) = ucast x"
  by (rule bit_word_eqI) (auto simp: bit_simps)

text \<open>Multiplication. \<^verbatim>\<open>l.mul\<close> stores the low word of the product, sets the overflow flag exactly
  when the signed product does not fit 32 bits, changes nothing else, and then raises the range
  exception if the overflow is enabled to do so.\<close>

theorem mul_semantics:
  assumes "get_op ci (i_src1 ci) s = Inr a" "get_op ci (i_src2 ci) s = Inr b"
    and "i_dest ci = PGpr d" "d < length (gpr s)"
  defines "overflow \<equiv> sint a * sint b < - (2 ^ 31) \<or> 2 ^ 31 \<le> sint a * sint b"
  shows "execute_orbis32_mul h ci s =
    (let s' = s\<lparr>gpr := (gpr s)[d := a * b],
                m_status := flagged (bit (m_status s) 10) overflow (m_status s)\<rparr>
     in if overflow then range_exception AE_OVMULE s' else Inr s')"
proof -
  have p: "(ucast (scast a * scast b :: u64) :: u32) = a * b"
  proof -
    have "(ucast (scast a * scast b :: u64) :: u32) = word_of_int (sint a * sint b)"
      by (simp only: word_of_int_sint_u64[symmetric] sint_product)
    then show ?thesis by simp
  qed
  have f: "flagged (bit st 10) q st = (if q then (st AND NOT SR_OV) OR SR_OV else st AND NOT SR_OV)" for q st
    by (rule bit_word_eqI) (auto simp: bit_flagged bit_simps bit_SR)
  have "exceeds_s32 (scast a * scast b) = overflow"
    by (auto simp: exceeds_s32_def sint_product overflow_def)
  with assms(1-4) show ?thesis unfolding execute_orbis32_mul_def Let_def
    by (simp add: with_srcs_eq set_dest_eq p f flag_when_def status_or_def status_clear_def)
qed

lemma sint32_sdiv:
  assumes "\<not> (sint (a :: u32) = - 2147483648 \<and> sint (b :: u32) = -1)"
  shows "sint (word_of_int (sint a sdiv sint b) :: u32) = sint a sdiv sint b"
proof -
  have abs: "\<bar>sint a sdiv sint b\<bar> \<le> \<bar>sint a\<bar>"
    using sdiv_int_range[of "sint a" "sint b"] by auto
  have "sint a sdiv sint b \<noteq> 2147483648"
  proof
    assume q: "sint a sdiv sint b = 2147483648"
    then have a: "sint a = - 2147483648" using abs sint32_bounds[of a] by auto
    with q int_sdiv_negated_is_minus1[of "sint a" "sint b"] assms show False by simp
  qed
  then show ?thesis
    using abs sint32_bounds[of a] by (subst sint32_of_int) auto
qed

text \<open>Signed division. For a non-zero divisor, and unless the smallest integer is divided by
  minus one, \<^verbatim>\<open>l.div\<close> clears the overflow flag and stores the quotient rounded towards zero: what is
  left is smaller than the divisor and has the sign of the dividend.\<close>

theorem div_semantics:
  assumes "get_op ci (i_src1 ci) s = Inr a" "get_op ci (i_src2 ci) s = Inr b"
    and "i_dest ci = PGpr d" "d < length (gpr s)"
    and "b \<noteq> 0" "\<not> (sint a = - (2 ^ 31) \<and> sint b = -1)"
  shows "\<exists>q r. execute_orbis32_div h ci s = Inr ((status_clear SR_OV s)\<lparr>gpr := (gpr s)[d := q]\<rparr>) \<and>
    sint a = sint q * sint b + r \<and> \<bar>r\<bar> < \<bar>sint b\<bar> \<and> (r = 0 \<or> sgn r = sgn (sint a))"
proof -
  let ?q = "word_of_int (sint a sdiv sint b) :: u32"
  have e: "execute_orbis32_div h ci s = Inr ((status_clear SR_OV s)\<lparr>gpr := (gpr s)[d := ?q]\<rparr>)"
    using assms
    by (simp add: execute_orbis32_div_def with_srcs_eq set_dest_eq status_clear_def)
  have q: "sint ?q = sint a sdiv sint b"
    using assms(6) by (intro sint32_sdiv) auto
  have nz: "sint b \<noteq> 0" using assms(5) by (metis signed_0 signed_word_eqI)
  have r: "sint a = (sint a sdiv sint b) * sint b + sint a smod sint b"
    by (simp add: sdiv_mult_smod_eq)
  have "\<bar>sint a smod sint b\<bar> < \<bar>sint b\<bar>"
    using nz by (auto simp: smod_int_alt_def abs_mult sgn_if)
  moreover have "sint a smod sint b = 0 \<or> sgn (sint a smod sint b) = sgn (sint a)"
  proof (cases "\<bar>sint a\<bar> mod \<bar>sint b\<bar> = 0")
    case m: False
    have "0 \<le> \<bar>sint a\<bar> mod \<bar>sint b\<bar>" using nz by simp
    with m have "sgn (\<bar>sint a\<bar> mod \<bar>sint b\<bar>) = 1" by simp
    then show ?thesis by (simp add: smod_int_alt_def sgn_mult)
  qed (simp add: smod_int_alt_def)
  ultimately show ?thesis
    using r q e by (intro exI[of _ ?q] exI[of _ "sint a smod sint b"]) auto
qed

text \<open>C15: Arithmetic right shift. The shift that \<^verbatim>\<open>l.sra\<close> composes of a logical shift and a sign
  extension divides the signed operand by a power of two, rounding down, for every shift amount.\<close>

theorem sra_semantics:
  assumes "get_op ci (i_src1 ci) s = Inr a" "get_op ci (i_src2 ci) s = Inr b"
    and "i_dest ci = PGpr d" "d < length (gpr s)"
  shows "\<exists>v. execute_orbis32_sra h ci s = Inr (s\<lparr>gpr := (gpr s)[d := v]\<rparr>) \<and>
    sint v = sint a div 2 ^ (unat b mod 32)"
proof -
  define k where "k = shift_amount b"
  have kb: "k = unat b mod 32"
    by (simp only: k_def shift_amount_def and_low_mask unsigned_take_bit_eq) (simp add: take_bit_eq_mod)
  then have k: "k < 32" by simp
  have "sint (sign_extend32 (drop_bit k a) (31 - k)) = drop_bit k (sint a)"
  proof (rule bit_eqI)
    fix n
    have "sint (sign_extend32 (drop_bit k a) (31 - k)) = signed_take_bit (31 - k) (uint (drop_bit k a))"
      using k by (intro sint_sign_extend32) simp
    then show "bit (sint (sign_extend32 (drop_bit k a) (31 - k))) n = bit (drop_bit k (sint a)) n"
      using k by (auto simp: bit_simps min_def not_le)
  qed
  then show ?thesis
    using assms unfolding kb[symmetric]
    by (intro exI[of _ "sign_extend32 (drop_bit k a) (31 - k)"])
      (simp add: execute_orbis32_sra_def with_srcs_eq set_dest_eq drop_bit_eq_div flip: k_def)
qed

lemma ffs32_zero: "ffs32 0 = 0"
  by (rule ffs32_cases[of 0]) auto

lemma fls32_zero: "fls32 0 = 0"
  unfolding fls32_def by (rule fls32_loop_cases[of 0 32]) auto

text \<open>First and last set bit. For a non-zero operand \<^verbatim>\<open>l.ff1\<close> and \<^verbatim>\<open>l.fl1\<close> store one plus the index
  of its lowest and its highest set bit, and zero otherwise.\<close>

theorem find_bit_semantics:
  assumes "get_op ci (i_src1 ci) s = Inr a" "i_dest ci = PGpr d" "d < length (gpr s)"
  shows "\<exists>lo hi. execute_orbis32_ff1 h ci s = Inr (s\<lparr>gpr := (gpr s)[d := of_nat lo]\<rparr>) \<and>
    execute_orbis32_fl1 h ci s = Inr (s\<lparr>gpr := (gpr s)[d := of_nat hi]\<rparr>) \<and>
    (if a = 0 then lo = 0 \<and> hi = 0
     else 1 \<le> lo \<and> lo \<le> hi \<and> hi \<le> 32 \<and> bit a (lo - 1) \<and> bit a (hi - 1) \<and>
       (\<forall>n. bit a n \<longrightarrow> lo - 1 \<le> n \<and> n \<le> hi - 1))"
proof (cases "a = 0")
  case True
  then show ?thesis
    using assms by (intro exI[of _ 0])
      (simp add: execute_orbis32_ff1_def execute_orbis32_fl1_def with_src1_eq set_dest_eq
        ffs32_zero fls32_zero)
next
  case False
  then obtain n where "n < 32" "bit a n" using bit_word_eqI[of a 0] by auto
  obtain i where i: "i < 32" "bit a i" "\<And>j. j < i \<Longrightarrow> \<not> bit a j" "ffs32 a = of_nat (i + 1)"
    using False ffs32_cases[of a] by metis
  obtain j where j: "j < 32" "bit a j" "\<And>k. j < k \<Longrightarrow> k < 32 \<Longrightarrow> \<not> bit a k" "fls32 a = of_nat (j + 1)"
    using fls32_loop_cases[of a 32] \<open>n < 32\<close> \<open>bit a n\<close> by (metis fls32_def)
  have ij: "bit a n \<longrightarrow> i \<le> n \<and> n \<le> j" for n
  proof
    assume n: "bit a n"
    then have "n < 32" using bit_imp_le_length[of a n] by simp
    with n i(3)[of n] j(3)[of n] show "i \<le> n \<and> n \<le> j" by (meson not_le)
  qed
  have "i \<le> j" using ij[of i] i(2) by simp
  then have "1 \<le> i + 1 \<and> i + 1 \<le> j + 1 \<and> j + 1 \<le> 32 \<and> bit a (i + 1 - 1) \<and> bit a (j + 1 - 1) \<and>
      (\<forall>n. bit a n \<longrightarrow> i + 1 - 1 \<le> n \<and> n \<le> j + 1 - 1)"
    using i(1,2) j(1,2) ij by (simp only: add_diff_cancel_right') simp
  moreover have "execute_orbis32_ff1 h ci s = Inr (s\<lparr>gpr := (gpr s)[d := of_nat (i + 1)]\<rparr>)"
    using assms by (simp only: execute_orbis32_ff1_def with_src1_eq set_dest_eq i(4))
  moreover have "execute_orbis32_fl1 h ci s = Inr (s\<lparr>gpr := (gpr s)[d := of_nat (j + 1)]\<rparr>)"
    using assms by (simp only: execute_orbis32_fl1_def with_src1_eq set_dest_eq j(4))
  ultimately show ?thesis unfolding if_not_P[OF False] by blast
qed

text \<open>The rotation shifts left by one place too few; an amount of zero already changes the operand.\<close>

lemma ror_by_zero:
  "get_op ci (i_src1 ci) s = Inr 1 \<Longrightarrow> get_op ci (i_src2 ci) s = Inr 0 \<Longrightarrow>
   execute_orbis32_ror h ci s = set_dest ci 0x80000001 s"
  by (simp add: execute_orbis32_ror_def with_srcs_eq shift_amount_def)

lemma div_min_traps:
  "get_op ci (i_src1 ci) s = Inr 0x80000000 \<Longrightarrow> get_op ci (i_src2 ci) s = Inr 0xffffffff \<Longrightarrow>
   execute_orbis32_div h ci s = Inl Host_fault"
  by (simp add: execute_orbis32_div_def with_srcs_eq)

section \<open>Instances\<close>

text \<open>Register 1 and an immediate are the operands, register 3 the destination.\<close>

definition demo_insn :: "u32 \<Rightarrow> instruction" where
  "demo_insn imm = zero_insn\<lparr>i_dest := PGpr 3, i_src1 := PGpr 1, i_src2 := PImm, i_imm := imm\<rparr>"

definition demo_regs :: "u32 \<Rightarrow> or1k" where
  "demo_regs a = demo_core\<lparr>gpr := (replicate 32 0)[1 := a]\<rparr>"

lemma demo_operands:
  "get_op (demo_insn imm) (i_src1 (demo_insn imm)) (demo_regs a) = Inr a"
  "get_op (demo_insn imm) (i_src2 (demo_insn imm)) (demo_regs a) = Inr imm"
  "i_dest (demo_insn imm) = PGpr 3" "3 < length (gpr (demo_regs a))"
  "m_status (demo_regs a) AND SR_OVE = 0"
  by (simp_all add: demo_insn_def demo_regs_def demo_core_fields SR_OVE_zero bit_or_iff bit_SR)

lemma demo_no_carry: "m_status (demo_regs a) AND SR_CY = 0"
  using and_push_bit_one[of "m_status (demo_regs a)" 10]
  unfolding SR_CY_def[symmetric] by (simp add: demo_regs_def demo_core_fields bit_or_iff bit_SR)

lemma demo_regs_gpr: "gpr (demo_regs a) = (replicate 32 0)[1 := a]"
  by (simp add: demo_regs_def)

theorem add_semantics_witness:
  "\<exists>s'. execute_orbis32_add demo_host (demo_insn 1) (demo_regs 0x7fffffff) = Inr s' \<and>
     gpr s' ! 3 = 0x80000000 \<and> bit (m_status s') 11 \<and> \<not> bit (m_status s') 10"
  using add_semantics[OF demo_operands(1-4), of demo_host 1 "0x7fffffff"]
  by (simp add: range_exception_def flagged_OVE demo_operands(5) demo_regs_gpr bit_flagged Let_def)

theorem sub_semantics_witness:
  "\<exists>s'. execute_orbis32_sub demo_host (demo_insn 7) (demo_regs 5) = Inr s' \<and>
     gpr s' ! 3 = 0xfffffffe \<and> bit (m_status s') 10 \<and> \<not> bit (m_status s') 11"
  using sub_semantics[OF demo_operands, of demo_host 7 5]
  by (simp add: demo_regs_gpr bit_flagged)

theorem addc_semantics_witness:
  "\<exists>s'. execute_orbis32_addc demo_host (demo_insn 0xffffffff) (demo_regs 5) = Inr s' \<and>
     gpr s' ! 3 = 4 \<and> bit (m_status s') 10"
  using addc_semantics[OF demo_operands, of demo_host "0xffffffff" 5]
  by (simp add: demo_no_carry demo_regs_gpr bit_flagged)

theorem mul_semantics_witness:
  "\<exists>s'. execute_orbis32_mul demo_host (demo_insn 0x10000) (demo_regs 0x10000) = Inr s' \<and>
     gpr s' ! 3 = 0 \<and> bit (m_status s') 11"
  using mul_semantics[OF demo_operands(1-4), of demo_host "0x10000" "0x10000"]
  by (simp add: range_exception_def flagged_OVE demo_operands(5) demo_regs_gpr bit_flagged Let_def)

theorem div_semantics_witness:
  "\<exists>q r. execute_orbis32_div demo_host (demo_insn 2) (demo_regs 0xfffffff9) =
       Inr ((status_clear SR_OV (demo_regs 0xfffffff9))\<lparr>gpr := (gpr (demo_regs 0xfffffff9))[3 := q]\<rparr>) \<and>
     - 7 = sint q * 2 + r \<and> \<bar>r\<bar> < 2 \<and> (r = 0 \<or> sgn r = - 1)"
  using div_semantics[OF demo_operands(1-4), of 2 "0xfffffff9" demo_host] by simp

theorem sra_semantics_witness:
  "\<exists>v. execute_orbis32_sra demo_host (demo_insn 33) (demo_regs 0xfffffff9) =
       Inr ((demo_regs 0xfffffff9)\<lparr>gpr := (gpr (demo_regs 0xfffffff9))[3 := v]\<rparr>) \<and> sint v = - 4"
  using sra_semantics[OF demo_operands(1-4), of demo_host 33 "0xfffffff9"] by simp

theorem find_bit_semantics_witness:
  "\<exists>lo hi. execute_orbis32_ff1 demo_host (demo_insn 0) (demo_regs 0x18) =
       Inr ((demo_regs 0x18)\<lparr>gpr := (gpr (demo_regs 0x18))[3 := of_nat lo]\<rparr>) \<and>
     execute_orbis32_fl1 demo_host (demo_insn 0) (demo_regs 0x18) =
       Inr ((demo_regs 0x18)\<lparr>gpr := (gpr (demo_regs 0x18))[3 := of_nat hi]\<rparr>) \<and>
     bit (0x18 :: u32) (lo - 1) \<and> bit (0x18 :: u32) (hi - 1)"
  using find_bit_semantics[OF demo_operands(1,3,4), of demo_host 0 "0x18"] by auto

end
