(* ===== verification/Execute_Fp.thy ===== *)
theory Execute_Fp
  imports Execute
begin

text \<open>
  The execute functions of the floating-point instructions (\<^verbatim>\<open>src/or1kiss/execute.cpp\<close>) with the
  handling of rounding and flags (inline functions of \<^verbatim>\<open>include/or1kiss/or1k.h\<close>), and the table of
  all execute functions. Arithmetic is the parameter \<open>h_fpu\<close>; comparison and classification are
  defined on the bit patterns. A double precision operand is a pair of registers, the first of which
  holds the low word.
\<close>

section \<open>Floating-point numbers as bit patterns\<close>

definition f32_magnitude :: "u32 \<Rightarrow> u32" where "f32_magnitude x = x AND 0x7fffffff"
definition f32_isnan :: "u32 \<Rightarrow> bool" where "f32_isnan x \<longleftrightarrow> 0x7f800000 < f32_magnitude x"
definition f32_isinf :: "u32 \<Rightarrow> bool" where "f32_isinf x \<longleftrightarrow> f32_magnitude x = 0x7f800000"
definition f32_iszero :: "u32 \<Rightarrow> bool" where "f32_iszero x \<longleftrightarrow> f32_magnitude x = 0"

definition f64_magnitude :: "u64 \<Rightarrow> u64" where "f64_magnitude x = x AND 0x7fffffffffffffff"
definition f64_isnan :: "u64 \<Rightarrow> bool" where "f64_isnan x \<longleftrightarrow> 0x7ff0000000000000 < f64_magnitude x"
definition f64_isinf :: "u64 \<Rightarrow> bool" where "f64_isinf x \<longleftrightarrow> f64_magnitude x = 0x7ff0000000000000"
definition f64_iszero :: "u64 \<Rightarrow> bool" where "f64_iszero x \<longleftrightarrow> f64_magnitude x = 0"

text \<open>The numbers in their order; both zeros are 0.\<close>

definition f32_key :: "u32 \<Rightarrow> int" where
  "f32_key x = (if bit x 31 then - uint (f32_magnitude x) else uint (f32_magnitude x))"

definition f64_key :: "u64 \<Rightarrow> int" where
  "f64_key x = (if bit x 63 then - uint (f64_magnitude x) else uint (f64_magnitude x))"

text \<open>The six comparison operators on keys, \<open>u\<close> telling that an operand is not a number.\<close>

fun fp_compare :: "fpx_exec \<Rightarrow> bool \<Rightarrow> int \<Rightarrow> int \<Rightarrow> bool" where
  "fp_compare F_sfeq u a b \<longleftrightarrow> \<not> u \<and> a = b"
| "fp_compare F_sfne u a b \<longleftrightarrow> u \<or> a \<noteq> b"
| "fp_compare F_sfgt u a b \<longleftrightarrow> \<not> u \<and> b < a"
| "fp_compare F_sfge u a b \<longleftrightarrow> \<not> u \<and> b \<le> a"
| "fp_compare F_sflt u a b \<longleftrightarrow> \<not> u \<and> a < b"
| "fp_compare F_sfle u a b \<longleftrightarrow> \<not> u \<and> a \<le> b"
| "fp_compare _ u a b \<longleftrightarrow> False"

definition f32_compare :: "fpx_exec \<Rightarrow> u32 \<Rightarrow> u32 \<Rightarrow> bool" where
  "f32_compare op a b = fp_compare op (f32_isnan a \<or> f32_isnan b) (f32_key a) (f32_key b)"

definition f64_compare :: "fpx_exec \<Rightarrow> u64 \<Rightarrow> u64 \<Rightarrow> bool" where
  "f64_compare op a b = fp_compare op (f64_isnan a \<or> f64_isnan b) (f64_key a) (f64_key b)"

section \<open>Rounding mode and flags\<close>

definition set_round :: "fe_round \<Rightarrow> or1k \<Rightarrow> or1k" where
  "set_round r s = s\<lparr>g_fenv := (g_fenv s)\<lparr>fe_mode := r\<rparr>\<rparr>"

definition setup_fp_round_mode :: "or1k \<Rightarrow> or1k res" where
  "setup_fp_round_mode s0 =
     (let s = s0\<lparr>m_fp_round_mode := fe_mode (g_fenv s0)\<rparr>;
          rounding_mode = m_fpcfg s AND 0x6
      in if rounding_mode = FPS_RMN then Inr (set_round FE_TONEAREST s)
         else if rounding_mode = FPS_RMZ then Inr (set_round FE_TOWARDZERO s)
         else if rounding_mode = FPS_RMU then Inr (set_round FE_UPWARD s)
         else if rounding_mode = FPS_RMD then Inr (set_round FE_DOWNWARD s)
         else Inl (Unknown_rounding_mode rounding_mode))"

definition reset_fp_round_mode :: "or1k \<Rightarrow> or1k" where
  "reset_fp_round_mode s = set_round (m_fp_round_mode s) s"

text \<open>\<open>if (c) { m_fpcfg |= flag; if (m_fpcfg & FPS_FPEE) exception(EX_FP); }\<close>\<close>

definition fp_flag :: "bool \<Rightarrow> u32 \<Rightarrow> or1k \<Rightarrow> or1k res" where
  "fp_flag c flag s0 =
     (if c
      then let s = s0\<lparr>m_fpcfg := m_fpcfg s0 OR flag\<rparr>
           in if m_fpcfg s AND FPS_FPEE \<noteq> 0 then exception EX_FP 0 s else Inr s
      else Inr s0)"

definition fp_flags :: "bool \<Rightarrow> bool \<Rightarrow> bool \<Rightarrow> or1k \<Rightarrow> or1k res" where
  "fp_flags rzero rinf rnan s0 =
     (let s = s0\<lparr>m_fpcfg := m_fpcfg s0 AND
                   NOT (FPS_ZF OR FPS_INF OR FPS_QNF OR FPS_OV OR FPS_UNF OR FPS_DZF)\<rparr>
      in bindE (fp_flag rzero FPS_ZF s) (\<lambda>s.
         bindE (fp_flag rinf FPS_INF s) (\<lambda>s.
         bindE (fp_flag rnan FPS_QNF s) (\<lambda>s.
         bindE (fp_flag (fe_overflow (g_fenv s)) FPS_OV s) (\<lambda>s.
         bindE (fp_flag (fe_underflow (g_fenv s)) FPS_UNF s) (\<lambda>s.
         fp_flag (fe_divbyzero (g_fenv s)) FPS_DZF s))))))"

definition reset_fp_flags32 :: "u32 \<Rightarrow> or1k \<Rightarrow> or1k res" where
  "reset_fp_flags32 result = fp_flags (f32_iszero result) (f32_isinf result) (f32_isnan result)"

definition reset_fp_flags64 :: "u64 \<Rightarrow> or1k \<Rightarrow> or1k res" where
  "reset_fp_flags64 result = fp_flags (f64_iszero result) (f64_isinf result) (f64_isnan result)"

text \<open>
  One operation of the host's floating-point unit in its current rounding direction. The flags of
  the host are sticky and nothing in the sources clears them.
\<close>

definition raise_flags :: "fpu_result \<Rightarrow> or1k \<Rightarrow> or1k" where
  "raise_flags r s =
     s\<lparr>g_fenv := (g_fenv s)\<lparr>fe_overflow := fe_overflow (g_fenv s) \<or> fr_overflow r,
                           fe_underflow := fe_underflow (g_fenv s) \<or> fr_underflow r,
                           fe_divbyzero := fe_divbyzero (g_fenv s) \<or> fr_divbyzero r\<rparr>\<rparr>"

definition float_op :: "host \<Rightarrow> fpx_exec \<Rightarrow> u32 \<Rightarrow> u32 \<Rightarrow> or1k \<Rightarrow> u32 \<times> or1k" where
  "float_op h op a b s =
     (let r = fpu_single (h_fpu h) op (fe_mode (g_fenv s)) a b in (ucast (fr_bits r), raise_flags r s))"

definition double_op :: "host \<Rightarrow> fpx_exec \<Rightarrow> u64 \<Rightarrow> u64 \<Rightarrow> or1k \<Rightarrow> u64 \<times> or1k" where
  "double_op h op a b s =
     (let r = fpu_double (h_fpu h) op (fe_mode (g_fenv s)) a b in (fr_bits r, raise_flags r s))"

section \<open>Single precision\<close>

definition float_binary :: "fpx_exec \<Rightarrow> host \<Rightarrow> instruction \<Rightarrow> or1k \<Rightarrow> or1k res" where
  "float_binary op h ci s =
     bindE (setup_fp_round_mode s)
       (with_srcs ci (\<lambda>src1 src2 s.
          let (result, s) = float_op h op src1 src2 s
          in bindE (set_dest ci result s) (\<lambda>s. reset_fp_flags32 result (reset_fp_round_mode s))))"

definition float_compare :: "fpx_exec \<Rightarrow> host \<Rightarrow> instruction \<Rightarrow> or1k \<Rightarrow> or1k res" where
  "float_compare op h ci = with_srcs ci (\<lambda>a b s. Inr (set_flag (f32_compare op a b) s))"

definition execute_orfpx32_add :: "host \<Rightarrow> instruction \<Rightarrow> or1k \<Rightarrow> or1k res" where
  "execute_orfpx32_add h ci = float_binary F_add h ci"

definition execute_orfpx32_sub :: "host \<Rightarrow> instruction \<Rightarrow> or1k \<Rightarrow> or1k res" where
  "execute_orfpx32_sub h ci = float_binary F_sub h ci"

definition execute_orfpx32_mul :: "host \<Rightarrow> instruction \<Rightarrow> or1k \<Rightarrow> or1k res" where
  "execute_orfpx32_mul h ci = float_binary F_mul h ci"

definition execute_orfpx32_div :: "host \<Rightarrow> instruction \<Rightarrow> or1k \<Rightarrow> or1k res" where
  "execute_orfpx32_div h ci = float_binary F_div h ci"

definition execute_orfpx32_rem :: "host \<Rightarrow> instruction \<Rightarrow> or1k \<Rightarrow> or1k res" where
  "execute_orfpx32_rem h ci = float_binary F_rem h ci"

text \<open>The accumulator is a float in the low word of \<^verbatim>\<open>m_fmac\<close>, to which the sum of the sources is added.\<close>

definition execute_orfpx32_madd :: "host \<Rightarrow> instruction \<Rightarrow> or1k \<Rightarrow> or1k res" where
  "execute_orfpx32_madd h ci s =
     bindE (setup_fp_round_mode s)
       (with_srcs ci (\<lambda>src1 src2 s.
          let (t, s) = float_op h F_add src1 src2 s;
              (result, s) = float_op h F_add (lo (m_fmac s)) t s
          in reset_fp_flags32 result
               (reset_fp_round_mode (s\<lparr>m_fmac := (m_fmac s)\<lparr>lo := result\<rparr>\<rparr>))))"

definition execute_orfpx32_itof :: "host \<Rightarrow> instruction \<Rightarrow> or1k \<Rightarrow> or1k res" where
  "execute_orfpx32_itof h ci = with_src1 ci (\<lambda>a s.
     let (d, s) = float_op h F_itof a 0 s in set_dest ci d s)"

definition execute_orfpx32_ftoi :: "host \<Rightarrow> instruction \<Rightarrow> or1k \<Rightarrow> or1k res" where
  "execute_orfpx32_ftoi h ci = with_src1 ci (\<lambda>a s.
     let (d, s) = float_op h F_ftoi a 0 s in set_dest ci d s)"

definition execute_orfpx32_sfeq :: "host \<Rightarrow> instruction \<Rightarrow> or1k \<Rightarrow> or1k res" where
  "execute_orfpx32_sfeq h ci = float_compare F_sfeq h ci"

definition execute_orfpx32_sfne :: "host \<Rightarrow> instruction \<Rightarrow> or1k \<Rightarrow> or1k res" where
  "execute_orfpx32_sfne h ci = float_compare F_sfne h ci"

definition execute_orfpx32_sfgt :: "host \<Rightarrow> instruction \<Rightarrow> or1k \<Rightarrow> or1k res" where
  "execute_orfpx32_sfgt h ci = float_compare F_sfgt h ci"

definition execute_orfpx32_sfge :: "host \<Rightarrow> instruction \<Rightarrow> or1k \<Rightarrow> or1k res" where
  "execute_orfpx32_sfge h ci = float_compare F_sfge h ci"

definition execute_orfpx32_sflt :: "host \<Rightarrow> instruction \<Rightarrow> or1k \<Rightarrow> or1k res" where
  "execute_orfpx32_sflt h ci = float_compare F_sflt h ci"

definition execute_orfpx32_sfle :: "host \<Rightarrow> instruction \<Rightarrow> or1k \<Rightarrow> or1k res" where
  "execute_orfpx32_sfle h ci = float_compare F_sfle h ci"

section \<open>Double precision\<close>

text \<open>Pointer arithmetic on an operand, and the union of two words and a double.\<close>

fun op_offset :: "operand \<Rightarrow> nat \<Rightarrow> operand" where
  "op_offset (PGpr n) k = PGpr (n + k)"
| "op_offset p k = (if k = 0 then p else PNull)"

definition double_bits :: "u32 \<Rightarrow> u32 \<Rightarrow> u64" where
  "double_bits hi_word lo_word = push_bit 32 (ucast lo_word) OR ucast hi_word"

definition double_hi :: "u64 \<Rightarrow> u32" where "double_hi d = ucast d"
definition double_lo :: "u64 \<Rightarrow> u32" where "double_lo d = ucast (drop_bit 32 d)"

definition reg_step :: "instruction \<Rightarrow> nat \<Rightarrow> nat" where
  "reg_step ci n = 1 + unat (bit32 (i_insn ci) n)"

definition get_double :: "instruction \<Rightarrow> operand \<Rightarrow> nat \<Rightarrow> or1k \<Rightarrow> u64 res" where
  "get_double ci p k s =
     bindE (get_op ci (op_offset p k) s) (\<lambda>h.
     bindE (get_op ci p s) (\<lambda>l. Inr (double_bits h l)))"

definition put_double :: "instruction \<Rightarrow> nat \<Rightarrow> u64 \<Rightarrow> or1k \<Rightarrow> or1k res" where
  "put_double ci k d s =
     bindE (put_op (i_dest ci) (double_lo d) s) (put_op (op_offset (i_dest ci) k) (double_hi d))"

definition with_doubles :: "instruction \<Rightarrow> (u64 \<Rightarrow> u64 \<Rightarrow> or1k \<Rightarrow> 'a res) \<Rightarrow> or1k \<Rightarrow> 'a res" where
  "with_doubles ci f s =
     bindE (get_double ci (i_src1 ci) (reg_step ci 9) s) (\<lambda>a.
     bindE (get_double ci (i_src2 ci) (reg_step ci 8) s) (\<lambda>b. f a b s))"

definition double_binary :: "fpx_exec \<Rightarrow> host \<Rightarrow> instruction \<Rightarrow> or1k \<Rightarrow> or1k res" where
  "double_binary op h ci = with_doubles ci (\<lambda>src1 src2 s.
     bindE (setup_fp_round_mode s) (\<lambda>s.
     let (result, s) = double_op h op src1 src2 s
     in bindE (put_double ci (reg_step ci 10) result s) (\<lambda>s.
        reset_fp_flags64 result (reset_fp_round_mode s))))"

definition double_compare :: "fpx_exec \<Rightarrow> host \<Rightarrow> instruction \<Rightarrow> or1k \<Rightarrow> or1k res" where
  "double_compare op h ci = with_doubles ci (\<lambda>a b s. Inr (set_flag (f64_compare op a b) s))"

definition execute_orfpx64_add :: "host \<Rightarrow> instruction \<Rightarrow> or1k \<Rightarrow> or1k res" where
  "execute_orfpx64_add h ci = double_binary F_add h ci"

definition execute_orfpx64_sub :: "host \<Rightarrow> instruction \<Rightarrow> or1k \<Rightarrow> or1k res" where
  "execute_orfpx64_sub h ci = double_binary F_sub h ci"

definition execute_orfpx64_mul :: "host \<Rightarrow> instruction \<Rightarrow> or1k \<Rightarrow> or1k res" where
  "execute_orfpx64_mul h ci = double_binary F_mul h ci"

definition execute_orfpx64_div :: "host \<Rightarrow> instruction \<Rightarrow> or1k \<Rightarrow> or1k res" where
  "execute_orfpx64_div h ci = double_binary F_div h ci"

definition execute_orfpx64_rem :: "host \<Rightarrow> instruction \<Rightarrow> or1k \<Rightarrow> or1k res" where
  "execute_orfpx64_rem h ci = double_binary F_rem h ci"

text \<open>The accumulator is replaced by the difference of the sources.\<close>

definition execute_orfpx64_madd :: "host \<Rightarrow> instruction \<Rightarrow> or1k \<Rightarrow> or1k res" where
  "execute_orfpx64_madd h ci = with_doubles ci (\<lambda>src1 src2 s.
     bindE (setup_fp_round_mode s) (\<lambda>s.
     let (result, s) = double_op h F_sub src1 src2 s
     in reset_fp_flags64 result
          (reset_fp_round_mode (s\<lparr>m_fmac := \<lparr>hi = double_hi result, lo = double_lo result\<rparr>\<rparr>))))"

text \<open>The conversions store the high word first, always next to the low one.\<close>

definition double_convert :: "fpx_exec \<Rightarrow> host \<Rightarrow> instruction \<Rightarrow> or1k \<Rightarrow> or1k res" where
  "double_convert op h ci s =
     bindE (get_double ci (i_src1 ci) (reg_step ci 9) s) (\<lambda>a.
     let (d, s) = double_op h op a 0 s
     in bindE (put_op (op_offset (i_dest ci) 1) (double_hi d) s) (put_op (i_dest ci) (double_lo d)))"

definition execute_orfpx64_itof :: "host \<Rightarrow> instruction \<Rightarrow> or1k \<Rightarrow> or1k res" where
  "execute_orfpx64_itof h ci = double_convert F_itof h ci"

definition execute_orfpx64_ftoi :: "host \<Rightarrow> instruction \<Rightarrow> or1k \<Rightarrow> or1k res" where
  "execute_orfpx64_ftoi h ci = double_convert F_ftoi h ci"

definition execute_orfpx64_sfeq :: "host \<Rightarrow> instruction \<Rightarrow> or1k \<Rightarrow> or1k res" where
  "execute_orfpx64_sfeq h ci = double_compare F_sfeq h ci"

definition execute_orfpx64_sfne :: "host \<Rightarrow> instruction \<Rightarrow> or1k \<Rightarrow> or1k res" where
  "execute_orfpx64_sfne h ci = double_compare F_sfne h ci"

definition execute_orfpx64_sfgt :: "host \<Rightarrow> instruction \<Rightarrow> or1k \<Rightarrow> or1k res" where
  "execute_orfpx64_sfgt h ci = double_compare F_sfgt h ci"

definition execute_orfpx64_sfge :: "host \<Rightarrow> instruction \<Rightarrow> or1k \<Rightarrow> or1k res" where
  "execute_orfpx64_sfge h ci = double_compare F_sfge h ci"

definition execute_orfpx64_sflt :: "host \<Rightarrow> instruction \<Rightarrow> or1k \<Rightarrow> or1k res" where
  "execute_orfpx64_sflt h ci = double_compare F_sflt h ci"

definition execute_orfpx64_sfle :: "host \<Rightarrow> instruction \<Rightarrow> or1k \<Rightarrow> or1k res" where
  "execute_orfpx64_sfle h ci = double_compare F_sfle h ci"

section \<open>Dispatch\<close>

fun exec_orfpx32 :: "fpx_exec \<Rightarrow> host \<Rightarrow> instruction \<Rightarrow> or1k \<Rightarrow> or1k res" where
  "exec_orfpx32 F_add = execute_orfpx32_add"
| "exec_orfpx32 F_sub = execute_orfpx32_sub"
| "exec_orfpx32 F_mul = execute_orfpx32_mul"
| "exec_orfpx32 F_div = execute_orfpx32_div"
| "exec_orfpx32 F_rem = execute_orfpx32_rem"
| "exec_orfpx32 F_madd = execute_orfpx32_madd"
| "exec_orfpx32 F_itof = execute_orfpx32_itof"
| "exec_orfpx32 F_ftoi = execute_orfpx32_ftoi"
| "exec_orfpx32 F_sfeq = execute_orfpx32_sfeq"
| "exec_orfpx32 F_sfne = execute_orfpx32_sfne"
| "exec_orfpx32 F_sfgt = execute_orfpx32_sfgt"
| "exec_orfpx32 F_sfge = execute_orfpx32_sfge"
| "exec_orfpx32 F_sflt = execute_orfpx32_sflt"
| "exec_orfpx32 F_sfle = execute_orfpx32_sfle"

fun exec_orfpx64 :: "fpx_exec \<Rightarrow> host \<Rightarrow> instruction \<Rightarrow> or1k \<Rightarrow> or1k res" where
  "exec_orfpx64 F_add = execute_orfpx64_add"
| "exec_orfpx64 F_sub = execute_orfpx64_sub"
| "exec_orfpx64 F_mul = execute_orfpx64_mul"
| "exec_orfpx64 F_div = execute_orfpx64_div"
| "exec_orfpx64 F_rem = execute_orfpx64_rem"
| "exec_orfpx64 F_madd = execute_orfpx64_madd"
| "exec_orfpx64 F_itof = execute_orfpx64_itof"
| "exec_orfpx64 F_ftoi = execute_orfpx64_ftoi"
| "exec_orfpx64 F_sfeq = execute_orfpx64_sfeq"
| "exec_orfpx64 F_sfne = execute_orfpx64_sfne"
| "exec_orfpx64 F_sfgt = execute_orfpx64_sfgt"
| "exec_orfpx64 F_sfge = execute_orfpx64_sfge"
| "exec_orfpx64 F_sflt = execute_orfpx64_sflt"
| "exec_orfpx64 F_sfle = execute_orfpx64_sfle"

text \<open>\<^verbatim>\<open>(this->*insn->exec)(insn)\<close>.\<close>

fun execute :: "execute_function \<Rightarrow> host \<Rightarrow> instruction \<Rightarrow> or1k \<Rightarrow> or1k res" where
  "execute X_null h ci s = Inl Host_fault"
| "execute (X_sysgrp x) h ci s = exec_sys x h ci s"
| "execute (X_jump x) h ci s = exec_jump x h ci s"
| "execute (X_mem x) h ci s = exec_mem x h ci s"
| "execute (X_alu x) h ci s = exec_alu x h ci s"
| "execute (X_muldiv x) h ci s = exec_muldiv x h ci s"
| "execute (X_compare x) h ci s = exec_compare x h ci s"
| "execute (X_macgrp x) h ci s = exec_mac x h ci s"
| "execute (X_orfpx32 x) h ci s = exec_orfpx32 x h ci s"
| "execute (X_orfpx64 x) h ci s = exec_orfpx64 x h ci s"

end
