(* ===== verification/Decode.thy ===== *)
theory Decode
  imports Bitops
begin

text \<open>
  The first stage of decoding, from instruction words to opcodes (\<^verbatim>\<open>include/or1kiss/decode.h\<close>,
  \<^verbatim>\<open>src/or1kiss/decode.cpp\<close>). The enumeration is split into the groups its comments name. A C
  \<^verbatim>\<open>switch\<close> that returns an opcode per case is a table; \<open>map_of\<close> is its dispatch.
\<close>

section \<open>Opcodes\<close>

datatype misc_opcode =
    ORBIS32_NOP | ORBIS32_MFSPR | ORBIS32_MTSPR | ORBIS32_MOVHI
datatype control_opcode =
    ORBIS32_J | ORBIS32_JR | ORBIS32_JAL | ORBIS32_JALR | ORBIS32_BF | ORBIS32_BNF
datatype memory_opcode =
    ORBIS32_LWA | ORBIS32_LWZ | ORBIS32_LWS | ORBIS32_LHZ | ORBIS32_LHS | ORBIS32_LBZ
  | ORBIS32_LBS | ORBIS32_SWA | ORBIS32_SW | ORBIS32_SH | ORBIS32_SB
datatype extend_opcode =
    ORBIS32_EXTWZ | ORBIS32_EXTWS | ORBIS32_EXTHZ | ORBIS32_EXTHS | ORBIS32_EXTBZ
  | ORBIS32_EXTBS
datatype alu_opcode =
    ORBIS32_ADD | ORBIS32_ADDC | ORBIS32_SUB | ORBIS32_AND | ORBIS32_OR | ORBIS32_XOR
  | ORBIS32_CMOV | ORBIS32_FF1 | ORBIS32_FL1 | ORBIS32_SLL | ORBIS32_SRL | ORBIS32_SRA
  | ORBIS32_ROR | ORBIS32_MUL | ORBIS32_MULU | ORBIS32_MULD | ORBIS32_MULDU | ORBIS32_DIV
  | ORBIS32_DIVU
datatype alui_opcode =
    ORBIS32_ADDI | ORBIS32_ADDIC | ORBIS32_ANDI | ORBIS32_ORI | ORBIS32_XORI | ORBIS32_MULI
  | ORBIS32_SLLI | ORBIS32_SRLI | ORBIS32_SRAI | ORBIS32_RORI
datatype compare_opcode =
    ORBIS32_SFEQ | ORBIS32_SFNE | ORBIS32_SFGTU | ORBIS32_SFGEU | ORBIS32_SFLTU
  | ORBIS32_SFLEU | ORBIS32_SFGTS | ORBIS32_SFGES | ORBIS32_SFLTS | ORBIS32_SFLES
datatype comparei_opcode =
    ORBIS32_SFEQI | ORBIS32_SFNEI | ORBIS32_SFGTUI | ORBIS32_SFGEUI | ORBIS32_SFLTUI
  | ORBIS32_SFLEUI | ORBIS32_SFGTSI | ORBIS32_SFGESI | ORBIS32_SFLTSI | ORBIS32_SFLESI
datatype mac_opcode =
    ORBIS32_MAC | ORBIS32_MACU | ORBIS32_MSB | ORBIS32_MSBU | ORBIS32_MACI | ORBIS32_MACRC
datatype system_opcode =
    ORBIS32_SYS | ORBIS32_TRAP | ORBIS32_MSYNC | ORBIS32_PSYNC | ORBIS32_CSYNC
  | ORBIS32_RFE
datatype custom_opcode =
    ORBIS32_CUST1 | ORBIS32_CUST2 | ORBIS32_CUST3 | ORBIS32_CUST4 | ORBIS32_CUST5
  | ORBIS32_CUST6 | ORBIS32_CUST7 | ORBIS32_CUST8
datatype orfpx32_opcode =
    ORFPX32_ADD | ORFPX32_CUST1 | ORFPX32_DIV | ORFPX32_FTOI | ORFPX32_ITOF | ORFPX32_MADD
  | ORFPX32_MUL | ORFPX32_REM | ORFPX32_SFEQ | ORFPX32_SFGE | ORFPX32_SFGT | ORFPX32_SFLE
  | ORFPX32_SFLT | ORFPX32_SFNE | ORFPX32_SUB
datatype orfpx64_opcode =
    ORFPX64_ADD | ORFPX64_SUB | ORFPX64_MUL | ORFPX64_DIV | ORFPX64_ITOF | ORFPX64_FTOI
  | ORFPX64_REM | ORFPX64_MADD | ORFPX64_SFEQ | ORFPX64_SFNE | ORFPX64_SFGT
  | ORFPX64_SFGE | ORFPX64_SFLT | ORFPX64_SFLE | ORFPX64_CUST1

datatype opcode =
    INVALID_OPCODE
  | O_misc misc_opcode | O_control control_opcode | O_memory memory_opcode
  | O_extend extend_opcode | O_alu alu_opcode | O_alui alui_opcode
  | O_compare compare_opcode | O_comparei comparei_opcode | O_mac mac_opcode
  | O_system system_opcode | O_custom custom_opcode | O_orfpx32 orfpx32_opcode
  | O_orfpx64 orfpx64_opcode

section \<open>Dispatch\<close>

definition or_invalid :: "opcode option \<Rightarrow> opcode" where
  "or_invalid x = (case x of None \<Rightarrow> INVALID_OPCODE | Some c \<Rightarrow> c)"

definition alu_table_0 :: "(u32 \<times> opcode) list" where
  "alu_table_0 =
     [(0x0, O_alu ORBIS32_ADD), (0x1, O_alu ORBIS32_ADDC), (0x2, O_alu ORBIS32_SUB),
      (0x3, O_alu ORBIS32_AND), (0x4, O_alu ORBIS32_OR), (0x5, O_alu ORBIS32_XOR),
      (0xe, O_alu ORBIS32_CMOV), (0xf, O_alu ORBIS32_FF1)]"

definition alu_table_3 :: "(u32 \<times> opcode) list" where
  "alu_table_3 =
     [(0x6, O_alu ORBIS32_MUL), (0x7, O_alu ORBIS32_MULD), (0x9, O_alu ORBIS32_DIV),
      (0xa, O_alu ORBIS32_DIVU), (0xb, O_alu ORBIS32_MULU), (0xc, O_alu ORBIS32_MULDU)]"

definition alu_table_9_6 :: "u32 \<Rightarrow> (u32 \<times> opcode) list" where
  "alu_table_9_6 opcode1 =
     (if opcode1 = 0x0 then [(0x8, O_alu ORBIS32_SLL), (0xc, O_extend ORBIS32_EXTHS),
                                (0xd, O_extend ORBIS32_EXTWS)]
      else if opcode1 = 0x1 then [(0x8, O_alu ORBIS32_SRL),
                                     (0xc, O_extend ORBIS32_EXTBS),
                                     (0xd, O_extend ORBIS32_EXTWZ)]
      else if opcode1 = 0x2 then [(0x8, O_alu ORBIS32_SRA),
                                     (0xc, O_extend ORBIS32_EXTHZ)]
      else if opcode1 = 0x3 then [(0x8, O_alu ORBIS32_ROR),
                                     (0xc, O_extend ORBIS32_EXTBZ)]
      else [])"

text \<open>Only the first switch falls through to the second field.\<close>

definition decode_alu :: "u32 \<Rightarrow> opcode" where
  "decode_alu insn =
     (let opcode1 = bits32 insn 9 8;
          opcode2 = bits32 insn 3 0;
          second = or_invalid (map_of (alu_table_9_6 (bits32 insn 9 6)) opcode2)
      in if opcode1 = 0x0
         then (case map_of alu_table_0 opcode2 of Some c \<Rightarrow> c | None \<Rightarrow> second)
         else if opcode1 = 0x1 then or_invalid (map_of [(0xf, O_alu ORBIS32_FL1)] opcode2)
         else if opcode1 = 0x2 then INVALID_OPCODE
         else if opcode1 = 0x3 then or_invalid (map_of alu_table_3 opcode2)
         else second)"

definition decode_util :: "u32 \<Rightarrow> opcode" where
  "decode_util insn =
     (if bits32 insn 16 0 = 0x10000 then O_mac ORBIS32_MACRC
      else if bits32 insn 16 16 = 0x0 then O_misc ORBIS32_MOVHI
      else INVALID_OPCODE)"

definition decode_shift :: "u32 \<Rightarrow> opcode" where
  "decode_shift insn =
     or_invalid (map_of
       [(0x0, O_alui ORBIS32_SLLI), (0x1, O_alui ORBIS32_SRLI), (0x2, O_alui ORBIS32_SRAI),
        (0x3, O_alui ORBIS32_RORI)]
       (bits32 insn 7 6))"

definition decode_mac :: "u32 \<Rightarrow> opcode" where
  "decode_mac insn =
     or_invalid (map_of
       [(0x1, O_mac ORBIS32_MAC), (0x2, O_mac ORBIS32_MSB), (0x3, O_mac ORBIS32_MACU),
        (0x4, O_mac ORBIS32_MSBU)]
       (insn AND 0xf))"

definition fpx_table :: "(u32 \<times> opcode) list" where
  "fpx_table =
     [(0x0, O_orfpx32 ORFPX32_ADD), (0x1, O_orfpx32 ORFPX32_SUB),
      (0x2, O_orfpx32 ORFPX32_MUL), (0x3, O_orfpx32 ORFPX32_DIV),
      (0x4, O_orfpx32 ORFPX32_ITOF), (0x5, O_orfpx32 ORFPX32_FTOI),
      (0x6, O_orfpx32 ORFPX32_REM), (0x7, O_orfpx32 ORFPX32_MADD),
      (0x8, O_orfpx32 ORFPX32_SFEQ), (0x9, O_orfpx32 ORFPX32_SFNE),
      (0xa, O_orfpx32 ORFPX32_SFGT), (0xb, O_orfpx32 ORFPX32_SFGE),
      (0xc, O_orfpx32 ORFPX32_SFLT), (0xd, O_orfpx32 ORFPX32_SFLE),
      (0x10, O_orfpx64 ORFPX64_ADD), (0x11, O_orfpx64 ORFPX64_SUB),
      (0x12, O_orfpx64 ORFPX64_MUL), (0x13, O_orfpx64 ORFPX64_DIV),
      (0x14, O_orfpx64 ORFPX64_ITOF), (0x15, O_orfpx64 ORFPX64_FTOI),
      (0x16, O_orfpx64 ORFPX64_REM), (0x17, O_orfpx64 ORFPX64_MADD),
      (0x18, O_orfpx64 ORFPX64_SFEQ), (0x19, O_orfpx64 ORFPX64_SFNE),
      (0x1a, O_orfpx64 ORFPX64_SFGT), (0x1b, O_orfpx64 ORFPX64_SFGE),
      (0x1c, O_orfpx64 ORFPX64_SFLT), (0x1d, O_orfpx64 ORFPX64_SFLE)]"

definition decode_fpx :: "u32 \<Rightarrow> opcode" where
  "decode_fpx insn =
     (let opc = insn AND 0xff
      in case map_of fpx_table opc of
           Some c \<Rightarrow> c
         | None \<Rightarrow> or_invalid (map_of
             [(0xd, O_orfpx32 ORFPX32_CUST1), (0xe, O_orfpx64 ORFPX64_CUST1)]
             (drop_bit 4 opc)))"

definition opcode6_table :: "(u32 \<times> opcode) list" where
  "opcode6_table =
     [(0x00, O_control ORBIS32_J), (0x01, O_control ORBIS32_JAL),
      (0x03, O_control ORBIS32_BNF), (0x04, O_control ORBIS32_BF),
      (0x11, O_control ORBIS32_JR), (0x12, O_control ORBIS32_JALR),
      (0x27, O_alui ORBIS32_ADDI), (0x28, O_alui ORBIS32_ADDIC),
      (0x29, O_alui ORBIS32_ANDI), (0x2a, O_alui ORBIS32_ORI), (0x2b, O_alui ORBIS32_XORI),
      (0x2c, O_alui ORBIS32_MULI), (0x1b, O_memory ORBIS32_LWA), (0x20, INVALID_OPCODE),
      (0x21, O_memory ORBIS32_LWZ), (0x22, O_memory ORBIS32_LWS),
      (0x23, O_memory ORBIS32_LBZ), (0x24, O_memory ORBIS32_LBS),
      (0x25, O_memory ORBIS32_LHZ), (0x26, O_memory ORBIS32_LHS),
      (0x33, O_memory ORBIS32_SWA), (0x34, INVALID_OPCODE), (0x35, O_memory ORBIS32_SW),
      (0x36, O_memory ORBIS32_SB), (0x37, O_memory ORBIS32_SH),
      (0x09, O_system ORBIS32_RFE), (0x2d, O_misc ORBIS32_MFSPR),
      (0x30, O_misc ORBIS32_MTSPR), (0x13, O_mac ORBIS32_MACI),
      (0x1c, O_custom ORBIS32_CUST1), (0x1d, O_custom ORBIS32_CUST2),
      (0x1e, O_custom ORBIS32_CUST3), (0x1f, O_custom ORBIS32_CUST4),
      (0x3c, O_custom ORBIS32_CUST5), (0x3d, O_custom ORBIS32_CUST6),
      (0x3e, O_custom ORBIS32_CUST7), (0x3f, O_custom ORBIS32_CUST8)]"

definition compare_table :: "(u32 \<times> opcode) list" where
  "compare_table =
     [(0x5e0, O_comparei ORBIS32_SFEQI), (0x5e1, O_comparei ORBIS32_SFNEI),
      (0x5e2, O_comparei ORBIS32_SFGTUI), (0x5e3, O_comparei ORBIS32_SFGEUI),
      (0x5e4, O_comparei ORBIS32_SFLTUI), (0x5e5, O_comparei ORBIS32_SFLEUI),
      (0x5ea, O_comparei ORBIS32_SFGTSI), (0x5eb, O_comparei ORBIS32_SFGESI),
      (0x5ec, O_comparei ORBIS32_SFLTSI), (0x5ed, O_comparei ORBIS32_SFLESI),
      (0x720, O_compare ORBIS32_SFEQ), (0x721, O_compare ORBIS32_SFNE),
      (0x722, O_compare ORBIS32_SFGTU), (0x723, O_compare ORBIS32_SFGEU),
      (0x724, O_compare ORBIS32_SFLTU), (0x725, O_compare ORBIS32_SFLEU),
      (0x72a, O_compare ORBIS32_SFGTS), (0x72b, O_compare ORBIS32_SFGES),
      (0x72c, O_compare ORBIS32_SFLTS), (0x72d, O_compare ORBIS32_SFLES)]"

definition decode :: "u32 \<Rightarrow> opcode" where
  "decode insn =
     (let opc = bits32 insn 31 26
      in if opc = 0x38 then decode_alu insn
         else if opc = 0x06 then decode_util insn
         else if opc = 0x2e then decode_shift insn
         else if opc = 0x31 then decode_mac insn
         else if opc = 0x32 then decode_fpx insn
         else case map_of opcode6_table opc of Some c \<Rightarrow> c | None \<Rightarrow>
              case map_of [(0x15, O_misc ORBIS32_NOP)] (bits32 insn 31 24) of Some c \<Rightarrow> c | None \<Rightarrow>
              case map_of compare_table (bits32 insn 31 21) of Some c \<Rightarrow> c | None \<Rightarrow>
              case map_of [(0x2000, O_system ORBIS32_SYS), (0x2100, O_system ORBIS32_TRAP)] (bits32 insn 31 16)
              of Some c \<Rightarrow> c | None \<Rightarrow>
              or_invalid (map_of
                [(0x22000000, O_system ORBIS32_MSYNC),
                 (0x23000000, O_system ORBIS32_CSYNC), (0x22800000, O_system ORBIS32_PSYNC)] insn))"

end
