(* ===== verification/Decode_Handlers.thy ===== *)
theory Decode_Handlers
  imports Insn Decode
begin

text \<open>
  The second stage of decoding (\<^verbatim>\<open>src/or1kiss/decode.cpp\<close>, the decode table set up by the constructor
  in \<^verbatim>\<open>src/or1kiss/or1k.cpp\<close>): one handler per opcode that fills in the operands and the execute
  function of a zeroed instruction. \<open>gpr_at\<close> is the pointer \<^verbatim>\<open>gpr + n\<close>. That the
  operands are those the execute function needs is shown in \<open>Typing\<close>.
\<close>

section \<open>Handlers\<close>

definition gpr_at :: "u32 \<Rightarrow> operand" where
  "gpr_at n = PGpr (unat n)"

definition decode_orbis32_mfspr :: "u32 \<Rightarrow> instruction \<Rightarrow> instruction" where
  "decode_orbis32_mfspr m_insn ci =
     (let d = bits32 m_insn 25 21;
          a = bits32 m_insn 20 16;
          k = bits32 m_insn 15 0
      in ci\<lparr>i_imm := k, i_src1 := gpr_at a, i_src2 := PImm, i_dest := gpr_at d,
             i_exec := X_sysgrp X_mfspr\<rparr>)"

definition decode_orbis32_mtspr :: "u32 \<Rightarrow> instruction \<Rightarrow> instruction" where
  "decode_orbis32_mtspr m_insn ci =
     (let a = bits32 m_insn 20 16;
          b = bits32 m_insn 15 11;
          k = push_bit 11 (bits32 m_insn 25 21) OR push_bit 0 (bits32 m_insn 10 0)
      in ci\<lparr>i_imm := k, i_src1 := gpr_at b, i_src2 := PImm, i_dest := gpr_at a,
             i_exec := X_sysgrp X_mtspr\<rparr>)"

definition decode_orbis32_movhi :: "u32 \<Rightarrow> instruction \<Rightarrow> instruction" where
  "decode_orbis32_movhi m_insn ci =
     (let d = bits32 m_insn 25 21;
          k = push_bit 16 (bits32 m_insn 15 0)
      in ci\<lparr>i_imm := k, i_dest := gpr_at d, i_exec := X_sysgrp X_movhi\<rparr>)"

definition decode_orbis32_nop :: "u32 \<Rightarrow> instruction \<Rightarrow> instruction" where
  "decode_orbis32_nop m_insn ci =
     (let k = bits32 m_insn 15 0
      in ci\<lparr>i_imm := k, i_src1 := gpr_at 3, i_exec := X_sysgrp X_nop\<rparr>)"

definition decode_orbis32_bf :: "u32 \<Rightarrow> instruction \<Rightarrow> instruction" where
  "decode_orbis32_bf m_insn ci =
     (let n = bits32 m_insn 25 0
      in ci\<lparr>i_imm := sign_extend32 (push_bit 2 n) 27, i_exec := X_jump X_bf\<rparr>)"

definition decode_orbis32_bnf :: "u32 \<Rightarrow> instruction \<Rightarrow> instruction" where
  "decode_orbis32_bnf m_insn ci =
     (let n = bits32 m_insn 25 0
      in ci\<lparr>i_imm := sign_extend32 (push_bit 2 n) 27, i_exec := X_jump X_bnf\<rparr>)"

definition decode_orbis32_j :: "u32 \<Rightarrow> instruction \<Rightarrow> instruction" where
  "decode_orbis32_j m_insn ci =
     (let n = bits32 m_insn 25 0
      in ci\<lparr>i_imm := sign_extend32 (push_bit 2 n) 27, i_src1 := PNull, i_src2 := PImm,
             i_exec := X_jump X_jump_rel\<rparr>)"

definition decode_orbis32_jr :: "u32 \<Rightarrow> instruction \<Rightarrow> instruction" where
  "decode_orbis32_jr m_insn ci =
     (let b = bits32 m_insn 15 11
      in ci\<lparr>i_src1 := PNull, i_src2 := gpr_at b, i_exec := X_jump X_jump_abs\<rparr>)"

definition decode_orbis32_jal :: "u32 \<Rightarrow> instruction \<Rightarrow> instruction" where
  "decode_orbis32_jal m_insn ci =
     (let n = bits32 m_insn 25 0
      in ci\<lparr>i_imm := sign_extend32 (push_bit 2 n) 27, i_src1 := gpr_at 9, i_src2 := PImm,
             i_exec := X_jump X_jump_rel\<rparr>)"

definition decode_orbis32_jalr :: "u32 \<Rightarrow> instruction \<Rightarrow> instruction" where
  "decode_orbis32_jalr m_insn ci =
     (let b = bits32 m_insn 15 11
      in ci\<lparr>i_src1 := gpr_at 9, i_src2 := gpr_at b, i_exec := X_jump X_jump_abs\<rparr>)"

definition decode_orbis32_lwa :: "u32 \<Rightarrow> instruction \<Rightarrow> instruction" where
  "decode_orbis32_lwa m_insn ci =
     (let d = bits32 m_insn 25 21;
          a = bits32 m_insn 20 16;
          i = bits32 m_insn 15 0
      in ci\<lparr>i_imm := sign_extend32 i 15, i_src1 := gpr_at a, i_dest := gpr_at d,
             i_exec := X_mem X_lwa\<rparr>)"

definition decode_orbis32_lwz :: "u32 \<Rightarrow> instruction \<Rightarrow> instruction" where
  "decode_orbis32_lwz m_insn ci =
     (let d = bits32 m_insn 25 21;
          a = bits32 m_insn 20 16;
          i = bits32 m_insn 15 0
      in ci\<lparr>i_imm := sign_extend32 i 15, i_src1 := gpr_at a, i_dest := gpr_at d,
             i_exec := X_mem X_lw\<rparr>)"

definition decode_orbis32_lws :: "u32 \<Rightarrow> instruction \<Rightarrow> instruction" where
  "decode_orbis32_lws m_insn ci =
     (let d = bits32 m_insn 25 21;
          a = bits32 m_insn 20 16;
          i = bits32 m_insn 15 0
      in ci\<lparr>i_imm := sign_extend32 i 15, i_src1 := gpr_at a, i_dest := gpr_at d,
             i_exec := X_mem X_lw\<rparr>)"

definition decode_orbis32_lhz :: "u32 \<Rightarrow> instruction \<Rightarrow> instruction" where
  "decode_orbis32_lhz m_insn ci =
     (let d = bits32 m_insn 25 21;
          a = bits32 m_insn 20 16;
          i = bits32 m_insn 15 0
      in ci\<lparr>i_imm := sign_extend32 i 15, i_src1 := gpr_at a, i_dest := gpr_at d,
             i_exec := X_mem X_lhz\<rparr>)"

definition decode_orbis32_lhs :: "u32 \<Rightarrow> instruction \<Rightarrow> instruction" where
  "decode_orbis32_lhs m_insn ci =
     (let d = bits32 m_insn 25 21;
          a = bits32 m_insn 20 16;
          i = bits32 m_insn 15 0
      in ci\<lparr>i_imm := sign_extend32 i 15, i_src1 := gpr_at a, i_dest := gpr_at d,
             i_exec := X_mem X_lhs\<rparr>)"

definition decode_orbis32_lbz :: "u32 \<Rightarrow> instruction \<Rightarrow> instruction" where
  "decode_orbis32_lbz m_insn ci =
     (let d = bits32 m_insn 25 21;
          a = bits32 m_insn 20 16;
          i = bits32 m_insn 15 0
      in ci\<lparr>i_imm := sign_extend32 i 15, i_src1 := gpr_at a, i_dest := gpr_at d,
             i_exec := X_mem X_lbz\<rparr>)"

definition decode_orbis32_lbs :: "u32 \<Rightarrow> instruction \<Rightarrow> instruction" where
  "decode_orbis32_lbs m_insn ci =
     (let d = bits32 m_insn 25 21;
          a = bits32 m_insn 20 16;
          i = bits32 m_insn 15 0
      in ci\<lparr>i_imm := sign_extend32 i 15, i_src1 := gpr_at a, i_dest := gpr_at d,
             i_exec := X_mem X_lbs\<rparr>)"

definition decode_orbis32_swa :: "u32 \<Rightarrow> instruction \<Rightarrow> instruction" where
  "decode_orbis32_swa m_insn ci =
     (let a = bits32 m_insn 20 16;
          b = bits32 m_insn 15 11;
          i = push_bit 11 (bits32 m_insn 25 21) OR push_bit 0 (bits32 m_insn 10 0)
      in ci\<lparr>i_imm := sign_extend32 i 15, i_src1 := gpr_at a, i_src2 := gpr_at b,
             i_exec := X_mem X_swa\<rparr>)"

definition decode_orbis32_sw :: "u32 \<Rightarrow> instruction \<Rightarrow> instruction" where
  "decode_orbis32_sw m_insn ci =
     (let a = bits32 m_insn 20 16;
          b = bits32 m_insn 15 11;
          i = push_bit 11 (bits32 m_insn 25 21) OR push_bit 0 (bits32 m_insn 10 0)
      in ci\<lparr>i_imm := sign_extend32 i 15, i_src1 := gpr_at a, i_src2 := gpr_at b,
             i_exec := X_mem X_sw\<rparr>)"

definition decode_orbis32_sh :: "u32 \<Rightarrow> instruction \<Rightarrow> instruction" where
  "decode_orbis32_sh m_insn ci =
     (let a = bits32 m_insn 20 16;
          b = bits32 m_insn 15 11;
          i = push_bit 11 (bits32 m_insn 25 21) OR push_bit 0 (bits32 m_insn 10 0)
      in ci\<lparr>i_imm := sign_extend32 i 15, i_src1 := gpr_at a, i_src2 := gpr_at b,
             i_exec := X_mem X_sh\<rparr>)"

definition decode_orbis32_sb :: "u32 \<Rightarrow> instruction \<Rightarrow> instruction" where
  "decode_orbis32_sb m_insn ci =
     (let a = bits32 m_insn 20 16;
          b = bits32 m_insn 15 11;
          i = push_bit 11 (bits32 m_insn 25 21) OR push_bit 0 (bits32 m_insn 10 0)
      in ci\<lparr>i_imm := sign_extend32 i 15, i_src1 := gpr_at a, i_src2 := gpr_at b,
             i_exec := X_mem X_sb\<rparr>)"

definition decode_orbis32_extwz :: "u32 \<Rightarrow> instruction \<Rightarrow> instruction" where
  "decode_orbis32_extwz m_insn ci =
     (let d = bits32 m_insn 25 21;
          a = bits32 m_insn 20 16
      in ci\<lparr>i_src1 := gpr_at a, i_dest := gpr_at d, i_exec := X_alu X_extw\<rparr>)"

definition decode_orbis32_extws :: "u32 \<Rightarrow> instruction \<Rightarrow> instruction" where
  "decode_orbis32_extws m_insn ci =
     (let d = bits32 m_insn 25 21;
          a = bits32 m_insn 20 16
      in ci\<lparr>i_src1 := gpr_at a, i_dest := gpr_at d, i_exec := X_alu X_extw\<rparr>)"

definition decode_orbis32_exthz :: "u32 \<Rightarrow> instruction \<Rightarrow> instruction" where
  "decode_orbis32_exthz m_insn ci =
     (let d = bits32 m_insn 25 21;
          a = bits32 m_insn 20 16
      in ci\<lparr>i_src1 := gpr_at a, i_dest := gpr_at d, i_exec := X_alu X_exthz\<rparr>)"

definition decode_orbis32_exths :: "u32 \<Rightarrow> instruction \<Rightarrow> instruction" where
  "decode_orbis32_exths m_insn ci =
     (let d = bits32 m_insn 25 21;
          a = bits32 m_insn 20 16
      in ci\<lparr>i_src1 := gpr_at a, i_dest := gpr_at d, i_exec := X_alu X_exths\<rparr>)"

definition decode_orbis32_extbz :: "u32 \<Rightarrow> instruction \<Rightarrow> instruction" where
  "decode_orbis32_extbz m_insn ci =
     (let d = bits32 m_insn 25 21;
          a = bits32 m_insn 20 16
      in ci\<lparr>i_src1 := gpr_at a, i_dest := gpr_at d, i_exec := X_alu X_extbz\<rparr>)"

definition decode_orbis32_extbs :: "u32 \<Rightarrow> instruction \<Rightarrow> instruction" where
  "decode_orbis32_extbs m_insn ci =
     (let d = bits32 m_insn 25 21;
          a = bits32 m_insn 20 16
      in ci\<lparr>i_src1 := gpr_at a, i_dest := gpr_at d, i_exec := X_alu X_extbs\<rparr>)"

definition decode_orbis32_add :: "u32 \<Rightarrow> instruction \<Rightarrow> instruction" where
  "decode_orbis32_add m_insn ci =
     (let d = bits32 m_insn 25 21;
          a = bits32 m_insn 20 16;
          b = bits32 m_insn 15 11
      in ci\<lparr>i_src1 := gpr_at a, i_src2 := gpr_at b, i_dest := gpr_at d,
             i_exec := X_alu X_add\<rparr>)"

definition decode_orbis32_addc :: "u32 \<Rightarrow> instruction \<Rightarrow> instruction" where
  "decode_orbis32_addc m_insn ci =
     (let d = bits32 m_insn 25 21;
          a = bits32 m_insn 20 16;
          b = bits32 m_insn 15 11
      in ci\<lparr>i_src1 := gpr_at a, i_src2 := gpr_at b, i_dest := gpr_at d,
             i_exec := X_alu X_addc\<rparr>)"

definition decode_orbis32_sub :: "u32 \<Rightarrow> instruction \<Rightarrow> instruction" where
  "decode_orbis32_sub m_insn ci =
     (let d = bits32 m_insn 25 21;
          a = bits32 m_insn 20 16;
          b = bits32 m_insn 15 11
      in ci\<lparr>i_src1 := gpr_at a, i_src2 := gpr_at b, i_dest := gpr_at d,
             i_exec := X_alu X_sub\<rparr>)"

definition decode_orbis32_and :: "u32 \<Rightarrow> instruction \<Rightarrow> instruction" where
  "decode_orbis32_and m_insn ci =
     (let d = bits32 m_insn 25 21;
          a = bits32 m_insn 20 16;
          b = bits32 m_insn 15 11
      in ci\<lparr>i_src1 := gpr_at a, i_src2 := gpr_at b, i_dest := gpr_at d,
             i_exec := X_alu X_and\<rparr>)"

definition decode_orbis32_or :: "u32 \<Rightarrow> instruction \<Rightarrow> instruction" where
  "decode_orbis32_or m_insn ci =
     (let d = bits32 m_insn 25 21;
          a = bits32 m_insn 20 16;
          b = bits32 m_insn 15 11
      in ci\<lparr>i_src1 := gpr_at a, i_src2 := gpr_at b, i_dest := gpr_at d,
             i_exec := X_alu X_or\<rparr>)"

definition decode_orbis32_xor :: "u32 \<Rightarrow> instruction \<Rightarrow> instruction" where
  "decode_orbis32_xor m_insn ci =
     (let d = bits32 m_insn 25 21;
          a = bits32 m_insn 20 16;
          b = bits32 m_insn 15 11
      in ci\<lparr>i_src1 := gpr_at a, i_src2 := gpr_at b, i_dest := gpr_at d,
             i_exec := X_alu X_xor\<rparr>)"

definition decode_orbis32_cmov :: "u32 \<Rightarrow> instruction \<Rightarrow> instruction" where
  "decode_orbis32_cmov m_insn ci =
     (let d = bits32 m_insn 25 21;
          a = bits32 m_insn 20 16;
          b = bits32 m_insn 15 11
      in ci\<lparr>i_src1 := gpr_at a, i_src2 := gpr_at b, i_dest := gpr_at d,
             i_exec := X_alu X_cmov\<rparr>)"

definition decode_orbis32_ff1 :: "u32 \<Rightarrow> instruction \<Rightarrow> instruction" where
  "decode_orbis32_ff1 m_insn ci =
     (let d = bits32 m_insn 25 21;
          a = bits32 m_insn 20 16
      in ci\<lparr>i_src1 := gpr_at a, i_dest := gpr_at d, i_exec := X_alu X_ff1\<rparr>)"

definition decode_orbis32_fl1 :: "u32 \<Rightarrow> instruction \<Rightarrow> instruction" where
  "decode_orbis32_fl1 m_insn ci =
     (let d = bits32 m_insn 25 21;
          a = bits32 m_insn 20 16
      in ci\<lparr>i_src1 := gpr_at a, i_dest := gpr_at d, i_exec := X_alu X_fl1\<rparr>)"

definition decode_orbis32_sll :: "u32 \<Rightarrow> instruction \<Rightarrow> instruction" where
  "decode_orbis32_sll m_insn ci =
     (let d = bits32 m_insn 25 21;
          a = bits32 m_insn 20 16;
          b = bits32 m_insn 15 11
      in ci\<lparr>i_src1 := gpr_at a, i_src2 := gpr_at b, i_dest := gpr_at d,
             i_exec := X_alu X_sll\<rparr>)"

definition decode_orbis32_srl :: "u32 \<Rightarrow> instruction \<Rightarrow> instruction" where
  "decode_orbis32_srl m_insn ci =
     (let d = bits32 m_insn 25 21;
          a = bits32 m_insn 20 16;
          b = bits32 m_insn 15 11
      in ci\<lparr>i_src1 := gpr_at a, i_src2 := gpr_at b, i_dest := gpr_at d,
             i_exec := X_alu X_srl\<rparr>)"

definition decode_orbis32_sra :: "u32 \<Rightarrow> instruction \<Rightarrow> instruction" where
  "decode_orbis32_sra m_insn ci =
     (let d = bits32 m_insn 25 21;
          a = bits32 m_insn 20 16;
          b = bits32 m_insn 15 11
      in ci\<lparr>i_src1 := gpr_at a, i_src2 := gpr_at b, i_dest := gpr_at d,
             i_exec := X_alu X_sra\<rparr>)"

definition decode_orbis32_ror :: "u32 \<Rightarrow> instruction \<Rightarrow> instruction" where
  "decode_orbis32_ror m_insn ci =
     (let d = bits32 m_insn 25 21;
          a = bits32 m_insn 20 16;
          b = bits32 m_insn 15 11
      in ci\<lparr>i_src1 := gpr_at a, i_src2 := gpr_at b, i_dest := gpr_at d,
             i_exec := X_alu X_ror\<rparr>)"

definition decode_orbis32_mul :: "u32 \<Rightarrow> instruction \<Rightarrow> instruction" where
  "decode_orbis32_mul m_insn ci =
     (let d = bits32 m_insn 25 21;
          a = bits32 m_insn 20 16;
          b = bits32 m_insn 15 11
      in ci\<lparr>i_src1 := gpr_at a, i_src2 := gpr_at b, i_dest := gpr_at d,
             i_exec := X_muldiv X_mul\<rparr>)"

definition decode_orbis32_mulu :: "u32 \<Rightarrow> instruction \<Rightarrow> instruction" where
  "decode_orbis32_mulu m_insn ci =
     (let d = bits32 m_insn 25 21;
          a = bits32 m_insn 20 16;
          b = bits32 m_insn 15 11
      in ci\<lparr>i_src1 := gpr_at a, i_src2 := gpr_at b, i_dest := gpr_at d,
             i_exec := X_muldiv X_mulu\<rparr>)"

definition decode_orbis32_muld :: "u32 \<Rightarrow> instruction \<Rightarrow> instruction" where
  "decode_orbis32_muld m_insn ci =
     (let a = bits32 m_insn 20 16;
          b = bits32 m_insn 15 11
      in ci\<lparr>i_src1 := gpr_at a, i_src2 := gpr_at b, i_exec := X_muldiv X_muld\<rparr>)"

definition decode_orbis32_muldu :: "u32 \<Rightarrow> instruction \<Rightarrow> instruction" where
  "decode_orbis32_muldu m_insn ci =
     (let a = bits32 m_insn 20 16;
          b = bits32 m_insn 15 11
      in ci\<lparr>i_src1 := gpr_at a, i_src2 := gpr_at b, i_exec := X_muldiv X_muldu\<rparr>)"

definition decode_orbis32_div :: "u32 \<Rightarrow> instruction \<Rightarrow> instruction" where
  "decode_orbis32_div m_insn ci =
     (let d = bits32 m_insn 25 21;
          a = bits32 m_insn 20 16;
          b = bits32 m_insn 15 11
      in ci\<lparr>i_src1 := gpr_at a, i_src2 := gpr_at b, i_dest := gpr_at d,
             i_exec := X_muldiv X_div\<rparr>)"

definition decode_orbis32_divu :: "u32 \<Rightarrow> instruction \<Rightarrow> instruction" where
  "decode_orbis32_divu m_insn ci =
     (let d = bits32 m_insn 25 21;
          a = bits32 m_insn 20 16;
          b = bits32 m_insn 15 11
      in ci\<lparr>i_src1 := gpr_at a, i_src2 := gpr_at b, i_dest := gpr_at d,
             i_exec := X_muldiv X_divu\<rparr>)"

definition decode_orbis32_addi :: "u32 \<Rightarrow> instruction \<Rightarrow> instruction" where
  "decode_orbis32_addi m_insn ci =
     (let d = bits32 m_insn 25 21;
          a = bits32 m_insn 20 16;
          i = bits32 m_insn 15 0
      in ci\<lparr>i_imm := sign_extend32 i 15, i_dest := gpr_at d, i_src1 := gpr_at a,
             i_src2 := PImm, i_exec := X_alu X_add\<rparr>)"

definition decode_orbis32_addic :: "u32 \<Rightarrow> instruction \<Rightarrow> instruction" where
  "decode_orbis32_addic m_insn ci =
     (let d = bits32 m_insn 25 21;
          a = bits32 m_insn 20 16;
          m = bits32 m_insn 15 0
      in ci\<lparr>i_imm := sign_extend32 m 15, i_dest := gpr_at d, i_src1 := gpr_at a,
             i_src2 := PImm, i_exec := X_alu X_addc\<rparr>)"

definition decode_orbis32_andi :: "u32 \<Rightarrow> instruction \<Rightarrow> instruction" where
  "decode_orbis32_andi m_insn ci =
     (let d = bits32 m_insn 25 21;
          a = bits32 m_insn 20 16;
          k = bits32 m_insn 15 0
      in ci\<lparr>i_imm := k, i_dest := gpr_at d, i_src1 := gpr_at a, i_src2 := PImm,
             i_exec := X_alu X_and\<rparr>)"

definition decode_orbis32_ori :: "u32 \<Rightarrow> instruction \<Rightarrow> instruction" where
  "decode_orbis32_ori m_insn ci =
     (let d = bits32 m_insn 25 21;
          a = bits32 m_insn 20 16;
          k = bits32 m_insn 15 0
      in ci\<lparr>i_imm := k, i_dest := gpr_at d, i_src1 := gpr_at a, i_src2 := PImm,
             i_exec := X_alu X_or\<rparr>)"

definition decode_orbis32_xori :: "u32 \<Rightarrow> instruction \<Rightarrow> instruction" where
  "decode_orbis32_xori m_insn ci =
     (let d = bits32 m_insn 25 21;
          a = bits32 m_insn 20 16;
          i = bits32 m_insn 15 0
      in ci\<lparr>i_imm := sign_extend32 i 15, i_dest := gpr_at d, i_src1 := gpr_at a,
             i_src2 := PImm, i_exec := X_alu X_xor\<rparr>)"

definition decode_orbis32_rori :: "u32 \<Rightarrow> instruction \<Rightarrow> instruction" where
  "decode_orbis32_rori m_insn ci =
     (let d = bits32 m_insn 25 21;
          a = bits32 m_insn 20 16;
          l = bits32 m_insn 5 0
      in ci\<lparr>i_imm := l, i_dest := gpr_at d, i_src1 := gpr_at a, i_src2 := PImm,
             i_exec := X_alu X_ror\<rparr>)"

definition decode_orbis32_slli :: "u32 \<Rightarrow> instruction \<Rightarrow> instruction" where
  "decode_orbis32_slli m_insn ci =
     (let d = bits32 m_insn 25 21;
          a = bits32 m_insn 20 16;
          l = bits32 m_insn 5 0
      in ci\<lparr>i_imm := l, i_dest := gpr_at d, i_src1 := gpr_at a, i_src2 := PImm,
             i_exec := X_alu X_sll\<rparr>)"

definition decode_orbis32_srli :: "u32 \<Rightarrow> instruction \<Rightarrow> instruction" where
  "decode_orbis32_srli m_insn ci =
     (let d = bits32 m_insn 25 21;
          a = bits32 m_insn 20 16;
          l = bits32 m_insn 5 0
      in ci\<lparr>i_imm := l, i_dest := gpr_at d, i_src1 := gpr_at a, i_src2 := PImm,
             i_exec := X_alu X_srl\<rparr>)"

definition decode_orbis32_srai :: "u32 \<Rightarrow> instruction \<Rightarrow> instruction" where
  "decode_orbis32_srai m_insn ci =
     (let d = bits32 m_insn 25 21;
          a = bits32 m_insn 20 16;
          l = bits32 m_insn 5 0
      in ci\<lparr>i_imm := l, i_dest := gpr_at d, i_src1 := gpr_at a, i_src2 := PImm,
             i_exec := X_alu X_sra\<rparr>)"

definition decode_orbis32_muli :: "u32 \<Rightarrow> instruction \<Rightarrow> instruction" where
  "decode_orbis32_muli m_insn ci =
     (let d = bits32 m_insn 25 21;
          a = bits32 m_insn 20 16;
          i = bits32 m_insn 15 0
      in ci\<lparr>i_imm := sign_extend32 i 15, i_dest := gpr_at d, i_src1 := gpr_at a,
             i_src2 := PImm, i_exec := X_muldiv X_mul\<rparr>)"

definition decode_orbis32_sfeq :: "u32 \<Rightarrow> instruction \<Rightarrow> instruction" where
  "decode_orbis32_sfeq m_insn ci =
     (let a = bits32 m_insn 20 16;
          b = bits32 m_insn 15 11
      in ci\<lparr>i_src1 := gpr_at a, i_src2 := gpr_at b, i_exec := X_compare X_sfeq\<rparr>)"

definition decode_orbis32_sfne :: "u32 \<Rightarrow> instruction \<Rightarrow> instruction" where
  "decode_orbis32_sfne m_insn ci =
     (let a = bits32 m_insn 20 16;
          b = bits32 m_insn 15 11
      in ci\<lparr>i_src1 := gpr_at a, i_src2 := gpr_at b, i_exec := X_compare X_sfne\<rparr>)"

definition decode_orbis32_sfgtu :: "u32 \<Rightarrow> instruction \<Rightarrow> instruction" where
  "decode_orbis32_sfgtu m_insn ci =
     (let a = bits32 m_insn 20 16;
          b = bits32 m_insn 15 11
      in ci\<lparr>i_src1 := gpr_at a, i_src2 := gpr_at b, i_exec := X_compare X_sfgtu\<rparr>)"

definition decode_orbis32_sfgeu :: "u32 \<Rightarrow> instruction \<Rightarrow> instruction" where
  "decode_orbis32_sfgeu m_insn ci =
     (let a = bits32 m_insn 20 16;
          b = bits32 m_insn 15 11
      in ci\<lparr>i_src1 := gpr_at a, i_src2 := gpr_at b, i_exec := X_compare X_sfgeu\<rparr>)"

definition decode_orbis32_sfltu :: "u32 \<Rightarrow> instruction \<Rightarrow> instruction" where
  "decode_orbis32_sfltu m_insn ci =
     (let a = bits32 m_insn 20 16;
          b = bits32 m_insn 15 11
      in ci\<lparr>i_src1 := gpr_at a, i_src2 := gpr_at b, i_exec := X_compare X_sfltu\<rparr>)"

definition decode_orbis32_sfleu :: "u32 \<Rightarrow> instruction \<Rightarrow> instruction" where
  "decode_orbis32_sfleu m_insn ci =
     (let a = bits32 m_insn 20 16;
          b = bits32 m_insn 15 11
      in ci\<lparr>i_src1 := gpr_at a, i_src2 := gpr_at b, i_exec := X_compare X_sfleu\<rparr>)"

definition decode_orbis32_sfgts :: "u32 \<Rightarrow> instruction \<Rightarrow> instruction" where
  "decode_orbis32_sfgts m_insn ci =
     (let a = bits32 m_insn 20 16;
          b = bits32 m_insn 15 11
      in ci\<lparr>i_src1 := gpr_at a, i_src2 := gpr_at b, i_exec := X_compare X_sfgts\<rparr>)"

definition decode_orbis32_sfges :: "u32 \<Rightarrow> instruction \<Rightarrow> instruction" where
  "decode_orbis32_sfges m_insn ci =
     (let a = bits32 m_insn 20 16;
          b = bits32 m_insn 15 11
      in ci\<lparr>i_src1 := gpr_at a, i_src2 := gpr_at b, i_exec := X_compare X_sfges\<rparr>)"

definition decode_orbis32_sflts :: "u32 \<Rightarrow> instruction \<Rightarrow> instruction" where
  "decode_orbis32_sflts m_insn ci =
     (let a = bits32 m_insn 20 16;
          b = bits32 m_insn 15 11
      in ci\<lparr>i_src1 := gpr_at a, i_src2 := gpr_at b, i_exec := X_compare X_sflts\<rparr>)"

definition decode_orbis32_sfles :: "u32 \<Rightarrow> instruction \<Rightarrow> instruction" where
  "decode_orbis32_sfles m_insn ci =
     (let a = bits32 m_insn 20 16;
          b = bits32 m_insn 15 11
      in ci\<lparr>i_src1 := gpr_at a, i_src2 := gpr_at b, i_exec := X_compare X_sfles\<rparr>)"

definition decode_orbis32_sfeqi :: "u32 \<Rightarrow> instruction \<Rightarrow> instruction" where
  "decode_orbis32_sfeqi m_insn ci =
     (let a = bits32 m_insn 20 16;
          i = bits32 m_insn 15 0
      in ci\<lparr>i_imm := sign_extend32 i 15, i_src1 := gpr_at a, i_src2 := PImm,
             i_exec := X_compare X_sfeq\<rparr>)"

definition decode_orbis32_sfnei :: "u32 \<Rightarrow> instruction \<Rightarrow> instruction" where
  "decode_orbis32_sfnei m_insn ci =
     (let a = bits32 m_insn 20 16;
          i = bits32 m_insn 15 0
      in ci\<lparr>i_imm := sign_extend32 i 15, i_src1 := gpr_at a, i_src2 := PImm,
             i_exec := X_compare X_sfne\<rparr>)"

definition decode_orbis32_sfgtui :: "u32 \<Rightarrow> instruction \<Rightarrow> instruction" where
  "decode_orbis32_sfgtui m_insn ci =
     (let a = bits32 m_insn 20 16;
          i = bits32 m_insn 15 0
      in ci\<lparr>i_imm := sign_extend32 i 15, i_src1 := gpr_at a, i_src2 := PImm,
             i_exec := X_compare X_sfgtu\<rparr>)"

definition decode_orbis32_sfgeui :: "u32 \<Rightarrow> instruction \<Rightarrow> instruction" where
  "decode_orbis32_sfgeui m_insn ci =
     (let a = bits32 m_insn 20 16;
          i = bits32 m_insn 15 0
      in ci\<lparr>i_imm := sign_extend32 i 15, i_src1 := gpr_at a, i_src2 := PImm,
             i_exec := X_compare X_sfgeu\<rparr>)"

definition decode_orbis32_sfltui :: "u32 \<Rightarrow> instruction \<Rightarrow> instruction" where
  "decode_orbis32_sfltui m_insn ci =
     (let a = bits32 m_insn 20 16;
          i = bits32 m_insn 15 0
      in ci\<lparr>i_imm := sign_extend32 i 15, i_src1 := gpr_at a, i_src2 := PImm,
             i_exec := X_compare X_sfltu\<rparr>)"

definition decode_orbis32_sfleui :: "u32 \<Rightarrow> instruction \<Rightarrow> instruction" where
  "decode_orbis32_sfleui m_insn ci =
     (let a = bits32 m_insn 20 16;
          i = bits32 m_insn 15 0
      in ci\<lparr>i_imm := sign_extend32 i 15, i_src1 := gpr_at a, i_src2 := PImm,
             i_exec := X_compare X_sfleu\<rparr>)"

definition decode_orbis32_sfgtsi :: "u32 \<Rightarrow> instruction \<Rightarrow> instruction" where
  "decode_orbis32_sfgtsi m_insn ci =
     (let a = bits32 m_insn 20 16;
          i = bits32 m_insn 15 0
      in ci\<lparr>i_imm := sign_extend32 i 15, i_src1 := gpr_at a, i_src2 := PImm,
             i_exec := X_compare X_sfgts\<rparr>)"

definition decode_orbis32_sfgesi :: "u32 \<Rightarrow> instruction \<Rightarrow> instruction" where
  "decode_orbis32_sfgesi m_insn ci =
     (let a = bits32 m_insn 20 16;
          i = bits32 m_insn 15 0
      in ci\<lparr>i_imm := sign_extend32 i 15, i_src1 := gpr_at a, i_src2 := PImm,
             i_exec := X_compare X_sfges\<rparr>)"

definition decode_orbis32_sfltsi :: "u32 \<Rightarrow> instruction \<Rightarrow> instruction" where
  "decode_orbis32_sfltsi m_insn ci =
     (let a = bits32 m_insn 20 16;
          i = bits32 m_insn 15 0
      in ci\<lparr>i_imm := sign_extend32 i 15, i_src1 := gpr_at a, i_src2 := PImm,
             i_exec := X_compare X_sflts\<rparr>)"

definition decode_orbis32_sflesi :: "u32 \<Rightarrow> instruction \<Rightarrow> instruction" where
  "decode_orbis32_sflesi m_insn ci =
     (let a = bits32 m_insn 20 16;
          i = bits32 m_insn 15 0
      in ci\<lparr>i_imm := sign_extend32 i 15, i_src1 := gpr_at a, i_src2 := PImm,
             i_exec := X_compare X_sfles\<rparr>)"

definition decode_orbis32_mac :: "u32 \<Rightarrow> instruction \<Rightarrow> instruction" where
  "decode_orbis32_mac m_insn ci =
     (let a = bits32 m_insn 20 16;
          b = bits32 m_insn 15 11
      in ci\<lparr>i_src1 := gpr_at a, i_src2 := gpr_at b, i_exec := X_macgrp X_mac\<rparr>)"

definition decode_orbis32_maci :: "u32 \<Rightarrow> instruction \<Rightarrow> instruction" where
  "decode_orbis32_maci m_insn ci =
     (let a = bits32 m_insn 20 16;
          i = bits32 m_insn 15 0
      in ci\<lparr>i_imm := sign_extend32 i 15, i_src1 := gpr_at a, i_src2 := PImm,
             i_exec := X_macgrp X_mac\<rparr>)"

definition decode_orbis32_macu :: "u32 \<Rightarrow> instruction \<Rightarrow> instruction" where
  "decode_orbis32_macu m_insn ci =
     (let a = bits32 m_insn 20 16;
          b = bits32 m_insn 15 11
      in ci\<lparr>i_src1 := gpr_at a, i_src2 := gpr_at b, i_exec := X_macgrp X_macu\<rparr>)"

definition decode_orbis32_msb :: "u32 \<Rightarrow> instruction \<Rightarrow> instruction" where
  "decode_orbis32_msb m_insn ci =
     (let a = bits32 m_insn 20 16;
          b = bits32 m_insn 15 11
      in ci\<lparr>i_src1 := gpr_at a, i_src2 := gpr_at b, i_exec := X_macgrp X_msb\<rparr>)"

definition decode_orbis32_msbu :: "u32 \<Rightarrow> instruction \<Rightarrow> instruction" where
  "decode_orbis32_msbu m_insn ci =
     (let a = bits32 m_insn 20 16;
          b = bits32 m_insn 15 11
      in ci\<lparr>i_src1 := gpr_at a, i_src2 := gpr_at b, i_exec := X_macgrp X_msbu\<rparr>)"

definition decode_orbis32_macrc :: "u32 \<Rightarrow> instruction \<Rightarrow> instruction" where
  "decode_orbis32_macrc m_insn ci =
     (let d = bits32 m_insn 25 17
      in ci\<lparr>i_dest := gpr_at d, i_exec := X_macgrp X_macrc\<rparr>)"

definition decode_orbis32_sys :: "u32 \<Rightarrow> instruction \<Rightarrow> instruction" where
  "decode_orbis32_sys m_insn ci =
     (let k = bits32 m_insn 15 0
      in ci\<lparr>i_imm := k, i_exec := X_sysgrp X_sys\<rparr>)"

definition decode_orbis32_trap :: "u32 \<Rightarrow> instruction \<Rightarrow> instruction" where
  "decode_orbis32_trap m_insn ci =
     (let k = bits32 m_insn 15 0
      in ci\<lparr>i_imm := k, i_exec := X_sysgrp X_trap\<rparr>)"

definition decode_orbis32_csync :: "u32 \<Rightarrow> instruction \<Rightarrow> instruction" where
  "decode_orbis32_csync m_insn ci =
     ci\<lparr>i_exec := X_sysgrp X_csync\<rparr>"

definition decode_orbis32_msync :: "u32 \<Rightarrow> instruction \<Rightarrow> instruction" where
  "decode_orbis32_msync m_insn ci =
     ci\<lparr>i_exec := X_sysgrp X_msync\<rparr>"

definition decode_orbis32_psync :: "u32 \<Rightarrow> instruction \<Rightarrow> instruction" where
  "decode_orbis32_psync m_insn ci =
     ci\<lparr>i_exec := X_sysgrp X_psync\<rparr>"

definition decode_orbis32_rfe :: "u32 \<Rightarrow> instruction \<Rightarrow> instruction" where
  "decode_orbis32_rfe m_insn ci =
     ci\<lparr>i_exec := X_sysgrp X_rfe\<rparr>"

definition decode_orfpx32_add :: "u32 \<Rightarrow> instruction \<Rightarrow> instruction" where
  "decode_orfpx32_add m_insn ci =
     (let d = bits32 m_insn 25 21;
          a = bits32 m_insn 20 16;
          b = bits32 m_insn 15 11
      in ci\<lparr>i_src1 := gpr_at a, i_src2 := gpr_at b, i_dest := gpr_at d,
             i_exec := X_orfpx32 F_add\<rparr>)"

definition decode_orfpx32_sub :: "u32 \<Rightarrow> instruction \<Rightarrow> instruction" where
  "decode_orfpx32_sub m_insn ci =
     (let d = bits32 m_insn 25 21;
          a = bits32 m_insn 20 16;
          b = bits32 m_insn 15 11
      in ci\<lparr>i_src1 := gpr_at a, i_src2 := gpr_at b, i_dest := gpr_at d,
             i_exec := X_orfpx32 F_sub\<rparr>)"

definition decode_orfpx32_mul :: "u32 \<Rightarrow> instruction \<Rightarrow> instruction" where
  "decode_orfpx32_mul m_insn ci =
     (let d = bits32 m_insn 25 21;
          a = bits32 m_insn 20 16;
          b = bits32 m_insn 15 11
      in ci\<lparr>i_src1 := gpr_at a, i_src2 := gpr_at b, i_dest := gpr_at d,
             i_exec := X_orfpx32 F_mul\<rparr>)"

definition decode_orfpx32_div :: "u32 \<Rightarrow> instruction \<Rightarrow> instruction" where
  "decode_orfpx32_div m_insn ci =
     (let d = bits32 m_insn 25 21;
          a = bits32 m_insn 20 16;
          b = bits32 m_insn 15 11
      in ci\<lparr>i_src1 := gpr_at a, i_src2 := gpr_at b, i_dest := gpr_at d,
             i_exec := X_orfpx32 F_div\<rparr>)"

definition decode_orfpx32_itof :: "u32 \<Rightarrow> instruction \<Rightarrow> instruction" where
  "decode_orfpx32_itof m_insn ci =
     (let d = bits32 m_insn 25 21;
          a = bits32 m_insn 20 16
      in ci\<lparr>i_src1 := gpr_at a, i_dest := gpr_at d, i_exec := X_orfpx32 F_itof\<rparr>)"

definition decode_orfpx32_ftoi :: "u32 \<Rightarrow> instruction \<Rightarrow> instruction" where
  "decode_orfpx32_ftoi m_insn ci =
     (let d = bits32 m_insn 25 21;
          a = bits32 m_insn 20 16
      in ci\<lparr>i_src1 := gpr_at a, i_dest := gpr_at d, i_exec := X_orfpx32 F_ftoi\<rparr>)"

definition decode_orfpx32_rem :: "u32 \<Rightarrow> instruction \<Rightarrow> instruction" where
  "decode_orfpx32_rem m_insn ci =
     (let d = bits32 m_insn 25 21;
          a = bits32 m_insn 20 16;
          b = bits32 m_insn 15 11
      in ci\<lparr>i_src1 := gpr_at a, i_src2 := gpr_at b, i_dest := gpr_at d,
             i_exec := X_orfpx32 F_rem\<rparr>)"

definition decode_orfpx32_madd :: "u32 \<Rightarrow> instruction \<Rightarrow> instruction" where
  "decode_orfpx32_madd m_insn ci =
     (let d = bits32 m_insn 25 21;
          a = bits32 m_insn 20 16;
          b = bits32 m_insn 15 11
      in ci\<lparr>i_src1 := gpr_at a, i_src2 := gpr_at b, i_dest := gpr_at d,
             i_exec := X_orfpx32 F_madd\<rparr>)"

definition decode_orfpx32_sfeq :: "u32 \<Rightarrow> instruction \<Rightarrow> instruction" where
  "decode_orfpx32_sfeq m_insn ci =
     (let a = bits32 m_insn 20 16;
          b = bits32 m_insn 15 11
      in ci\<lparr>i_src1 := gpr_at a, i_src2 := gpr_at b, i_exec := X_orfpx32 F_sfeq\<rparr>)"

definition decode_orfpx32_sfne :: "u32 \<Rightarrow> instruction \<Rightarrow> instruction" where
  "decode_orfpx32_sfne m_insn ci =
     (let a = bits32 m_insn 20 16;
          b = bits32 m_insn 15 11
      in ci\<lparr>i_src1 := gpr_at a, i_src2 := gpr_at b, i_exec := X_orfpx32 F_sfne\<rparr>)"

definition decode_orfpx32_sfgt :: "u32 \<Rightarrow> instruction \<Rightarrow> instruction" where
  "decode_orfpx32_sfgt m_insn ci =
     (let a = bits32 m_insn 20 16;
          b = bits32 m_insn 15 11
      in ci\<lparr>i_src1 := gpr_at a, i_src2 := gpr_at b, i_exec := X_orfpx32 F_sfgt\<rparr>)"

definition decode_orfpx32_sfge :: "u32 \<Rightarrow> instruction \<Rightarrow> instruction" where
  "decode_orfpx32_sfge m_insn ci =
     (let a = bits32 m_insn 20 16;
          b = bits32 m_insn 15 11
      in ci\<lparr>i_src1 := gpr_at a, i_src2 := gpr_at b, i_exec := X_orfpx32 F_sfge\<rparr>)"

definition decode_orfpx32_sflt :: "u32 \<Rightarrow> instruction \<Rightarrow> instruction" where
  "decode_orfpx32_sflt m_insn ci =
     (let a = bits32 m_insn 20 16;
          b = bits32 m_insn 15 11
      in ci\<lparr>i_src1 := gpr_at a, i_src2 := gpr_at b, i_exec := X_orfpx32 F_sflt\<rparr>)"

definition decode_orfpx32_sfle :: "u32 \<Rightarrow> instruction \<Rightarrow> instruction" where
  "decode_orfpx32_sfle m_insn ci =
     (let a = bits32 m_insn 20 16;
          b = bits32 m_insn 15 11
      in ci\<lparr>i_src1 := gpr_at a, i_src2 := gpr_at b, i_exec := X_orfpx32 F_sfle\<rparr>)"

definition decode_orfpx64_add :: "u32 \<Rightarrow> instruction \<Rightarrow> instruction" where
  "decode_orfpx64_add m_insn ci =
     (let d = bits32 m_insn 25 21;
          a = bits32 m_insn 20 16;
          b = bits32 m_insn 15 11
      in ci\<lparr>i_src1 := gpr_at a, i_src2 := gpr_at b, i_dest := gpr_at d,
             i_exec := X_orfpx64 F_add\<rparr>)"

definition decode_orfpx64_sub :: "u32 \<Rightarrow> instruction \<Rightarrow> instruction" where
  "decode_orfpx64_sub m_insn ci =
     (let d = bits32 m_insn 25 21;
          a = bits32 m_insn 20 16;
          b = bits32 m_insn 15 11
      in ci\<lparr>i_src1 := gpr_at a, i_src2 := gpr_at b, i_dest := gpr_at d,
             i_exec := X_orfpx64 F_sub\<rparr>)"

definition decode_orfpx64_mul :: "u32 \<Rightarrow> instruction \<Rightarrow> instruction" where
  "decode_orfpx64_mul m_insn ci =
     (let d = bits32 m_insn 25 21;
          a = bits32 m_insn 20 16;
          b = bits32 m_insn 15 11
      in ci\<lparr>i_src1 := gpr_at a, i_src2 := gpr_at b, i_dest := gpr_at d,
             i_exec := X_orfpx64 F_mul\<rparr>)"

definition decode_orfpx64_div :: "u32 \<Rightarrow> instruction \<Rightarrow> instruction" where
  "decode_orfpx64_div m_insn ci =
     (let d = bits32 m_insn 25 21;
          a = bits32 m_insn 20 16;
          b = bits32 m_insn 15 11
      in ci\<lparr>i_src1 := gpr_at a, i_src2 := gpr_at b, i_dest := gpr_at d,
             i_exec := X_orfpx64 F_div\<rparr>)"

definition decode_orfpx64_itof :: "u32 \<Rightarrow> instruction \<Rightarrow> instruction" where
  "decode_orfpx64_itof m_insn ci =
     (let d = bits32 m_insn 25 21;
          a = bits32 m_insn 20 16
      in ci\<lparr>i_src1 := gpr_at a, i_dest := gpr_at d, i_exec := X_orfpx64 F_itof\<rparr>)"

definition decode_orfpx64_ftoi :: "u32 \<Rightarrow> instruction \<Rightarrow> instruction" where
  "decode_orfpx64_ftoi m_insn ci =
     (let d = bits32 m_insn 25 21;
          a = bits32 m_insn 20 16
      in ci\<lparr>i_src1 := gpr_at a, i_dest := gpr_at d, i_exec := X_orfpx64 F_ftoi\<rparr>)"

definition decode_orfpx64_rem :: "u32 \<Rightarrow> instruction \<Rightarrow> instruction" where
  "decode_orfpx64_rem m_insn ci =
     (let d = bits32 m_insn 25 21;
          a = bits32 m_insn 20 16;
          b = bits32 m_insn 15 11
      in ci\<lparr>i_src1 := gpr_at a, i_src2 := gpr_at b, i_dest := gpr_at d,
             i_exec := X_orfpx64 F_rem\<rparr>)"

definition decode_orfpx64_madd :: "u32 \<Rightarrow> instruction \<Rightarrow> instruction" where
  "decode_orfpx64_madd m_insn ci =
     (let d = bits32 m_insn 25 21;
          a = bits32 m_insn 20 16;
          b = bits32 m_insn 15 11
      in ci\<lparr>i_src1 := gpr_at a, i_src2 := gpr_at b, i_dest := gpr_at d,
             i_exec := X_orfpx64 F_madd\<rparr>)"

definition decode_orfpx64_sfeq :: "u32 \<Rightarrow> instruction \<Rightarrow> instruction" where
  "decode_orfpx64_sfeq m_insn ci =
     (let a = bits32 m_insn 20 16;
          b = bits32 m_insn 15 11
      in ci\<lparr>i_src1 := gpr_at a, i_src2 := gpr_at b, i_exec := X_orfpx64 F_sfeq\<rparr>)"

definition decode_orfpx64_sfne :: "u32 \<Rightarrow> instruction \<Rightarrow> instruction" where
  "decode_orfpx64_sfne m_insn ci =
     (let a = bits32 m_insn 20 16;
          b = bits32 m_insn 15 11
      in ci\<lparr>i_src1 := gpr_at a, i_src2 := gpr_at b, i_exec := X_orfpx64 F_sfne\<rparr>)"

definition decode_orfpx64_sfgt :: "u32 \<Rightarrow> instruction \<Rightarrow> instruction" where
  "decode_orfpx64_sfgt m_insn ci =
     (let a = bits32 m_insn 20 16;
          b = bits32 m_insn 15 11
      in ci\<lparr>i_src1 := gpr_at a, i_src2 := gpr_at b, i_exec := X_orfpx64 F_sfgt\<rparr>)"

definition decode_orfpx64_sfge :: "u32 \<Rightarrow> instruction \<Rightarrow> instruction" where
  "decode_orfpx64_sfge m_insn ci =
     (let a = bits32 m_insn 20 16;
          b = bits32 m_insn 15 11
      in ci\<lparr>i_src1 := gpr_at a, i_src2 := gpr_at b, i_exec := X_orfpx64 F_sfge\<rparr>)"

definition decode_orfpx64_sflt :: "u32 \<Rightarrow> instruction \<Rightarrow> instruction" where
  "decode_orfpx64_sflt m_insn ci =
     (let a = bits32 m_insn 20 16;
          b = bits32 m_insn 15 11
      in ci\<lparr>i_src1 := gpr_at a, i_src2 := gpr_at b, i_exec := X_orfpx64 F_sflt\<rparr>)"

definition decode_orfpx64_sfle :: "u32 \<Rightarrow> instruction \<Rightarrow> instruction" where
  "decode_orfpx64_sfle m_insn ci =
     (let a = bits32 m_insn 20 16;
          b = bits32 m_insn 15 11
      in ci\<lparr>i_src1 := gpr_at a, i_src2 := gpr_at b, i_exec := X_orfpx64 F_sfle\<rparr>)"

text \<open>\<^verbatim>\<open>decode_na\<close>, the handler of the custom instructions, which throws.\<close>

definition decode_na :: "u32 \<Rightarrow> u32 \<Rightarrow> instruction \<Rightarrow> instruction res" where
  "decode_na m_insn m_next_pc ci = Inl (Insn_not_supported m_insn m_next_pc)"

section \<open>The decode table\<close>

fun table_misc :: "misc_opcode \<Rightarrow> (u32 \<Rightarrow> instruction \<Rightarrow> instruction) option" where
  "table_misc ORBIS32_NOP = Some decode_orbis32_nop"
| "table_misc ORBIS32_MFSPR = Some decode_orbis32_mfspr"
| "table_misc ORBIS32_MTSPR = Some decode_orbis32_mtspr"
| "table_misc ORBIS32_MOVHI = Some decode_orbis32_movhi"

fun table_control :: "control_opcode \<Rightarrow> (u32 \<Rightarrow> instruction \<Rightarrow> instruction) option" where
  "table_control ORBIS32_J = Some decode_orbis32_j"
| "table_control ORBIS32_JR = Some decode_orbis32_jr"
| "table_control ORBIS32_JAL = Some decode_orbis32_jal"
| "table_control ORBIS32_JALR = Some decode_orbis32_jalr"
| "table_control ORBIS32_BF = Some decode_orbis32_bf"
| "table_control ORBIS32_BNF = Some decode_orbis32_bnf"

fun table_memory :: "memory_opcode \<Rightarrow> (u32 \<Rightarrow> instruction \<Rightarrow> instruction) option" where
  "table_memory ORBIS32_LWA = Some decode_orbis32_lwa"
| "table_memory ORBIS32_LWZ = Some decode_orbis32_lwz"
| "table_memory ORBIS32_LWS = Some decode_orbis32_lws"
| "table_memory ORBIS32_LHZ = Some decode_orbis32_lhz"
| "table_memory ORBIS32_LHS = Some decode_orbis32_lhs"
| "table_memory ORBIS32_LBZ = Some decode_orbis32_lbz"
| "table_memory ORBIS32_LBS = Some decode_orbis32_lbs"
| "table_memory ORBIS32_SWA = Some decode_orbis32_swa"
| "table_memory ORBIS32_SW = Some decode_orbis32_sw"
| "table_memory ORBIS32_SH = Some decode_orbis32_sh"
| "table_memory ORBIS32_SB = Some decode_orbis32_sb"

fun table_extend :: "extend_opcode \<Rightarrow> (u32 \<Rightarrow> instruction \<Rightarrow> instruction) option" where
  "table_extend ORBIS32_EXTWZ = Some decode_orbis32_extwz"
| "table_extend ORBIS32_EXTWS = Some decode_orbis32_extws"
| "table_extend ORBIS32_EXTHZ = Some decode_orbis32_exthz"
| "table_extend ORBIS32_EXTHS = Some decode_orbis32_exths"
| "table_extend ORBIS32_EXTBZ = Some decode_orbis32_extbz"
| "table_extend ORBIS32_EXTBS = Some decode_orbis32_extbs"

fun table_alu :: "alu_opcode \<Rightarrow> (u32 \<Rightarrow> instruction \<Rightarrow> instruction) option" where
  "table_alu ORBIS32_ADD = Some decode_orbis32_add"
| "table_alu ORBIS32_ADDC = Some decode_orbis32_addc"
| "table_alu ORBIS32_SUB = Some decode_orbis32_sub"
| "table_alu ORBIS32_AND = Some decode_orbis32_and"
| "table_alu ORBIS32_OR = Some decode_orbis32_or"
| "table_alu ORBIS32_XOR = Some decode_orbis32_xor"
| "table_alu ORBIS32_CMOV = Some decode_orbis32_cmov"
| "table_alu ORBIS32_FF1 = Some decode_orbis32_ff1"
| "table_alu ORBIS32_FL1 = Some decode_orbis32_fl1"
| "table_alu ORBIS32_SLL = Some decode_orbis32_sll"
| "table_alu ORBIS32_SRL = Some decode_orbis32_srl"
| "table_alu ORBIS32_SRA = Some decode_orbis32_sra"
| "table_alu ORBIS32_ROR = Some decode_orbis32_ror"
| "table_alu ORBIS32_MUL = Some decode_orbis32_mul"
| "table_alu ORBIS32_MULU = Some decode_orbis32_mulu"
| "table_alu ORBIS32_MULD = Some decode_orbis32_muld"
| "table_alu ORBIS32_MULDU = Some decode_orbis32_muldu"
| "table_alu ORBIS32_DIV = Some decode_orbis32_div"
| "table_alu ORBIS32_DIVU = Some decode_orbis32_divu"

fun table_alui :: "alui_opcode \<Rightarrow> (u32 \<Rightarrow> instruction \<Rightarrow> instruction) option" where
  "table_alui ORBIS32_ADDI = Some decode_orbis32_addi"
| "table_alui ORBIS32_ADDIC = Some decode_orbis32_addic"
| "table_alui ORBIS32_ANDI = Some decode_orbis32_andi"
| "table_alui ORBIS32_ORI = Some decode_orbis32_ori"
| "table_alui ORBIS32_XORI = Some decode_orbis32_xori"
| "table_alui ORBIS32_MULI = Some decode_orbis32_muli"
| "table_alui ORBIS32_SLLI = Some decode_orbis32_slli"
| "table_alui ORBIS32_SRLI = Some decode_orbis32_srli"
| "table_alui ORBIS32_SRAI = Some decode_orbis32_srai"
| "table_alui ORBIS32_RORI = Some decode_orbis32_rori"

fun table_compare :: "compare_opcode \<Rightarrow> (u32 \<Rightarrow> instruction \<Rightarrow> instruction) option" where
  "table_compare ORBIS32_SFEQ = Some decode_orbis32_sfeq"
| "table_compare ORBIS32_SFNE = Some decode_orbis32_sfne"
| "table_compare ORBIS32_SFGTU = Some decode_orbis32_sfgtu"
| "table_compare ORBIS32_SFGEU = Some decode_orbis32_sfgeu"
| "table_compare ORBIS32_SFLTU = Some decode_orbis32_sfltu"
| "table_compare ORBIS32_SFLEU = Some decode_orbis32_sfleu"
| "table_compare ORBIS32_SFGTS = Some decode_orbis32_sfgts"
| "table_compare ORBIS32_SFGES = Some decode_orbis32_sfges"
| "table_compare ORBIS32_SFLTS = Some decode_orbis32_sflts"
| "table_compare ORBIS32_SFLES = Some decode_orbis32_sfles"

fun table_comparei :: "comparei_opcode \<Rightarrow> (u32 \<Rightarrow> instruction \<Rightarrow> instruction) option" where
  "table_comparei ORBIS32_SFEQI = Some decode_orbis32_sfeqi"
| "table_comparei ORBIS32_SFNEI = Some decode_orbis32_sfnei"
| "table_comparei ORBIS32_SFGTUI = Some decode_orbis32_sfgtui"
| "table_comparei ORBIS32_SFGEUI = Some decode_orbis32_sfgeui"
| "table_comparei ORBIS32_SFLTUI = Some decode_orbis32_sfltui"
| "table_comparei ORBIS32_SFLEUI = Some decode_orbis32_sfleui"
| "table_comparei ORBIS32_SFGTSI = Some decode_orbis32_sfgtsi"
| "table_comparei ORBIS32_SFGESI = Some decode_orbis32_sfgesi"
| "table_comparei ORBIS32_SFLTSI = Some decode_orbis32_sfltsi"
| "table_comparei ORBIS32_SFLESI = Some decode_orbis32_sflesi"

fun table_mac :: "mac_opcode \<Rightarrow> (u32 \<Rightarrow> instruction \<Rightarrow> instruction) option" where
  "table_mac ORBIS32_MAC = Some decode_orbis32_mac"
| "table_mac ORBIS32_MACU = Some decode_orbis32_macu"
| "table_mac ORBIS32_MSB = Some decode_orbis32_msb"
| "table_mac ORBIS32_MSBU = Some decode_orbis32_msbu"
| "table_mac ORBIS32_MACI = Some decode_orbis32_maci"
| "table_mac ORBIS32_MACRC = Some decode_orbis32_macrc"

fun table_system :: "system_opcode \<Rightarrow> (u32 \<Rightarrow> instruction \<Rightarrow> instruction) option" where
  "table_system ORBIS32_SYS = Some decode_orbis32_sys"
| "table_system ORBIS32_TRAP = Some decode_orbis32_trap"
| "table_system ORBIS32_MSYNC = Some decode_orbis32_msync"
| "table_system ORBIS32_PSYNC = Some decode_orbis32_psync"
| "table_system ORBIS32_CSYNC = Some decode_orbis32_csync"
| "table_system ORBIS32_RFE = Some decode_orbis32_rfe"

fun table_orfpx32 :: "orfpx32_opcode \<Rightarrow> (u32 \<Rightarrow> instruction \<Rightarrow> instruction) option" where
  "table_orfpx32 ORFPX32_ADD = Some decode_orfpx32_add"
| "table_orfpx32 ORFPX32_CUST1 = None"
| "table_orfpx32 ORFPX32_DIV = Some decode_orfpx32_div"
| "table_orfpx32 ORFPX32_FTOI = Some decode_orfpx32_ftoi"
| "table_orfpx32 ORFPX32_ITOF = Some decode_orfpx32_itof"
| "table_orfpx32 ORFPX32_MADD = Some decode_orfpx32_madd"
| "table_orfpx32 ORFPX32_MUL = Some decode_orfpx32_mul"
| "table_orfpx32 ORFPX32_REM = Some decode_orfpx32_rem"
| "table_orfpx32 ORFPX32_SFEQ = Some decode_orfpx32_sfeq"
| "table_orfpx32 ORFPX32_SFGE = Some decode_orfpx32_sfge"
| "table_orfpx32 ORFPX32_SFGT = Some decode_orfpx32_sfgt"
| "table_orfpx32 ORFPX32_SFLE = Some decode_orfpx32_sfle"
| "table_orfpx32 ORFPX32_SFLT = Some decode_orfpx32_sflt"
| "table_orfpx32 ORFPX32_SFNE = Some decode_orfpx32_sfne"
| "table_orfpx32 ORFPX32_SUB = Some decode_orfpx32_sub"

fun table_orfpx64 :: "orfpx64_opcode \<Rightarrow> (u32 \<Rightarrow> instruction \<Rightarrow> instruction) option" where
  "table_orfpx64 ORFPX64_ADD = Some decode_orfpx64_add"
| "table_orfpx64 ORFPX64_SUB = Some decode_orfpx64_sub"
| "table_orfpx64 ORFPX64_MUL = Some decode_orfpx64_mul"
| "table_orfpx64 ORFPX64_DIV = Some decode_orfpx64_div"
| "table_orfpx64 ORFPX64_ITOF = Some decode_orfpx64_itof"
| "table_orfpx64 ORFPX64_FTOI = Some decode_orfpx64_ftoi"
| "table_orfpx64 ORFPX64_REM = Some decode_orfpx64_rem"
| "table_orfpx64 ORFPX64_MADD = Some decode_orfpx64_madd"
| "table_orfpx64 ORFPX64_SFEQ = Some decode_orfpx64_sfeq"
| "table_orfpx64 ORFPX64_SFNE = Some decode_orfpx64_sfne"
| "table_orfpx64 ORFPX64_SFGT = Some decode_orfpx64_sfgt"
| "table_orfpx64 ORFPX64_SFGE = Some decode_orfpx64_sfge"
| "table_orfpx64 ORFPX64_SFLT = Some decode_orfpx64_sflt"
| "table_orfpx64 ORFPX64_SFLE = Some decode_orfpx64_sfle"
| "table_orfpx64 ORFPX64_CUST1 = None"

text \<open>
  \<^verbatim>\<open>m_decode_table[code]\<close> applied to \<^verbatim>\<open>this\<close> and the instruction. The custom instructions have
  \<^verbatim>\<open>decode_na\<close>; the entry of \<^verbatim>\<open>INVALID_OPCODE\<close> is null.
\<close>

definition table_call ::
  "(u32 \<Rightarrow> instruction \<Rightarrow> instruction) option \<Rightarrow> u32 \<Rightarrow> u32 \<Rightarrow> instruction \<Rightarrow> instruction res" where
  "table_call h m_insn m_next_pc ci =
     (case h of Some f \<Rightarrow> Inr (f m_insn ci) | None \<Rightarrow> decode_na m_insn m_next_pc ci)"

fun decode_table :: "opcode \<Rightarrow> u32 \<Rightarrow> u32 \<Rightarrow> instruction \<Rightarrow> instruction res" where
  "decode_table INVALID_OPCODE m_insn pc ci = Inl Host_fault"
| "decode_table (O_misc op) m_insn pc ci = table_call (table_misc op) m_insn pc ci"
| "decode_table (O_control op) m_insn pc ci = table_call (table_control op) m_insn pc ci"
| "decode_table (O_memory op) m_insn pc ci = table_call (table_memory op) m_insn pc ci"
| "decode_table (O_extend op) m_insn pc ci = table_call (table_extend op) m_insn pc ci"
| "decode_table (O_alu op) m_insn pc ci = table_call (table_alu op) m_insn pc ci"
| "decode_table (O_alui op) m_insn pc ci = table_call (table_alui op) m_insn pc ci"
| "decode_table (O_compare op) m_insn pc ci = table_call (table_compare op) m_insn pc ci"
| "decode_table (O_comparei op) m_insn pc ci = table_call (table_comparei op) m_insn pc ci"
| "decode_table (O_mac op) m_insn pc ci = table_call (table_mac op) m_insn pc ci"
| "decode_table (O_system op) m_insn pc ci = table_call (table_system op) m_insn pc ci"
| "decode_table (O_custom op) m_insn pc ci = decode_na m_insn pc ci"
| "decode_table (O_orfpx32 op) m_insn pc ci = table_call (table_orfpx32 op) m_insn pc ci"
| "decode_table (O_orfpx64 op) m_insn pc ci = table_call (table_orfpx64 op) m_insn pc ci"

section \<open>Evaluating the handlers\<close>

lemmas handler_defs = Let_def decode_orbis32_mfspr_def decode_orbis32_mtspr_def
  decode_orbis32_movhi_def decode_orbis32_nop_def decode_orbis32_bf_def decode_orbis32_bnf_def
  decode_orbis32_j_def decode_orbis32_jr_def decode_orbis32_jal_def decode_orbis32_jalr_def
  decode_orbis32_lwa_def decode_orbis32_lwz_def decode_orbis32_lws_def decode_orbis32_lhz_def
  decode_orbis32_lhs_def decode_orbis32_lbz_def decode_orbis32_lbs_def decode_orbis32_swa_def
  decode_orbis32_sw_def decode_orbis32_sh_def decode_orbis32_sb_def decode_orbis32_extwz_def
  decode_orbis32_extws_def decode_orbis32_exthz_def decode_orbis32_exths_def
  decode_orbis32_extbz_def decode_orbis32_extbs_def decode_orbis32_add_def decode_orbis32_addc_def
  decode_orbis32_sub_def decode_orbis32_and_def decode_orbis32_or_def decode_orbis32_xor_def
  decode_orbis32_cmov_def decode_orbis32_ff1_def decode_orbis32_fl1_def decode_orbis32_sll_def
  decode_orbis32_srl_def decode_orbis32_sra_def decode_orbis32_ror_def decode_orbis32_mul_def
  decode_orbis32_mulu_def decode_orbis32_muld_def decode_orbis32_muldu_def decode_orbis32_div_def
  decode_orbis32_divu_def decode_orbis32_addi_def decode_orbis32_addic_def decode_orbis32_andi_def
  decode_orbis32_ori_def decode_orbis32_xori_def decode_orbis32_rori_def decode_orbis32_slli_def
  decode_orbis32_srli_def decode_orbis32_srai_def decode_orbis32_muli_def decode_orbis32_sfeq_def
  decode_orbis32_sfne_def decode_orbis32_sfgtu_def decode_orbis32_sfgeu_def
  decode_orbis32_sfltu_def decode_orbis32_sfleu_def decode_orbis32_sfgts_def
  decode_orbis32_sfges_def decode_orbis32_sflts_def decode_orbis32_sfles_def
  decode_orbis32_sfeqi_def decode_orbis32_sfnei_def decode_orbis32_sfgtui_def
  decode_orbis32_sfgeui_def decode_orbis32_sfltui_def decode_orbis32_sfleui_def
  decode_orbis32_sfgtsi_def decode_orbis32_sfgesi_def decode_orbis32_sfltsi_def
  decode_orbis32_sflesi_def decode_orbis32_mac_def decode_orbis32_maci_def decode_orbis32_macu_def
  decode_orbis32_msb_def decode_orbis32_msbu_def decode_orbis32_macrc_def decode_orbis32_sys_def
  decode_orbis32_trap_def decode_orbis32_csync_def decode_orbis32_msync_def
  decode_orbis32_psync_def decode_orbis32_rfe_def decode_orfpx32_add_def decode_orfpx32_sub_def
  decode_orfpx32_mul_def decode_orfpx32_div_def decode_orfpx32_itof_def decode_orfpx32_ftoi_def
  decode_orfpx32_rem_def decode_orfpx32_madd_def decode_orfpx32_sfeq_def decode_orfpx32_sfne_def
  decode_orfpx32_sfgt_def decode_orfpx32_sfge_def decode_orfpx32_sflt_def decode_orfpx32_sfle_def
  decode_orfpx64_add_def decode_orfpx64_sub_def decode_orfpx64_mul_def decode_orfpx64_div_def
  decode_orfpx64_itof_def decode_orfpx64_ftoi_def decode_orfpx64_rem_def decode_orfpx64_madd_def
  decode_orfpx64_sfeq_def decode_orfpx64_sfne_def decode_orfpx64_sfgt_def decode_orfpx64_sfge_def
  decode_orfpx64_sflt_def decode_orfpx64_sfle_def

end
