(* ===== verification/Disasm.thy ===== *)
theory Disasm
  imports Decode_Handlers
begin

text \<open>
  The disassembler (\<^verbatim>\<open>include/or1kiss/disasm.h\<close>, \<^verbatim>\<open>src/or1kiss/disasm.cpp\<close>): the names of the
  instructions, the texts of their operands and what is sent to an output stream, with the padding of
  the stream. The lemmas read the text back: different operands have different texts, the name is what
  stands before the first space, so the text determines the decoded instruction; and no text is longer
  than 24 characters, which the trace line relies on.
\<close>

section \<open>Numbers as text\<close>

text \<open>Digits to a base, lower-case letters, at least one digit; what they stand for, to read them back.\<close>

definition digit_chars :: string where "digit_chars = ''0123456789abcdef''"

fun show_base :: "nat \<Rightarrow> nat \<Rightarrow> string" where
  "show_base b n =
     (if b < 2 \<or> n < b then [digit_chars ! n] else show_base b (n div b) @ [digit_chars ! (n mod b)])"

definition show_dec :: "nat \<Rightarrow> string" where "show_dec n = show_base 10 n"
definition show_hex :: "nat \<Rightarrow> string" where "show_hex n = show_base 16 n"

definition digit_value :: "char \<Rightarrow> nat" where
  "digit_value c = length (takeWhile (\<lambda>d. d \<noteq> c) digit_chars)"

definition value_base :: "nat \<Rightarrow> string \<Rightarrow> nat" where
  "value_base b s = foldl (\<lambda>v c. b * v + digit_value c) 0 s"

section \<open>Operands\<close>

definition reg_d :: "u32 \<Rightarrow> string" where "reg_d insn = ''r'' @ show_dec (unat (bits32 insn 25 21))"
definition reg_a :: "u32 \<Rightarrow> string" where "reg_a insn = ''r'' @ show_dec (unat (bits32 insn 20 16))"
definition reg_b :: "u32 \<Rightarrow> string" where "reg_b insn = ''r'' @ show_dec (unat (bits32 insn 15 11))"

text \<open>A signed number goes to a stream in hexadecimal when it is not negative, else in decimal.\<close>

definition show_signed :: "int \<Rightarrow> string" where
  "show_signed imm = (if 0 \<le> imm then ''0x'' @ show_hex (nat imm) else ''-'' @ show_dec (nat (- imm)))"

definition show_unsigned :: "u32 \<Rightarrow> string" where
  "show_unsigned imm = (if imm = 0 then ''0'' else ''0x'' @ show_hex (unat imm))"

definition store_imm :: "u32 \<Rightarrow> u32" where
  "store_imm insn = push_bit 11 (bits32 insn 25 21) OR push_bit 0 (bits32 insn 10 0)"

definition imm_i :: "u32 \<Rightarrow> string" where "imm_i insn = show_signed (sint (sign_extend32 insn 15))"

definition imm_i2 :: "u32 \<Rightarrow> string" where
  "imm_i2 insn = (let temp = ucast (store_imm insn) :: u16 in show_signed (sint temp))"

definition imm_k :: "u32 \<Rightarrow> string" where "imm_k insn = show_unsigned (bits32 insn 15 0)"
definition imm_k2 :: "u32 \<Rightarrow> string" where "imm_k2 insn = show_unsigned (store_imm insn)"
definition imm_l :: "u32 \<Rightarrow> string" where "imm_l insn = show_unsigned (bits32 insn 5 0)"
definition imm_n :: "u32 \<Rightarrow> string" where "imm_n insn = show_signed (sint (sign_extend32 insn 25))"

section \<open>Names and operands of the instructions\<close>

text \<open>The enumerators in their order; the number of an opcode is its index in the table of names.\<close>

definition opcodes :: "opcode list" where
  "opcodes =
     INVALID_OPCODE #
     map O_misc
       [ORBIS32_NOP, ORBIS32_MFSPR, ORBIS32_MTSPR, ORBIS32_MOVHI] @
     map O_control
       [ORBIS32_J, ORBIS32_JR, ORBIS32_JAL, ORBIS32_JALR, ORBIS32_BF, ORBIS32_BNF] @
     map O_memory
       [ORBIS32_LWA, ORBIS32_LWZ, ORBIS32_LWS, ORBIS32_LHZ, ORBIS32_LHS, ORBIS32_LBZ,
        ORBIS32_LBS, ORBIS32_SWA, ORBIS32_SW, ORBIS32_SH, ORBIS32_SB] @
     map O_extend
       [ORBIS32_EXTWZ, ORBIS32_EXTWS, ORBIS32_EXTHZ, ORBIS32_EXTHS, ORBIS32_EXTBZ, ORBIS32_EXTBS] @
     map O_alu
       [ORBIS32_ADD, ORBIS32_ADDC, ORBIS32_SUB, ORBIS32_AND, ORBIS32_OR, ORBIS32_XOR,
        ORBIS32_CMOV, ORBIS32_FF1, ORBIS32_FL1, ORBIS32_SLL, ORBIS32_SRL, ORBIS32_SRA,
        ORBIS32_ROR, ORBIS32_MUL, ORBIS32_MULU, ORBIS32_MULD, ORBIS32_MULDU, ORBIS32_DIV,
        ORBIS32_DIVU] @
     map O_alui
       [ORBIS32_ADDI, ORBIS32_ADDIC, ORBIS32_ANDI, ORBIS32_ORI, ORBIS32_XORI, ORBIS32_MULI,
        ORBIS32_SLLI, ORBIS32_SRLI, ORBIS32_SRAI, ORBIS32_RORI] @
     map O_compare
       [ORBIS32_SFEQ, ORBIS32_SFNE, ORBIS32_SFGTU, ORBIS32_SFGEU, ORBIS32_SFLTU, ORBIS32_SFLEU,
        ORBIS32_SFGTS, ORBIS32_SFGES, ORBIS32_SFLTS, ORBIS32_SFLES] @
     map O_comparei
       [ORBIS32_SFEQI, ORBIS32_SFNEI, ORBIS32_SFGTUI, ORBIS32_SFGEUI, ORBIS32_SFLTUI,
        ORBIS32_SFLEUI, ORBIS32_SFGTSI, ORBIS32_SFGESI, ORBIS32_SFLTSI, ORBIS32_SFLESI] @
     map O_mac
       [ORBIS32_MAC, ORBIS32_MACU, ORBIS32_MSB, ORBIS32_MSBU, ORBIS32_MACI, ORBIS32_MACRC] @
     map O_system
       [ORBIS32_SYS, ORBIS32_TRAP, ORBIS32_MSYNC, ORBIS32_PSYNC, ORBIS32_CSYNC, ORBIS32_RFE] @
     map O_custom
       [ORBIS32_CUST1, ORBIS32_CUST2, ORBIS32_CUST3, ORBIS32_CUST4, ORBIS32_CUST5, ORBIS32_CUST6,
        ORBIS32_CUST7, ORBIS32_CUST8] @
     map O_orfpx32
       [ORFPX32_ADD, ORFPX32_CUST1, ORFPX32_DIV, ORFPX32_FTOI, ORFPX32_ITOF, ORFPX32_MADD,
        ORFPX32_MUL, ORFPX32_REM, ORFPX32_SFEQ, ORFPX32_SFGE, ORFPX32_SFGT, ORFPX32_SFLE,
        ORFPX32_SFLT, ORFPX32_SFNE, ORFPX32_SUB] @
     map O_orfpx64
       [ORFPX64_ADD, ORFPX64_SUB, ORFPX64_MUL, ORFPX64_DIV, ORFPX64_ITOF, ORFPX64_FTOI,
        ORFPX64_REM, ORFPX64_MADD, ORFPX64_SFEQ, ORFPX64_SFNE, ORFPX64_SFGT, ORFPX64_SFGE,
        ORFPX64_SFLT, ORFPX64_SFLE, ORFPX64_CUST1]"

definition opcode_number :: "opcode \<Rightarrow> nat" where
  "opcode_number opcode = length (takeWhile (\<lambda>c. c \<noteq> opcode) opcodes)"

definition g_opcode_str :: "string list" where
  "g_opcode_str =
     [''invalid opcode'', ''l.nop'', ''l.mfspr'', ''l.mtspr'', ''l.movhi'', ''l.j'', ''l.jr'',
      ''l.jal'', ''l.jalr'', ''l.bf'', ''l.bnf'', ''l.lwa'', ''l.lwz'', ''l.lws'', ''l.lhz'',
      ''l.lhs'', ''l.lbz'', ''l.lbs'', ''l.swa'', ''l.sw'', ''l.sh'', ''l.sb'', ''l.extwz'',
      ''l.extws'', ''l.exthz'', ''l.exths'', ''l.extbz'', ''l.extbs'', ''l.add'', ''l.addc'',
      ''l.sub'', ''l.and'', ''l.or'', ''l.xor'', ''l.cmov'', ''l.ff1'', ''l.fl1'', ''l.sll'',
      ''l.srl'', ''l.sra'', ''l.ror'', ''l.mul'', ''l.mulu'', ''l.muld'', ''l.muldu'', ''l.div'',
      ''l.divu'', ''l.addi'', ''l.addic'', ''l.andi'', ''l.ori'', ''l.xori'', ''l.muli'',
      ''l.slli'', ''l.srli'', ''l.srai'', ''l.rori'', ''l.sfeq'', ''l.sfne'', ''l.sfgtu'',
      ''l.sfgeu'', ''l.sfltu'', ''l.sfleu'', ''l.sfgts'', ''l.sfges'', ''l.sflts'', ''l.sfles'',
      ''l.sfeqi'', ''l.sfnei'', ''l.sfgtui'', ''l.sfgeui'', ''l.sfltui'', ''l.sfleui'',
      ''l.sfgtsi'', ''l.sfgesi'', ''l.sfltsi'', ''l.sflesi'', ''l.mac'', ''l.macu'', ''l.msb'',
      ''l.msbu'', ''l.maci'', ''l.macrc'', ''l.sys'', ''l.trap'', ''l.msync'', ''l.psync'',
      ''l.csync'', ''l.rfe'', ''l.cust1'', ''l.cust2'', ''l.cust3'', ''l.cust4'', ''l.cust5'',
      ''l.cust6'', ''l.cust7'', ''l.cust8'', ''lf.add.s'', ''lf.cust1.s'', ''lf.div.s'',
      ''lf.ftoi.s'', ''lf.itof.s'', ''lf.madd.s'', ''lf.mul.s'', ''lf.rem.s'', ''lf.sfeq.s'',
      ''lf.sfge.s'', ''lf.sfgt.s'', ''lf.sfle.s'', ''lf.sflt.s'', ''lf.sfne.s'', ''lf.sub.s'',
      ''lf.add.d'', ''lf.sub.d'', ''lf.mul.d'', ''lf.div.d'', ''lf.itof.d'', ''lf.ftoi.d'',
      ''lf.rem.d'', ''lf.madd.d'', ''lf.sfeq.d'', ''lf.sfne.d'', ''lf.sfgt.d'', ''lf.sfge.d'',
      ''lf.sflt.d'', ''lf.sfle.d'', ''lf.cust1.d'']"

text \<open>
  What the \<^verbatim>\<open>switch\<close> of \<^verbatim>\<open>disassemble\<close> sends to the stream after the name, case by case and in the order
  of its cases; the instructions of its default case show no operands.
\<close>

definition operand_texts :: "opcode \<Rightarrow> u32 \<Rightarrow> string list" where
  "operand_texts opcode insn =
     (if opcode = O_misc ORBIS32_NOP
      then ['' '', imm_k insn]
      else if opcode = O_misc ORBIS32_MFSPR
      then ['' '', reg_d insn, '','', reg_a insn, '','', imm_k insn]
      else if opcode = O_misc ORBIS32_MTSPR
      then ['' '', reg_a insn, '','', reg_b insn, '','', imm_k2 insn]
      else if opcode = O_misc ORBIS32_MOVHI
      then ['' '', reg_d insn, '','', imm_k insn]
      else if opcode \<in> set
         [O_control ORBIS32_BF, O_control ORBIS32_BNF, O_control ORBIS32_J, O_control ORBIS32_JAL]
      then ['' '', imm_n insn]
      else if opcode \<in> set
         [O_control ORBIS32_JR, O_control ORBIS32_JALR]
      then ['' '', reg_b insn]
      else if opcode \<in> set
         [O_memory ORBIS32_LWZ, O_memory ORBIS32_LWS, O_memory ORBIS32_LHZ, O_memory ORBIS32_LHS,
          O_memory ORBIS32_LBZ, O_memory ORBIS32_LBS]
      then ['' '', reg_d insn, '','', imm_i insn, ''('', reg_a insn, '')'']
      else if opcode \<in> set
         [O_memory ORBIS32_SW, O_memory ORBIS32_SH, O_memory ORBIS32_SB]
      then ['' '', imm_i2 insn, ''('', reg_a insn, ''),'', reg_b insn]
      else if opcode \<in> set
         [O_extend ORBIS32_EXTWS, O_extend ORBIS32_EXTWZ, O_extend ORBIS32_EXTHS,
          O_extend ORBIS32_EXTHZ, O_extend ORBIS32_EXTBS, O_extend ORBIS32_EXTBZ]
      then ['' '', reg_d insn, '','', reg_a insn]
      else if opcode \<in> set
         [O_alu ORBIS32_ADD, O_alu ORBIS32_ADDC, O_alu ORBIS32_SUB, O_alu ORBIS32_AND,
          O_alu ORBIS32_OR, O_alu ORBIS32_XOR, O_alu ORBIS32_CMOV, O_alu ORBIS32_SLL,
          O_alu ORBIS32_SRL, O_alu ORBIS32_SRA, O_alu ORBIS32_ROR, O_alu ORBIS32_MULU,
          O_alu ORBIS32_MULDU, O_alu ORBIS32_DIVU, O_alu ORBIS32_MUL, O_alu ORBIS32_MULD,
          O_alu ORBIS32_DIV]
      then ['' '', reg_d insn, '','', reg_a insn, '','', reg_b insn]
      else if opcode \<in> set
         [O_alu ORBIS32_FF1, O_alu ORBIS32_FL1]
      then ['' '', reg_d insn, '','', reg_a insn]
      else if opcode \<in> set
         [O_alui ORBIS32_ADDI, O_alui ORBIS32_ADDIC, O_alui ORBIS32_XORI]
      then ['' '', reg_d insn, '','', reg_a insn, '','', imm_i insn]
      else if opcode \<in> set
         [O_alui ORBIS32_ANDI, O_alui ORBIS32_ORI, O_alui ORBIS32_MULI]
      then ['' '', reg_d insn, '','', reg_a insn, '','', imm_k insn]
      else if opcode \<in> set
         [O_alui ORBIS32_SLLI, O_alui ORBIS32_SRLI, O_alui ORBIS32_SRAI, O_alui ORBIS32_RORI]
      then ['' '', reg_d insn, '','', reg_a insn, '','', imm_l insn]
      else if opcode \<in> set
         [O_compare ORBIS32_SFEQ, O_compare ORBIS32_SFNE, O_compare ORBIS32_SFGTU,
          O_compare ORBIS32_SFGEU, O_compare ORBIS32_SFLTU, O_compare ORBIS32_SFLEU,
          O_compare ORBIS32_SFGTS, O_compare ORBIS32_SFGES, O_compare ORBIS32_SFLTS,
          O_compare ORBIS32_SFLES]
      then ['' '', reg_a insn, '','', reg_b insn]
      else if opcode \<in> set
         [O_comparei ORBIS32_SFEQI, O_comparei ORBIS32_SFNEI, O_comparei ORBIS32_SFGTUI,
          O_comparei ORBIS32_SFGEUI, O_comparei ORBIS32_SFLTUI, O_comparei ORBIS32_SFLEUI,
          O_comparei ORBIS32_SFGTSI, O_comparei ORBIS32_SFGESI, O_comparei ORBIS32_SFLTSI,
          O_comparei ORBIS32_SFLESI]
      then ['' '', reg_a insn, '','', imm_i insn]
      else if opcode \<in> set
         [O_orfpx32 ORFPX32_ADD, O_orfpx32 ORFPX32_SUB, O_orfpx32 ORFPX32_MUL,
          O_orfpx32 ORFPX32_DIV, O_orfpx32 ORFPX32_REM, O_orfpx32 ORFPX32_MADD]
      then ['' '', reg_d insn, '','', reg_a insn, '','', reg_b insn]
      else if opcode \<in> set
         [O_orfpx32 ORFPX32_ITOF, O_orfpx32 ORFPX32_FTOI]
      then ['' '', reg_d insn, '','', reg_a insn]
      else if opcode \<in> set
         [O_orfpx32 ORFPX32_SFEQ, O_orfpx32 ORFPX32_SFNE, O_orfpx32 ORFPX32_SFGT,
          O_orfpx32 ORFPX32_SFGE, O_orfpx32 ORFPX32_SFLT, O_orfpx32 ORFPX32_SFLE]
      then ['' '', reg_a insn, '','', reg_b insn]
      else if opcode \<in> set
         [O_orfpx64 ORFPX64_ADD, O_orfpx64 ORFPX64_SUB, O_orfpx64 ORFPX64_MUL,
          O_orfpx64 ORFPX64_DIV, O_orfpx64 ORFPX64_REM, O_orfpx64 ORFPX64_MADD]
      then ['' '', reg_d insn, '','', reg_a insn, '','', reg_b insn]
      else if opcode \<in> set
         [O_orfpx64 ORFPX64_ITOF, O_orfpx64 ORFPX64_FTOI]
      then ['' '', reg_d insn, '','', reg_a insn]
      else if opcode \<in> set
         [O_orfpx64 ORFPX64_SFEQ, O_orfpx64 ORFPX64_SFNE, O_orfpx64 ORFPX64_SFGT,
          O_orfpx64 ORFPX64_SFGE, O_orfpx64 ORFPX64_SFLT, O_orfpx64 ORFPX64_SFLE]
      then ['' '', reg_a insn, '','', reg_b insn]
      else [])"

section \<open>Output streams\<close>

text \<open>
  What of a stream matters here: its text and the three settings for the next output. A string is
  padded to the width, and the width is used up.
\<close>

record ostream =
  os_text :: string
  os_width :: nat
  os_fill :: char
  os_left :: bool

definition stringstream :: ostream where
  "stringstream = \<lparr>os_text = [], os_width = 0, os_fill = CHR '' '', os_left = False\<rparr>"

definition os_put :: "string \<Rightarrow> ostream \<Rightarrow> ostream" where
  "os_put s os =
     (let pad = replicate (os_width os - length s) (os_fill os)
      in os\<lparr>os_text := os_text os @ (if os_left os then s @ pad else pad @ s), os_width := 0\<rparr>)"

definition disassemble :: "ostream \<Rightarrow> u32 \<Rightarrow> ostream" where
  "disassemble os insn =
     (let opcode = decode insn
      in if opcode = INVALID_OPCODE then os_put ''invalid opcode'' os
         else let os = os\<lparr>os_width := 7, os_fill := CHR '' '', os_left := True\<rparr>;
                  os = os_put (g_opcode_str ! opcode_number opcode) os;
                  os = os\<lparr>os_left := False\<rparr>
              in fold os_put (operand_texts opcode insn) os)"

definition disassembly :: "u32 \<Rightarrow> string" where
  "disassembly insn = os_text (disassemble stringstream insn)"

section \<open>Reading numbers back\<close>

declare show_base.simps [simp del]

lemma digit_value_char: "n < 16 \<Longrightarrow> digit_value (digit_chars ! n) = n"
proof -
  have "\<forall>n \<in> {..<16}. digit_value (digit_chars ! n) = n"
    by (simp add: lessThan_nat_numeral digit_value_def digit_chars_def)
  then show "n < 16 \<Longrightarrow> digit_value (digit_chars ! n) = n" by blast
qed

lemma value_base_snoc [simp]: "value_base b (s @ [c]) = b * value_base b s + digit_value c"
  by (simp add: value_base_def)

lemma value_show_base: "2 \<le> b \<Longrightarrow> b \<le> 16 \<Longrightarrow> value_base b (show_base b n) = n"
proof (induction b n rule: show_base.induct)
  case (1 b n)
  show ?case
  proof (cases "n < b")
    case True
    with 1 show ?thesis by (simp add: show_base.simps[of b n] value_base_def digit_value_char)
  next
    case False
    have "n mod b < b" using 1(2) by simp
    then have "n mod b < 16" using 1(3) by linarith
    with False 1 show ?thesis
      by (subst show_base.simps) (simp add: digit_value_char)
  qed
qed

lemma show_base_inj: "2 \<le> b \<Longrightarrow> b \<le> 16 \<Longrightarrow> show_base b m = show_base b n \<longleftrightarrow> m = n"
  by (metis value_show_base)

lemma show_dec_inj [simp]: "show_dec m = show_dec n \<longleftrightarrow> m = n"
  by (simp add: show_dec_def show_base_inj)

lemma show_hex_inj [simp]: "show_hex m = show_hex n \<longleftrightarrow> m = n"
  by (simp add: show_hex_def show_base_inj)

lemma set_show_base: "2 \<le> b \<Longrightarrow> b \<le> 16 \<Longrightarrow> set (show_base b n) \<subseteq> set digit_chars"
proof (induction b n rule: show_base.induct)
  case (1 b n)
  have d: "digit_chars ! k \<in> set digit_chars" if "k < b" for k
    using that 1(3) by (intro nth_mem) (simp add: digit_chars_def)
  show ?case
  proof (cases "n < b")
    case True
    with 1 d show ?thesis by (simp add: show_base.simps[of b n])
  next
    case False
    with 1 d[of "n mod b"] show ?thesis by (subst show_base.simps) simp
  qed
qed

lemma length_show_base: "2 \<le> b \<Longrightarrow> n < b ^ Suc k \<Longrightarrow> length (show_base b n) \<le> Suc k"
proof (induction k arbitrary: n)
  case 0
  then show ?case by (simp add: show_base.simps[of b n])
next
  case (Suc k)
  have "n div b < b ^ Suc k" using Suc.prems by (simp add: div_less_iff_less_mult mult.commute)
  with Suc.IH[of "n div b"] Suc.prems show ?case by (subst show_base.simps) simp
qed

lemma no_separator:
  assumes "c \<notin> set digit_chars"
  shows "c \<notin> set (show_dec n)" "c \<notin> set (show_hex n)"
  using assms set_show_base[of 10 n] set_show_base[of 16 n] by (auto simp: show_dec_def show_hex_def)

text \<open>Different operands have different texts.\<close>

lemma show_signed_inj [simp]: "show_signed m = show_signed n \<longleftrightarrow> m = n"
  by (auto simp: show_signed_def)

lemma show_unsigned_inj [simp]: "show_unsigned v = show_unsigned w \<longleftrightarrow> v = w"
  by (auto simp: show_unsigned_def word_unat_eq_iff)

lemma reg_text_inj [simp]:
  "reg_d i = reg_d j \<longleftrightarrow> bits32 i 25 21 = bits32 j 25 21"
  "reg_a i = reg_a j \<longleftrightarrow> bits32 i 20 16 = bits32 j 20 16"
  "reg_b i = reg_b j \<longleftrightarrow> bits32 i 15 11 = bits32 j 15 11"
  by (simp_all add: reg_d_def reg_a_def reg_b_def word_unat_eq_iff)

lemma sign_extend32_field: "l < 32 \<Longrightarrow> sign_extend32 (bits32 v l 0) l = sign_extend32 v l"
  by (rule bit_word_eqI) (simp add: bitfield_simps)

lemma bits32_sign_extend32: "l < 32 \<Longrightarrow> bits32 (sign_extend32 v l) l 0 = bits32 v l 0"
  by (rule bit_word_eqI) (auto simp: bitfield_simps min_def)

lemma field_sign_extend: "l < 32 \<Longrightarrow> sign_extend32 i l = sign_extend32 j l \<longleftrightarrow> bits32 i l 0 = bits32 j l 0"
  by (metis sign_extend32_field bits32_sign_extend32)

lemma store_imm_bits: "take_bit 16 (store_imm i) = store_imm i"
  by (rule bit_word_eqI) (auto simp: store_imm_def bit_simps bitfield_simps)

lemma sint_eq_iff: "sint v = sint w \<longleftrightarrow> v = w" for v w :: "'a :: len word"
  by (auto intro: signed_word_eqI)

lemma imm_text_inj [simp]:
  "imm_i i = imm_i j \<longleftrightarrow> bits32 i 15 0 = bits32 j 15 0"
  "imm_i2 i = imm_i2 j \<longleftrightarrow> store_imm i = store_imm j"
  "imm_k i = imm_k j \<longleftrightarrow> bits32 i 15 0 = bits32 j 15 0"
  "imm_k2 i = imm_k2 j \<longleftrightarrow> store_imm i = store_imm j"
  "imm_l i = imm_l j \<longleftrightarrow> bits32 i 5 0 = bits32 j 5 0"
  "imm_n i = imm_n j \<longleftrightarrow> bits32 i 25 0 = bits32 j 25 0"
proof -
  have "store_imm i = store_imm j" if "(ucast (store_imm i) :: u16) = ucast (store_imm j)"
  proof -
    have *: "ucast (ucast v :: u16) = take_bit 16 v" for v :: u32
      by (rule bit_word_eqI) (auto simp: bit_simps)
    show ?thesis
      using arg_cong[OF that, of "ucast :: u16 \<Rightarrow> u32"] by (simp add: * store_imm_bits)
  qed
  then show "imm_i2 i = imm_i2 j \<longleftrightarrow> store_imm i = store_imm j"
    by (auto simp: imm_i2_def Let_def signed_word_eqI)
qed (simp_all add: imm_i_def imm_k_def imm_k2_def imm_l_def imm_n_def field_sign_extend
    sint_eq_iff)

lemma operand_no_separator [simp]:
  assumes "c \<in> {CHR '' '', CHR '','', CHR ''('', CHR '')''}"
  shows "c \<notin> set (reg_d i)" "c \<notin> set (reg_a i)" "c \<notin> set (reg_b i)" "c \<notin> set (imm_i i)"
    "c \<notin> set (imm_i2 i)" "c \<notin> set (imm_k i)" "c \<notin> set (imm_k2 i)" "c \<notin> set (imm_l i)"
    "c \<notin> set (imm_n i)"
proof -
  have "c \<notin> set digit_chars" using assms by (auto simp: digit_chars_def)
  note n = no_separator[OF this]
  show "c \<notin> set (reg_d i)" "c \<notin> set (reg_a i)" "c \<notin> set (reg_b i)" "c \<notin> set (imm_i i)"
    "c \<notin> set (imm_i2 i)" "c \<notin> set (imm_k i)" "c \<notin> set (imm_k2 i)" "c \<notin> set (imm_l i)"
    "c \<notin> set (imm_n i)"
    using assms n by (auto simp: reg_d_def reg_a_def reg_b_def imm_i_def imm_i2_def imm_k_def imm_k2_def
        imm_l_def imm_n_def show_signed_def show_unsigned_def Let_def)
qed

lemma separated_eq:
  assumes "c \<notin> set xs" "c \<notin> set ys"
  shows "xs @ c # as = ys @ c # bs \<longleftrightarrow> xs = ys \<and> as = bs"
  using assms by (induction xs arbitrary: ys) (case_tac ys; auto)+

section \<open>The names\<close>

lemma opcode_listed: "c \<in> set opcodes"
proof (cases c)
  case (O_misc x)
  then show ?thesis by (cases x) (simp_all add: opcodes_def)
next
  case (O_control x)
  then show ?thesis by (cases x) (simp_all add: opcodes_def)
next
  case (O_memory x)
  then show ?thesis by (cases x) (simp_all add: opcodes_def)
next
  case (O_extend x)
  then show ?thesis by (cases x) (simp_all add: opcodes_def)
next
  case (O_alu x)
  then show ?thesis by (cases x) (simp_all add: opcodes_def)
next
  case (O_alui x)
  then show ?thesis by (cases x) (simp_all add: opcodes_def)
next
  case (O_compare x)
  then show ?thesis by (cases x) (simp_all add: opcodes_def)
next
  case (O_comparei x)
  then show ?thesis by (cases x) (simp_all add: opcodes_def)
next
  case (O_mac x)
  then show ?thesis by (cases x) (simp_all add: opcodes_def)
next
  case (O_system x)
  then show ?thesis by (cases x) (simp_all add: opcodes_def)
next
  case (O_custom x)
  then show ?thesis by (cases x) (simp_all add: opcodes_def)
next
  case (O_orfpx32 x)
  then show ?thesis by (cases x) (simp_all add: opcodes_def)
next
  case (O_orfpx64 x)
  then show ?thesis by (cases x) (simp_all add: opcodes_def)
qed (simp add: opcodes_def)

lemma takeWhile_neq_nth:
  assumes "x \<in> set xs"
  shows "length (takeWhile (\<lambda>y. y \<noteq> x) xs) < length xs" "xs ! length (takeWhile (\<lambda>y. y \<noteq> x) xs) = x"
  using assms by (induction xs) auto

lemma opcode_number_nth: "opcodes ! opcode_number c = c"
  unfolding opcode_number_def by (rule takeWhile_neq_nth) (rule opcode_listed)

lemma table_length: "length g_opcode_str = length opcodes" "length opcodes = 127"
  by (simp_all add: g_opcode_str_def opcodes_def)

lemma opcode_number_bound: "opcode_number c < length g_opcode_str"
  unfolding opcode_number_def table_length(1) by (rule takeWhile_neq_nth) (rule opcode_listed)

lemma opcode_number_inj [simp]: "opcode_number c = opcode_number d \<longleftrightarrow> c = d"
  by (metis opcode_number_nth)

lemma names_distinct: "distinct g_opcode_str"
  by (simp add: g_opcode_str_def)

lemma opcode_name_inj [simp]:
  "g_opcode_str ! opcode_number c = g_opcode_str ! opcode_number d \<longleftrightarrow> c = d"
  using opcode_number_bound[of c] opcode_number_bound[of d]
  by (simp add: nth_eq_iff_index_eq names_distinct)

lemma names_without_space: "list_all (\<lambda>s. CHR '' '' \<notin> set s \<and> length s \<le> 10) (tl g_opcode_str)"
  by (simp add: g_opcode_str_def)

lemma opcode_name:
  assumes "c \<noteq> INVALID_OPCODE"
  shows "CHR '' '' \<notin> set (g_opcode_str ! opcode_number c)" "length (g_opcode_str ! opcode_number c) \<le> 10"
proof -
  have "opcode_number c \<noteq> opcode_number INVALID_OPCODE" using assms by simp
  then have "0 < opcode_number c" by (simp add: opcode_number_def opcodes_def)
  then obtain k where k: "opcode_number c = Suc k" by (cases "opcode_number c") auto
  then have "k < length (tl g_opcode_str)" using opcode_number_bound[of c] by simp
  then have "g_opcode_str ! opcode_number c \<in> set (tl g_opcode_str)"
    using nth_mem[of k "tl g_opcode_str"] by (simp only: k nth_tl)
  with names_without_space show "CHR '' '' \<notin> set (g_opcode_str ! opcode_number c)"
    "length (g_opcode_str ! opcode_number c) \<le> 10"
    by (auto simp: list_all_iff)
qed

section \<open>The text of an instruction\<close>

lemma os_puts: "os_width os = 0 \<Longrightarrow> os_text (fold os_put xs os) = os_text os @ concat xs"
  by (induction xs arbitrary: os) (simp_all add: os_put_def Let_def)

definition padded_name :: "opcode \<Rightarrow> string" where
  "padded_name c =
     (let s = g_opcode_str ! opcode_number c in s @ replicate (7 - length s) CHR '' '')"

lemma disassembly_text:
  "disassembly insn =
     (if decode insn = INVALID_OPCODE then ''invalid opcode''
      else padded_name (decode insn) @ concat (operand_texts (decode insn) insn))"
  by (simp add: disassembly_def disassemble_def os_puts stringstream_def os_put_def Let_def padded_name_def)

definition blank_first :: "string list \<Rightarrow> bool" where
  "blank_first xs \<longleftrightarrow> xs = [] \<or> hd xs = '' ''"

lemma blank_first_rules:
  "blank_first []" "blank_first ('' '' # xs)"
  "blank_first xs \<Longrightarrow> blank_first ys \<Longrightarrow> blank_first (if b then xs else ys)"
  by (simp_all add: blank_first_def)

lemma operand_texts_blank: "blank_first (operand_texts c insn)"
  unfolding operand_texts_def by (intro blank_first_rules)

lemma takeWhile_separator:
  assumes "c \<notin> set s" "r = [] \<or> hd r = c"
  shows "takeWhile (\<lambda>x. x \<noteq> c) (s @ r) = s"
  using assms by (induction s) (cases r; auto)+

text \<open>The name is what stands before the first space.\<close>

lemma padded_name_prefix:
  assumes "c \<noteq> INVALID_OPCODE"
  shows "takeWhile (\<lambda>x. x \<noteq> CHR '' '') (padded_name c @ concat (operand_texts c i)) = g_opcode_str ! opcode_number c"
proof -
  define s where "s = g_opcode_str ! opcode_number c"
  define r where "r = replicate (7 - length s) CHR '' '' @ concat (operand_texts c i)"
  have "r = [] \<or> hd r = CHR '' ''"
    using operand_texts_blank[of c i]
    by (cases "7 - length s"; cases "operand_texts c i") (auto simp: r_def blank_first_def)
  from takeWhile_separator[OF opcode_name(1)[OF assms, folded s_def] this]
  show ?thesis by (simp add: padded_name_def Let_def r_def s_def)
qed

lemma padded_name_eq:
  assumes "c \<noteq> INVALID_OPCODE" "d \<noteq> INVALID_OPCODE"
    and "padded_name c @ concat (operand_texts c i) = padded_name d @ concat (operand_texts d j)"
  shows "c = d"
  using padded_name_prefix[OF assms(1), of i] padded_name_prefix[OF assms(2), of j] assms(3) by simp

section \<open>The text determines the instruction\<close>

text \<open>The instructions whose operands are part of the text, and that have a handler.\<close>

definition shows_operands :: "opcode \<Rightarrow> bool" where
  "shows_operands c \<longleftrightarrow>
     (case c of
        INVALID_OPCODE \<Rightarrow> False
      | O_memory op \<Rightarrow> op \<noteq> ORBIS32_LWA \<and> op \<noteq> ORBIS32_SWA
      | O_mac op \<Rightarrow> False
      | O_system op \<Rightarrow> op \<noteq> ORBIS32_SYS \<and> op \<noteq> ORBIS32_TRAP
      | O_custom op \<Rightarrow> False
      | O_orfpx32 op \<Rightarrow> op \<noteq> ORFPX32_CUST1
      | O_orfpx64 op \<Rightarrow> op \<noteq> ORFPX64_CUST1
      | _ \<Rightarrow> True)"

definition same_operands :: "opcode \<Rightarrow> u32 \<Rightarrow> u32 \<Rightarrow> bool" where
  "same_operands c i j \<longleftrightarrow>
     shows_operands c \<and> concat (operand_texts c i) = concat (operand_texts c j)"

lemma word_field_eq:
  "push_bit 11 (bits32 i 25 21) OR bits32 i 10 0 = store_imm i"
  "push_bit 11 (bits32 i 25 21) OR push_bit 0 (bits32 i 10 0) = store_imm i"
  by (simp_all add: store_imm_def)

lemmas operand_eval = same_operands_def shows_operands_def operand_texts_def separated_eq append_assoc
  table_call_def handler_defs word_field_eq

lemma same_misc: "same_operands (O_misc x) i j \<Longrightarrow> decode_table (O_misc x) i pc ci = decode_table (O_misc x) j pc ci"
  by (cases x) (simp_all add: operand_eval)
lemma same_control:
  "same_operands (O_control x) i j \<Longrightarrow> decode_table (O_control x) i pc ci = decode_table (O_control x) j pc ci"
  by (cases x) (simp_all add: operand_eval)
lemma same_memory:
  "same_operands (O_memory x) i j \<Longrightarrow> decode_table (O_memory x) i pc ci = decode_table (O_memory x) j pc ci"
  by (cases x) (simp_all add: operand_eval)
lemma same_extend:
  "same_operands (O_extend x) i j \<Longrightarrow> decode_table (O_extend x) i pc ci = decode_table (O_extend x) j pc ci"
  by (cases x) (simp_all add: operand_eval)
lemma same_alu:
  "same_operands (O_alu x) i j \<Longrightarrow> decode_table (O_alu x) i pc ci = decode_table (O_alu x) j pc ci"
  by (cases x) (simp_all add: operand_eval)
lemma same_alui:
  "same_operands (O_alui x) i j \<Longrightarrow> decode_table (O_alui x) i pc ci = decode_table (O_alui x) j pc ci"
  by (cases x) (simp_all add: operand_eval)
lemma same_compare:
  "same_operands (O_compare x) i j \<Longrightarrow> decode_table (O_compare x) i pc ci = decode_table (O_compare x) j pc ci"
  by (cases x) (simp_all add: operand_eval)
lemma same_comparei:
  "same_operands (O_comparei x) i j \<Longrightarrow> decode_table (O_comparei x) i pc ci = decode_table (O_comparei x) j pc ci"
  by (cases x) (simp_all add: operand_eval)
lemma same_system:
  "same_operands (O_system x) i j \<Longrightarrow> decode_table (O_system x) i pc ci = decode_table (O_system x) j pc ci"
  by (cases x) (simp_all add: operand_eval)
lemma same_orfpx32:
  "same_operands (O_orfpx32 x) i j \<Longrightarrow> decode_table (O_orfpx32 x) i pc ci = decode_table (O_orfpx32 x) j pc ci"
  by (cases x) (simp_all add: operand_eval)
lemma same_orfpx64:
  "same_operands (O_orfpx64 x) i j \<Longrightarrow> decode_table (O_orfpx64 x) i pc ci = decode_table (O_orfpx64 x) j pc ci"
  by (cases x) (simp_all add: operand_eval)

lemmas same_group = same_misc same_control same_memory same_extend same_alu same_alui same_compare
  same_comparei same_system same_orfpx32 same_orfpx64

lemma same_operands_decode: "same_operands c i j \<Longrightarrow> decode_table c i pc ci = decode_table c j pc ci"
  by (cases c) (auto dest: same_group simp del: decode_table.simps, simp_all add: same_operands_def shows_operands_def)

text \<open>C23:
  The disassembly of an instruction determines it: two instruction words with the same text have the
  same opcode and are decoded to the same operands and the same execute function. This holds for every
  instruction except \<^verbatim>\<open>l.lwa\<close>, \<^verbatim>\<open>l.swa\<close>, the multiply-accumulate group, \<^verbatim>\<open>l.sys\<close> and \<^verbatim>\<open>l.trap\<close>, whose
  operands are not shown, and the custom instructions, which are not decoded.
\<close>

theorem disassembly_determines_insn:
  assumes "disassembly i = disassembly j" "shows_operands (decode i)"
  shows "decode j = decode i \<and> decode_table (decode j) j pc ci = decode_table (decode i) i pc ci"
proof -
  have i: "decode i \<noteq> INVALID_OPCODE" using assms(2) by (auto simp: shows_operands_def)
  have j: "decode j \<noteq> INVALID_OPCODE"
  proof
    assume "decode j = INVALID_OPCODE"
    with assms(1) i have "padded_name (decode i) @ concat (operand_texts (decode i) i) = ''invalid opcode''"
      by (simp add: disassembly_text)
    from padded_name_prefix[OF i, of i] this
    have "g_opcode_str ! opcode_number (decode i) = ''invalid''" by simp
    then have "''invalid'' \<in> set g_opcode_str" using opcode_number_bound[of "decode i"] by (metis nth_mem)
    then show False by (simp add: g_opcode_str_def)
  qed
  have t: "padded_name (decode i) @ concat (operand_texts (decode i) i) =
      padded_name (decode j) @ concat (operand_texts (decode j) j)"
    using assms(1) i j by (simp add: disassembly_text)
  note d = padded_name_eq[OF i j t]
  have "same_operands (decode i) i j" using t d assms(2) by (simp add: same_operands_def)
  from same_operands_decode[OF this, of pc ci] d show ?thesis by simp
qed

lemma replicate_two: "replicate 2 c = [c, c]"
  by (simp add: numeral_2_eq_2)

lemma disassembly_demo:
  "disassembly 0x9c64ffff = ''l.addi  r3,r4,-1''" "disassembly 0xe0632800 = ''l.add   r3,r3,r5''"
  "disassembly 0xe0632810 = ''l.add   r3,r3,r5''"
  "decode 0xe0632800 = O_alu ORBIS32_ADD" 
  by (simp_all add: disassembly_text decode_def decode_alu_def alu_table_0_def opcode6_table_def Let_def bits32_def
      padded_name_def opcode_number_def opcodes_def g_opcode_str_def operand_texts_def reg_d_def reg_a_def
      reg_b_def imm_i_def show_signed_def show_dec_def show_base.simps digit_chars_def sign_extend32_def
      replicate_two)

theorem disassembly_determines_insn_witness:
  "decode 0xe0632810 = decode 0xe0632800 \<and>
   decode_table (decode 0xe0632810) 0xe0632810 0 zero_insn = decode_table (decode 0xe0632800) 0xe0632800 0 zero_insn"
  by (rule disassembly_determines_insn) (simp_all add: disassembly_demo shows_operands_def)

section \<open>The length of the text\<close>

lemma length_show:
  "n < 10 ^ Suc k \<Longrightarrow> length (show_dec n) \<le> Suc k" "n < 16 ^ Suc k \<Longrightarrow> length (show_hex n) \<le> Suc k"
  by (simp_all add: show_dec_def show_hex_def length_show_base del: power_Suc)

lemma length_show_unsigned: "unat v < 16 ^ Suc k \<Longrightarrow> length (show_unsigned v) \<le> k + 3"
  using length_show(2)[of "unat v" k] by (simp add: show_unsigned_def)

lemma length_show_signed:
  assumes "i < 16 ^ Suc k" "- (10 ^ Suc l) < i" "l \<le> Suc k"
  shows "length (show_signed i) \<le> k + 3"
proof (cases "0 \<le> i")
  case True
  then have "nat i < 16 ^ Suc k" using assms(1) by (simp add: nat_less_iff)
  from length_show(2)[OF this] True show ?thesis by (simp add: show_signed_def)
next
  case False
  then have "nat (- i) < 10 ^ Suc l" using assms(2) by (simp add: nat_less_iff)
  from length_show(1)[OF this] False assms(3) show ?thesis by (simp add: show_signed_def)
qed

lemma sint_field_bounds:
  assumes "l < 32"
  shows "sint (sign_extend32 v l) < 2 ^ l" "- (2 ^ l) \<le> sint (sign_extend32 v l)"
  using assms by (simp_all add: sint_sign_extend32 signed_take_bit_int_less_exp signed_take_bit_int_greater_eq_minus_exp)

lemma length_operands:
  "length (reg_d i) \<le> 3" "length (reg_a i) \<le> 3" "length (reg_b i) \<le> 3"
  "length (imm_i i) \<le> 6" "length (imm_i2 i) \<le> 6" "length (imm_k i) \<le> 6" "length (imm_k2 i) \<le> 6"
  "length (imm_l i) \<le> 4" "length (imm_n i) \<le> 9"
proof -
  have r: "length (show_dec (unat (bits32 i l r))) \<le> 2" if "r \<le> l" "l < 32" "l - r = 4" for l r
    using unat_bits32_less[OF that(1,2), of i] that(3) length_show(1)[of "unat (bits32 i l r)" 1] by simp
  show "length (reg_d i) \<le> 3" "length (reg_a i) \<le> 3" "length (reg_b i) \<le> 3"
    using r[of 21 25] r[of 16 20] r[of 11 15] by (simp_all add: reg_d_def reg_a_def reg_b_def)
  show "length (imm_k i) \<le> 6" "length (imm_l i) \<le> 4"
    using unat_bits32_less[of 0 15 i] unat_bits32_less[of 0 5 i]
      length_show_unsigned[of "bits32 i 15 0" 3] length_show_unsigned[of "bits32 i 5 0" 1]
    by (simp_all add: imm_k_def imm_l_def)
  have "unat (store_imm i) < 2 ^ 16"
    using store_imm_bits[of i] by (metis take_bit_nat_less_exp unsigned_take_bit_eq)
  then show "length (imm_k2 i) \<le> 6"
    using length_show_unsigned[of "store_imm i" 3] by (simp add: imm_k2_def)
  show "length (imm_i i) \<le> 6" "length (imm_n i) \<le> 9"
    using sint_field_bounds[of 15 i] sint_field_bounds[of 25 i] length_show_signed[of "sint (sign_extend32 i 15)" 3 4]
      length_show_signed[of "sint (sign_extend32 i 25)" 6 7] by (simp_all add: imm_i_def imm_n_def)
  have "sint w < 2 ^ 15" "- (2 ^ 15) \<le> sint w" for w :: u16
    using sint_lt[of w] sint_ge[of w] by simp_all
  from this[of "ucast (store_imm i)"] show "length (imm_i2 i) \<le> 6"
    using length_show_signed[of "sint (ucast (store_imm i) :: u16)" 3 4] by (simp add: imm_i2_def Let_def)
qed

definition is_float :: "opcode \<Rightarrow> bool" where
  "is_float c \<longleftrightarrow> (case c of O_orfpx32 _ \<Rightarrow> True | O_orfpx64 _ \<Rightarrow> True | _ \<Rightarrow> False)"

lemma names_short:
  "list_all (\<lambda>(c, s). length s \<le> (if c = INVALID_OPCODE then 14 else if is_float c then 10 else 8))
     (zip opcodes g_opcode_str)"
  by (simp add: opcodes_def g_opcode_str_def is_float_def)

lemma length_padded_name:
  assumes "c \<noteq> INVALID_OPCODE"
  shows "length (padded_name c) \<le> (if is_float c then 10 else 8)"
proof -
  have "(c, g_opcode_str ! opcode_number c) \<in> set (zip opcodes g_opcode_str)"
    using opcode_number_bound[of c] opcode_number_nth[of c] in_set_zip[of "(c, g_opcode_str ! opcode_number c)"]
    by (auto simp: table_length(1))
  with names_short assms have "length (g_opcode_str ! opcode_number c) \<le> (if is_float c then 10 else 8)"
    by (auto simp: list_all_iff split: if_splits)
  then show ?thesis by (auto simp: padded_name_def Let_def)
qed

definition at_most :: "nat \<Rightarrow> string list \<Rightarrow> bool" where
  "at_most n xs \<longleftrightarrow> length (concat xs) \<le> n"

lemma at_most_if: "at_most n xs \<Longrightarrow> at_most n ys \<Longrightarrow> at_most n (if b then xs else ys)"
  by simp

lemma length_operand_texts: "at_most 16 (operand_texts c i)"
  unfolding operand_texts_def
  by (intro at_most_if; insert length_operands[of i]; simp add: at_most_def)

lemma length_float_operands: "is_float c \<Longrightarrow> at_most 12 (operand_texts c i)"
proof (cases c)
  case (O_orfpx32 x)
  then show ?thesis using length_operands[of i] by (cases x) (simp_all add: operand_texts_def at_most_def)
next
  case (O_orfpx64 x)
  then show ?thesis using length_operands[of i] by (cases x) (simp_all add: operand_texts_def at_most_def)
qed (simp_all add: is_float_def)

lemma length_disassembly: "length (disassembly insn) \<le> 24"
proof (cases "decode insn = INVALID_OPCODE")
  case True
  then show ?thesis by (simp add: disassembly_text)
next
  case False
  then show ?thesis
    using length_padded_name[OF False] length_operand_texts[of "decode insn" insn]
      length_float_operands[of "decode insn" insn]
    by (cases "is_float (decode insn)") (simp_all add: disassembly_text at_most_def)
qed

end
