(* ===== verification/Tracing.thy ===== *)
theory Tracing
  imports Execute_Fp Disasm
begin

text \<open>
  The trace of the executed instructions (\<^verbatim>\<open>src/or1kiss/tracing.cpp\<close>): the line for one instruction,
  composed by successive \<^verbatim>\<open>snprintf\<close> calls in a buffer on the stack. A call writes behind what the
  ones before it have written, as far as the buffer goes, and counts the characters it would have
  written; the last one, a plain \<^verbatim>\<open>sprintf\<close>, does not look at the size of the buffer. The theorem gives
  the line and says when it does not fit.
\<close>

section \<open>The line of an instruction\<close>

definition OR1KISS_TRACE_MAXLEN :: nat where "OR1KISS_TRACE_MAXLEN = 80"

definition fill_left :: "nat \<Rightarrow> char \<Rightarrow> string \<Rightarrow> string" where
  "fill_left w c s = replicate (w - length s) c @ s"

definition fill_right :: "nat \<Rightarrow> char \<Rightarrow> string \<Rightarrow> string" where
  "fill_right w c s = s @ replicate (w - length s) c"

text \<open>\<^verbatim>\<open>%0wx\<close> of a 32-bit word.\<close>

definition hex_field :: "nat \<Rightarrow> u32 \<Rightarrow> string" where
  "hex_field w v = fill_left w CHR ''0'' (show_hex (unat v))"

text \<open>The buffer up to its null character, and the count \<^verbatim>\<open>n\<close>.\<close>

type_synonym trace_buffer = "string \<times> nat"

definition trace_snprintf :: "string \<Rightarrow> trace_buffer \<Rightarrow> trace_buffer res" where
  "trace_snprintf t b =
     (let (buffer, n) = b
      in bindE (assertE (n \<le> OR1KISS_TRACE_MAXLEN) Host_fault) (\<lambda>_.
         Inr (take n buffer @ take (OR1KISS_TRACE_MAXLEN - n - 1) t, n + length t)))"

definition trace_sprintf :: "string \<Rightarrow> trace_buffer \<Rightarrow> string res" where
  "trace_sprintf t b =
     (let (buffer, n) = b
      in bindE (assertE (n + length t + 1 \<le> OR1KISS_TRACE_MAXLEN) Host_fault) (\<lambda>_. Inr (take n buffer @ t)))"

definition trace_head :: "u32 \<Rightarrow> or1k \<Rightarrow> string" where
  "trace_head trace_insn s =
     (let trace_mode = (if m_status s AND SR_SM \<noteq> 0 then ''S'' else ''U'')
      in trace_mode @ '' '' @ hex_field 8 (m_next_pc s) @ '': '' @ hex_field 8 trace_insn @ '' '' @
         fill_right 24 CHR '' '' (disassembly trace_insn))"

text \<open>
  What the \<^verbatim>\<open>switch\<close> adds. Its default tests whether the destination lies within \<^verbatim>\<open>sizeof(gpr)\<close> elements
  of the register file, four times the number of registers.
\<close>

definition trace_operands :: "instruction \<Rightarrow> or1k \<Rightarrow> string res" where
  "trace_operands ci s =
     (let code = decode (i_insn ci);
          store = (\<lambda>w pad. bindE (get_op ci (i_src2 ci) s) (\<lambda>v.
            Inr (''['' @ hex_field 8 (m_trace_addr s) @ ''] = '' @ hex_field w v @ fill_left pad CHR '' '' '' '')));
          blank = fill_left 22 CHR '' '' '' ''
      in if code = O_misc ORBIS32_MTSPR
         then bindE (get_op ci (i_dest ci) s) (\<lambda>d.
              let regnum = d OR i_imm ci; regval = get_spr regnum True s
              in Inr (''SPR['' @ hex_field 4 regnum @ '']  = '' @ hex_field 8 regval @ '' ''))
         else if code = O_memory ORBIS32_SW then store 8 1
         else if code = O_memory ORBIS32_SH then store 4 5
         else if code = O_memory ORBIS32_SB then store 2 7
         else case i_dest ci of
                PGpr n \<Rightarrow>
                  if n < 4 * 32
                  then bindE (get_op ci (i_dest ci) s) (\<lambda>v.
                       Inr (''r'' @ fill_right 10 CHR '' '' (show_dec n) @ ''= '' @ hex_field 8 v @ '' ''))
                  else Inr blank
              | _ \<Rightarrow> Inr blank)"

definition trace_flag :: "or1k \<Rightarrow> string" where
  "trace_flag s = '' flag: '' @ (if m_status s AND SR_F \<noteq> 0 then ''1'' else ''0'')"

definition do_trace :: "instruction \<Rightarrow> or1k \<Rightarrow> or1k res" where
  "do_trace ci s =
     bindE (trace_snprintf (trace_head (i_insn ci) s) ([], 0)) (\<lambda>b.
     bindE (trace_operands ci s) (\<lambda>t.
     bindE (trace_snprintf t b) (\<lambda>b.
     bindE (trace_sprintf (trace_flag s) b) (\<lambda>buffer.
     Inr (emit (Out_trace buffer)
            (s\<lparr>m_user_trace_stream :=
                 (case m_user_trace_stream s of None \<Rightarrow> Some Stream_cerr | Some x \<Rightarrow> Some x)\<rparr>))))))"

section \<open>When the line fits\<close>

lemma length_fill [simp]:
  "length (fill_left w c s) = max w (length s)" "length (fill_right w c s) = max w (length s)"
  by (simp_all add: fill_left_def fill_right_def)

lemma show_base_long: "2 \<le> b \<Longrightarrow> b ^ k \<le> n \<Longrightarrow> k < length (show_base b n)"
proof (induction k arbitrary: n)
  case 0
  show ?case by (subst show_base.simps) simp
next
  case (Suc k)
  have "b \<le> b * b ^ k" using Suc.prems(1) by simp
  also have "\<dots> \<le> n" using Suc.prems(2) by simp
  finally have b: "\<not> n < b" by simp
  have "b ^ k \<le> n div b" using Suc.prems by (simp add: less_eq_div_iff_mult_less_eq mult.commute)
  with Suc.IH[of "n div b"] Suc.prems b show ?case by (subst show_base.simps) simp
qed

lemma length_show_hex: "length (show_hex n) \<le> Suc k \<longleftrightarrow> n < 16 ^ Suc k"
proof (cases "n < 16 ^ Suc k")
  case True
  with length_show(2)[OF True] show ?thesis by simp
next
  case False
  then have "16 ^ Suc k \<le> n" by (simp del: power_Suc)
  from show_base_long[OF _ this] False show ?thesis by (simp add: show_hex_def del: power_Suc)
qed

lemma length_hex_word: "length (show_hex (unat (v :: u32))) \<le> 8"
  using length_show_hex[of "unat v" 7] unsigned_less[of v] by simp

lemma length_hex_field: "length (hex_field 8 v) = 8" "length (hex_field w v) \<le> max w 8"
  using length_hex_word[of v] by (simp_all add: hex_field_def)

lemma length_trace_head: "length (trace_head w s) = 45"
  using length_disassembly[of w] by (simp add: trace_head_def Let_def length_hex_field)

lemma length_trace_flag: "length (trace_flag s) = 8"
  by (simp add: trace_flag_def)

text \<open>The store byte prints its whole operand in a field that leaves room for two digits.\<close>

definition long_byte :: "instruction \<Rightarrow> or1k \<Rightarrow> bool" where
  "long_byte ci s \<longleftrightarrow> decode (i_insn ci) = O_memory ORBIS32_SB \<and>
     (case get_op ci (i_src2 ci) s of Inr v \<Rightarrow> 0x1000000 \<le> v | Inl _ \<Rightarrow> False)"

lemma long_word: "length (show_hex (unat (v :: u32))) \<le> 6 \<longleftrightarrow> v < 0x1000000"
  using length_show_hex[of "unat v" 5] by (simp add: word_less_nat_alt)

lemma trace_operands_length:
  assumes "trace_operands ci s = Inr t"
  shows "length t \<le> 26 \<longleftrightarrow> \<not> long_byte ci s"
proof (cases "decode (i_insn ci) = O_memory ORBIS32_SB")
  case True
  then obtain v where "get_op ci (i_src2 ci) s = Inr v"
    "t = ''['' @ hex_field 8 (m_trace_addr s) @ ''] = '' @ hex_field 2 v @ fill_left 7 CHR '' '' '' ''"
    using assms by (auto simp: trace_operands_def Let_def bindE_eq_Inr)
  then show ?thesis
    using True long_word[of v] length_hex_word[of "m_trace_addr s"]
    by (auto simp: long_byte_def length_hex_field hex_field_def not_less)
next
  case False
  have "length (hex_field 4 v) \<le> 8" "length (hex_field 8 v) = 8" for v
    using length_hex_field(2)[of 4 v] by (simp_all add: length_hex_field)
  moreover have "length (show_dec n) \<le> 10" if "n < 4 * 32" for n
    using that length_show(1)[of n 2] by simp
  ultimately show ?thesis
    using assms False
    by (auto simp: trace_operands_def Let_def bindE_eq_Inr long_byte_def split: if_splits operand.splits)
qed

text \<open>C22:
  What tracing does with an instruction whose operands can be read: the line is the mode, address, word
  and disassembly of the instruction, its operands and the flag, and goes to the stream, which is the
  standard error stream when none was given. It fits into the buffer of 80 characters for every
  instruction but one: the trace of \<^verbatim>\<open>l.sb\<close> writes behind the buffer when the stored register holds
  \<^verbatim>\<open>0x1000000\<close> or more, because the whole register is printed in a line laid out for its lowest byte.
\<close>

theorem trace_line_fits_unless_long_byte:
  "do_trace ci s =
     bindE (trace_operands ci s) (\<lambda>t.
       if long_byte ci s then Inl Host_fault
       else Inr (emit (Out_trace (trace_head (i_insn ci) s @ t @ trace_flag s))
                   (s\<lparr>m_user_trace_stream :=
                        (case m_user_trace_stream s of None \<Rightarrow> Some Stream_cerr | Some x \<Rightarrow> Some x)\<rparr>)))"
proof (cases "trace_operands ci s")
  case (Inl e)
  then show ?thesis
    by (simp add: do_trace_def trace_snprintf_def)
next
  case (Inr t)
  then show ?thesis
    using trace_operands_length[OF Inr] length_trace_head[of "i_insn ci" s] length_trace_flag[of s]
    by (auto simp: do_trace_def trace_snprintf_def trace_sprintf_def OR1KISS_TRACE_MAXLEN_def assertE_def)
qed

text \<open>Such an instruction, \<^verbatim>\<open>l.sb 0x0(r3),r5\<close>.\<close>

definition store_byte_insn :: instruction where
  "store_byte_insn = zero_insn\<lparr>i_insn := 0xd8032800, i_src1 := PGpr 3, i_src2 := PGpr 5\<rparr>"

lemma store_byte_overflows:
  assumes "length (gpr s) = 32" "0x1000000 \<le> gpr s ! 5"
  shows "long_byte store_byte_insn s"
  using assms by (simp add: long_byte_def store_byte_insn_def get_op_def decode_def Let_def bits32_def
    opcode6_table_def)

end
