(* ===== verification/Or1k.thy ===== *)
theory Or1k
  imports Tracing
begin

text \<open>
  The simulator itself (\<^verbatim>\<open>src/or1kiss/or1k.cpp\<close>, \<^verbatim>\<open>include/or1kiss/or1k.h\<close>): its
  constructor, the fetch and decode of an instruction, one cycle, the mini-quantum between two events of the timer, and the public operations. A loop takes fuel and
  is \<open>None\<close> when the fuel runs out, so that an error of the program and a loop that has not ended are
  different values.
\<close>

section \<open>Construction\<close>

definition MMU_CONFIG :: u32 where
  "MMU_CONFIG = MMUCFG_NTS128 OR MMUCFG_NTW4 OR MMUCFG_CRI OR MMUCFG_HTR OR MMUCFG_TEIRI"

text \<open>\<open>block\<close> is the content of the allocated decode cache before it is invalidated.\<close>

definition new_or1k :: "env \<Rightarrow> nat \<Rightarrow> (u32 \<Rightarrow> instruction) \<Rightarrow> or1k res" where
  "new_or1k e sz block =
     bindE (new_mmu MMU_CONFIG True) (\<lambda>dmmu.
     bindE (new_mmu MMU_CONFIG True) (\<lambda>immu.
     Inr (power_on e (new_decode_cache sz block) dmmu immu)))"

section \<open>Fetch\<close>

definition abort_fetch :: "exception_prio \<Rightarrow> or1k \<Rightarrow> (instruction option \<times> or1k) res" where
  "abort_fetch type s = bindE (exception type (req_addr (m_ireq s)) s) (\<lambda>s. Inr (None, s))"

text \<open>
  The translation of the program counter, with the page of the last one remembered in
  \<^verbatim>\<open>m_virt_ipg\<close> and \<^verbatim>\<open>m_phys_ipg\<close>.
\<close>

definition fetch_translate :: "host \<Rightarrow> or1k \<Rightarrow> (mmu_result \<times> or1k) res" where
  "fetch_translate h s0 =
     (let s = s0\<lparr>m_ireq := (m_ireq s0)\<lparr>m_super := is_supervisor s0, req_addr := m_next_pc s0,
                                        req_cycles := 0\<rparr>\<rparr>
      in if is_immu_active s
         then if page_compare (m_virt_ipg s) (m_next_pc s)
              then Inr (MMU_OKAY,
                        s\<lparr>m_ireq := (m_ireq s)\<lparr>req_addr := m_phys_ipg s OR page_offset (m_next_pc s)\<rparr>\<rparr>)
              else bindE (translate (h_env h) (m_ireq s) (m_immu s) (m_env s)) (\<lambda>(r, req, t, e).
                   let s = s\<lparr>m_ireq := req, m_immu := t, m_env := e\<rparr>
                   in Inr (r, if r = MMU_OKAY
                              then s\<lparr>m_virt_ipg := page_align (m_next_pc s),
                                     m_phys_ipg := page_align (req_addr (m_ireq s))\<rparr>
                              else s))
         else Inr (MMU_OKAY, s))"

text \<open>
  The instruction word: directly from host memory, whose bytes are swapped whatever the
  environment's order, or through the port, which stores it in \<^verbatim>\<open>m_insn\<close>.
\<close>

definition fetch_word :: "host \<Rightarrow> or1k \<Rightarrow> (response \<times> or1k) res" where
  "fetch_word h s =
     (case get_insn_ptr (m_env s) (req_addr (m_ireq s)) of
        Some p \<Rightarrow>
          bindE (load_bytes (host_mem (m_env s)) p 4) (\<lambda>bs.
          Inr (RESP_SUCCESS, s\<lparr>m_insn := byte_swap32 (of_le_bytes bs)\<rparr>))
      | None \<Rightarrow>
          bindE (convert_and_transact (h_env h) ((m_ireq s)\<lparr>req_data := le_bytes 4 (m_insn s)\<rparr>) (m_env s))
            (\<lambda>(resp, req, e).
          Inr (resp, s\<lparr>m_ireq := req, m_env := e, m_insn := of_le_bytes (req_data req)\<rparr>)))"

text \<open>Decoding into the slot of the decode cache.\<close>

definition fetch_decode :: "or1k \<Rightarrow> (instruction option \<times> or1k) res" where
  "fetch_decode s =
     (let code = decode (m_insn s)
      in if code = INVALID_OPCODE then abort_fetch EX_ILLEGAL_INSN s
         else if code = O_custom ORBIS32_CUST1 then abort_fetch EX_ILLEGAL_INSN s
         else let addr = req_addr (m_ireq s);
                  insn = zero_insn\<lparr>i_addr := addr, i_insn := m_insn s\<rparr>
              in bindE (decode_table code (m_insn s) (m_next_pc s) insn) (\<lambda>insn.
                 Inr (Some insn, s\<lparr>m_decode_cache := dc_store addr insn (m_decode_cache s),
                                   m_compiles := m_compiles s + 1\<rparr>)))"

definition fetch :: "host \<Rightarrow> or1k \<Rightarrow> (instruction option \<times> or1k) res" where
  "fetch h s =
     bindE (fetch_translate h s) (\<lambda>(r, s).
     case r of
       MMU_TLB_MISS \<Rightarrow> abort_fetch EX_INSN_TLB_MISS s
     | MMU_PAGE_FAULT \<Rightarrow> abort_fetch EX_INSN_PAGE_FAULT s
     | MMU_OKAY \<Rightarrow>
         let insn = dc_lookup (req_addr (m_ireq s)) (m_decode_cache s)
         in if i_addr insn = req_addr (m_ireq s) \<and> \<not> is_decode_cache_off s
            then Inr (Some insn, s\<lparr>m_insn := i_insn insn\<rparr>)
            else bindE (fetch_word h s) (\<lambda>(resp, s).
                 case resp of
                   RESP_ERROR \<Rightarrow> abort_fetch EX_INSN_BUS_ERROR s
                 | RESP_FAILED \<Rightarrow> Inl Invalid_port_response
                 | RESP_SUCCESS \<Rightarrow> fetch_decode s))"

section \<open>The trace stream\<close>

definition trace_to :: "trace_stream \<Rightarrow> or1k \<Rightarrow> or1k res" where
  "trace_to st s =
     (if m_user_trace_stream s \<noteq> None then Inl Trace_stream_already_specified
      else Inr (s\<lparr>m_user_trace_stream := Some st, m_trace_enabled := True\<rparr>))"

section \<open>One cycle\<close>

definition begin_cycle :: "or1k \<Rightarrow> or1k" where
  "begin_cycle s = s\<lparr>m_cycles := m_cycles s + 1, m_instructions := m_instructions s + 1\<rparr>"

definition execute_fetched :: "host \<Rightarrow> instruction option \<Rightarrow> or1k \<Rightarrow> or1k res" where
  "execute_fetched h insn s =
     (case insn of
        None \<Rightarrow> Inr s
      | Some ci \<Rightarrow>
          bindE (execute (i_exec ci) h ci s) (\<lambda>s.
          if m_trace_enabled s then do_trace ci s else Inr s))"

definition restore_fixed :: "or1k \<Rightarrow> or1k" where
  "restore_fixed s = s\<lparr>m_status := m_status s OR SR_FO, gpr := (gpr s)[0 := 0]\<rparr>"

definition update_pc :: "u64 \<Rightarrow> or1k \<Rightarrow> u64 \<times> or1k" where
  "update_pc limit s =
     (let s = s\<lparr>m_prev_pc := m_next_pc s, m_next_pc := m_next_pc s + 4\<rparr>
      in if m_instructions s = m_jump_insn s
         then let s = s\<lparr>m_next_pc := m_jump_target s\<rparr> in (min limit (next_breakpoint s), s)
         else (limit, s))"

definition cycle :: "host \<Rightarrow> u64 \<Rightarrow> or1k \<Rightarrow> (u64 \<times> or1k) res" where
  "cycle h limit s =
     bindE (fetch h (begin_cycle s)) (\<lambda>(insn, s).
     bindE (execute_fetched h insn s) (\<lambda>s.
     Inr (update_pc limit (restore_fixed s))))"

section \<open>The simulation loop\<close>

text \<open>Loops with fuel over computations that may fail.\<close>

definition bindF :: "'a res option \<Rightarrow> ('a \<Rightarrow> 'b res option) \<Rightarrow> 'b res option" where
  "bindF m f = (case m of None \<Rightarrow> None | Some (Inl e) \<Rightarrow> Some (Inl e) | Some (Inr x) \<Rightarrow> f x)"

text \<open>The inner loop; the flag of the result tells whether an exit was requested.\<close>

fun mini_quantum :: "nat \<Rightarrow> host \<Rightarrow> u64 \<Rightarrow> or1k \<Rightarrow> (bool \<times> or1k) res option" where
  "mini_quantum 0 h limit s = None"
| "mini_quantum (Suc n) h limit s =
     (if m_cycles s < limit
      then bindF (Some (cycle h limit s)) (\<lambda>(limit, s).
           if m_stop_requested s then Some (Inr (True, s))
           else if m_break_requested s then Some (Inr (False, s))
           else if wpe_hit (m_wp_event s) then Some (Inr (False, s))
           else mini_quantum n h limit s)
      else Some (Inr (False, s)))"

definition clear_requests :: "or1k \<Rightarrow> or1k" where
  "clear_requests s =
     s\<lparr>m_wp_event := (m_wp_event s)\<lparr>wpe_hit := False\<rparr>, m_stop_requested := False,
       m_break_requested := False\<rparr>"

definition quantum_limit :: "or1k \<Rightarrow> u64" where
  "quantum_limit s =
     (let limit = min (m_limit s) (next_breakpoint s)
      in if tick_enabled (m_tick s) then min limit (m_cycles s + next_tick (m_tick s)) else limit)"

definition external_exception :: "or1k \<Rightarrow> or1k res" where
  "external_exception s = (if m_pic_sr s AND m_pic_mr s \<noteq> 0 then exception EX_EXTERNAL 0 s else Inr s)"

text \<open>The outer loop.\<close>

fun quanta :: "nat \<Rightarrow> host \<Rightarrow> or1k \<Rightarrow> (step_result \<times> or1k) res option" where
  "quanta 0 h s = None"
| "quanta (Suc n) h s =
     (if m_cycles s < m_limit s
      then let s = clear_requests s
           in bindF (mini_quantum (Suc n) h (quantum_limit s) s) (\<lambda>(stop, s).
              if stop then Some (Inr (STEP_EXIT, s))
              else bindF (Some (bindE (update_timer s) external_exception)) (\<lambda>s.
                   if breakpoint_hit s then Some (Inr (STEP_BREAKPOINT, s))
                   else if watchpoint_hit s then Some (Inr (STEP_WATCHPOINT, s))
                   else quanta n h s))
      else Some (Inr (STEP_OK, s)))"

definition advance_begin :: "host \<Rightarrow> u32 \<Rightarrow> or1k \<Rightarrow> or1k res" where
  "advance_begin h cycles s =
     bindE (external_exception (s\<lparr>m_limit := m_cycles s + ucast cycles\<rparr>)) (doze h)"

definition advance :: "nat \<Rightarrow> host \<Rightarrow> u32 \<Rightarrow> or1k \<Rightarrow> (step_result \<times> or1k) res option" where
  "advance n h cycles s = bindF (Some (advance_begin h cycles s)) (quanta n h)"

text \<open>\<^verbatim>\<open>step\<close> reports back through its argument how many cycles it has run.\<close>

definition step :: "nat \<Rightarrow> host \<Rightarrow> u32 \<Rightarrow> or1k \<Rightarrow> (step_result \<times> u32 \<times> or1k) res option" where
  "step n h cycles s =
     bindF (advance n h cycles s) (\<lambda>(sr, s). Some (Inr (sr, cycles + ucast (m_cycles s - m_limit s), s)))"

text \<open>\<^verbatim>\<open>run\<close> makes at most \<open>k\<close> quanta here, each with the fuel \<open>n\<close>.\<close>

fun run :: "nat \<Rightarrow> nat \<Rightarrow> host \<Rightarrow> u32 \<Rightarrow> or1k \<Rightarrow> (step_result \<times> or1k) res option" where
  "run 0 n h quantum s = None"
| "run (Suc k) n h quantum s =
     bindF (advance n h quantum s) (\<lambda>(sr, s).
       if sr = STEP_OK then run k n h quantum s else Some (Inr (sr, s)))"

section \<open>Small public operations\<close>

definition is_interrupt_pending_no :: "nat \<Rightarrow> or1k \<Rightarrow> bool" where
  "is_interrupt_pending_no no s \<longleftrightarrow> (m_pic_sr s AND m_pic_mr s) AND push_bit no 1 \<noteq> 0"

definition allow_sleep :: "bool \<Rightarrow> or1k \<Rightarrow> or1k" where "allow_sleep b s = s\<lparr>m_allow_sleep := b\<rparr>"
definition set_clock :: "u32 \<Rightarrow> or1k \<Rightarrow> or1k" where "set_clock clk s = s\<lparr>m_clock := ucast clk\<rparr>"
definition set_core_id :: "u32 \<Rightarrow> or1k \<Rightarrow> or1k" where "set_core_id n s = s\<lparr>m_core_id := n\<rparr>"
definition set_numcores :: "u32 \<Rightarrow> or1k \<Rightarrow> or1k" where "set_numcores n s = s\<lparr>m_num_cores := n\<rparr>"
definition reset_cycles :: "or1k \<Rightarrow> or1k" where "reset_cycles s = s\<lparr>m_cycles := 0\<rparr>"
definition reset_instructions :: "or1k \<Rightarrow> or1k" where "reset_instructions s = s\<lparr>m_instructions := 0\<rparr>"
definition reset_compiles :: "or1k \<Rightarrow> or1k" where "reset_compiles s = s\<lparr>m_compiles := 0\<rparr>"
definition reset_sleep_cycles :: "or1k \<Rightarrow> or1k" where "reset_sleep_cycles s = s\<lparr>m_sleep_cycles := 0\<rparr>"
definition set_pic_level :: "bool \<Rightarrow> or1k \<Rightarrow> or1k" where "set_pic_level b s = s\<lparr>m_pic_level := b\<rparr>"
definition set_pic_edge :: "bool \<Rightarrow> or1k \<Rightarrow> or1k" where "set_pic_edge b s = s\<lparr>m_pic_level := \<not> b\<rparr>"

definition breaks_quantum :: "instruction option \<Rightarrow> bool" where
  "breaks_quantum insn =
     (case insn of None \<Rightarrow> True | Some ci \<Rightarrow> i_exec ci = X_sysgrp X_mtspr)"

end
