(* ===== verification/Effect.thy ===== *)
theory Effect
  imports Or1k
begin

text \<open>
  What an instruction can do to the core. Most instructions only change registers, flags and the
  scheduled jump; the others make one data access, write one special purpose register, or stop the
  simulation. Invariants of the simulator are proved once for each of these four effects.
\<close>

section \<open>Results that satisfy a property\<close>

definition okE :: "('a \<Rightarrow> bool) \<Rightarrow> 'a res \<Rightarrow> bool" where
  "okE P m \<longleftrightarrow> (\<forall>x. m = Inr x \<longrightarrow> P x)"

lemma okE_simps [simp]: "okE P (Inr x) = P x" "okE P (Inl e)"
  by (simp_all add: okE_def)

lemma okE_bind: "okE P (bindE m f) = okE (\<lambda>x. okE P (f x)) m"
  by (cases m) simp_all

lemma okE_D: "okE P m \<Longrightarrow> m = Inr x \<Longrightarrow> P x"
  by (simp add: okE_def)

lemma okE_True [simp]: "okE (\<lambda>x. True) m"
  by (simp add: okE_def)

lemma okE_mono: "okE P m \<Longrightarrow> (\<And>x. P x \<Longrightarrow> Q x) \<Longrightarrow> okE Q m"
  by (simp add: okE_def)

section \<open>Quiet changes\<close>

text \<open>A change of registers, flags and jumps only.\<close>

definition quiet :: "or1k \<Rightarrow> or1k \<Rightarrow> bool" where
  "quiet s t \<longleftrightarrow> length (gpr t) = length (gpr s) \<and> m_shadow t = m_shadow s \<and>
     m_dmmu t = m_dmmu s \<and> m_immu t = m_immu s \<and> m_dreq t = m_dreq s \<and> m_ireq t = m_ireq s \<and>
     m_env t = m_env s \<and> m_cycles t = m_cycles s \<and> m_limit t = m_limit s \<and>
     m_stop_requested t = m_stop_requested s \<and> m_breakpoints t = m_breakpoints s \<and>
     m_decode_cache t = m_decode_cache s \<and> m_tick t = m_tick s \<and> m_tick_stamp t = m_tick_stamp s \<and>
     m_allow_sleep t = m_allow_sleep s"

lemma quiet_refl [simp]: "quiet s s" by (simp add: quiet_def)

lemma quiet_trans: "quiet s t \<Longrightarrow> quiet t u \<Longrightarrow> quiet s u" by (simp add: quiet_def)

lemma quiet_updates [simp]:
  "quiet s (t\<lparr>m_status := st\<rparr>) = quiet s t" "quiet s (t\<lparr>m_mac := mc\<rparr>) = quiet s t"
  "quiet s (t\<lparr>m_fmac := mc\<rparr>) = quiet s t" "quiet s (t\<lparr>m_fpcfg := a\<rparr>) = quiet s t"
  "quiet s (t\<lparr>m_aesr := a\<rparr>) = quiet s t" "quiet s (t\<lparr>m_expc := a\<rparr>) = quiet s t"
  "quiet s (t\<lparr>m_exsr := a\<rparr>) = quiet s t" "quiet s (t\<lparr>m_exea := a\<rparr>) = quiet s t"
  "quiet s (t\<lparr>m_pmr := a\<rparr>) = quiet s t" "quiet s (t\<lparr>m_jump_insn := n\<rparr>) = quiet s t"
  "quiet s (t\<lparr>m_jump_target := a\<rparr>) = quiet s t" "quiet s (t\<lparr>m_next_pc := a\<rparr>) = quiet s t"
  "quiet s (t\<lparr>m_prev_pc := a\<rparr>) = quiet s t" "quiet s (t\<lparr>m_fp_round_mode := r\<rparr>) = quiet s t"
  "quiet s (t\<lparr>g_fenv := f\<rparr>) = quiet s t" "quiet s (t\<lparr>g_output := outs\<rparr>) = quiet s t"
  "quiet s (t\<lparr>g_calls := k\<rparr>) = quiet s t" "quiet s (t\<lparr>m_trace_enabled := b\<rparr>) = quiet s t"
  "quiet s (t\<lparr>m_user_trace_stream := u\<rparr>) = quiet s t"
  "quiet s (t\<lparr>m_instructions := n\<rparr>) = quiet s t" "quiet s (t\<lparr>m_compiles := n\<rparr>) = quiet s t"
  "quiet s (t\<lparr>m_break_requested := b\<rparr>) = quiet s t" "quiet s (t\<lparr>m_trace_addr := a\<rparr>) = quiet s t"
  "quiet s (t\<lparr>m_wp_event := w\<rparr>) = quiet s t" "quiet s (t\<lparr>m_num_excl_read := n\<rparr>) = quiet s t"
  "quiet s (t\<lparr>m_num_excl_write := n\<rparr>) = quiet s t" "quiet s (t\<lparr>m_num_excl_failed := n\<rparr>) = quiet s t"
  "quiet s (t\<lparr>gpr := (gpr t)[k := v]\<rparr>) = quiet s t"
  by (simp_all add: quiet_def)

text \<open>
  Where a quiet instruction fails, it has left the memory of the host program or trapped there, or
  the vectors are not aligned; it never fails an assertion or meets an unknown rounding mode.
\<close>

definition host_error :: "or1k_error \<Rightarrow> bool" where
  "host_error e \<longleftrightarrow> e = Host_fault \<or> e = Diverges"

lemma host_error_simps [simp]: "host_error Host_fault" "host_error Diverges"
  "\<not> host_error Assertion_failed"
  by (simp_all add: host_error_def)

definition keeps :: "or1k \<Rightarrow> or1k res \<Rightarrow> bool" where
  "keeps s m \<longleftrightarrow> okE (quiet s) m \<and> (\<forall>e. m = Inl e \<longrightarrow> host_error e)"

named_theorems keeps_rules \<open>quiet building blocks of the instructions\<close>

lemma keeps_quiet: "keeps s m \<Longrightarrow> m = Inr t \<Longrightarrow> quiet s t" by (simp add: keeps_def okE_def)

lemma keeps_error: "keeps s m \<Longrightarrow> m = Inl e \<Longrightarrow> host_error e" by (simp add: keeps_def)

lemma keeps_Inr [keeps_rules]: "quiet s t \<Longrightarrow> keeps s (Inr t)" by (simp add: keeps_def)

lemma keeps_Inl [keeps_rules]: "host_error e \<Longrightarrow> keeps s (Inl e)" by (simp add: keeps_def)

lemma keeps_bind [keeps_rules]: "keeps s m \<Longrightarrow> (\<And>t. quiet s t \<Longrightarrow> keeps s (f t)) \<Longrightarrow> keeps s (bindE m f)"
  by (auto simp: keeps_def okE_def bindE_eq_Inr bindE_eq_Inl)

lemma keeps_if [keeps_rules]:
  "(b \<Longrightarrow> keeps s m) \<Longrightarrow> (\<not> b \<Longrightarrow> keeps s n) \<Longrightarrow> keeps s (if b then m else n)" by simp

lemma get_op_error: "get_op ci p s = Inl e \<Longrightarrow> e = Host_fault"
  by (auto simp: get_op_def split: operand.splits if_splits)

lemma keeps_with_srcs [keeps_rules]: "(\<And>a b. keeps s (f a b t)) \<Longrightarrow> keeps s (with_srcs ci f t)"
  by (auto simp: keeps_def with_srcs_def okE_def bindE_eq_Inr bindE_eq_Inl dest: get_op_error)

lemma keeps_with_src1 [keeps_rules]: "(\<And>a. keeps s (f a t)) \<Longrightarrow> keeps s (with_src1 ci f t)"
  by (auto simp: keeps_def with_src1_def okE_def bindE_eq_Inr bindE_eq_Inl dest: get_op_error)

lemma keeps_get_op [keeps_rules]: "(\<And>a. keeps s (f a)) \<Longrightarrow> keeps s (bindE (get_op ci p t) f)"
  by (auto simp: keeps_def okE_def bindE_eq_Inr bindE_eq_Inl dest: get_op_error)

lemma keeps_put_op [keeps_rules]: "quiet s t \<Longrightarrow> keeps s (put_op p v t)"
  by (cases p) (auto simp: put_op_def keeps_def)

lemma keeps_set_dest [keeps_rules]: "quiet s t \<Longrightarrow> keeps s (set_dest ci v t)"
  by (simp add: set_dest_def keeps_put_op)

lemma quiet_exception_taken: "quiet s (exception_taken type addr t) = quiet s t"
  by (simp add: exception_taken_def exception_enter_def Let_def)

lemma keeps_exception [keeps_rules]: "quiet s t \<Longrightarrow> keeps s (exception type addr t)"
  by (simp add: exception_eq keeps_def quiet_exception_taken)

lemma keeps_schedule_jump [keeps_rules]: "quiet s t \<Longrightarrow> keeps s (schedule_jump target d t)"
  by (simp add: schedule_jump_eq keeps_def quiet_exception_taken Let_def)

lemma keeps_range_exception [keeps_rules]: "quiet s t \<Longrightarrow> keeps s (range_exception ae t)"
  by (simp add: range_exception_def keeps_rules)

lemma keeps_flag_when [keeps_rules]: "quiet s t \<Longrightarrow> keeps s (flag_when c flag ae t)"
  by (auto simp: flag_when_def status_or_def intro!: keeps_rules)

lemma quiet_small [simp]:
  "quiet s (status_or x t) = quiet s t" "quiet s (status_clear x t) = quiet s t"
  "quiet s (clear_carry_overflow t) = quiet s t" "quiet s (set_mac m t) = quiet s t"
  "quiet s (set_flag c t) = quiet s t" "quiet s (put_reg k v t) = quiet s t"
  "quiet s (emit out t) = quiet s t" "quiet s (set_round r t) = quiet s t"
  "quiet s (reset_fp_round_mode t) = quiet s t" "quiet s (raise_flags fr t) = quiet s t"
  by (simp_all add: status_or_def status_clear_def clear_carry_overflow_def set_mac_def set_flag_def
      put_reg_def emit_def set_round_def reset_fp_round_mode_def raise_flags_def)

text \<open>The two bits of the rounding mode have a case for each of their values.\<close>

lemma and_field_mask: "x AND push_bit k (mask n) = push_bit k (take_bit n (drop_bit k x))"
  for x :: "'a::len word"
  by (rule bit_word_eqI)
    (auto simp: bit_and_iff bit_push_bit_iff bit_take_bit_iff bit_drop_bit_eq bit_mask_iff)

lemma and_6_cases: "x AND 6 \<in> {0, 2, 4, 6 :: u32}"
proof -
  have six: "(6 :: u32) = push_bit 1 (mask 2)" by (simp add: mask_eq_exp_minus_1 push_bit_eq_mult)
  have "x AND 6 = push_bit 1 (take_bit 2 (drop_bit 1 x))" unfolding six by (rule and_field_mask)
  moreover have "unat (take_bit 2 (drop_bit 1 x)) < 4"
    using unat_take_bit_less[of 2 "drop_bit 1 x"] by simp
  then have "unat (take_bit 2 (drop_bit 1 x)) \<in> {0, 1, 2, 3}" by auto
  then have "take_bit 2 (drop_bit 1 x) \<in> {0, 1, 2, 3}"
    by (auto simp: unat_eq_0 dest: arg_cong[where f = "of_nat :: nat \<Rightarrow> u32"])
  ultimately show ?thesis by auto
qed

lemma keeps_setup_fp [keeps_rules]: "quiet s t \<Longrightarrow> keeps s (setup_fp_round_mode t)"
  using and_6_cases[of "m_fpcfg t"]
  by (auto simp: setup_fp_round_mode_def Let_def keeps_def FPS_RMN_def FPS_RMZ_def FPS_RMU_def FPS_RMD_def)

lemma keeps_fp_flag [keeps_rules]: "quiet s t \<Longrightarrow> keeps s (fp_flag c flag t)"
  by (auto simp: fp_flag_def Let_def intro!: keeps_rules)

lemma keeps_fp_flags [keeps_rules]:
  "quiet s t \<Longrightarrow> keeps s (reset_fp_flags32 r t)" "quiet s t \<Longrightarrow> keeps s (reset_fp_flags64 d t)"
  unfolding reset_fp_flags32_def reset_fp_flags64_def fp_flags_def Let_def
  by (intro keeps_rules, simp, assumption+)+

lemma quiet_float_op: "float_op h op a b s = (r, t) \<Longrightarrow> quiet u t = quiet u s"
  "double_op h op c d s = (r', t) \<Longrightarrow> quiet u t = quiet u s"
  by (auto simp: float_op_def double_op_def Let_def)

lemma keeps_float [keeps_rules]:
  "(\<And>r t. quiet s t \<Longrightarrow> keeps s (f r t)) \<Longrightarrow> quiet s u \<Longrightarrow>
   keeps s (case float_op h op a b u of (r, t) \<Rightarrow> f r t)"
  by (auto simp: quiet_float_op split: prod.split)

lemma keeps_double [keeps_rules]:
  "(\<And>r t. quiet s t \<Longrightarrow> keeps s (f r t)) \<Longrightarrow> quiet s u \<Longrightarrow>
   keeps s (case double_op h op a b u of (r, t) \<Rightarrow> f r t)"
  by (auto simp: quiet_float_op split: prod.split)

lemma get_double_error: "get_double ci p k s = Inl e \<Longrightarrow> e = Host_fault"
  by (auto simp: get_double_def bindE_eq_Inl dest: get_op_error)

lemma keeps_with_doubles [keeps_rules]: "(\<And>a b. keeps s (f a b t)) \<Longrightarrow> keeps s (with_doubles ci f t)"
  by (auto simp: keeps_def with_doubles_def okE_def bindE_eq_Inr bindE_eq_Inl dest: get_double_error)

lemma keeps_get_double [keeps_rules]: "(\<And>a. keeps s (f a)) \<Longrightarrow> keeps s (bindE (get_double ci p k t) f)"
  by (auto simp: keeps_def okE_def bindE_eq_Inr bindE_eq_Inl dest: get_double_error)

lemma keeps_put_double [keeps_rules]: "quiet s t \<Longrightarrow> keeps s (put_double ci k d t)"
  by (auto simp: put_double_def intro!: keeps_rules)

lemma keeps_set_link [keeps_rules]: "quiet s t \<Longrightarrow> keeps s (set_link ci t)"
  by (auto simp: set_link_def intro!: keeps_rules)

text \<open>The groups of instructions that are quiet.\<close>

lemma exec_alu_quiet: "keeps s (exec_alu x h ci s)"
  by (cases x; simp add: execute_orbis32_extw_def execute_orbis32_exthz_def
      execute_orbis32_exths_def execute_orbis32_extbz_def execute_orbis32_extbs_def
      execute_orbis32_add_def execute_orbis32_addc_def execute_orbis32_sub_def
      execute_orbis32_and_def execute_orbis32_or_def execute_orbis32_xor_def
      execute_orbis32_cmov_def execute_orbis32_ff1_def execute_orbis32_fl1_def
      execute_orbis32_sll_def execute_orbis32_srl_def execute_orbis32_sra_def
      execute_orbis32_ror_def Let_def)
    (intro keeps_rules; simp)+

lemma exec_muldiv_quiet: "keeps s (exec_muldiv x h ci s)"
  by (cases x; simp add: execute_orbis32_mul_def execute_orbis32_mulu_def execute_orbis32_muld_def
      execute_orbis32_muldu_def execute_orbis32_div_def execute_orbis32_divu_def Let_def)
    (intro keeps_rules; simp)+

lemma exec_compare_quiet: "keeps s (exec_compare x h ci s)"
  by (cases x; simp add: execute_orbis32_sfeq_def execute_orbis32_sfne_def execute_orbis32_sfgtu_def
      execute_orbis32_sfgeu_def execute_orbis32_sfltu_def execute_orbis32_sfleu_def
      execute_orbis32_sfgts_def execute_orbis32_sfges_def execute_orbis32_sflts_def
      execute_orbis32_sfles_def)
    (intro keeps_rules; simp)+

lemma exec_mac_quiet: "keeps s (exec_mac x h ci s)"
  by (cases x; simp add: execute_orbis32_mac_def execute_orbis32_macu_def execute_orbis32_msb_def
      execute_orbis32_msbu_def execute_orbis32_macrc_def Let_def)
    (intro keeps_rules; simp)+

lemma exec_jump_quiet: "keeps s (exec_jump x h ci s)"
  by (cases x; simp add: execute_orbis32_bf_def execute_orbis32_bnf_def execute_orbis32_jump_rel_def
      execute_orbis32_jump_abs_def Let_def)
    (intro keeps_rules impI conjI; simp)+

lemma exec_orfpx32_quiet: "keeps s (exec_orfpx32 x h ci s)"
  by (cases x; simp add: execute_orfpx32_add_def execute_orfpx32_sub_def execute_orfpx32_mul_def
      execute_orfpx32_div_def execute_orfpx32_rem_def execute_orfpx32_madd_def
      execute_orfpx32_itof_def execute_orfpx32_ftoi_def execute_orfpx32_sfeq_def
      execute_orfpx32_sfne_def execute_orfpx32_sfgt_def execute_orfpx32_sfge_def
      execute_orfpx32_sflt_def execute_orfpx32_sfle_def float_binary_def float_compare_def)
    (intro keeps_rules; simp)+

lemma exec_orfpx64_quiet: "keeps s (exec_orfpx64 x h ci s)"
  by (cases x; simp add: execute_orfpx64_add_def execute_orfpx64_sub_def execute_orfpx64_mul_def
      execute_orfpx64_div_def execute_orfpx64_rem_def execute_orfpx64_madd_def
      execute_orfpx64_itof_def execute_orfpx64_ftoi_def execute_orfpx64_sfeq_def
      execute_orfpx64_sfne_def execute_orfpx64_sfgt_def execute_orfpx64_sfge_def
      execute_orfpx64_sflt_def execute_orfpx64_sfle_def double_binary_def double_compare_def
      double_convert_def)
    (intro keeps_rules; simp)+

lemmas exec_quiet = exec_alu_quiet exec_muldiv_quiet exec_compare_quiet exec_mac_quiet exec_jump_quiet
  exec_orfpx32_quiet exec_orfpx64_quiet

text \<open>The other system instructions.\<close>

lemma exec_sys_quiet:
  "x \<in> {X_mfspr, X_movhi, X_sys, X_trap, X_csync, X_msync, X_psync} \<Longrightarrow> keeps s (exec_sys x h ci s)"
  by (elim insertE emptyE; simp add: execute_orbis32_mfspr_def execute_orbis32_movhi_def
      execute_orbis32_sys_def execute_orbis32_trap_def execute_orbis32_csync_def
      execute_orbis32_msync_def execute_orbis32_psync_def)
    (intro keeps_rules; simp)+

lemma exec_nop_quiet:
  assumes "execute_orbis32_nop h ci s = Inr t"
  shows "quiet s t \<or> (\<exists>u. quiet s u \<and> t = request_stop u)"
  using assms
  by (auto simp: execute_orbis32_nop_def Let_def with_src1_def bindE_eq_Inr split: if_splits
      intro!: exI[of _ "emit _ s"])

section \<open>The effects of an instruction\<close>

text \<open>
  A data access, of a request with the flags of \<^verbatim>\<open>m_dreq\<close>, leaves its request there; what follows is
  quiet. A special purpose register is written directly or by \<^verbatim>\<open>l.rfe\<close>, after a scheduled jump.
\<close>

definition data_flags :: "request \<Rightarrow> request \<Rightarrow> bool" where
  "data_flags r q \<longleftrightarrow> m_imem q = m_imem r \<and> m_debug q = m_debug r \<and> req_endian q = req_endian r \<and>
     unat (req_size q) \<le> 4 \<and> length (req_data q) = 4"

inductive effect :: "host \<Rightarrow> or1k \<Rightarrow> or1k \<Rightarrow> bool" for h where
  effect_quiet: "quiet s t \<Longrightarrow> effect h s t"
| effect_access: "\<lbrakk>data_flags (m_dreq s) req; transact h req s = Inr (ok, req', t);
    quiet (t\<lparr>m_dreq := req'\<rparr>) u\<rbrakk> \<Longrightarrow> effect h s u"
| effect_spr: "\<lbrakk>quiet s t; set_spr h reg val False t = Inr u\<rbrakk> \<Longrightarrow> effect h s u"
| effect_stop: "quiet s t \<Longrightarrow> effect h s (request_stop t)"

lemma put_op_InrD: "put_op p v s = Inr t \<Longrightarrow> \<exists>n. t = s\<lparr>gpr := (gpr s)[n := v]\<rparr>"
  by (auto simp: put_op_def split: operand.splits if_splits)

lemma data_access_effect:
  assumes "data_access h rd ex sz p ci s = Inr (ok, t)" "unat sz \<le> 4"
  shows "\<exists>req req' u. data_flags (m_dreq s) req \<and> transact h req s = Inr (ok, req', u) \<and>
     quiet (u\<lparr>m_dreq := req'\<rparr>) t"
proof -
  have "\<exists>a (v :: u32) req' u w. transact h ((m_dreq s)\<lparr>m_read := rd, m_excl := ex, req_addr := a + i_imm ci,
          req_data := le_bytes 4 v, req_size := sz\<rparr>) s = Inr (ok, req', u) \<and>
      put_op p (of_le_bytes (req_data req')) u = Inr w \<and> w\<lparr>m_dreq := req'\<rparr> = t"
    using assms(1) by (simp add: data_access_def bindE_eq_Inr Let_def split_paired_Ex) blast
  then obtain a and v :: u32 and req' u w where
    u: "transact h ((m_dreq s)\<lparr>m_read := rd, m_excl := ex, req_addr := a + i_imm ci,
          req_data := le_bytes 4 v, req_size := sz\<rparr>) s = Inr (ok, req', u)"
    and w: "put_op p (of_le_bytes (req_data req')) u = Inr w" "w\<lparr>m_dreq := req'\<rparr> = t" by blast
  obtain n where "w = u\<lparr>gpr := (gpr u)[n := of_le_bytes (req_data req')]\<rparr>"
    using put_op_InrD[OF w(1)] by blast
  then have "quiet (u\<lparr>m_dreq := req'\<rparr>) t" by (simp add: w(2)[symmetric] quiet_def)
  moreover have "data_flags (m_dreq s) ((m_dreq s)\<lparr>m_read := rd, m_excl := ex,
      req_addr := a + i_imm ci, req_data := le_bytes 4 v, req_size := sz\<rparr>)"
    using assms(2) by (simp add: data_flags_def)
  ultimately show ?thesis using u by blast
qed

lemma quiet_then_dest: "then_dest f ci (ok, s) = Inr t \<Longrightarrow> quiet s t"
  by (auto simp: then_dest_def bindE_eq_Inr set_dest_def split: if_splits dest!: put_op_InrD)

lemma access_then:
  assumes "data_access h rd ex sz p ci s = Inr (ok, t)" "unat sz \<le> 4" "quiet t u"
  shows "effect h s u"
  using data_access_effect[OF assms(1,2)] assms(3) by (blast intro: effect_access quiet_trans)

lemma exec_mem_effect: "exec_mem x h ci s = Inr t \<Longrightarrow> effect h s t"
  by (cases x)
    (auto simp: execute_orbis32_lwa_def execute_orbis32_lw_def execute_orbis32_lhz_def
      execute_orbis32_lhs_def execute_orbis32_lbz_def execute_orbis32_lbs_def
      execute_orbis32_swa_def execute_orbis32_sw_def execute_orbis32_sh_def execute_orbis32_sb_def
      bindE_eq_Inr elim!: access_then dest!: quiet_then_dest)

lemma exec_sys_effect:
  assumes "exec_sys x h ci s = Inr t"
  shows "effect h s t"
proof (cases "x \<in> {X_mfspr, X_movhi, X_sys, X_trap, X_csync, X_msync, X_psync}")
  case True
  from exec_sys_quiet[OF this, of s h ci] assms show ?thesis
    by (auto intro: effect_quiet dest: keeps_quiet)
next
  case False
  then consider "x = X_mtspr" | "x = X_nop" | "x = X_rfe" by (cases x) auto
  then show ?thesis
  proof cases
    case 1
    with assms show ?thesis
      by (auto simp: execute_orbis32_mtspr_def with_src1_def bindE_eq_Inr
          intro: effect_spr[OF quiet_refl])
  next
    case 2
    with assms exec_nop_quiet[of h ci s t] show ?thesis by (auto intro: effect_quiet effect_stop)
  next
    case 3
    have "keeps s (schedule_jump (get_spr SPR_EPCR False s) 0 s)" by (intro keeps_rules) simp
    with 3 assms show ?thesis
      by (auto simp: execute_orbis32_rfe_def Let_def bindE_eq_Inr intro: effect_spr dest: keeps_quiet)
  qed
qed

text \<open>Every instruction has one of the four effects.\<close>

lemma execute_effect: "execute x h ci s = Inr t \<Longrightarrow> effect h s t"
  by (cases x) (auto intro: effect_quiet exec_mem_effect exec_sys_effect dest: exec_quiet[THEN keeps_quiet])

inductive_cases effectE: "effect h s t"

end
