(* ===== verification/Invariant.thy ===== *)
theory Invariant
  imports Effect
begin

text \<open>
  The invariants of the simulator: the shape of its register files and TLBs and the configuration of
  its two requests. Every operation keeps them, so that no index of the model is out of range and no
  assertion of the code fails; after every cycle register 0 is zero and the fixed-one bit is set.
\<close>

section \<open>TLBs keep their shape\<close>

definition mmu_shape :: "mmu \<Rightarrow> nat \<times> u32 \<times> u32 \<times> u32" where
  "mmu_shape t = (length (m_tlb t), m_num_ways t, m_num_sets t, m_set_mask t)"

lemma mmu_shape_wf: "mmu_shape t = mmu_shape u \<Longrightarrow> mmu_wf t = mmu_wf u"
  by (simp add: mmu_shape_def mmu_wf_def)

lemma mmu_shape_updates [simp]:
  "length r = length (m_tlb t) \<Longrightarrow> mmu_shape (t\<lparr>m_tlb := r\<rparr>) = mmu_shape t"
  "mmu_shape (t\<lparr>m_ctrl := v\<rparr>) = mmu_shape t" "mmu_shape (t\<lparr>m_prot := v\<rparr>) = mmu_shape t"
  by (simp_all add: mmu_shape_def)

lemma fold_keeps: "(\<And>x t. f (g x t) = f t) \<Longrightarrow> f (fold g xs t) = f t"
  by (induction xs arbitrary: t) simp_all

lemma mmu_shape_ops [simp]:
  "mmu_shape (flush_tlb t) = mmu_shape t" "mmu_shape (set_cr v t) = mmu_shape t"
  "mmu_shape (set_atb r v t) = mmu_shape t" "mmu_shape (set_tlb r v t) = mmu_shape t"
  "mmu_shape (flush_tlb_entry v t) = mmu_shape t" "mmu_shape (age_set st t) = mmu_shape t"
proof -
  have "mmu_shape (flush_way a st w t) = mmu_shape t" "mmu_shape (age_way st w t) = mmu_shape t"
    for a st w t by (simp_all add: flush_way_def age_way_def Let_def)
  then show "mmu_shape (flush_tlb_entry v t) = mmu_shape t" "mmu_shape (age_set st t) = mmu_shape t"
    by (simp_all add: flush_tlb_entry_def age_set_def fold_keeps)
qed (simp_all add: flush_tlb_def set_cr_def set_atb_def set_tlb_def Let_def)

text \<open>A translated request keeps what the MMU does not set.\<close>

definition request_config :: "request \<Rightarrow> bool \<times> bool \<times> bool \<times> bool \<times> endian \<times> u32" where
  "request_config q = (m_imem q, m_debug q, m_read q, m_excl q, req_endian q, req_size q)"

lemma request_config_updates [simp]:
  "request_config (q\<lparr>req_addr := a\<rparr>) = request_config q"
  "request_config (q\<lparr>req_cycles := c\<rparr>) = request_config q"
  "request_config (q\<lparr>req_data := d\<rparr>) = request_config q"
  "request_config (q\<lparr>m_super := b\<rparr>) = request_config q"
  "request_config (q\<lparr>m_cache_coherent := b\<rparr>) = request_config q"
  "request_config (q\<lparr>m_cache_inhibit := b\<rparr>) = request_config q"
  "request_config (q\<lparr>m_cache_writeback := b\<rparr>) = request_config q"
  "request_config (q\<lparr>m_weakly_ordered := b\<rparr>) = request_config q"
  by (simp_all add: request_config_def)

lemma tlb_hit_shape:
  "tlb_hit req st w t = (r, req', t') \<Longrightarrow> mmu_shape t' = mmu_shape t \<and> request_config req' = request_config req"
  by (auto simp: tlb_hit_def Let_def translated_def split: if_splits)

lemma refill_shape:
  "refill req st v p c t = (r, req', t') \<Longrightarrow> mmu_shape t' = mmu_shape t \<and> request_config req' = request_config req"
  by (auto simp: refill_def Let_def translated_def split: if_splits)

lemma translate_shape:
  assumes "translate vt req t e = Inr (r, req', t', e')"
  shows "mmu_shape t' = mmu_shape t \<and> request_config req' = request_config req"
proof -
  let ?t = "if m_debug req then t else age_set (mmu_set t (req_addr req)) t"
  have s: "mmu_shape ?t = mmu_shape t" by simp
  show ?thesis
  proof (cases "find_way ?t (page_align (req_addr req)) (mmu_set t (req_addr req))")
    case (Some w)
    then have "tlb_hit req (mmu_set t (req_addr req)) w ?t = (r, req', t')"
      using assms by (cases "m_debug req") (simp_all add: translate_def Let_def split: prod.splits)
    from tlb_hit_shape[OF this] s show ?thesis by simp
  next
    case None
    then have w: "(r = MMU_TLB_MISS \<and> req' = req \<and> t' = ?t) \<or> table_walk vt req ?t e = Inr (r, req', t', e')"
      using assms by (auto simp: translate_def Let_def split: if_splits)
    show ?thesis
    proof (cases "table_walk vt req ?t e = Inr (r, req', t', e')")
      case True
      then show ?thesis
        by (rule table_walk_cases) (use s refill_shape in \<open>fastforce+\<close>)
    qed (use w s in auto)
  qed
qed

lemma direct_memory_ptr_config: "direct_memory_ptr req e = (q, p) \<Longrightarrow> request_config q = request_config req"
  by (auto simp: direct_memory_ptr_def split: if_splits)

lemma sent_request_config:
  assumes "send_request vt req e = Inr (resp, req', e')"
  shows "request_config req' = request_config req"
proof (cases "direct_memory_ptr req e")
  case (Pair q ptr)
  then show ?thesis
    using assms direct_memory_ptr_config[OF Pair]
    by (cases ptr)
      (auto simp: send_request_def Let_def bindE_eq_Inr exclusive_access_def read_into_def split: if_splits)
qed

lemma convert_config:
  assumes "convert_and_transact vt req e = Inr (resp, req', e')"
  shows "request_config req' = request_config req"
  using assms
  by (auto simp: convert_and_transact_def Let_def bindE_eq_Inr dest!: sent_request_config split: if_splits)

section \<open>The invariant\<close>

definition core_ok :: "or1k \<Rightarrow> bool" where
  "core_ok s \<longleftrightarrow> length (gpr s) = 32 \<and> length (m_shadow s) = OR1KISS_SHADOW_REGS \<and>
     mmu_wf (m_dmmu s) \<and> mmu_wf (m_immu s) \<and>
     \<not> m_imem (m_dreq s) \<and> \<not> m_debug (m_dreq s) \<and> req_endian (m_dreq s) = host_endian \<and>
     m_imem (m_ireq s) \<and> \<not> m_debug (m_ireq s) \<and> m_read (m_ireq s) \<and> \<not> m_excl (m_ireq s) \<and>
     req_endian (m_ireq s) = host_endian \<and> req_size (m_ireq s) = SIZE_WORD"

text \<open>What a step keeps of the parts that the invariant speaks of.\<close>

definition shape :: "or1k \<Rightarrow> nat \<times> nat \<times> (nat \<times> u32 \<times> u32 \<times> u32) \<times> (nat \<times> u32 \<times> u32 \<times> u32) \<times>
    bool \<times> bool \<times> endian \<times> (bool \<times> bool \<times> bool \<times> bool \<times> endian \<times> u32) \<times> u32 list" where
  "shape s = (length (gpr s), length (m_shadow s), mmu_shape (m_dmmu s), mmu_shape (m_immu s),
     m_imem (m_dreq s), m_debug (m_dreq s), req_endian (m_dreq s), request_config (m_ireq s),
     m_breakpoints s)"

lemma shape_core_ok: "shape t = shape s \<Longrightarrow> core_ok t = core_ok s"
  using mmu_shape_wf[of "m_dmmu t" "m_dmmu s"] mmu_shape_wf[of "m_immu t" "m_immu s"]
  by (simp add: shape_def core_ok_def request_config_def)

lemma quiet_shape: "quiet s t \<Longrightarrow> shape t = shape s"
  by (simp add: quiet_def shape_def)

lemma exception_quiet: "exception type addr s = Inr t \<Longrightarrow> quiet s t"
  using keeps_exception[of s s type addr] by (simp add: keeps_def okE_def)

lemma abort_access_frame:
  "abort_access type req s = Inr (ok, req', t) \<Longrightarrow> req' = req \<and> quiet s t"
  by (auto simp: abort_access_def bindE_eq_Inr dest: exception_quiet)

text \<open>An access changes the environment and the data MMU and adds the cycles it took.\<close>

definition accessed :: "or1k \<Rightarrow> or1k \<Rightarrow> bool" where
  "accessed s t \<longleftrightarrow> quiet s (t\<lparr>m_dmmu := m_dmmu s, m_env := m_env s, m_cycles := m_cycles s,
       m_limit := m_limit s\<rparr>) \<and> mmu_shape (m_dmmu t) = mmu_shape (m_dmmu s) \<and>
     m_limit t - m_cycles t = m_limit s - m_cycles s"

lemma accessed_quiet: "accessed s t \<Longrightarrow> quiet t u \<Longrightarrow> accessed s u"
  by (simp add: accessed_def quiet_def)

lemma quiet_accessed: "quiet s t \<Longrightarrow> accessed t u \<Longrightarrow> accessed s u"
  by (simp add: accessed_def quiet_def)

lemma accessed_refl: "accessed s s" by (simp add: accessed_def quiet_def)

lemma accessed_trans: "accessed s t \<Longrightarrow> accessed t u \<Longrightarrow> accessed s u"
  by (simp add: accessed_def quiet_def)

lemma quiet_is_accessed: "quiet s t \<Longrightarrow> accessed s t"
  using accessed_quiet[OF accessed_refl] by blast

lemma port_access_frame:
  assumes "port_access h req s = Inr (ok, req', t)"
  shows "request_config req' = request_config req \<and> accessed s t"
proof -
  from assms obtain resp q e where c: "convert_and_transact (h_env h) req (m_env s) = Inr (resp, q, e)"
    by (auto simp: port_access_def bindE_eq_Inr)
  have e: "accessed s (s\<lparr>m_env := e\<rparr>)" by (simp add: accessed_def quiet_def)
  show ?thesis
  proof (cases resp)
    case RESP_ERROR
    with assms c have "abort_access EX_DATA_BUS_ERROR q (s\<lparr>m_env := e\<rparr>) = Inr (ok, req', t)"
      by (simp add: port_access_def)
    from abort_access_frame[OF this] convert_config[OF c] e show ?thesis
      by (auto intro: accessed_quiet)
  qed (use assms c convert_config[OF c] in
      \<open>auto simp: port_access_def Let_def accessed_def quiet_def bindE_eq_Inr split: if_splits\<close>)
qed

lemma data_translate_frame:
  "data_translate h req s = Inr (r, req', t) \<Longrightarrow> request_config req' = request_config req \<and> accessed s t"
  by (auto simp: data_translate_def bindE_eq_Inr accessed_def quiet_def dest!: translate_shape split: if_splits)

lemma quiet_check_watchpoints: "quiet s (check_watchpoints req t) = quiet s t"
  by (simp add: check_watchpoints_def)

lemma quiet_count_exclusive: "quiet s (count_exclusive req t) = quiet s t"
  by (simp add: count_exclusive_def Let_def)

lemma transact_frame:
  assumes "transact h req s = Inr (ok, req', t)"
  shows "request_config req' = request_config req \<and> accessed s t"
proof -
  let ?q = "req\<lparr>m_super := is_supervisor s, req_cycles := 0\<rparr>"
  let ?s = "check_watchpoints ?q (s\<lparr>m_trace_addr := req_addr ?q\<rparr>)"
  have s: "quiet s ?s" by (simp add: quiet_check_watchpoints)
  show ?thesis
  proof (cases "\<not> req_is_aligned ?q \<and> \<not> m_debug ?q")
    case True
    with assms have "abort_access EX_DATA_ALIGNMENT ?q ?s = Inr (ok, req', t)"
      by (auto simp: transact_def Let_def bindE_eq_Inr)
    from abort_access_frame[OF this] s show ?thesis
      by (auto intro: quiet_is_accessed quiet_trans)
  next
    case False
    with assms obtain r q u where tr: "data_translate h ?q ?s = Inr (r, q, u)"
      and k: "(case r of MMU_TLB_MISS \<Rightarrow> abort_access EX_DATA_TLB_MISS q u
         | MMU_PAGE_FAULT \<Rightarrow> abort_access EX_DATA_PAGE_FAULT q u
         | MMU_OKAY \<Rightarrow> bindE (assertE (m_excl q \<longrightarrow> req_size q = SIZE_WORD) Assertion_failed) (\<lambda>_.
             port_access h q (if m_excl q then count_exclusive q u else u))) = Inr (ok, req', t)"
      by (auto simp: transact_def Let_def bindE_eq_Inr)
    have u: "request_config q = request_config req" "accessed s u"
      using data_translate_frame[OF tr] s by (auto intro: quiet_accessed)
    show ?thesis
    proof (cases r)
      case MMU_OKAY
      have "accessed u (if m_excl q then count_exclusive q u else u)"
        by (simp add: quiet_is_accessed quiet_count_exclusive)
      with k MMU_OKAY u port_access_frame show ?thesis
        by (fastforce simp: bindE_eq_Inr intro: accessed_trans)
    qed (use k u abort_access_frame accessed_quiet in fastforce)+
  qed
qed


section \<open>Every operation keeps the invariant\<close>

lemma accessed_shape: "accessed s t \<Longrightarrow> shape t = shape s"
  by (simp add: accessed_def quiet_def shape_def)

lemma request_config_eqD:
  "request_config q = request_config r \<Longrightarrow>
   m_imem q = m_imem r \<and> m_debug q = m_debug r \<and> req_endian q = req_endian r"
  by (simp add: request_config_def)

lemma update_timer_shape: "update_timer s = Inr t \<Longrightarrow> shape t = shape s"
  by (auto simp: update_timer_def Let_def bindE_eq_Inr shape_def quiet_def split: if_splits
      dest!: exception_quiet)

lemma doze_shape: "doze h s = Inr t \<Longrightarrow> shape t = shape s"
  by (auto simp: doze_def Let_def split: if_splits prod.splits dest!: update_timer_shape)
    (auto simp: shape_def)

lemma set_spr_table_shape:
  "map_of set_spr_table reg = Some f \<Longrightarrow> shape (f v s) = shape s"
proof -
  have "list_all (\<lambda>f. \<forall>v s. shape (f v s) = shape s) (map snd set_spr_table)"
    by (simp add: set_spr_table_def shape_def)
  then show "map_of set_spr_table reg = Some f \<Longrightarrow> shape (f v s) = shape s"
    by (auto dest!: map_of_SomeD simp: list_all_iff)
qed

lemma set_spr_shape:
  assumes "set_spr h reg v dbg s = Inr t"
  shows "shape t = shape s"
proof -
  have b: "shape (s\<lparr>m_break_requested := b\<rparr>) = shape s" "shape (s\<lparr>m_pmr := p\<rparr>) = shape s" for b p
    by (simp_all add: shape_def)
  show ?thesis
  proof (cases "map_of set_spr_table reg")
    case None
    with assms b show ?thesis
      by (auto simp: set_spr_def Let_def split: if_splits dest!: doze_shape)
        (simp_all add: shape_def)
  next
    case (Some f)
    with assms b set_spr_table_shape[OF Some, of v "s\<lparr>m_break_requested := True\<rparr>"] show ?thesis
      by (auto simp: set_spr_def Let_def split: if_splits dest!: doze_shape)
        (simp_all add: shape_def)
  qed
qed

lemma effect_shape:
  assumes "effect h s t"
  shows "shape t = shape s"
  using assms
proof (cases rule: effect.cases)
  case (effect_access req ok req' u)
  have "shape u = shape s" using transact_frame[OF effect_access(2)] accessed_shape by blast
  moreover have "m_imem req' = m_imem (m_dreq s) \<and> m_debug req' = m_debug (m_dreq s) \<and>
      req_endian req' = req_endian (m_dreq s)"
    using transact_frame[OF effect_access(2)] effect_access(1)
    by (auto simp: data_flags_def dest: request_config_eqD)
  ultimately have "shape (u\<lparr>m_dreq := req'\<rparr>) = shape s" by (simp add: shape_def)
  then show ?thesis using quiet_shape[OF effect_access(3)] by simp
next
  case (effect_spr u reg val)
  then show ?thesis using quiet_shape set_spr_shape by metis
next
  case (effect_stop u)
  then show ?thesis using quiet_shape[of s u] by (simp add: request_stop_def shape_def)
qed (rule quiet_shape)

lemma abort_fetch_shape: "abort_fetch type s = Inr (i, t) \<Longrightarrow> i = None \<and> shape t = shape s"
  by (auto simp: abort_fetch_def bindE_eq_Inr dest!: exception_quiet quiet_shape)

lemma fetch_translate_shape:
  assumes "fetch_translate h s = Inr (r, t)"
  shows "shape t = shape s"
proof -
  let ?s = "s\<lparr>m_ireq := (m_ireq s)\<lparr>m_super := is_supervisor s, req_addr := m_next_pc s, req_cycles := 0\<rparr>\<rparr>"
  have s: "shape ?s = shape s" by (simp add: shape_def)
  show ?thesis
  proof (cases "is_immu_active ?s \<and> \<not> page_compare (m_virt_ipg ?s) (m_next_pc ?s)")
    case False
    then have "t = ?s \<or> (\<exists>a. t = ?s\<lparr>m_ireq := (m_ireq ?s)\<lparr>req_addr := a\<rparr>\<rparr>)"
      using assms by (auto simp only: fetch_translate_def Let_def if_True if_False sum.inject prod.inject
          split: if_split_asm)
    then show ?thesis by (auto simp: shape_def)
  next
    case True
    note ft = assms[unfolded fetch_translate_def Let_def if_P[OF True[THEN conjunct1]]
        if_not_P[OF True[THEN conjunct2]]]
    then obtain x where "translate (h_env h) (m_ireq ?s) (m_immu ?s) (m_env ?s) = Inr x"
      unfolding bindE_eq_Inr by blast
    then obtain r' q u e where tr: "translate (h_env h) (m_ireq ?s) (m_immu ?s) (m_env ?s) = Inr (r', q, u, e)"
      by (cases x) auto
    have "t = ?s\<lparr>m_ireq := q, m_immu := u, m_env := e\<rparr> \<or>
        (\<exists>v p. t = ?s\<lparr>m_ireq := q, m_immu := u, m_env := e, m_virt_ipg := v, m_phys_ipg := p\<rparr>)"
      using ft unfolding tr by (auto simp only: bindE_Inr prod.case sum.inject prod.inject split: if_split_asm)
    then show ?thesis using translate_shape[OF tr] s by (auto simp: shape_def)
  qed
qed

lemma fetch_word_shape: "fetch_word h s = Inr (r, t) \<Longrightarrow> shape t = shape s"
  by (auto simp: fetch_word_def bindE_eq_Inr shape_def split: option.splits dest!: convert_config)

lemma fetch_decode_shape:
  assumes "fetch_decode s = Inr (i, t)"
  shows "shape t = shape s"
proof (cases "decode (m_insn s) = INVALID_OPCODE \<or> decode (m_insn s) = O_custom ORBIS32_CUST1")
  case True
  then have "abort_fetch EX_ILLEGAL_INSN s = Inr (i, t)"
    using assms by (auto simp only: fetch_decode_def Let_def if_True if_False split: if_split_asm)
  then show ?thesis using abort_fetch_shape by blast
next
  case False
  then obtain insn where "t = s\<lparr>m_decode_cache := dc_store (req_addr (m_ireq s)) insn (m_decode_cache s),
      m_compiles := m_compiles s + 1\<rparr>"
    using assms by (auto simp only: fetch_decode_def Let_def if_False bindE_eq_Inr de_Morgan_disj sum.inject prod.inject)
  then show ?thesis by (simp add: shape_def)
qed

lemma fetch_miss_shape:
  assumes "bindE (fetch_word h s) (\<lambda>(resp, s).
     case resp of
       RESP_ERROR \<Rightarrow> abort_fetch EX_INSN_BUS_ERROR s
     | RESP_FAILED \<Rightarrow> Inl Invalid_port_response
     | RESP_SUCCESS \<Rightarrow> fetch_decode s) = Inr (i, t)"
  shows "shape t = shape s"
proof -
  from assms obtain resp u where u: "fetch_word h s = Inr (resp, u)"
    and k: "(case resp of RESP_ERROR \<Rightarrow> abort_fetch EX_INSN_BUS_ERROR u
       | RESP_FAILED \<Rightarrow> Inl Invalid_port_response | RESP_SUCCESS \<Rightarrow> fetch_decode u) = Inr (i, t)"
    by (auto simp: bindE_eq_Inr)
  from k have "shape t = shape u"
    using abort_fetch_shape fetch_decode_shape by (cases resp) auto
  then show ?thesis using fetch_word_shape[OF u] by simp
qed

lemma fetch_shape:
  assumes "fetch h s = Inr (i, t)"
  shows "shape t = shape s"
proof -
  from assms obtain r u where u: "fetch_translate h s = Inr (r, u)"
    and k: "(case r of MMU_TLB_MISS \<Rightarrow> abort_fetch EX_INSN_TLB_MISS u
     | MMU_PAGE_FAULT \<Rightarrow> abort_fetch EX_INSN_PAGE_FAULT u
     | MMU_OKAY \<Rightarrow>
         let insn = dc_lookup (req_addr (m_ireq u)) (m_decode_cache u)
         in if i_addr insn = req_addr (m_ireq u) \<and> \<not> is_decode_cache_off u
            then Inr (Some insn, u\<lparr>m_insn := i_insn insn\<rparr>)
            else bindE (fetch_word h u) (\<lambda>(resp, s).
                 case resp of
                   RESP_ERROR \<Rightarrow> abort_fetch EX_INSN_BUS_ERROR s
                 | RESP_FAILED \<Rightarrow> Inl Invalid_port_response
                 | RESP_SUCCESS \<Rightarrow> fetch_decode s)) = Inr (i, t)"
    by (auto simp: fetch_def bindE_eq_Inr)
  have "shape (u\<lparr>m_insn := x\<rparr>) = shape u" for x by (simp add: shape_def)
  with k have "shape t = shape u"
    by (cases r) (auto simp: Let_def split: if_split_asm dest: abort_fetch_shape fetch_miss_shape)
  then show ?thesis using fetch_translate_shape[OF u] by simp
qed

lemma do_trace_shape: "do_trace ci s = Inr t \<Longrightarrow> shape t = shape s"
  by (auto simp: do_trace_def bindE_eq_Inr emit_def shape_def)

lemma execute_fetched_shape: "execute_fetched h i s = Inr t \<Longrightarrow> shape t = shape s"
  by (auto simp: execute_fetched_def bindE_eq_Inr split: option.splits if_splits
      dest!: execute_effect effect_shape do_trace_shape)

text \<open>What holds after every cycle, whatever the instruction wrote.\<close>

definition fixed_bits :: "or1k \<Rightarrow> bool" where
  "fixed_bits s \<longleftrightarrow> gpr s ! 0 = 0 \<and> m_status s AND SR_FO \<noteq> 0"

lemma SR_FO_bit: "x AND SR_FO \<noteq> 0 \<longleftrightarrow> bit x 15"
  unfolding SR_FO_def by (rule and_push_bit_one)

lemma restore_fixed_ok: "core_ok s \<Longrightarrow> fixed_bits (restore_fixed s)"
  unfolding fixed_bits_def SR_FO_bit by (simp add: restore_fixed_def core_ok_def bit_or_iff bit_SR)

lemma update_pc_keeps: "update_pc l s = (l', t) \<Longrightarrow> shape t = shape s \<and> fixed_bits t = fixed_bits s"
  by (auto simp: update_pc_def Let_def shape_def fixed_bits_def split: if_splits)

lemma cycle_keeps:
  assumes "cycle h l s = Inr (l', t)"
  shows "shape t = shape s" "core_ok s \<Longrightarrow> fixed_bits t"
proof -
  from assms obtain i u v where u: "fetch h (begin_cycle s) = Inr (i, u)"
    "execute_fetched h i u = Inr v" "update_pc l (restore_fixed v) = (l', t)"
    by (auto simp: cycle_def bindE_eq_Inr)
  have b: "shape (begin_cycle s) = shape s" "shape (restore_fixed v) = shape v"
    by (simp_all add: begin_cycle_def restore_fixed_def shape_def)
  have v: "shape v = shape s" using fetch_shape[OF u(1)] execute_fetched_shape[OF u(2)] b by simp
  show "shape t = shape s" using update_pc_keeps[OF u(3)] v b by simp
  assume "core_ok s"
  then have "core_ok v" using shape_core_ok[OF v] by simp
  then show "fixed_bits t" using update_pc_keeps[OF u(3)] restore_fixed_ok by simp
qed

section \<open>The loops\<close>

lemma bindF_eq: "bindF m f = Some (Inr y) \<longleftrightarrow> (\<exists>x. m = Some (Inr x) \<and> f x = Some (Inr y))"
  by (auto simp: bindF_def split: option.splits sum.splits)

lemma mini_quantum_keeps:
  "mini_quantum n h l s = Some (Inr (b, t)) \<Longrightarrow> shape t = shape s \<and> (fixed_bits s \<and> core_ok s \<longrightarrow> fixed_bits t)"
proof (induction n h l s rule: mini_quantum.induct)
  case (2 n h l s)
  show ?case
  proof (cases "m_cycles s < l")
    case True
    with 2(2) obtain l' u where u: "cycle h l s = Inr (l', u)"
      and k: "t = u \<or> mini_quantum n h l' u = Some (Inr (b, t))" "t \<noteq> u \<Longrightarrow> \<not> m_stop_requested u \<and>
        \<not> m_break_requested u \<and> \<not> wpe_hit (m_wp_event u)"
      by (auto simp: bindF_eq split: if_splits)
    note c = cycle_keeps[OF u]
    show ?thesis
    proof (cases "t = u")
      case False
      with k have "shape t = shape u \<and> (fixed_bits u \<and> core_ok u \<longrightarrow> fixed_bits t)"
        using 2(1)[OF True] False by blast
      with c shape_core_ok[OF c(1)] show ?thesis by auto
    qed (use c in auto)
  qed (use 2(2) in auto)
qed simp

lemma clear_requests_keeps [simp]:
  "shape (clear_requests s) = shape s" "fixed_bits (clear_requests s) = fixed_bits s"
  by (simp_all add: clear_requests_def shape_def fixed_bits_def)

text \<open>Between mini-quanta an exception may be raised, which does not change the two fixed values.\<close>

lemma exception_keeps_fixed:
  assumes "exception type addr s = Inr t" "fixed_bits s"
  shows "fixed_bits t"
proof -
  have "bit (m_status (exception_enter type addr s)) 15 = bit (m_status s) 15"
    by (simp add: exception_enter_status)
  then show ?thesis
    using assms unfolding fixed_bits_def SR_FO_bit
    by (auto simp: exception_eq exception_taken_fields split: if_splits)
qed

lemma update_timer_fixed: "update_timer s = Inr t \<Longrightarrow> fixed_bits s \<Longrightarrow> fixed_bits t"
  by (auto simp: update_timer_def Let_def bindE_eq_Inr fixed_bits_def split: if_splits
      dest!: exception_keeps_fixed)

lemma external_exception_keeps:
  "external_exception s = Inr t \<Longrightarrow> shape t = shape s \<and> (fixed_bits s \<longrightarrow> fixed_bits t)"
  by (auto simp: external_exception_def split: if_splits dest: exception_keeps_fixed exception_quiet
      intro: quiet_shape)

lemma between_keeps:
  "bindE (update_timer s) external_exception = Inr t \<Longrightarrow> shape t = shape s \<and> (fixed_bits s \<longrightarrow> fixed_bits t)"
  using update_timer_shape update_timer_fixed external_exception_keeps
  by (fastforce simp: bindE_eq_Inr)

lemma quanta_keeps:
  "quanta n h s = Some (Inr (r, t)) \<Longrightarrow> shape t = shape s \<and> (fixed_bits s \<and> core_ok s \<longrightarrow> fixed_bits t)"
proof (induction n h s rule: quanta.induct)
  case (2 n h s)
  show ?case
  proof (cases "m_cycles s < m_limit s")
    case True
    let ?s = "clear_requests s"
    from True 2(2) obtain stop u where
      u: "mini_quantum (Suc n) h (quantum_limit ?s) ?s = Some (Inr (stop, u))"
      and k: "(if stop then Some (Inr (STEP_EXIT, u))
        else bindF (Some (bindE (update_timer u) external_exception)) (\<lambda>s.
          if breakpoint_hit s then Some (Inr (STEP_BREAKPOINT, s))
          else if watchpoint_hit s then Some (Inr (STEP_WATCHPOINT, s))
          else quanta n h s)) = Some (Inr (r, t))"
      by (auto simp: Let_def bindF_eq)
    have su: "shape u = shape s" "fixed_bits s \<and> core_ok s \<longrightarrow> fixed_bits u"
      using mini_quantum_keeps[OF u] shape_core_ok[of ?s s] by simp_all
    show ?thesis
    proof (cases stop)
      case True
      with k su show ?thesis by simp
    next
      case False
      with k obtain v where v: "bindE (update_timer u) external_exception = Inr v"
        and w: "t = v \<or> \<not> breakpoint_hit v \<and> \<not> watchpoint_hit v \<and> quanta n h v = Some (Inr (r, t))"
        by (auto simp: bindF_eq split: if_splits)
      have sv: "shape v = shape s" "fixed_bits s \<and> core_ok s \<longrightarrow> fixed_bits v"
        using between_keeps[OF v] su by auto
      from w show ?thesis
      proof
        assume "\<not> breakpoint_hit v \<and> \<not> watchpoint_hit v \<and> quanta n h v = Some (Inr (r, t))"
        with 2(1)[OF True refl False] have "shape t = shape v \<and> (fixed_bits v \<and> core_ok v \<longrightarrow> fixed_bits t)"
          by blast
        with sv shape_core_ok[OF sv(1)] show ?thesis by auto
      qed (use sv in simp)
    qed
  qed (use 2(2) in auto)
qed simp

lemma doze_fixed: "doze h s = Inr t \<Longrightarrow> fixed_bits s \<Longrightarrow> fixed_bits t"
  by (auto simp: doze_def Let_def split: if_splits prod.splits dest!: update_timer_fixed)
    (auto simp: fixed_bits_def)

lemma advance_keeps:
  assumes "advance n h c s = Some (Inr (r, t))"
  shows "shape t = shape s" "fixed_bits s \<Longrightarrow> core_ok s \<Longrightarrow> fixed_bits t"
proof -
  from assms obtain u v where u: "external_exception (s\<lparr>m_limit := m_cycles s + ucast c\<rparr>) = Inr u"
    "doze h u = Inr v" "quanta n h v = Some (Inr (r, t))"
    by (auto simp: advance_def advance_begin_def bindF_eq bindE_eq_Inr)
  have l: "shape (s\<lparr>m_limit := x\<rparr>) = shape s" "fixed_bits (s\<lparr>m_limit := x\<rparr>) = fixed_bits s" for x
    by (simp_all add: shape_def fixed_bits_def)
  have v: "shape v = shape s" "fixed_bits s \<Longrightarrow> fixed_bits v"
    using external_exception_keeps[OF u(1)] doze_shape[OF u(2)] doze_fixed[OF u(2)] l by auto
  show "shape t = shape s" using quanta_keeps[OF u(3)] v by simp
  show "fixed_bits s \<Longrightarrow> core_ok s \<Longrightarrow> fixed_bits t"
    using quanta_keeps[OF u(3)] v shape_core_ok[OF v(1)] by blast
qed

section \<open>No assertion fails\<close>

text \<open>
  The assertions of the code are about the requests that the core itself makes; a device that does
  not fail an assertion of its own is assumed.
\<close>

definition unasserted :: "'a res \<Rightarrow> bool" where
  "unasserted m \<longleftrightarrow> m \<noteq> Inl Assertion_failed"

definition device_unasserted :: "host \<Rightarrow> bool" where
  "device_unasserted h \<longleftrightarrow> (\<forall>req e. unasserted (vt_transact (h_env h) req e))"

lemma unasserted_simps [simp]: "unasserted (Inr x)" "unasserted (Inl e) \<longleftrightarrow> e \<noteq> Assertion_failed"
  by (simp_all add: unasserted_def)

lemma unasserted_bind:
  "unasserted m \<Longrightarrow> (\<And>x. m = Inr x \<Longrightarrow> unasserted (f x)) \<Longrightarrow> unasserted (bindE m f)"
  by (auto simp: unasserted_def bindE_eq_Inl)

lemma unasserted_keeps: "keeps s m \<Longrightarrow> unasserted m"
  using keeps_error by (fastforce simp: unasserted_def)

lemma unasserted_exception: "unasserted (exception type addr s)"
  by (simp add: exception_eq)

lemma unasserted_bytes: "unasserted (load_bytes m p n)" "unasserted (store_bytes m p bs)"
proof -
  have "load_bytes m p n \<noteq> Inl Assertion_failed"
  proof -
    have "mapE (\<lambda>a. requireE Host_fault (m a)) xs \<noteq> Inl Assertion_failed" for xs
      by (induction xs) (auto simp: bindE_eq_Inl requireE_def split: option.splits)
    then show ?thesis by (simp add: load_bytes_def)
  qed
  then show "unasserted (load_bytes m p n)" by (simp add: unasserted_def)
qed (simp add: store_bytes_def)

lemma unasserted_assertE: "unasserted (assertE b Host_fault)"
  by (cases b) simp_all

lemma unasserted_exclusive: "unasserted (exclusive_access p req e)"
  by (auto simp: exclusive_access_def read_into_def cas_def bindE_assoc
      intro!: unasserted_bind unasserted_bytes unasserted_assertE)

lemma unasserted_send: "device_unasserted h \<Longrightarrow> unasserted (send_request (h_env h) req e)"
  by (cases "direct_memory_ptr req e")
    (auto simp: send_request_def Let_def read_into_def write_from_def device_unasserted_def
      split: option.split intro!: unasserted_bind unasserted_exclusive unasserted_bytes)

lemma unasserted_convert: "device_unasserted h \<Longrightarrow> unasserted (convert_and_transact (h_env h) req e)"
  by (auto simp: convert_and_transact_def Let_def intro!: unasserted_bind unasserted_send unasserted_assertE)

lemma unasserted_translate: "device_unasserted h \<Longrightarrow> unasserted (translate (h_env h) req t e)"
  by (auto simp: translate_def table_walk_def read_pte_def Let_def bindE_assoc
      split: option.split prod.split intro!: unasserted_bind unasserted_convert)

lemma unasserted_abort: "unasserted (abort_access type req s)" "unasserted (abort_fetch type s)"
  by (auto simp: abort_access_def abort_fetch_def intro!: unasserted_bind unasserted_exception)

text \<open>The two assertions of \<^verbatim>\<open>or1k::transact\<close>, and the response that only an exclusive access has.\<close>

lemma unasserted_transact:
  assumes d: "device_unasserted h" and req: "is_dmem req" "m_excl req \<longrightarrow> req_size req = SIZE_WORD"
  shows "unasserted (transact h req s)"
proof -
  let ?q = "req\<lparr>m_super := is_supervisor s, req_cycles := 0\<rparr>"
  have tr: "unasserted (data_translate h q u)" for q u
    using unasserted_translate[OF d] by (auto simp: data_translate_def intro!: unasserted_bind)
  have pa: "unasserted (port_access h q u)" for q u
    using unasserted_convert[OF d]
    by (auto simp: port_access_def Let_def assertE_def split: response.split
        intro!: unasserted_bind unasserted_abort)
  have ex: "m_excl q \<longrightarrow> req_size q = SIZE_WORD"
    if "data_translate h ?q u = Inr (r, q, w)" for u r q w
    using data_translate_frame[OF that] req(2) by (simp add: request_config_def)
  have "unasserted (case r of MMU_TLB_MISS \<Rightarrow> abort_access EX_DATA_TLB_MISS q u
       | MMU_PAGE_FAULT \<Rightarrow> abort_access EX_DATA_PAGE_FAULT q u
       | MMU_OKAY \<Rightarrow> bindE (assertE (m_excl q \<longrightarrow> req_size q = SIZE_WORD) Assertion_failed) (\<lambda>_.
           port_access h q (if m_excl q then count_exclusive q u else u)))"
    if "m_excl q \<longrightarrow> req_size q = SIZE_WORD" for r q u
    using that pa unasserted_abort by (cases r) (auto intro!: unasserted_bind)
  with ex tr unasserted_abort req(1) show ?thesis
    by (auto simp: transact_def Let_def is_dmem_def intro!: unasserted_bind)
qed

lemma unasserted_op: "unasserted (get_op ci p s)" "unasserted (put_op p v s)"
  by (cases p; simp add: get_op_def put_op_def)+

lemma unasserted_data_access:
  assumes "device_unasserted h" "core_ok s" "ex \<longrightarrow> sz = SIZE_WORD"
  shows "unasserted (data_access h rd ex sz p ci s)"
  using assms
  by (auto simp: data_access_def Let_def core_ok_def is_dmem_def
      intro!: unasserted_bind unasserted_op unasserted_transact)

lemma unasserted_then_dest: "unasserted (then_dest f ci x)"
  by (cases x) (auto simp: then_dest_def set_dest_def intro!: unasserted_bind unasserted_op)

lemma unasserted_set_spr: "unasserted (set_spr h reg v dbg s)"
proof -
  have "unasserted (update_timer u)" for u
    by (auto simp: update_timer_def Let_def intro!: unasserted_bind unasserted_exception)
  then have "unasserted (doze h u)" for u
    by (auto simp: doze_def Let_def split: prod.split)
  then show ?thesis by (auto simp: set_spr_def Let_def split: option.split)
qed

lemma unasserted_execute:
  assumes "device_unasserted h" "core_ok s"
  shows "unasserted (execute x h ci s)"
proof (cases x)
  case (X_mem m)
  show ?thesis
    unfolding X_mem using assms
    by (cases m)
      (auto simp: execute_orbis32_lwa_def execute_orbis32_lw_def execute_orbis32_lhz_def
        execute_orbis32_lhs_def execute_orbis32_lbz_def execute_orbis32_lbs_def
        execute_orbis32_swa_def execute_orbis32_sw_def execute_orbis32_sh_def execute_orbis32_sb_def
        intro!: unasserted_bind unasserted_data_access unasserted_then_dest)
next
  case (X_sysgrp y)
  have "unasserted (execute_orbis32_nop h ci s)"
    by (auto simp: execute_orbis32_nop_def Let_def with_src1_def intro!: unasserted_bind unasserted_op)
  moreover have "unasserted (execute_orbis32_mtspr h ci s)"
    by (auto simp: execute_orbis32_mtspr_def with_src1_def intro!: unasserted_bind unasserted_op unasserted_set_spr)
  moreover have "unasserted (execute_orbis32_rfe h ci s)"
    by (auto simp: execute_orbis32_rfe_def Let_def intro!: unasserted_bind unasserted_set_spr
        unasserted_keeps[OF keeps_schedule_jump[OF quiet_refl]])
  ultimately show ?thesis
    using exec_sys_quiet[of y s h ci, THEN unasserted_keeps] unfolding X_sysgrp by (cases y) simp_all
qed (use exec_quiet[THEN unasserted_keeps] in simp_all)

lemma unasserted_decode: "unasserted (decode_table op w pc ci)"
proof -
  have "unasserted (table_call x w pc ci)" for x
    by (simp add: table_call_def decode_na_def split: option.split)
  then show ?thesis by (cases op) (simp_all add: decode_na_def)
qed

lemma unasserted_fetch:
  assumes "device_unasserted h"
  shows "unasserted (fetch h s)"
proof -
  have "unasserted (fetch_translate h s)"
    using unasserted_translate[OF assms]
    by (simp only: fetch_translate_def Let_def split: if_split)
      (auto intro!: unasserted_bind)
  moreover have "unasserted (fetch_decode u)" for u
    using unasserted_abort unasserted_decode
    by (simp only: fetch_decode_def Let_def split: if_split) (auto intro!: unasserted_bind)
  moreover have "unasserted (fetch_word h u)" for u
    using unasserted_convert[OF assms] unasserted_bytes
    by (auto simp: fetch_word_def split: option.split intro!: unasserted_bind)
  ultimately show ?thesis
    using unasserted_abort
    by (auto simp: fetch_def Let_def split: mmu_result.split response.split intro!: unasserted_bind)
qed

lemma unasserted_cycle:
  assumes "device_unasserted h" "core_ok s"
  shows "unasserted (cycle h l s)"
proof -
  have "unasserted (do_trace ci u)" for ci u
    by (auto simp: do_trace_def trace_operands_def trace_snprintf_def trace_sprintf_def Let_def
        split: operand.split prod.split intro!: unasserted_bind unasserted_op unasserted_assertE)
  then have e: "unasserted (execute_fetched h i u)" if "core_ok u" for i u
    using unasserted_execute[OF assms(1) that]
    by (auto simp: execute_fetched_def split: option.split intro!: unasserted_bind)
  have "core_ok u" if "fetch h (begin_cycle s) = Inr (i, u)" for i u
  proof -
    have "shape u = shape s" using fetch_shape[OF that] by (simp add: begin_cycle_def shape_def)
    from shape_core_ok[OF this] assms(2) show ?thesis by simp
  qed
  with e unasserted_fetch[OF assms(1)] show ?thesis
    by (auto simp: cycle_def intro!: unasserted_bind)
qed

lemma bindF_Inl: "bindF m f = Some (Inl e) \<longleftrightarrow> m = Some (Inl e) \<or> (\<exists>x. m = Some (Inr x) \<and> f x = Some (Inl e))"
  by (auto simp: bindF_def split: option.splits sum.splits)

lemma unasserted_mini_quantum:
  "device_unasserted h \<Longrightarrow> core_ok s \<Longrightarrow> mini_quantum n h l s \<noteq> Some (Inl Assertion_failed)"
proof (induction n h l s rule: mini_quantum.induct)
  case (2 n h l s)
  show ?case
  proof
    assume a: "mini_quantum (Suc n) h l s = Some (Inl Assertion_failed)"
    then have l: "m_cycles s < l" by (auto split: if_splits)
    have "cycle h l s \<noteq> Inl Assertion_failed"
      using unasserted_cycle[OF 2(2,3)] by (simp add: unasserted_def)
    with a l obtain l' u where u: "cycle h l s = Inr (l', u)" "\<not> m_stop_requested u"
      "\<not> m_break_requested u" "\<not> wpe_hit (m_wp_event u)"
      "mini_quantum n h l' u = Some (Inl Assertion_failed)"
      by (auto simp: bindF_Inl split: if_splits)
    have "core_ok u" using shape_core_ok[OF cycle_keeps(1)[OF u(1)]] 2(3) by simp
    with 2(1)[OF l u(2-4) 2(2)] u(5) show False by blast
  qed
qed simp

lemma unasserted_between: "unasserted (bindE (update_timer s) external_exception)"
  by (auto simp: update_timer_def external_exception_def Let_def intro!: unasserted_bind unasserted_exception)

lemma unasserted_quanta:
  "device_unasserted h \<Longrightarrow> core_ok s \<Longrightarrow> quanta n h s \<noteq> Some (Inl Assertion_failed)"
proof (induction n h s rule: quanta.induct)
  case (2 n h s)
  show ?case
  proof
    let ?s = "clear_requests s"
    assume a: "quanta (Suc n) h s = Some (Inl Assertion_failed)"
    then have l: "m_cycles s < m_limit s" by (auto split: if_splits)
    have ok: "core_ok ?s" using shape_core_ok[of ?s s] 2(3) by simp
    from a l unasserted_mini_quantum[OF 2(2) ok] unasserted_between obtain u v where
      u: "mini_quantum (Suc n) h (quantum_limit ?s) ?s = Some (Inr (False, u))"
      and v: "bindE (update_timer u) external_exception = Inr v" "\<not> breakpoint_hit v"
        "\<not> watchpoint_hit v" "quanta n h v = Some (Inl Assertion_failed)"
      by (auto simp: Let_def bindF_Inl unasserted_def simp del: mini_quantum.simps split: if_splits)
    have "shape v = shape s" using between_keeps[OF v(1)] mini_quantum_keeps[OF u] by simp
    from shape_core_ok[OF this] 2(3) have "core_ok v" by simp
    moreover have f: "\<not> False" by simp
    ultimately show False using 2(1)[OF l refl f v(2,3) 2(2)] v(4) by blast
  qed
qed simp

section \<open>Sequences of operations\<close>

text \<open>
  The public operations of the simulator, and what its user may do between them: change registers,
  which are public, and the environment.
\<close>

inductive operation :: "host \<Rightarrow> or1k \<Rightarrow> or1k \<Rightarrow> bool" for h where
  op_step: "step n h c s = Some (Inr (r, c', t)) \<Longrightarrow> operation h s t"
| op_run: "run k n h q s = Some (Inr (r, t)) \<Longrightarrow> operation h s t"
| op_interrupt: "operation h s (interrupt irq st s)"
| op_insert_breakpoint: "operation h s (insert_breakpoint a s)"
| op_remove_breakpoint: "operation h s (remove_breakpoint a s)"
| op_insert_watchpoint_r: "operation h s (insert_watchpoint_r a sz s)"
| op_remove_watchpoint_r: "operation h s (remove_watchpoint_r a sz s)"
| op_insert_watchpoint_w: "operation h s (insert_watchpoint_w a sz s)"
| op_remove_watchpoint_w: "operation h s (remove_watchpoint_w a sz s)"
| op_set_spr: "set_spr h reg v dbg s = Inr t \<Longrightarrow> operation h s t"
| op_tlb_miss: "trigger_tlb_miss a s = Inr t \<Longrightarrow> operation h s t"
| op_trace: "trace_to st s = Inr t \<Longrightarrow> operation h s t"
| op_settings: "t \<in> {allow_sleep b s, set_clock x s, set_core_id x s, set_numcores x s,
    reset_cycles s, reset_instructions s, reset_compiles s, reset_sleep_cycles s,
    reset_exclusive s, set_pic_level b s, set_pic_edge b s} \<Longrightarrow> operation h s t"
| op_register: "operation h s (s\<lparr>gpr := (gpr s)[n := v]\<rparr>)"
| op_environment: "operation h s (s\<lparr>m_env := e\<rparr>)"

inductive reachable :: "host \<Rightarrow> or1k \<Rightarrow> bool" for h where
  reachable_new: "new_or1k e sz block = Inr s \<Longrightarrow> reachable h s"
| reachable_op: "\<lbrakk>reachable h s; operation h s t\<rbrakk> \<Longrightarrow> reachable h t"

text \<open>The invariant does not depend on the breakpoints.\<close>

lemma core_ok_breakpoints: "core_ok (s\<lparr>m_breakpoints := b\<rparr>) = core_ok s"
  by (simp add: core_ok_def)

lemma step_advance: "step n h c s = Some (Inr (r, c', t)) \<Longrightarrow> advance n h c s = Some (Inr (r, t))"
  by (auto simp: step_def bindF_eq)

lemma run_keeps:
  "run k n h q s = Some (Inr (r, t)) \<Longrightarrow> shape t = shape s \<and> (fixed_bits s \<and> core_ok s \<longrightarrow> fixed_bits t)"
proof (induction k n h q s rule: run.induct)
  case (2 k n h q s)
  then obtain sr u where u: "advance n h q s = Some (Inr (sr, u))"
    and k: "if sr = STEP_OK then run k n h q u = Some (Inr (r, t)) else t = u"
    by (auto simp: bindF_eq split: if_splits)
  note a = advance_keeps[OF u]
  show ?case
  proof (cases "sr = STEP_OK")
    case True
    with k 2(1) have "shape t = shape u \<and> (fixed_bits u \<and> core_ok u \<longrightarrow> fixed_bits t)" by simp
    with a shape_core_ok[OF a(1)] show ?thesis by auto
  qed (use k a in auto)
qed simp

lemma operation_core_ok:
  assumes "operation h s t" "core_ok s"
  shows "core_ok t"
  using assms
proof (cases rule: operation.cases)
  case (op_step n c r c')
  from shape_core_ok[OF advance_keeps(1)[OF step_advance[OF op_step]]] assms(2) show ?thesis by simp
next
  case (op_run k n q r)
  from shape_core_ok[of t s] run_keeps[OF op_run] assms(2) show ?thesis by simp
next
  case (op_set_spr reg v dbg)
  from shape_core_ok[OF set_spr_shape[OF op_set_spr]] assms(2) show ?thesis by simp
next
  case (op_tlb_miss a)
  then have "quiet s t" by (auto simp: trigger_tlb_miss_def dest: exception_quiet)
  from shape_core_ok[OF quiet_shape[OF this]] assms(2) show ?thesis by simp
qed (use assms(2) in \<open>auto simp: core_ok_def interrupt_def interrupt_level_def interrupt_edge_def
    Let_def insert_breakpoint_def remove_breakpoint_def insert_watchpoint_r_def
    remove_watchpoint_r_def insert_watchpoint_w_def remove_watchpoint_w_def trace_to_def
    allow_sleep_def set_clock_def set_core_id_def set_numcores_def reset_cycles_def
    reset_instructions_def reset_compiles_def reset_sleep_cycles_def reset_exclusive_def
    set_pic_level_def set_pic_edge_def split: if_splits\<close>)

lemma new_or1k_ok:
  assumes "new_or1k e sz block = Inr s"
  shows "core_ok s" "fixed_bits s"
proof -
  obtain d i where m: "new_mmu MMU_CONFIG True = Inr d" "new_mmu MMU_CONFIG True = Inr i"
    "s = power_on e (new_decode_cache sz block) d i"
    using assms by (auto simp: new_or1k_def bindE_eq_Inr)
  have "m_status s = SR_FO OR SR_SM" "gpr s = replicate 32 0" by (simp_all add: m(3) power_on_def)
  then show "fixed_bits s" unfolding fixed_bits_def SR_FO_bit by (simp add: bit_or_iff bit_SR)
  show "core_ok s"
    using new_mmu_wf[OF m(1)] new_mmu_wf[OF m(2)]
    by (simp add: m(3) core_ok_def power_on_def new_request_def)
qed

lemma reachable_ok: "reachable h s \<Longrightarrow> core_ok s"
  by (induction rule: reachable.induct) (auto intro: new_or1k_ok operation_core_ok)

lemma shadow_bound: "in_shadow reg \<Longrightarrow> unat (reg - SPR_GPR) < OR1KISS_SHADOW_REGS"
  by (auto simp: spr_range_defs spr_number_defs word_le_nat_alt word_less_nat_alt unat_sub_if'
      OR1KISS_SHADOW_REGS_def)

lemma tlb_index:
  "in_dtlb reg \<Longrightarrow> unat (reg - SPR_DTLBW0MR) < OR1KISS_TLB_MAX_REGS"
  "in_itlb reg \<Longrightarrow> unat (reg - SPR_ITLBW0MR) < OR1KISS_TLB_MAX_REGS"
  by (auto simp: spr_range_defs spr_number_defs word_le_nat_alt word_less_nat_alt unat_sub_if'
      OR1KISS_TLB_MAX_REGS_def OR1KISS_TLB_MAX_WAYS_def OR1KISS_TLB_MAX_SETS_def)

text \<open>C8: The representation invariant. In every state that any sequence of public operations reaches
  from a new simulator, whatever the program, the memory and the devices do, the register file has 32
  registers and the shadow file 512, both TLBs have the shape that their indices rely on, the data
  and instruction requests have the kind that the accesses of the core rely on, and every special
  purpose register number that selects an array element selects one that exists.\<close>

theorem reachable_core_ok:
  assumes "reachable h s"
  shows "core_ok s \<and> (\<forall>reg.
    (in_shadow reg \<longrightarrow> unat (reg - SPR_GPR) < length (m_shadow s)) \<and>
    (in_dtlb reg \<longrightarrow> unat (reg - SPR_DTLBW0MR) < length (m_tlb (m_dmmu s))) \<and>
    (in_itlb reg \<longrightarrow> unat (reg - SPR_ITLBW0MR) < length (m_tlb (m_immu s))))"
  using reachable_ok[OF assms] shadow_bound tlb_index by (simp add: core_ok_def mmu_wf_def)

lemma new_or1k_demo: "\<exists>s. new_or1k (new_env ENDIAN_BIG (\<lambda>_. None)) 0 (\<lambda>_. zero_insn) = Inr s"
  by (simp add: new_or1k_def new_mmu_def Let_def)

theorem reachable_core_ok_witness:
  "\<exists>s. reachable demo_host s \<and> m_pic_sr s = 4 \<and> core_ok s"
proof -
  obtain s where s: "new_or1k (new_env ENDIAN_BIG (\<lambda>_. None)) 0 (\<lambda>_. zero_insn) = Inr s"
    using new_or1k_demo by blast
  have r: "reachable demo_host (interrupt 2 True s)"
    by (rule reachable_op[OF reachable_new[OF s] op_interrupt])
  have "m_pic_sr (interrupt 2 True s) = 4"
    using s by (auto simp: new_or1k_def bindE_eq_Inr power_on_def interrupt_def interrupt_level_def Let_def)
  with r reachable_core_ok[OF r] show ?thesis by blast
qed

text \<open>C25: Register 0 reads as zero and the fixed-one bit of the status register is set whenever a
  simulation step returns, if they were when it started; no instruction, exception or special
  purpose register write in between can leave them otherwise.\<close>

theorem step_keeps_fixed_values:
  assumes "step n h c s = Some (Inr (r, c', t))" "core_ok s"
    and "gpr s ! 0 = 0" "m_status s AND SR_FO \<noteq> 0"
  shows "gpr t ! 0 = 0 \<and> m_status t AND SR_FO \<noteq> 0"
  using advance_keeps(2)[OF step_advance[OF assms(1)]] assms(2-4) by (simp add: fixed_bits_def)

text \<open>C24: No assertion of the simulator fails. From any reachable state, and for any program, a
  simulation step does not end in a failed assertion, provided that the device behind the memory
  port has none.\<close>

theorem no_assertion_fails:
  assumes "reachable h s" "\<forall>req e. vt_transact (h_env h) req e \<noteq> Inl Assertion_failed"
  shows "step n h c s \<noteq> Some (Inl Assertion_failed)"
proof -
  have d: "device_unasserted h" using assms(2) by (simp add: device_unasserted_def unasserted_def)
  have ok: "core_ok s" by (rule reachable_ok[OF assms(1)])
  have b: "advance_begin h c s \<noteq> Inl Assertion_failed"
    using unasserted_exception
    by (auto simp: advance_begin_def bindE_eq_Inl external_exception_def unasserted_def doze_def
        update_timer_def Let_def split: if_splits prod.splits)
  have "advance n h c s \<noteq> Some (Inl Assertion_failed)"
  proof
    assume "advance n h c s = Some (Inl Assertion_failed)"
    with b obtain v where v: "advance_begin h c s = Inr v" "quanta n h v = Some (Inl Assertion_failed)"
      by (auto simp: advance_def bindF_Inl)
    have "shape v = shape s"
      using v(1) by (auto simp: advance_begin_def bindE_eq_Inr shape_def dest!: external_exception_keeps doze_shape)
    from shape_core_ok[OF this] ok unasserted_quanta[OF d, of v n] v(2) show False by simp
  qed
  then show ?thesis by (auto simp: step_def bindF_Inl)
qed

text \<open>A simulator about to add 5 to register 0.\<close>

definition demo_running :: or1k where
  "demo_running = demo_core\<lparr>m_decode_cache := dc_store 0x100
     (zero_insn\<lparr>i_addr := 0x100, i_exec := X_alu X_add, i_dest := PGpr 0, i_src1 := PGpr 0,
        i_src2 := PImm, i_imm := 5\<rparr>) (new_decode_cache 10 (\<lambda>_. zero_insn))\<rparr>"

lemma demo_core_more:
  "m_dmmu demo_core = demo_mmu" "m_immu demo_core = demo_mmu" "m_cycles demo_core = 0"
  "m_dreq demo_core = new_request\<lparr>m_imem := False\<rparr>"
  "m_ireq demo_core = new_request\<lparr>m_read := True, m_imem := True, req_data := le_bytes 4 (0 :: u32),
     req_size := SIZE_WORD\<rparr>"
  "m_breakpoints demo_core = []" "m_tick demo_core = new_tick" "m_tick_stamp demo_core = 0"
  "m_wp_event demo_core = \<lparr>wpe_addr = 0, wpe_size = 0, wpe_wval = 0, wpe_iswr = False, wpe_hit = False\<rparr>"
  "m_pmr demo_core = 0" "m_pic_sr demo_core = 0" "m_trace_enabled demo_core = False"
  "m_env demo_core = new_env ENDIAN_BIG (\<lambda>_. None)" "m_aecr demo_core = 0"
  "m_stop_requested demo_core = False" "m_break_requested demo_core = False"
  by (simp_all add: demo_core_def power_on_def)

lemma demo_running_facts:
  "core_ok demo_running" "gpr demo_running = replicate 32 0" "m_status demo_running = SR_FO OR SR_SM"
  using demo_core_fields demo_core_more demo_mmu_facts(1)
  by (simp_all add: demo_running_def core_ok_def tlb_wf_def new_request_def)

lemma demo_flags: "\<not> is_immu_active demo_core" "\<not> is_ext_irq_enabled demo_core"
  by (simp_all add: sr_queries demo_core_fields bit_or_iff bit_SR)

text \<open>The one cycle it runs, without a fetch from memory.\<close>

definition demo_fetched :: or1k where
  "demo_fetched = (begin_cycle (clear_requests (demo_running\<lparr>m_limit := 1\<rparr>)))
     \<lparr>m_ireq := (m_ireq demo_core)\<lparr>m_super := True, req_addr := 0x100, req_cycles := 0\<rparr>, m_insn := 0\<rparr>"

lemma demo_fetch:
  "fetch demo_host (begin_cycle (clear_requests (demo_running\<lparr>m_limit := 1\<rparr>))) =
     Inr (Some (zero_insn\<lparr>i_addr := 0x100, i_exec := X_alu X_add, i_dest := PGpr 0, i_src1 := PGpr 0,
        i_src2 := PImm, i_imm := 5\<rparr>), demo_fetched)"
  using demo_flags(1) demo_modes(1)
  by (simp add: fetch_def fetch_translate_def Let_def begin_cycle_def clear_requests_def
      demo_running_def is_immu_active_def is_supervisor_def demo_core_fields demo_core_more dc_lookup_def
      dc_store_def dc_index_def zero_insn_def is_decode_cache_off_def dc_is_enabled_def
      new_decode_cache_def dc_invalidate_all_def DECODE_CACHE_OFF_def demo_fetched_def)

lemma demo_fetched_fields:
  "gpr demo_fetched = replicate 32 0" "m_status demo_fetched = SR_FO OR SR_SM" "m_cycles demo_fetched = 1"
  "m_limit demo_fetched = 1" "m_jump_insn demo_fetched = 0" "m_instructions demo_fetched = 1"
  "m_trace_enabled demo_fetched = False" "m_next_pc demo_fetched = 0x100" "m_breakpoints demo_fetched = []"
  "m_tick demo_fetched = new_tick" "m_pic_sr demo_fetched = 0"
  "wpe_hit (m_wp_event demo_fetched) = False" "m_stop_requested demo_fetched = False"
  "m_break_requested demo_fetched = False"
  by (simp_all add: demo_fetched_def demo_running_def begin_cycle_def clear_requests_def
      demo_core_fields demo_core_more)

lemma demo_executed:
  "\<exists>m. execute_fetched demo_host (Some (zero_insn\<lparr>i_addr := 0x100, i_exec := X_alu X_add, i_dest := PGpr 0,
     i_src1 := PGpr 0, i_src2 := PImm, i_imm := 5\<rparr>)) demo_fetched =
   Inr (demo_fetched\<lparr>gpr := (replicate 32 0)[0 := 5], m_status := m\<rparr>)"
  by (rule exI[of _ "flagged False False (SR_FO OR SR_SM)"])
    (simp add: execute_fetched_def execute_orbis32_add_def with_srcs_def get_op_def set_dest_def put_op_def Let_def demo_fetched_fields zero_insn_def add_overflows_def flag_when_def clear_carry_overflow_def status_clear_def flagged_def and.assoc)

definition demo_stepped :: "u32 \<Rightarrow> or1k" where
  "demo_stepped m = demo_fetched\<lparr>gpr := replicate 32 0, m_status := m OR SR_FO, m_prev_pc := 0x100,
     m_next_pc := 0x104\<rparr>"

lemma demo_zero: "((replicate 32 0)[0 := 5])[0 := 0] = replicate 32 (0 :: u32)"
  by (simp add: list_update_overwrite list_update_id[of "replicate 32 0" 0, simplified])

lemma demo_cycle:
  "\<exists>m. cycle demo_host 1 (clear_requests (demo_running\<lparr>m_limit := 1\<rparr>)) = Inr (1, demo_stepped m)"
proof -
  obtain m where e: "execute_fetched demo_host (Some (zero_insn\<lparr>i_addr := 0x100, i_exec := X_alu X_add,
     i_dest := PGpr 0, i_src1 := PGpr 0, i_src2 := PImm, i_imm := 5\<rparr>)) demo_fetched =
   Inr (demo_fetched\<lparr>gpr := (replicate 32 0)[0 := 5], m_status := m\<rparr>)" using demo_executed by blast
  show ?thesis
    unfolding cycle_def demo_fetch bindE_Inr prod.case e
    by (rule exI[of _ m])
      (simp add: restore_fixed_def update_pc_def Let_def demo_fetched_fields demo_zero demo_stepped_def
        del: list_update_overwrite)
qed

lemma demo_step:
  "\<exists>t. step 2 demo_host 1 demo_running = Some (Inr (STEP_OK, 1, t)) \<and> gpr t = replicate 32 0 \<and>
     m_next_pc t = 0x104 \<and> m_cycles t = 1"
proof -
  let ?s = "demo_running\<lparr>m_limit := 1\<rparr>"
  have b: "advance_begin demo_host 1 demo_running = Inr ?s"
    by (simp add: advance_begin_def external_exception_def doze_def demo_running_def demo_core_more)
  have l: "m_cycles ?s < m_limit ?s" "quantum_limit (clear_requests ?s) = 1" "m_cycles (clear_requests ?s) = 0"
    by (simp_all add: demo_running_def demo_core_more quantum_limit_def clear_requests_def Let_def
        next_breakpoint_def tick_enabled_def new_tick_def)
  obtain m where c: "cycle demo_host 1 (clear_requests ?s) = Inr (1, demo_stepped m)"
    using demo_cycle by blast
  have st: "m_cycles (demo_stepped m) = 1" "m_limit (demo_stepped m) = 1"
    "m_stop_requested (demo_stepped m) = False" "m_break_requested (demo_stepped m) = False"
    "wpe_hit (m_wp_event (demo_stepped m)) = False" "m_breakpoints (demo_stepped m) = []"
    "m_tick (demo_stepped m) = new_tick" "m_pic_sr (demo_stepped m) = 0"
    by (simp_all add: demo_stepped_def demo_fetched_fields)
  have q: "mini_quantum (Suc (Suc 0)) demo_host 1 (clear_requests ?s) = Some (Inr (False, demo_stepped m))"
    using l c st by (simp add: bindF_def)
  define t where "t = (demo_stepped m)\<lparr>m_tick_stamp := 1\<rparr>"
  have e: "bindE (update_timer (demo_stepped m)) external_exception = Inr t"
    by (simp add: update_timer_def tick_enabled_def new_tick_def st external_exception_def t_def)
  have "quanta 2 demo_host ?s = Some (Inr (STEP_OK, t))"
    using l q e st
    by (simp add: numeral_2_eq_2 bindF_def Let_def t_def breakpoint_hit_def watchpoint_hit_def
        del: mini_quantum.simps)
  then have "advance 2 demo_host 1 demo_running = Some (Inr (STEP_OK, t))"
    using b by (simp add: advance_def bindF_def)
  then show ?thesis
    by (simp add: step_def bindF_def t_def st) (simp add: demo_stepped_def demo_fetched_fields)
qed

theorem step_keeps_fixed_values_witness:
  "\<exists>t. step 2 demo_host 1 demo_running = Some (Inr (STEP_OK, 1, t)) \<and> gpr t ! 0 = 0 \<and>
     m_status t AND SR_FO \<noteq> 0"
proof -
  obtain t where t: "step 2 demo_host 1 demo_running = Some (Inr (STEP_OK, 1, t))" using demo_step by blast
  have "m_status demo_running AND SR_FO \<noteq> 0"
    unfolding SR_FO_bit by (simp add: demo_running_facts bit_or_iff bit_SR)
  from step_keeps_fixed_values[OF t demo_running_facts(1) _ this] t show ?thesis
    by (auto simp: demo_running_facts)
qed

theorem no_assertion_fails_witness:
  "\<exists>s. reachable demo_host s \<and> step 1 demo_host 100 s \<noteq> Some (Inl Assertion_failed)"
proof -
  obtain s where s: "new_or1k (new_env ENDIAN_BIG (\<lambda>_. None)) 0 (\<lambda>_. zero_insn) = Inr s"
    using new_or1k_demo by blast
  have "\<forall>req e. vt_transact (h_env demo_host) req e \<noteq> Inl Assertion_failed"
    by (simp add: demo_host_def demo_vtable_def)
  from no_assertion_fails[OF reachable_new[OF s] this, of 1 100] reachable_new[OF s] show ?thesis by blast
qed

end
