(* ===== verification/Progress.thy ===== *)
theory Progress
  imports Invariant
begin

text \<open>
  The simulation loop ends. A cycle takes one cycle from the budget, the distance between the counter
  and the limit, or asks for the exit; the cycles that memory accesses and sleeping add move counter
  and limit together. What has to be known of the environment is that these additions are bounded:
  the locale \<open>bounded_env\<close>, which the memory of the standalone simulator satisfies. With a breakpoint
  that is not word aligned, on the other hand, the loop does not end.
\<close>

section \<open>Environments that charge bounded cycles\<close>

locale bounded_env =
  fixes vt :: env_vtable and I :: "env \<Rightarrow> bool" and K :: nat
  assumes direct: "I e \<Longrightarrow> unat (m_data_cycles e) \<le> K \<and> unat (m_insn_cycles e) \<le> K"
    and kept: "I e \<Longrightarrow> I (e\<lparr>host_mem := m\<rparr>)" "I e \<Longrightarrow> I (e\<lparr>m_excl_addr := a, m_excl_data := d\<rparr>)"
    and served: "I e \<Longrightarrow> vt_transact vt req e = Inr (resp, cyc, dat, e') \<Longrightarrow>
      I e' \<and> unat cyc \<le> unat (req_cycles req) + K"
    and slept: "I e \<Longrightarrow> vt_sleep vt n e = (cyc, e') \<Longrightarrow> I e' \<and> unat cyc \<le> K"
begin

lemma unat_add_le: "unat (a + b) \<le> unat a + unat b" for a b :: "'a::len word"
  by (simp add: unat_word_ariths)

lemma exclusive_bounded:
  "I e \<Longrightarrow> exclusive_access p req e = Inr (resp, req', e') \<Longrightarrow> I e' \<and> req_cycles req' = req_cycles req"
  using kept by (auto simp: exclusive_access_def read_into_def bindE_eq_Inr split: if_splits)

lemma direct_bounded:
  "I e \<Longrightarrow> direct_memory_ptr req e = (q, p) \<Longrightarrow> unat (req_cycles q) \<le> unat (req_cycles req) + K"
  using direct[of e] unat_add_le[of "req_cycles req" "m_data_cycles e"]
    unat_add_le[of "req_cycles req" "m_insn_cycles e"]
  by (auto simp: direct_memory_ptr_def split: if_splits)

lemma send_bounded:
  assumes "I e" "send_request vt req e = Inr (resp, req', e')"
  shows "I e' \<and> unat (req_cycles req') \<le> unat (req_cycles req) + 2 * K"
proof (cases "direct_memory_ptr req e")
  case (Pair q ptr)
  note q = direct_bounded[OF assms(1) Pair]
  show ?thesis
  proof (cases ptr)
    case None
    with Pair assms obtain cyc dat where
      v: "vt_transact vt (q\<lparr>req_endian := env_endian e\<rparr>) e = Inr (resp, cyc, dat, e')" "req_cycles req' = cyc"
      by (auto simp: send_request_def bindE_eq_Inr)
    from served[OF assms(1) v(1)] v(2) q show ?thesis by simp
  next
    case (Some p)
    let ?q = "q\<lparr>req_cycles := req_cycles q + m_data_cycles e\<rparr>"
    have "I e' \<and> req_cycles req' = req_cycles ?q"
    proof (cases "m_excl ?q")
      case True
      with Pair Some assms(2) have "exclusive_access p ?q e = Inr (resp, req', e')"
        by (simp add: send_request_def Let_def)
      from exclusive_bounded[OF assms(1) this] show ?thesis .
    next
      case False
      with Pair Some assms kept show ?thesis
        by (auto simp: send_request_def Let_def read_into_def write_from_def bindE_eq_Inr split: if_splits)
    qed
    moreover have "unat (req_cycles ?q) \<le> unat (req_cycles q) + K"
      using unat_add_le[of "req_cycles q" "m_data_cycles e"] direct[OF assms(1)] by simp
    ultimately show ?thesis using q by simp
  qed
qed

lemma convert_bounded:
  assumes "I e" "convert_and_transact vt req e = Inr (resp, req', e')"
  shows "I e' \<and> unat (req_cycles req') \<le> unat (req_cycles req) + 2 * K"
proof -
  obtain d q where s: "send_request vt (if conversion_necessary req e then req\<lparr>req_data := d\<rparr> else req) e
      = Inr (resp, q, e')" "req_cycles req' = req_cycles q"
    using assms(2) by (auto simp: convert_and_transact_def Let_def bindE_eq_Inr split: if_splits)
  from send_bounded[OF assms(1) s(1)] s(2) show ?thesis by (auto split: if_splits)
qed

lemma read_pte_bounded:
  assumes "I e" "read_pte vt q a e = Inr (p, q', e')"
  shows "I e' \<and> unat (req_cycles q') \<le> unat (req_cycles q) + 2 * K"
proof -
  from assms(2) obtain resp where
    "convert_and_transact vt (set_addr_and_data q a (malloc_block vt 4)) e = Inr (resp, q', e')"
    by (auto simp: read_pte_def bindE_eq_Inr)
  from convert_bounded[OF assms(1) this] show ?thesis by (simp add: set_addr_and_data_def)
qed

lemma refill_bounded:
  "refill req st v p c t = (r, req', t') \<Longrightarrow> unat (req_cycles req') \<le> unat (req_cycles req) + unat c"
  using unat_add_le[of "req_cycles req" c]
  by (auto simp: refill_def Let_def translated_def split: if_splits)

lemma walk_bounded:
  assumes "I e" "table_walk vt req t e = Inr (r, req', t', e')"
  shows "I e' \<and> unat (req_cycles req') \<le> unat (req_cycles req) + 4 * K"
proof -
  let ?q = "req\<lparr>req_endian := host_endian, m_imem := False, m_read := True, req_cycles := 0\<rparr>"
  show ?thesis
  proof (cases "m_ctrl t AND MMUCR_PGD = 0")
    case True
    then show ?thesis using assms by (simp add: table_walk_def)
  next
    case False
    note w = assms(2)[unfolded table_walk_def Let_def if_not_P[OF False]]
    then obtain p1 q1 e1 where r1: "read_pte vt ?q ((m_ctrl t AND MMUCR_PGD) + push_bit 2 (bits32 (req_addr req) 31 24)) e
        = Inr (p1, q1, e1)"
      unfolding bindE_eq_Inr by auto
    note b1 = read_pte_bounded[OF assms(1) r1]
    note w1 = w[unfolded r1 bindE_Inr prod.case]
    show ?thesis
    proof (cases "p1 = None \<or> p1 = Some 0")
      case True
      then show ?thesis using w1 b1 by auto
    next
      case False
      then obtain v1 where v1: "p1 = Some v1" "v1 \<noteq> 0" by auto
      with w1 obtain p2 q2 e2 where
        r2: "read_pte vt q1 (page_align v1 + push_bit 2 (bits32 (req_addr req) 23 13)) e1 = Inr (p2, q2, e2)"
        by (auto simp: bindE_eq_Inr)
      note b2 = read_pte_bounded[OF conjunct1[OF b1] r2]
      note w2 = w1[unfolded v1(1) option.case if_not_P[OF v1(2)] r2 bindE_Inr prod.case]
      show ?thesis
      proof (cases "p2 = None \<or> p2 = Some 0")
        case True
        then show ?thesis using w2 b1 b2 by auto
      next
        case False
        then obtain v2 where v2: "p2 = Some v2" "v2 \<noteq> 0" by auto
        obtain x y z where rf: "refill req (mmu_set t (req_addr req)) (page_align (req_addr req)) v2
            (req_cycles q2) t = (x, y, z)" by (cases "refill req (mmu_set t (req_addr req))
            (page_align (req_addr req)) v2 (req_cycles q2) t")
        have "req' = y" "e' = e2" using w2 v2 by (auto simp: rf)
        then show ?thesis using refill_bounded[OF rf] b1 b2 by simp
      qed
    qed
  qed
qed

lemma translate_bounded:
  assumes "I e" "translate vt req t e = Inr (r, req', t', e')"
  shows "I e' \<and> unat (req_cycles req') \<le> unat (req_cycles req) + 4 * K"
proof -
  let ?t = "if m_debug req then t else age_set (mmu_set t (req_addr req)) t"
  show ?thesis
  proof (cases "find_way ?t (page_align (req_addr req)) (mmu_set t (req_addr req))")
    case (Some w)
    then have h: "tlb_hit req (mmu_set t (req_addr req)) w ?t = (r, req', t')" "e' = e"
      using assms(2) by (cases "m_debug req"; simp add: translate_def Let_def split: prod.splits)+
    have "req_cycles req' = req_cycles req"
      using h(1) by (auto simp: tlb_hit_def Let_def translated_def split: if_splits)
    with h(2) assms(1) show ?thesis by simp
  next
    case None
    then have "(req' = req \<and> e' = e) \<or> table_walk vt req ?t e = Inr (r, req', t', e')"
      using assms(2) by (auto simp: translate_def Let_def split: if_splits)
    with assms(1) walk_bounded[OF assms(1)] show ?thesis by auto
  qed
qed

text \<open>
  The cycles of an access are at most \<open>6 * K\<close>: a table walk of two reads and the access itself, each
  charged by the port and by the device.
\<close>

definition charge :: "request \<Rightarrow> or1k \<Rightarrow> or1k" where
  "charge q s = (if m_debug q then s
     else s\<lparr>m_cycles := m_cycles s + req_cycles q, m_limit := m_limit s + req_cycles q\<rparr>)"

definition charges :: "nat \<Rightarrow> or1k \<Rightarrow> or1k \<Rightarrow> bool" where
  "charges n s t \<longleftrightarrow> I (m_env t) \<and> (\<exists>c. m_limit t = m_limit s + c \<and> unat c \<le> n) \<and>
     unat (m_limit t - m_cycles t) \<le> unat (m_limit s - m_cycles s)"

lemma charges_refl: "I (m_env s) \<Longrightarrow> charges n s s"
  by (auto simp: charges_def intro!: exI[of _ 0])

lemma quiet_charges: "quiet s t \<Longrightarrow> charges n t u \<Longrightarrow> charges n s u"
  by (simp add: charges_def quiet_def)

lemma charges_quiet: "charges n s t \<Longrightarrow> quiet t u \<Longrightarrow> charges n s u"
  by (simp add: charges_def quiet_def)

lemma charges_only_quiet: "I (m_env s) \<Longrightarrow> quiet s t \<Longrightarrow> charges n s t"
  by (rule charges_quiet[OF charges_refl])

lemma charge: "I (m_env s) \<Longrightarrow> unat (req_cycles q) \<le> n \<Longrightarrow> charges n s (charge q s)"
  by (cases "m_debug q") (auto simp: charge_def charges_def intro!: exI[of _ "0 :: u64"])

lemma data_translate_bounded:
  assumes "h_env h = vt" "I (m_env s)" "data_translate h req s = Inr (r, q, u)"
  shows "I (m_env u) \<and> unat (req_cycles q) \<le> unat (req_cycles req) + 4 * K \<and>
     m_limit u = m_limit s \<and> m_cycles u = m_cycles s"
proof (cases "is_dmmu_active s")
  case True
  with assms obtain t e where "translate vt req (m_dmmu s) (m_env s) = Inr (r, q, t, e)"
    "u = s\<lparr>m_dmmu := t, m_env := e\<rparr>"
    by (auto simp: data_translate_def bindE_eq_Inr)
  then show ?thesis using translate_bounded[OF assms(2)] by simp
qed (use assms in \<open>auto simp: data_translate_def\<close>)

lemma port_access_charges:
  assumes "h_env h = vt" "I (m_env s)" "port_access h req s = Inr (ok, req', t)"
    and "unat (req_cycles req) \<le> 4 * K"
  shows "charges (6 * K) s t"
proof -
  from assms(1,3) obtain resp q e where c: "convert_and_transact vt req (m_env s) = Inr (resp, q, e)"
    by (auto simp: port_access_def bindE_eq_Inr)
  note b = convert_bounded[OF assms(2) c]
  have e: "charges (6 * K) s (s\<lparr>m_env := e\<rparr>)"
    using b by (auto simp: charges_def intro!: exI[of _ 0])
  have k: "unat (req_cycles q) \<le> 6 * K" using b assms(4) by simp
  show ?thesis
  proof (cases resp)
    case RESP_ERROR
    with assms c have "abort_access EX_DATA_BUS_ERROR q (s\<lparr>m_env := e\<rparr>) = Inr (ok, req', t)"
      by (simp add: port_access_def)
    from abort_access_frame[OF this] e show ?thesis by (blast intro: charges_quiet)
  next
    case RESP_FAILED
    let ?t = "s\<lparr>m_env := e, m_status := m_status s AND NOT SR_F, m_num_excl_failed := m_num_excl_failed s + 1\<rparr>"
    have "t = charge q ?t" using assms c RESP_FAILED
      by (auto simp: port_access_def Let_def bindE_eq_Inr charge_def)
    with charge[OF _ k, of ?t] e show ?thesis by (simp add: charges_def)
  next
    case RESP_SUCCESS
    let ?t = "if m_excl q then s\<lparr>m_env := e, m_status := m_status s OR SR_F\<rparr> else s\<lparr>m_env := e\<rparr>"
    have "t = charge q ?t" using assms c RESP_SUCCESS by (auto simp: port_access_def Let_def charge_def)
    with charge[OF _ k, of ?t] e show ?thesis by (auto simp: charges_def split: if_splits)
  qed
qed

lemma transact_charges:
  assumes h: "h_env h = vt" and i: "I (m_env s)" and tr: "transact h req s = Inr (ok, req', t)"
  shows "charges (6 * K) s t"
proof -
  let ?q = "req\<lparr>m_super := is_supervisor s, req_cycles := 0\<rparr>"
  let ?s = "check_watchpoints ?q (s\<lparr>m_trace_addr := req_addr ?q\<rparr>)"
  have s: "quiet s ?s" by (simp add: quiet_check_watchpoints)
  have i': "I (m_env ?s)" using i s by (simp add: quiet_def)
  show ?thesis
  proof (cases "\<not> req_is_aligned ?q \<and> \<not> m_debug ?q")
    case True
    with tr have "abort_access EX_DATA_ALIGNMENT ?q ?s = Inr (ok, req', t)"
      by (auto simp: transact_def Let_def bindE_eq_Inr)
    from abort_access_frame[OF this] s show ?thesis
      by (auto intro: charges_only_quiet[OF i] quiet_trans)
  next
    case False
    with tr obtain r q u where dt: "data_translate h ?q ?s = Inr (r, q, u)"
      and k: "(case r of MMU_TLB_MISS \<Rightarrow> abort_access EX_DATA_TLB_MISS q u
         | MMU_PAGE_FAULT \<Rightarrow> abort_access EX_DATA_PAGE_FAULT q u
         | MMU_OKAY \<Rightarrow> bindE (assertE (m_excl q \<longrightarrow> req_size q = SIZE_WORD) Assertion_failed) (\<lambda>_.
             port_access h q (if m_excl q then count_exclusive q u else u))) = Inr (ok, req', t)"
      by (auto simp: transact_def Let_def bindE_eq_Inr)
    have u: "I (m_env u)" "unat (req_cycles q) \<le> 4 * K" "m_limit u = m_limit s" "m_cycles u = m_cycles s"
      using data_translate_bounded[OF h i' dt] s by (simp_all add: quiet_def)
    have su: "charges n u w \<Longrightarrow> charges n s w" for n w using u by (simp add: charges_def)
    show ?thesis
    proof (cases r)
      case MMU_OKAY
      let ?u = "if m_excl q then count_exclusive q u else u"
      have "quiet u ?u" by (simp add: quiet_count_exclusive)
      moreover from this have "I (m_env ?u)" using u by (simp add: quiet_def)
      moreover have "port_access h q ?u = Inr (ok, req', t)" using k MMU_OKAY by (auto simp: bindE_eq_Inr)
      ultimately show ?thesis using port_access_charges[OF h _ _ u(2)] su quiet_charges by blast
    qed (use k u su abort_access_frame charges_only_quiet in fastforce)+
  qed
qed

lemma update_timer_charges:
  assumes "I (m_env s)" "update_timer s = Inr t"
  shows "charges n s t"
proof -
  obtain k u where "quiet (s\<lparr>m_tick := k\<rparr>) u" "t = u\<lparr>m_tick_stamp := m_cycles u\<rparr>"
  proof (cases "tick_enabled (m_tick s) \<and> tick_irq_pending (tick_update (m_cycles s - m_tick_stamp s) (m_tick s))")
    case True
    then have "\<exists>u. exception EX_TICK_TIMER 0 (s\<lparr>m_tick := tick_update (m_cycles s - m_tick_stamp s) (m_tick s)\<rparr>)
        = Inr u \<and> u\<lparr>m_tick_stamp := m_cycles u\<rparr> = t"
      using assms(2) by (simp add: update_timer_def Let_def bindE_eq_Inr)
    then show thesis using that exception_quiet by blast
  next
    case False
    then show thesis
      using assms(2) that[of "tick_update (m_cycles s - m_tick_stamp s) (m_tick s)"
        "s\<lparr>m_tick := tick_update (m_cycles s - m_tick_stamp s) (m_tick s)\<rparr>"]
        that[of "m_tick s" s]
      by (cases "tick_enabled (m_tick s)") (auto simp: update_timer_def Let_def)
  qed
  then show ?thesis using assms(1) by (auto simp: charges_def quiet_def intro!: exI[of _ "0 :: u64"])
qed

lemma charges_mono: "charges n s t \<Longrightarrow> n \<le> k \<Longrightarrow> charges k s t"
  by (auto simp: charges_def)

lemma charges_trans: "charges a s t \<Longrightarrow> charges b t u \<Longrightarrow> charges (a + b) s u"
proof -
  assume s: "charges a s t" "charges b t u"
  then obtain c d where "m_limit u = m_limit s + (c + d)" "unat c \<le> a" "unat d \<le> b"
    by (auto simp: charges_def add.assoc)
  then show ?thesis using s unat_add_le[of c d]
    by (auto simp: charges_def intro!: exI[of _ "c + d"])
qed

lemma doze_charges:
  assumes h: "h_env h = vt" and i: "I (m_env s)" and d: "doze h s = Inr t"
  shows "charges K s t"
proof (cases "m_pmr s AND PMR_DME = 0 \<or> \<not> m_allow_sleep s")
  case True
  then show ?thesis using d i by (auto simp: doze_def charges_refl)
next
  case False
  define sk where "sk = (if tick_enabled (m_tick s) \<and> tick_irq_enabled (m_tick s)
    then min (next_tick (m_tick s)) (ucast (tick_limit (m_tick s))) else NOT 0)"
  obtain c e where v: "vt_sleep vt sk (m_env s) = (c, e)" by (cases "vt_sleep vt sk (m_env s)")
  note sl = slept[OF i v]
  show ?thesis
  proof (cases "c = 0")
    case True
    let ?k = "min sk (m_limit s - m_cycles s)"
    let ?s = "s\<lparr>m_env := e, m_cycles := m_cycles s + ?k, m_sleep_cycles := m_sleep_cycles s + ?k\<rparr>"
    have t: "update_timer ?s = Inr t"
      using d False v h True by (simp add: doze_def sk_def[symmetric] Let_def)
    have "unat (m_limit s - (m_cycles s + ?k)) \<le> unat (m_limit s - m_cycles s)"
      unfolding diff_diff_eq[symmetric] by (simp add: unat_sub)
    then have "charges 0 s ?s" using sl by (auto simp: charges_def)
    from charges_trans[OF this update_timer_charges[OF _ t, of 0]] sl show ?thesis
      by (auto intro: charges_mono)
  next
    case False
    with d \<open>\<not> (m_pmr s AND PMR_DME = 0 \<or> \<not> m_allow_sleep s)\<close> v h sl show ?thesis
      by (auto simp: doze_def sk_def[symmetric] Let_def charges_def)
  qed
qed

lemma set_spr_table_clock:
  "map_of set_spr_table reg = Some f \<Longrightarrow>
   m_env (f v s) = m_env s \<and> m_limit (f v s) = m_limit s \<and> m_cycles (f v s) = m_cycles s"
proof -
  have "list_all (\<lambda>f. \<forall>v s. m_env (f v s) = m_env s \<and> m_limit (f v s) = m_limit s \<and>
      m_cycles (f v s) = m_cycles s) (map snd set_spr_table)"
    by (simp add: set_spr_table_def)
  then show "map_of set_spr_table reg = Some f \<Longrightarrow>
      m_env (f v s) = m_env s \<and> m_limit (f v s) = m_limit s \<and> m_cycles (f v s) = m_cycles s"
    by (auto dest!: map_of_SomeD simp: list_all_iff)
qed

lemma set_spr_charges:
  assumes h: "h_env h = vt" and i: "I (m_env s)" and sp: "set_spr h reg v dbg s = Inr t"
  shows "charges K s t"
proof (cases "\<exists>u. u = s\<lparr>m_break_requested := True, m_pmr := v\<rparr> \<and> doze h u = Inr t")
  case True
  then obtain u where u: "u = s\<lparr>m_break_requested := True, m_pmr := v\<rparr>" "doze h u = Inr t" by blast
  then have "charges K u t" using doze_charges[OF h _ u(2)] i by simp
  then show ?thesis by (simp add: u(1) charges_def)
next
  case False
  have "m_env t = m_env s \<and> m_limit t = m_limit s \<and> m_cycles t = m_cycles s"
    using sp False set_spr_table_clock[of reg _ v "s\<lparr>m_break_requested := True\<rparr>"]
    by (cases "map_of set_spr_table reg") (auto simp: set_spr_def Let_def split: if_splits)
  then show ?thesis using i by (auto simp: charges_def intro!: exI[of _ "0 :: u64"])
qed

lemma effect_charges:
  assumes h: "h_env h = vt" and i: "I (m_env s)" and e: "effect h s t"
  shows "charges (6 * K) s t \<or> m_stop_requested t \<and> I (m_env t)"
  using e
proof (cases rule: effect.cases)
  case effect_quiet
  then show ?thesis using charges_only_quiet[OF i] by blast
next
  case (effect_access req ok req' u)
  have "charges (6 * K) s (u\<lparr>m_dreq := req'\<rparr>)"
    using transact_charges[OF h i effect_access(2)] by (simp add: charges_def)
  from charges_quiet[OF this effect_access(3)] show ?thesis by blast
next
  case (effect_spr u reg val)
  then have "I (m_env u)" using i by (simp add: quiet_def)
  from quiet_charges[OF effect_spr(1) set_spr_charges[OF h this effect_spr(2)]] show ?thesis
    by (auto intro: charges_mono)
next
  case (effect_stop u)
  then show ?thesis using i by (simp add: request_stop_def quiet_def)
qed

definition idle :: "or1k \<Rightarrow> or1k \<Rightarrow> bool" where
  "idle s t \<longleftrightarrow> I (m_env t) \<and> m_limit t = m_limit s \<and> m_cycles t = m_cycles s"

lemma idle_trans: "idle s t \<Longrightarrow> idle t u \<Longrightarrow> idle s u" by (simp add: idle_def)

lemma idle_quiet: "I (m_env s) \<Longrightarrow> quiet s t \<Longrightarrow> idle s t" by (simp add: idle_def quiet_def)

lemma fetch_translate_idle:
  assumes h: "h_env h = vt" and i: "I (m_env s)" and f: "fetch_translate h s = Inr (r, t)"
  shows "idle s t"
proof -
  let ?s = "s\<lparr>m_ireq := (m_ireq s)\<lparr>m_super := is_supervisor s, req_addr := m_next_pc s, req_cycles := 0\<rparr>\<rparr>"
  note f' = f[unfolded fetch_translate_def Let_def]
  show ?thesis
  proof (cases "is_immu_active ?s \<and> \<not> page_compare (m_virt_ipg ?s) (m_next_pc ?s)")
    case False
    then have "t = ?s \<or> (\<exists>a. t = ?s\<lparr>m_ireq := (m_ireq ?s)\<lparr>req_addr := a\<rparr>\<rparr>)"
      using f' by (auto simp only: if_True if_False sum.inject prod.inject split: if_split_asm)
    then show ?thesis using i by (auto simp: idle_def)
  next
    case True
    note f2 = f'[unfolded if_P[OF True[THEN conjunct1]] if_not_P[OF True[THEN conjunct2]]]
    then obtain y where "translate (h_env h) (m_ireq ?s) (m_immu ?s) (m_env ?s) = Inr y"
      unfolding bindE_eq_Inr by blast
    then obtain r' q u e where tr: "translate (h_env h) (m_ireq ?s) (m_immu ?s) (m_env ?s) = Inr (r', q, u, e)"
      by (cases y) auto
    have "m_env t = e \<and> m_limit t = m_limit s \<and> m_cycles t = m_cycles s"
      using f2 unfolding tr by (auto simp: bindE_Inr split: if_split_asm)
    moreover have "I e" using translate_bounded[of "m_env s"] tr h i by auto
    ultimately show ?thesis by (simp add: idle_def)
  qed
qed

lemma fetch_idle:
  assumes h: "h_env h = vt" and i: "I (m_env s)" and f: "fetch h s = Inr (x, t)"
  shows "idle s t"
proof -
  have ab: "abort_fetch ty u = Inr (x, t) \<Longrightarrow> I (m_env u) \<Longrightarrow> idle u t" for ty u
    by (auto simp: abort_fetch_def bindE_eq_Inr dest!: exception_quiet intro: idle_quiet)
  have fd: "fetch_decode u = Inr (x, t) \<Longrightarrow> I (m_env u) \<Longrightarrow> idle u t" for u
    using ab by (simp only: fetch_decode_def Let_def split: if_split_asm)
      (auto simp: bindE_eq_Inr idle_def)
  have fw: "fetch_word h u = Inr (r, w) \<Longrightarrow> I (m_env u) \<Longrightarrow> idle u w" for u r w
    using convert_bounded h by (auto simp: fetch_word_def bindE_eq_Inr idle_def split: option.splits)
  from f obtain r u where u: "fetch_translate h s = Inr (r, u)"
    and k: "(case r of MMU_TLB_MISS \<Rightarrow> abort_fetch EX_INSN_TLB_MISS u
     | MMU_PAGE_FAULT \<Rightarrow> abort_fetch EX_INSN_PAGE_FAULT u
     | MMU_OKAY \<Rightarrow>
         let insn = dc_lookup (req_addr (m_ireq u)) (m_decode_cache u)
         in if i_addr insn = req_addr (m_ireq u) \<and> \<not> is_decode_cache_off u
            then Inr (Some insn, u\<lparr>m_insn := i_insn insn\<rparr>)
            else bindE (fetch_word h u) (\<lambda>(resp, s).
                 case resp of
                   RESP_ERROR \<Rightarrow> abort_fetch EX_INSN_BUS_ERROR s
                 | RESP_FAILED \<Rightarrow> Inl Invalid_port_response
                 | RESP_SUCCESS \<Rightarrow> fetch_decode s)) = Inr (x, t)"
    by (auto simp: fetch_def bindE_eq_Inr)
  have su: "idle s u" using fetch_translate_idle[OF h i u] .
  then have iu: "I (m_env u)" by (simp add: idle_def)
  have miss: "idle u t" if b: "bindE (fetch_word h u) (\<lambda>(resp, s).
      case resp of RESP_ERROR \<Rightarrow> abort_fetch EX_INSN_BUS_ERROR s
       | RESP_FAILED \<Rightarrow> Inl Invalid_port_response | RESP_SUCCESS \<Rightarrow> fetch_decode s) = Inr (x, t)"
  proof -
    from b obtain resp w where w: "fetch_word h u = Inr (resp, w)"
      and kw: "(case resp of RESP_ERROR \<Rightarrow> abort_fetch EX_INSN_BUS_ERROR w
       | RESP_FAILED \<Rightarrow> Inl Invalid_port_response | RESP_SUCCESS \<Rightarrow> fetch_decode w) = Inr (x, t)"
      by (auto simp: bindE_eq_Inr)
    have "idle u w" using fw[OF w iu] .
    moreover have "idle w t" using kw ab fd \<open>idle u w\<close> by (cases resp) (auto simp: idle_def)
    ultimately show ?thesis by (rule idle_trans)
  qed
  have "idle u t"
    using k ab[OF _ iu] miss iu by (cases r) (auto simp: Let_def idle_def split: if_split_asm)
  with su show ?thesis by (rule idle_trans)
qed

text \<open>A cycle costs at least one cycle of the budget.\<close>

definition budget :: "or1k \<Rightarrow> nat" where "budget s = unat (m_limit s - m_cycles s)"

lemma begin_cycle_budget:
  assumes "m_cycles s < m_limit s"
  shows "budget (begin_cycle s) + 1 = budget s"
proof -
  have "m_limit s - m_cycles s \<noteq> 0" using assms by auto
  then have "unat (m_limit s - m_cycles s - 1) + 1 = unat (m_limit s - m_cycles s)"
    by (simp add: unat_minus_one unat_gt_0)
  then show ?thesis unfolding diff_diff_eq by (simp add: budget_def begin_cycle_def)
qed

lemma execute_fetched_charges:
  assumes h: "h_env h = vt" and i: "I (m_env s)" and e: "execute_fetched h x s = Inr t"
  shows "charges (6 * K) s t \<or> m_stop_requested t \<and> I (m_env t)"
proof (cases x)
  case None
  then show ?thesis using e i by (auto simp: execute_fetched_def charges_refl)
next
  case (Some ci)
  then obtain u where u: "execute (i_exec ci) h ci s = Inr u"
    and t: "if m_trace_enabled u then do_trace ci u = Inr t else t = u"
    using e by (auto simp: execute_fetched_def bindE_eq_Inr split: if_splits)
  have "m_env t = m_env u \<and> m_limit t = m_limit u \<and> m_cycles t = m_cycles u \<and>
      m_stop_requested t = m_stop_requested u"
    using t by (auto simp: do_trace_def bindE_eq_Inr emit_def split: if_splits)
  then show ?thesis using effect_charges[OF h i execute_effect[OF u]] by (auto simp: charges_def)
qed

lemma cycle_charges:
  assumes h: "h_env h = vt" and i: "I (m_env s)" and l: "m_cycles s < l" "l \<le> m_limit s"
    and c: "cycle h l s = Inr (l', t)"
  shows "I (m_env t) \<and> l' \<le> l \<and> (m_stop_requested t \<or>
    (\<exists>c. m_limit t = m_limit s + c \<and> unat c \<le> 6 * K) \<and> budget t < budget s)"
proof -
  from c obtain x u v where u: "fetch h (begin_cycle s) = Inr (x, u)"
    "execute_fetched h x u = Inr v" "update_pc l (restore_fixed v) = (l', t)"
    by (auto simp: cycle_def bindE_eq_Inr)
  have f: "idle (begin_cycle s) u" using fetch_idle[OF h _ u(1)] i by (simp add: begin_cycle_def)
  then have iu: "I (m_env u)" by (simp add: idle_def)
  have b: "budget u + 1 = budget s"
    using begin_cycle_budget[of s] l f by (simp add: budget_def idle_def)
  have lu: "m_limit u = m_limit s" using f by (simp add: idle_def begin_cycle_def)
  have t: "m_env t = m_env v \<and> m_limit t = m_limit v \<and> m_cycles t = m_cycles v \<and>
      m_stop_requested t = m_stop_requested v \<and> l' \<le> l"
    using u(3) by (auto simp: update_pc_def restore_fixed_def Let_def split: if_splits)
  from execute_fetched_charges[OF h iu u(2)] show ?thesis
  proof
    assume "charges (6 * K) u v"
    then show ?thesis using t b lu by (auto simp: charges_def budget_def)
  qed (use t in simp)
qed

text \<open>
  The potential of a state, which no cycle raises: the limit it can still reach. While it fits in
  64 bits the counter does not wrap.
\<close>

definition potential :: "or1k \<Rightarrow> nat" where
  "potential s = unat (m_limit s) + 6 * K * budget s"

lemma potential_step:
  assumes "m_limit t = m_limit s + c" "unat c \<le> 6 * K" "budget t < budget s" "potential s < 2 ^ 64"
  shows "potential t \<le> potential s" "m_limit s \<le> m_limit t"
proof -
  have k: "6 * K + 6 * K * budget t \<le> 6 * K * budget s"
    using mult_le_mono2[of "Suc (budget t)" "budget s" "6 * K"] assms(3) by simp
  have "unat (m_limit s) + unat c < 2 ^ 64"
    using k assms(2,4) unfolding potential_def by linarith
  then have l: "unat (m_limit t) = unat (m_limit s) + unat c"
    unfolding assms(1) by (simp add: unat_word_ariths)
  then show "m_limit s \<le> m_limit t" by (simp add: word_le_nat_alt)
  show "potential t \<le> potential s" using l k assms(2) unfolding potential_def by linarith
qed

lemma mini_quantum_returns:
  assumes h: "h_env h = vt"
  shows "I (m_env s) \<Longrightarrow> l \<le> m_limit s \<Longrightarrow> potential s < 2 ^ 64 \<Longrightarrow> budget s < n \<Longrightarrow>
    \<exists>r. mini_quantum n h l s = Some r \<and> (\<forall>t. r = Inr (False, t) \<longrightarrow> I (m_env t) \<and>
      potential t \<le> potential s \<and> budget t \<le> budget s \<and> (m_cycles s < l \<longrightarrow> budget t < budget s))"
proof (induction n arbitrary: l s)
  case (Suc n)
  show ?case
  proof (cases "m_cycles s < l")
    case True
    show ?thesis
    proof (cases "cycle h l s")
      case (Inl e)
      then show ?thesis using True by (simp add: bindF_def)
    next
      case (Inr x)
      then obtain l' u where u: "cycle h l s = Inr (l', u)" by (cases x) auto
      note c = cycle_charges[OF h Suc.prems(1) True Suc.prems(2) u]
      show ?thesis
      proof (cases "m_stop_requested u")
        case True
        with \<open>m_cycles s < l\<close> u show ?thesis by (simp add: bindF_def)
      next
        case False
        with c obtain d where d: "m_limit u = m_limit s + d" "unat d \<le> 6 * K" "budget u < budget s" by auto
        note p = potential_step[OF d Suc.prems(3)]
        have "\<exists>r. mini_quantum n h l' u = Some r \<and> (\<forall>t. r = Inr (False, t) \<longrightarrow> I (m_env t) \<and>
            potential t \<le> potential u \<and> budget t \<le> budget u \<and> (m_cycles u < l' \<longrightarrow> budget t < budget u))"
        proof (rule Suc.IH)
          show "l' \<le> m_limit u" using c p(2) Suc.prems(2) by (meson order_trans)
        qed (use c d p Suc.prems in auto)
        with d p False u True c show ?thesis by (fastforce simp: bindF_def)
      qed
    qed
  qed (use Suc.prems in auto)
qed simp

text \<open>A mini-quantum runs at least one cycle when there are no breakpoints.\<close>

lemma quantum_limit_progress:
  assumes "m_cycles s < m_limit s" "m_breakpoints s = []" "unat (m_limit s) + 2 ^ 32 < 2 ^ 64"
  shows "m_cycles s < quantum_limit s" "quantum_limit s \<le> m_limit s"
proof -
  have c: "unat (m_cycles s) + 2 ^ 32 < 2 ^ 64"
    using assms(1,3) by (simp add: word_less_nat_alt)
  have gt: "m_cycles s < m_cycles s + k" if "0 < unat k" "unat k < 2 ^ 32" for k :: u64
    using c that by (simp add: word_less_nat_alt unat_word_ariths)
  have "m_cycles s < m_cycles s + 0xffffffff" by (rule gt) simp_all
  then have "m_cycles s < next_breakpoint s"
    by (simp add: next_breakpoint_def assms(2) add.commute)
  moreover have "m_cycles s < m_cycles s + next_tick (m_tick s)"
    using unat_tick_limit[of "m_tick s"] unat_tick_current_less[of "m_tick s"]
    by (intro gt) (auto simp: unat_next_tick word_less_nat_alt)
  ultimately show "m_cycles s < quantum_limit s" "quantum_limit s \<le> m_limit s"
    using assms(1) by (auto simp: quantum_limit_def Let_def min.strict_coboundedI1 intro: min.coboundedI1)
qed

lemma between_idle:
  assumes "I (m_env s)" "bindE (update_timer s) external_exception = Inr t"
  shows "charges 0 s t"
proof -
  obtain u where u: "update_timer s = Inr u" "external_exception u = Inr t"
    using assms(2) by (auto simp: bindE_eq_Inr)
  have "quiet u t" using u(2) by (auto simp: external_exception_def split: if_splits dest: exception_quiet)
  with update_timer_charges[OF assms(1) u(1)] show ?thesis by (rule charges_quiet)
qed

lemma quanta_returns:
  assumes h: "h_env h = vt"
  shows "I (m_env s) \<Longrightarrow> m_breakpoints s = [] \<Longrightarrow> potential s + 2 ^ 32 < 2 ^ 64 \<Longrightarrow> budget s < n \<Longrightarrow>
    \<exists>r. quanta n h s = Some r"
proof (induction n arbitrary: s)
  case (Suc n)
  show ?case
  proof (cases "m_cycles s < m_limit s")
    case True
    let ?s = "clear_requests s"
    have c: "m_cycles ?s = m_cycles s" "m_limit ?s = m_limit s" "m_breakpoints ?s = []"
      "I (m_env ?s)" "potential ?s = potential s" "budget ?s = budget s"
      using Suc.prems by (simp_all add: clear_requests_def potential_def budget_def)
    have lim: "unat (m_limit s) + 2 ^ 32 < 2 ^ 64" using Suc.prems(3) by (simp add: potential_def)
    note q = quantum_limit_progress[of ?s, unfolded c, OF True refl lim]
    have p: "potential ?s < 2 ^ 64" "budget ?s < Suc n" using Suc.prems(3,4) c by simp_all
    obtain r where r: "mini_quantum (Suc n) h (quantum_limit ?s) ?s = Some r"
      and k: "\<And>t. r = Inr (False, t) \<Longrightarrow> I (m_env t) \<and> potential t \<le> potential s \<and> budget t < budget s"
      using mini_quantum_returns[OF h c(4) _ p] q c by fastforce
    show ?thesis
    proof (cases r)
      case (Inl e)
      with r True show ?thesis by (simp add: Let_def bindF_def del: mini_quantum.simps)
    next
      case (Inr x)
      then obtain stop u where x: "r = Inr (stop, u)" by (cases x) auto
      show ?thesis
      proof (cases "stop \<or> (\<exists>e. bindE (update_timer u) external_exception = Inl e)")
        case True
        with r x \<open>m_cycles s < m_limit s\<close> show ?thesis
          by (auto simp: Let_def bindF_def simp del: mini_quantum.simps)
      next
        case False
        then obtain v where v: "bindE (update_timer u) external_exception = Inr v"
          by (cases "bindE (update_timer u) external_exception") auto
        from False x k have ku: "I (m_env u)" "potential u \<le> potential s" "budget u < budget s" by auto
        note b = between_idle[OF ku(1) v]
        then obtain d where d: "m_limit v = m_limit u + d" "unat d \<le> 0" and bv: "budget v \<le> budget u"
          and iv: "I (m_env v)" by (auto simp: charges_def budget_def)
        then have lv: "m_limit v = m_limit u" by (simp add: unat_eq_0)
        have "potential v \<le> potential u" using bv lv by (simp add: potential_def)
        moreover have "m_breakpoints v = []"
          using between_keeps[OF v] mini_quantum_keeps r x Suc.prems(2) c(3)
          by (fastforce simp: shape_def)
        ultimately have "\<exists>r. quanta n h v = Some r"
          using Suc.IH[of v] iv ku bv Suc.prems(3,4) by simp
        with r x v False True show ?thesis
          by (auto simp: Let_def bindF_def simp del: mini_quantum.simps)
      qed
    qed
  qed simp
qed simp

lemma advance_returns:
  assumes h: "h_env h = vt" and i: "I (m_env s)" and b: "m_breakpoints s = []"
    and p: "unat (m_cycles s) + unat c + K + 6 * K * unat c + 2 ^ 32 < 2 ^ 64" and n: "unat c < n"
  shows "\<exists>r. advance n h c s = Some r"
proof (cases "advance_begin h c s")
  case (Inl e)
  then show ?thesis by (simp add: advance_def bindF_def)
next
  case (Inr v)
  let ?s = "s\<lparr>m_limit := m_cycles s + ucast c\<rparr>"
  obtain u where u: "external_exception ?s = Inr u" "doze h u = Inr v"
    using Inr by (auto simp: advance_begin_def bindE_eq_Inr)
  have qu: "quiet ?s u" using u(1) by (auto simp: external_exception_def split: if_splits dest: exception_quiet)
  have lim: "unat (m_limit ?s) = unat (m_cycles s) + unat c"
    using p by (simp add: unat_word_ariths)
  have bu: "budget ?s = unat c" by (simp add: budget_def)
  have "I (m_env u)" using qu i by (simp add: quiet_def)
  from quiet_charges[OF qu doze_charges[OF h this u(2)]] obtain d where
    d: "m_limit v = m_limit ?s + d" "unat d \<le> K" "I (m_env v)" "budget v \<le> unat c"
    using bu by (auto simp: charges_def budget_def)
  have "unat (m_limit v) \<le> unat (m_cycles s) + unat c + K"
    using unat_add_le[of "m_limit ?s" d] d(1,2) lim by simp
  moreover have "6 * K * budget v \<le> 6 * K * unat c" using d(4) by simp
  ultimately have "potential v + 2 ^ 32 < 2 ^ 64" using p unfolding potential_def by linarith
  moreover have "m_breakpoints v = []"
    using quiet_shape[OF qu] doze_shape[OF u(2)] b by (simp add: shape_def)
  ultimately show ?thesis
    using quanta_returns[OF h, of v n] d(3,4) n Inr by (simp add: advance_def bindF_def)
qed

end

section \<open>The memory of the standalone simulator\<close>

definition memory_costs :: "env \<Rightarrow> bool" where
  "memory_costs e \<longleftrightarrow> unat (m_data_cycles e) \<le> 1 \<and> m_insn_cycles e = 0"

interpretation memory_port: bounded_env "memory_vtable mal d" memory_costs 1 for mal d
proof (unfold_locales)
  fix e req resp cyc dat e'
  assume "memory_costs e" "vt_transact (memory_vtable mal d) req e = Inr (resp, cyc, dat, e')"
  then show "memory_costs e' \<and> unat cyc \<le> unat (req_cycles req) + 1"
    by (auto simp: memory_vtable_def memory_transact_def Let_def bindE_eq_Inr memory_costs_def
        split: if_splits)
qed (auto simp: memory_costs_def memory_vtable_def env_sleep_def)

text \<open>C26: A simulation step returns. On an environment that charges at most \<open>K\<close> cycles for a request,
  and without breakpoints, a step by \<open>c\<close> cycles comes back, with a result or an error, after at most
  \<open>c\<close> rounds of its loops, as long as the 64-bit cycle counter does not overflow; if it comes back with
  \<^verbatim>\<open>STEP_OK\<close> it has used up its cycles.\<close>

theorem step_returns:
  assumes "bounded_env (h_env h) I K" "I (m_env s)" "m_breakpoints s = []"
    and "unat (m_cycles s) + unat c + K + 6 * K * unat c + 2 ^ 32 < 2 ^ 64" "unat c < n"
  shows "\<exists>r. step n h c s = Some r \<and> (\<forall>c' t. r = Inr (STEP_OK, c', t) \<longrightarrow> m_limit t \<le> m_cycles t)"
proof -
  obtain r where r: "advance n h c s = Some r"
    using bounded_env.advance_returns[OF assms(1) refl assms(2-5)] by blast
  have ok: "m_limit t \<le> m_cycles t" if "advance n h c s = Some (Inr (STEP_OK, t))" for t
  proof -
    have "quanta m h v = Some (Inr (STEP_OK, t)) \<Longrightarrow> m_limit t \<le> m_cycles t" for m v
      by (induction m h v rule: quanta.induct)
        (auto simp: Let_def bindF_eq simp del: mini_quantum.simps split: if_splits)
    then show ?thesis using that by (auto simp: advance_def bindF_eq)
  qed
  show ?thesis
  proof (cases r)
    case (Inl e)
    then show ?thesis using r by (simp add: step_def bindF_def)
  next
    case (Inr x)
    then show ?thesis using r ok by (cases x) (auto simp: step_def bindF_def)
  qed
qed

definition demo_mem_host :: host where
  "demo_mem_host = demo_host\<lparr>h_env := memory_vtable (\<lambda>_. 0) (fst demo_memory)\<rparr>"

theorem step_returns_witness:
  "\<exists>r. step 1001 demo_mem_host 1000 (demo_core\<lparr>m_env := snd demo_memory\<rparr>) = Some r"
proof -
  have i: "memory_costs (snd demo_memory)"
    by (simp add: memory_costs_def demo_memory_def new_memory_def set_data_ptr_def set_insn_ptr_def)
  have e: "h_env demo_mem_host = memory_vtable (\<lambda>_. 0) (fst demo_memory)"
    by (simp add: demo_mem_host_def)
  have h: "bounded_env (h_env demo_mem_host) memory_costs 1"
    unfolding e by (rule memory_port.bounded_env_axioms)
  show ?thesis
    using step_returns[OF h, of "demo_core\<lparr>m_env := snd demo_memory\<rparr>" 1000 1001] i
    by (auto simp: demo_core_more)
qed

section \<open>A breakpoint inside a word\<close>

text \<open>The state the outer loop goes round in.\<close>

definition stuck :: "u32 \<Rightarrow> or1k \<Rightarrow> bool" where
  "stuck bp s \<longleftrightarrow> m_breakpoints s = [bp] \<and> bp - m_next_pc s \<in> {1, 2, 3} \<and> m_cycles s < m_limit s \<and>
     \<not> tick_enabled (m_tick s) \<and> m_pic_sr s AND m_pic_mr s = 0"

lemma stuck_quantum: "stuck bp s \<Longrightarrow> quantum_limit s \<le> m_cycles s"
  by (auto simp: stuck_def quantum_limit_def next_breakpoint_def Let_def min_def)

lemma stuck_quanta: "stuck bp s \<Longrightarrow> quanta n h s = None"
proof (induction n arbitrary: s)
  case (Suc n)
  let ?s = "clear_requests s" and ?t = "(clear_requests s)\<lparr>m_tick_stamp := m_cycles s\<rparr>"
  have s: "stuck bp ?s" using Suc.prems by (simp add: stuck_def clear_requests_def)
  have "\<not> m_cycles ?s < quantum_limit ?s" using stuck_quantum[OF s] by (simp add: not_less)
  then have q: "mini_quantum (Suc n) h (quantum_limit ?s) ?s = Some (Inr (False, ?s))" by simp
  have b: "bindE (update_timer ?s) external_exception = Inr ?t"
    using s by (simp add: update_timer_def external_exception_def stuck_def clear_requests_def)
  have t: "stuck bp ?t" using s by (simp add: stuck_def)
  have "bp \<noteq> m_next_pc ?t" using t by (auto simp: stuck_def)
  then have "\<not> breakpoint_hit ?t" "\<not> watchpoint_hit ?t"
    using t by (auto simp: breakpoint_hit_def stuck_def watchpoint_hit_def clear_requests_def)
  then show ?case
    using Suc.IH[OF t] q b Suc.prems
    by (simp add: Let_def bindF_def stuck_def del: mini_quantum.simps)
qed simp

text \<open>C27: A breakpoint that is not word aligned makes the simulator hang. When it lies inside the word at
  the program counter, the distance to it rounds to no instruction at all, so that no cycle is run,
  and it is not equal to the program counter, so that it does not stop the loop either: whatever the
  fuel, the step does not return.\<close>

theorem unaligned_breakpoint_hangs:
  assumes "m_breakpoints s = [bp]" "bp - m_next_pc s \<in> {1, 2, 3}"
    and "m_cycles s < m_cycles s + ucast c" "\<not> tick_enabled (m_tick s)"
    and "m_pic_sr s AND m_pic_mr s = 0" "m_pmr s AND PMR_DME = 0"
  shows "step n h c s = None"
proof -
  have "stuck bp (s\<lparr>m_limit := m_cycles s + ucast c\<rparr>)" using assms by (simp add: stuck_def)
  from stuck_quanta[OF this] show ?thesis
    using assms(5,6)
    by (simp add: step_def advance_def advance_begin_def external_exception_def doze_def bindF_def)
qed

theorem unaligned_breakpoint_hangs_witness:
  "\<forall>n. step n demo_host 10 (insert_breakpoint 0x102 demo_core) = None"
  by (intro allI unaligned_breakpoint_hangs[where bp = "0x102"])
    (simp_all add: insert_breakpoint_def stl_contains_def demo_core_more demo_core_fields tick_enabled_def new_tick_def)

end
