(* ===== verification/Typing.thy ===== *)
theory Typing
  imports Invariant
begin

text \<open>
  What can go wrong when a decoded instruction is executed. An instruction is typed when the operands that
  its execute function dereferences are there: registers where it stores, registers or the immediate
  where it reads. Decoding gives typed instructions, with the exception of \<^verbatim>\<open>l.macrc\<close>. A typed instruction
  that works on registers completes and keeps the invariant of the core, except for the division of the
  least integer by -1, which traps, and for pairs of registers that leave the register file; and unless
  the exception that it takes does not end, which needs vectors that are not aligned.
\<close>

section \<open>Types\<close>

definition is_reg :: "operand \<Rightarrow> bool" where
  "is_reg p = (case p of PGpr n \<Rightarrow> n < 32 | _ \<Rightarrow> False)"

definition is_value :: "operand \<Rightarrow> bool" where
  "is_value p \<longleftrightarrow> p = PImm \<or> is_reg p"

definition unary_alu :: "alu_exec \<Rightarrow> bool" where
  "unary_alu x \<longleftrightarrow> x \<in> {X_extw, X_exthz, X_exths, X_extbz, X_extbs, X_ff1, X_fl1}"

definition float_sources :: "fpx_exec \<Rightarrow> instruction \<Rightarrow> bool" where
  "float_sources x ci \<longleftrightarrow> is_reg (i_src1 ci) \<and> (x \<in> {F_itof, F_ftoi} \<or> is_reg (i_src2 ci)) \<and>
     (x \<in> {F_madd, F_sfeq, F_sfne, F_sfgt, F_sfge, F_sflt, F_sfle} \<or> is_reg (i_dest ci))"

fun typed :: "execute_function \<Rightarrow> instruction \<Rightarrow> bool" where
  "typed X_null ci = False"
| "typed (X_sysgrp x) ci =
     ((x \<in> {X_mfspr, X_mtspr, X_nop} \<longrightarrow> is_reg (i_src1 ci)) \<and>
      (x \<in> {X_mfspr, X_mtspr, X_movhi} \<longrightarrow> is_reg (i_dest ci)))"
| "typed (X_jump x) ci =
     (x \<in> {X_jump_rel, X_jump_abs} \<longrightarrow> is_value (i_src2 ci) \<and> (i_src1 ci = PNull \<or> is_reg (i_src1 ci)))"
| "typed (X_mem x) ci =
     (is_reg (i_src1 ci) \<and> (if x \<in> {X_swa, X_sw, X_sh, X_sb} then is_reg (i_src2 ci) else is_reg (i_dest ci)))"
| "typed (X_alu x) ci =
     (is_reg (i_src1 ci) \<and> is_reg (i_dest ci) \<and> (unary_alu x \<or> is_value (i_src2 ci)))"
| "typed (X_muldiv x) ci =
     (is_reg (i_src1 ci) \<and> is_value (i_src2 ci) \<and> (x \<in> {X_muld, X_muldu} \<or> is_reg (i_dest ci)))"
| "typed (X_compare x) ci = (is_reg (i_src1 ci) \<and> is_value (i_src2 ci))"
| "typed (X_macgrp x) ci =
     (if x = X_macrc then is_reg (i_dest ci) else is_reg (i_src1 ci) \<and> is_value (i_src2 ci))"
| "typed (X_orfpx32 x) ci = float_sources x ci"
| "typed (X_orfpx64 x) ci = float_sources x ci"

lemma is_reg_field [simp]:
  "is_reg (gpr_at (bits32 w 25 21))" "is_reg (gpr_at (bits32 w 20 16))" "is_reg (gpr_at (bits32 w 15 11))"
  "is_reg (gpr_at 3)" "is_reg (gpr_at 9)"
  using unat_bits32_less[of 21 25 w] unat_bits32_less[of 16 20 w] unat_bits32_less[of 11 15 w]
  by (simp_all add: is_reg_def gpr_at_def)

lemma is_value_simps [simp]: "is_value PImm" "is_reg p \<Longrightarrow> is_value p"
  by (simp_all add: is_value_def)

lemmas typed_eval = table_call_def decode_na_def unary_alu_def float_sources_def handler_defs

definition decodes_typed :: "opcode \<Rightarrow> bool" where
  "decodes_typed c \<longleftrightarrow> (\<forall>w pc ci ci'. decode_table c w pc ci = Inr ci' \<longrightarrow> typed (i_exec ci') ci')"

lemma typed_misc: "decodes_typed (O_misc x)"
  by (cases x) (auto simp: decodes_typed_def typed_eval)
lemma typed_control: "decodes_typed (O_control x)"
  by (cases x) (auto simp: decodes_typed_def typed_eval)
lemma typed_memory: "decodes_typed (O_memory x)"
  by (cases x) (auto simp: decodes_typed_def typed_eval)
lemma typed_extend: "decodes_typed (O_extend x)"
  by (cases x) (auto simp: decodes_typed_def typed_eval)
lemma typed_alu: "decodes_typed (O_alu x)"
  by (cases x) (auto simp: decodes_typed_def typed_eval)
lemma typed_alui: "decodes_typed (O_alui x)"
  by (cases x) (auto simp: decodes_typed_def typed_eval)
lemma typed_compare: "decodes_typed (O_compare x)"
  by (cases x) (auto simp: decodes_typed_def typed_eval)
lemma typed_comparei: "decodes_typed (O_comparei x)"
  by (cases x) (auto simp: decodes_typed_def typed_eval)
lemma typed_mac: "x \<noteq> ORBIS32_MACRC \<Longrightarrow> decodes_typed (O_mac x)"
  by (cases x) (auto simp: decodes_typed_def typed_eval)
lemma typed_system: "decodes_typed (O_system x)"
  by (cases x) (auto simp: decodes_typed_def typed_eval)
lemma typed_custom: "decodes_typed (O_custom x)"
  by (auto simp: decodes_typed_def typed_eval)
lemma typed_orfpx32: "decodes_typed (O_orfpx32 x)"
  by (cases x) (auto simp: decodes_typed_def typed_eval)
lemma typed_orfpx64: "decodes_typed (O_orfpx64 x)"
  by (cases x) (auto simp: decodes_typed_def typed_eval)

lemmas typed_group = typed_misc typed_control typed_memory typed_extend typed_alu typed_alui typed_compare
  typed_comparei typed_mac typed_system typed_custom typed_orfpx32 typed_orfpx64

lemma decode_macrc: "decode_table (O_mac ORBIS32_MACRC) w pc ci = Inr ci' \<Longrightarrow> i_exec ci' = X_macgrp X_macrc"
  by (auto simp: typed_eval)

lemma decode_typed:
  assumes "decode_table c w pc ci = Inr ci'"
  shows "typed (i_exec ci') ci' \<or> i_exec ci' = X_macgrp X_macrc"
proof (cases "c = O_mac ORBIS32_MACRC")
  case True
  with assms decode_macrc show ?thesis by blast
next
  case False
  have "decodes_typed c"
  proof (cases c)
    case INVALID_OPCODE
    then show ?thesis by (simp add: decodes_typed_def)
  qed (use False typed_group in auto)
  with assms show ?thesis by (auto simp: decodes_typed_def)
qed

section \<open>Execution\<close>

text \<open>
  A core with its registers, and a computation that ends in such a core; \<open>al\<close> tells whether the vectors are
  aligned, and if they are not, the computation may also not end.
\<close>

definition ready :: "bool \<Rightarrow> or1k \<Rightarrow> bool" where
  "ready al s \<longleftrightarrow> length (gpr s) = 32 \<and> vectors_aligned s = al"

definition sound :: "bool \<Rightarrow> or1k res \<Rightarrow> bool" where
  "sound al m \<longleftrightarrow> (\<exists>t. m = Inr t \<and> ready al t) \<or> m = Inl Diverges \<and> \<not> al"

named_theorems sound_rules \<open>building blocks of typed instructions\<close>

lemma sound_Inr [sound_rules]: "ready al t \<Longrightarrow> sound al (Inr t)"
  by (simp add: sound_def)

lemma sound_bind [sound_rules]:
  "sound al m \<Longrightarrow> (\<And>t. ready al t \<Longrightarrow> sound al (f t)) \<Longrightarrow> sound al (bindE m f)"
  by (cases m) (auto simp: sound_def)

lemma sound_if [sound_rules]: "(b \<Longrightarrow> sound al m) \<Longrightarrow> (\<not> b \<Longrightarrow> sound al n) \<Longrightarrow> sound al (if b then m else n)"
  by simp

lemma get_value:
  assumes "is_value p" "ready al s"
  obtains v where "get_op ci p s = Inr v"
  using assms by (cases p) (auto simp: is_value_def is_reg_def get_op_def ready_def)

lemma sound_with_srcs [sound_rules]:
  assumes "is_value (i_src1 ci)" "is_value (i_src2 ci)" "ready al s"
    and "\<And>a b. get_op ci (i_src1 ci) s = Inr a \<Longrightarrow> get_op ci (i_src2 ci) s = Inr b \<Longrightarrow> sound al (f a b s)"
  shows "sound al (with_srcs ci f s)"
proof -
  obtain a b where "get_op ci (i_src1 ci) s = Inr a" "get_op ci (i_src2 ci) s = Inr b"
    using get_value[OF assms(1,3)] get_value[OF assms(2,3)] by metis
  with assms(4) show ?thesis by (simp add: with_srcs_def)
qed

lemma sound_with_src1 [sound_rules]:
  assumes "is_value (i_src1 ci)" "ready al s" "\<And>a. sound al (f a s)"
  shows "sound al (with_src1 ci f s)"
  by (rule get_value[where ci = ci, OF assms(1,2)]) (simp add: with_src1_def assms(3))

lemma sound_put_op [sound_rules]: "is_reg p \<Longrightarrow> ready al s \<Longrightarrow> sound al (put_op p v s)"
  by (cases p) (simp_all add: is_reg_def put_op_def sound_def ready_def vectors_aligned_def)

lemma sound_set_dest [sound_rules]: "is_reg (i_dest ci) \<Longrightarrow> ready al s \<Longrightarrow> sound al (set_dest ci v s)"
  by (simp add: set_dest_def sound_put_op)

lemma ready_updates [simp]:
  "ready al (s\<lparr>m_status := st\<rparr>) = ready al s" "ready al (s\<lparr>m_aesr := a\<rparr>) = ready al s"
  "ready al (s\<lparr>m_mac := mc\<rparr>) = ready al s" "ready al (s\<lparr>m_fmac := mc\<rparr>) = ready al s"
  "ready al (s\<lparr>m_fpcfg := a\<rparr>) = ready al s" "ready al (s\<lparr>g_fenv := f\<rparr>) = ready al s"
  "ready al (s\<lparr>m_fp_round_mode := r\<rparr>) = ready al s"
  "ready al (s\<lparr>m_jump_insn := n\<rparr>) = ready al s" "ready al (s\<lparr>m_jump_target := a\<rparr>) = ready al s"
  by (simp_all add: ready_def vectors_aligned_def)

lemma ready_exception_taken [simp]: "ready al (exception_taken type addr s) = ready al s"
  by (simp add: exception_taken_def exception_enter_def Let_def ready_def vectors_aligned_def)

lemma sound_exception [sound_rules]: "ready al s \<Longrightarrow> sound al (exception type addr s)"
  by (auto simp: exception_eq sound_def ready_def[of _ s])

lemma sound_schedule_jump [sound_rules]: "ready al s \<Longrightarrow> sound al (schedule_jump target d s)"
  by (auto simp: schedule_jump_eq sound_def Let_def ready_def[of _ s])

lemma sound_range_exception [sound_rules]: "ready al s \<Longrightarrow> sound al (range_exception ae s)"
  by (simp add: range_exception_def sound_rules)

lemma ready_small [simp]:
  "ready al (status_or x s) = ready al s" "ready al (status_clear x s) = ready al s" "ready al (clear_carry_overflow s) = ready al s"
  "ready al (set_mac m s) = ready al s" "ready al (set_flag c s) = ready al s" "ready al (set_round r s) = ready al s"
  "ready al (reset_fp_round_mode s) = ready al s" "ready al (raise_flags fr s) = ready al s"
  by (simp_all add: status_or_def status_clear_def clear_carry_overflow_def set_mac_def set_flag_def
      set_round_def reset_fp_round_mode_def raise_flags_def)

lemma sound_flag_when [sound_rules]: "ready al s \<Longrightarrow> sound al (flag_when c flag ae s)"
  by (simp add: flag_when_def sound_rules)

lemma sound_set_link [sound_rules]:
  "i_src1 ci = PNull \<or> is_reg (i_src1 ci) \<Longrightarrow> ready al s \<Longrightarrow> sound al (set_link ci s)"
  by (auto simp: set_link_def intro: sound_rules)

lemma sound_get_op [sound_rules]:
  assumes "is_value p" "ready al s" "\<And>a. sound al (f a)"
  shows "sound al (bindE (get_op ci p s) f)"
  by (rule get_value[where ci = ci, OF assms(1,2)]) (simp add: assms(3))

lemma setup_fp_ready: "ready al s \<Longrightarrow> \<exists>t. setup_fp_round_mode s = Inr t \<and> ready al t"
  using and_6_cases[of "m_fpcfg s"]
  by (auto simp: setup_fp_round_mode_def Let_def FPS_RMN_def FPS_RMZ_def FPS_RMU_def FPS_RMD_def)

lemma sound_setup_fp [sound_rules]: "ready al s \<Longrightarrow> sound al (setup_fp_round_mode s)"
  using setup_fp_ready by (auto simp: sound_def)

lemma sound_fp_flag [sound_rules]: "ready al s \<Longrightarrow> sound al (fp_flag c flag s)"
  by (simp add: fp_flag_def Let_def sound_rules)

lemma sound_fp_flags [sound_rules]: "ready al s \<Longrightarrow> sound al (reset_fp_flags32 r s)"
  unfolding reset_fp_flags32_def fp_flags_def Let_def by (intro sound_rules) simp_all

lemma sound_fp_flags64 [sound_rules]: "ready al s \<Longrightarrow> sound al (reset_fp_flags64 r s)"
  unfolding reset_fp_flags64_def fp_flags_def Let_def by (intro sound_rules) simp_all

lemma sound_float [sound_rules]:
  "(\<And>r t. ready al t \<Longrightarrow> sound al (f r t)) \<Longrightarrow> ready al s \<Longrightarrow>
   sound al (case float_op h op a b s of (r, t) \<Rightarrow> f r t)"
  by (simp add: float_op_def Let_def)

text \<open>Division, the one that can trap.\<close>

definition division_traps :: "instruction \<Rightarrow> or1k \<Rightarrow> bool" where
  "division_traps ci s \<longleftrightarrow> i_exec ci = X_muldiv X_div \<and>
     (case (get_op ci (i_src1 ci) s, get_op ci (i_src2 ci) s) of
        (Inr a, Inr b) \<Rightarrow> sint a = - 2147483648 \<and> sint b = -1 | _ \<Rightarrow> False)"

lemma sound_jump: "typed (X_jump x) ci \<Longrightarrow> ready al s \<Longrightarrow> sound al (exec_jump x h ci s)"
  by (cases x; simp add: execute_orbis32_bf_def execute_orbis32_bnf_def execute_orbis32_jump_rel_def
      execute_orbis32_jump_abs_def Let_def)
    (intro sound_rules impI conjI; simp)+

lemma sound_alu: "typed (X_alu x) ci \<Longrightarrow> ready al s \<Longrightarrow> sound al (exec_alu x h ci s)"
  by (cases x; simp add: unary_alu_def execute_orbis32_extw_def execute_orbis32_exthz_def
      execute_orbis32_exths_def execute_orbis32_extbz_def execute_orbis32_extbs_def
      execute_orbis32_add_def execute_orbis32_addc_def execute_orbis32_sub_def
      execute_orbis32_and_def execute_orbis32_or_def execute_orbis32_xor_def
      execute_orbis32_cmov_def execute_orbis32_ff1_def execute_orbis32_fl1_def
      execute_orbis32_sll_def execute_orbis32_srl_def execute_orbis32_sra_def
      execute_orbis32_ror_def Let_def)
    (intro sound_rules; simp)+

lemma sound_muldiv:
  assumes "typed (X_muldiv x) ci" "ready al s" "i_exec ci = X_muldiv x" "\<not> division_traps ci s"
  shows "sound al (exec_muldiv x h ci s)"
  using assms
  by (cases x; simp add: execute_orbis32_mul_def execute_orbis32_mulu_def execute_orbis32_muld_def
      execute_orbis32_muldu_def execute_orbis32_div_def execute_orbis32_divu_def Let_def division_traps_def)
    (intro sound_rules; simp)+

lemma sound_compare: "typed (X_compare x) ci \<Longrightarrow> ready al s \<Longrightarrow> sound al (exec_compare x h ci s)"
  by (cases x; simp add: execute_orbis32_sfeq_def execute_orbis32_sfne_def execute_orbis32_sfgtu_def
      execute_orbis32_sfgeu_def execute_orbis32_sfltu_def execute_orbis32_sfleu_def
      execute_orbis32_sfgts_def execute_orbis32_sfges_def execute_orbis32_sflts_def
      execute_orbis32_sfles_def)
    (intro sound_rules; simp)+

lemma sound_mac: "typed (X_macgrp x) ci \<Longrightarrow> ready al s \<Longrightarrow> sound al (exec_mac x h ci s)"
  by (cases x; simp add: execute_orbis32_mac_def execute_orbis32_macu_def execute_orbis32_msb_def
      execute_orbis32_msbu_def execute_orbis32_macrc_def Let_def)
    (intro sound_rules; simp)+

lemma sound_orfpx32: "typed (X_orfpx32 x) ci \<Longrightarrow> ready al s \<Longrightarrow> sound al (exec_orfpx32 x h ci s)"
  by (cases x; simp add: float_sources_def execute_orfpx32_add_def execute_orfpx32_sub_def execute_orfpx32_mul_def
      execute_orfpx32_div_def execute_orfpx32_rem_def execute_orfpx32_madd_def
      execute_orfpx32_itof_def execute_orfpx32_ftoi_def execute_orfpx32_sfeq_def
      execute_orfpx32_sfne_def execute_orfpx32_sfgt_def execute_orfpx32_sfge_def
      execute_orfpx32_sflt_def execute_orfpx32_sfle_def float_binary_def float_compare_def)
    (intro sound_rules; simp)+

text \<open>Double precision. An operand is a register and the one that is one or two behind it; the bits 8 to 10 of
  the word choose which. The second register can be behind the register file.\<close>

definition pair_present :: "operand \<Rightarrow> nat \<Rightarrow> bool" where
  "pair_present p k = (case p of PGpr n \<Rightarrow> n + k < 32 | _ \<Rightarrow> False)"

definition doubles_present :: "fpx_exec \<Rightarrow> instruction \<Rightarrow> bool" where
  "doubles_present x ci \<longleftrightarrow> pair_present (i_src1 ci) (reg_step ci 9) \<and>
     (x \<in> {F_itof, F_ftoi} \<or> pair_present (i_src2 ci) (reg_step ci 8)) \<and>
     (x \<in> {F_madd, F_sfeq, F_sfne, F_sfgt, F_sfge, F_sflt, F_sfle} \<or>
      pair_present (i_dest ci) (if x \<in> {F_itof, F_ftoi} then 1 else reg_step ci 10))"

lemma get_double_present:
  assumes "is_reg p" "ready al s"
  shows "get_double ci p k s = (if pair_present p k
    then Inr (double_bits (gpr s ! (case p of PGpr n \<Rightarrow> n + k | _ \<Rightarrow> 0)) (gpr s ! (case p of PGpr n \<Rightarrow> n | _ \<Rightarrow> 0)))
    else Inl Host_fault)"
  using assms by (cases p) (auto simp: is_reg_def ready_def get_double_def get_op_def pair_present_def)

lemma put_double_present:
  assumes "is_reg (i_dest ci)" "ready al s"
  shows "if pair_present (i_dest ci) k then \<exists>t. put_double ci k d s = Inr t \<and> ready al t
    else put_double ci k d s = Inl Host_fault"
  using assms
  by (cases "i_dest ci") (auto simp: is_reg_def ready_def put_double_def put_op_def pair_present_def vectors_aligned_def)

lemma put_converted:
  assumes "is_reg (i_dest ci)" "ready al s"
  shows "if pair_present (i_dest ci) 1
    then \<exists>t. bindE (put_op (op_offset (i_dest ci) 1) a s) (put_op (i_dest ci) b) = Inr t \<and> ready al t
    else bindE (put_op (op_offset (i_dest ci) 1) a s) (put_op (i_dest ci) b) = Inl Host_fault"
  using assms
  by (cases "i_dest ci") (auto simp: is_reg_def ready_def put_op_def pair_present_def vectors_aligned_def)

lemma ready_double: "double_op h op a b s = (r, t) \<Longrightarrow> ready al s \<Longrightarrow> ready al t"
  by (auto simp: double_op_def Let_def)

lemma sound_with_doubles:
  assumes "is_reg (i_src1 ci)" "is_reg (i_src2 ci)" "ready al s"
    and "pair_present (i_src1 ci) (reg_step ci 9)" "pair_present (i_src2 ci) (reg_step ci 8)"
    and "\<And>a b. sound al (f a b s)"
  shows "sound al (with_doubles ci f s)"
  using assms by (simp add: with_doubles_def get_double_present[where al = al])

lemma with_doubles_fault:
  assumes "is_reg (i_src1 ci)" "is_reg (i_src2 ci)" "ready al s"
    and "\<And>a b. pair_present (i_src1 ci) (reg_step ci 9) \<Longrightarrow> pair_present (i_src2 ci) (reg_step ci 8) \<Longrightarrow>
      f a b s = Inl Host_fault"
  shows "with_doubles ci f s = Inl Host_fault"
  using assms by (simp add: with_doubles_def get_double_present[where al = al])

lemma double_binary_outcome:
  assumes "is_reg (i_src1 ci)" "is_reg (i_src2 ci)" "is_reg (i_dest ci)" "ready al s"
  shows "if pair_present (i_src1 ci) (reg_step ci 9) \<and> pair_present (i_src2 ci) (reg_step ci 8) \<and>
      pair_present (i_dest ci) (reg_step ci 10)
    then sound al (double_binary op h ci s) else double_binary op h ci s = Inl Host_fault"
proof -
  obtain u where u: "setup_fp_round_mode s = Inr u" "ready al u" using setup_fp_ready[OF assms(4)] by blast
  have r: "ready al (snd (double_op h op a b u))" for a b
    by (rule ready_double[OF surjective_pairing u(2)])
  note p = put_double_present[OF assms(3) r]
  show ?thesis
  proof (cases "pair_present (i_dest ci) (reg_step ci 10)")
    case True
    have "sound al (bindE (put_double ci (reg_step ci 10) d (snd (double_op h op a b u)))
        (\<lambda>s. reset_fp_flags64 d' (reset_fp_round_mode s)))" for a b d d'
      using p[of "reg_step ci 10" d a b] True by (auto intro!: sound_rules)
    then show ?thesis
      using assms True u(1) unfolding double_binary_def
      by (auto intro!: sound_with_doubles with_doubles_fault simp: case_prod_unfold Let_def)
  next
    case False
    then show ?thesis
      using assms u(1) p[of "reg_step ci 10"] unfolding double_binary_def
      by (auto intro!: with_doubles_fault simp: case_prod_unfold Let_def)
  qed
qed

lemma double_convert_outcome:
  assumes "is_reg (i_src1 ci)" "is_reg (i_dest ci)" "ready al s"
  shows "if pair_present (i_src1 ci) (reg_step ci 9) \<and> pair_present (i_dest ci) 1
    then sound al (double_convert op h ci s) else double_convert op h ci s = Inl Host_fault"
proof -
  have "ready al (snd (double_op h op a b s))" for a b
    by (rule ready_double[OF surjective_pairing assms(3)])
  from put_converted[OF assms(2) this] show ?thesis
    by (auto simp: double_convert_def get_double_present[OF assms(1,3)] case_prod_unfold Let_def sound_def)
qed

lemma double_compare_outcome:
  assumes "is_reg (i_src1 ci)" "is_reg (i_src2 ci)" "ready al s"
  shows "if pair_present (i_src1 ci) (reg_step ci 9) \<and> pair_present (i_src2 ci) (reg_step ci 8)
    then sound al (double_compare op h ci s) else double_compare op h ci s = Inl Host_fault"
  using assms unfolding double_compare_def
  by (auto intro!: sound_with_doubles with_doubles_fault sound_Inr)

lemma double_madd_outcome:
  assumes "is_reg (i_src1 ci)" "is_reg (i_src2 ci)" "ready al s"
  shows "if pair_present (i_src1 ci) (reg_step ci 9) \<and> pair_present (i_src2 ci) (reg_step ci 8)
    then sound al (execute_orfpx64_madd h ci s) else execute_orfpx64_madd h ci s = Inl Host_fault"
proof -
  have "sound al (reset_fp_flags64 d (reset_fp_round_mode ((snd (double_op h F_sub a b u))\<lparr>m_fmac := m\<rparr>)))"
    if "ready al u" for a b d m u
    using ready_double[OF surjective_pairing that] by (intro sound_rules) simp
  then show ?thesis
    using assms unfolding execute_orfpx64_madd_def
    by (auto intro!: sound_with_doubles with_doubles_fault sound_bind sound_setup_fp simp: case_prod_unfold Let_def)
qed

lemma orfpx64_outcome:
  assumes "typed (X_orfpx64 x) ci" "ready al s"
  shows "if doubles_present x ci then sound al (exec_orfpx64 x h ci s) else exec_orfpx64 x h ci s = Inl Host_fault"
  using assms double_binary_outcome[of ci al s _ h] double_convert_outcome[of ci al s _ h]
    double_compare_outcome[of ci al s] double_madd_outcome[of ci al s h]
  by (cases x) (simp_all add: float_sources_def doubles_present_def execute_orfpx64_add_def
      execute_orfpx64_sub_def execute_orfpx64_mul_def execute_orfpx64_div_def execute_orfpx64_rem_def
      execute_orfpx64_itof_def execute_orfpx64_ftoi_def execute_orfpx64_sfeq_def execute_orfpx64_sfne_def
      execute_orfpx64_sfgt_def execute_orfpx64_sfge_def execute_orfpx64_sflt_def execute_orfpx64_sfle_def)

section \<open>Type soundness\<close>

text \<open>The instructions that work on registers: all but the accesses to memory and the system instructions.\<close>

definition register_insn :: "execute_function \<Rightarrow> bool" where
  "register_insn x \<longleftrightarrow> (case x of X_null \<Rightarrow> False | X_sysgrp _ \<Rightarrow> False | X_mem _ \<Rightarrow> False | _ \<Rightarrow> True)"

text \<open>The three ways to go wrong.\<close>

definition macrc_outside :: "instruction \<Rightarrow> bool" where
  "macrc_outside ci \<longleftrightarrow> i_exec ci = X_macgrp X_macrc \<and> \<not> is_reg (i_dest ci)"

definition pair_outside :: "instruction \<Rightarrow> bool" where
  "pair_outside ci \<longleftrightarrow> (case i_exec ci of X_orfpx64 x \<Rightarrow> \<not> doubles_present x ci | _ \<Rightarrow> False)"

definition goes_wrong :: "instruction \<Rightarrow> or1k \<Rightarrow> bool" where
  "goes_wrong ci s \<longleftrightarrow> division_traps ci s \<or> macrc_outside ci \<or> pair_outside ci"

lemma division_traps_fault: "division_traps ci s \<Longrightarrow> execute (i_exec ci) h ci s = Inl Host_fault"
  by (auto simp: division_traps_def execute_orbis32_div_def with_srcs_def split: sum.splits)

lemma macrc_outside_fault:
  assumes "macrc_outside ci" "length (gpr s) = 32"
  shows "execute (i_exec ci) h ci s = Inl Host_fault"
  using assms
  by (cases "i_dest ci") (simp_all add: macrc_outside_def is_reg_def execute_orbis32_macrc_def set_dest_def put_op_def)

lemma pair_outside_fault:
  assumes "pair_outside ci" "typed (i_exec ci) ci" "ready al s"
  shows "execute (i_exec ci) h ci s = Inl Host_fault"
  using assms orfpx64_outcome[of _ ci al s h]
  by (cases "i_exec ci") (auto simp: pair_outside_def simp del: typed.simps)

lemma typed_sound:
  assumes "typed (i_exec ci) ci" "register_insn (i_exec ci)" "ready al s" "\<not> goes_wrong ci s"
  shows "sound al (execute (i_exec ci) h ci s)"
proof (cases "i_exec ci")
  case (X_jump x)
  with assms show ?thesis by (simp add: sound_jump del: typed.simps)
next
  case (X_alu x)
  with assms show ?thesis by (simp add: sound_alu del: typed.simps)
next
  case (X_muldiv x)
  with assms show ?thesis by (simp add: sound_muldiv goes_wrong_def del: typed.simps)
next
  case (X_compare x)
  with assms show ?thesis by (simp add: sound_compare del: typed.simps)
next
  case (X_macgrp x)
  with assms show ?thesis by (simp add: sound_mac del: typed.simps)
next
  case (X_orfpx32 x)
  with assms show ?thesis by (simp add: sound_orfpx32 del: typed.simps)
next
  case (X_orfpx64 x)
  with assms orfpx64_outcome[of x ci al s h] show ?thesis
    by (simp add: goes_wrong_def pair_outside_def del: typed.simps)
qed (use assms(2) in \<open>simp_all add: register_insn_def\<close>)

text \<open>C7:
  What becomes of a decoded instruction that works on registers, whatever the word. There are three ways
  to go wrong, all of which fault in the host: the signed division of the least integer by -1, which
  traps; \<^verbatim>\<open>l.macrc\<close> with a number in its nine bits for the destination that is behind the register file; and
  a double precision instruction with a register pair that is partly behind it. Every other one finds its
  operands: it completes in a core that keeps its invariant, or it takes an exception that does not end,
  which is only possible when the base of the exception vectors is not aligned.
\<close>

theorem decoded_insn_goes_right:
  assumes "decode_table (decode w) w pc (zero_insn\<lparr>i_addr := a, i_insn := w\<rparr>) = Inr ci"
    and "register_insn (i_exec ci)" "core_ok s"
  shows "if goes_wrong ci s then execute (i_exec ci) h ci s = Inl Host_fault
    else (\<exists>t. execute (i_exec ci) h ci s = Inr t \<and> core_ok t \<and> vectors_aligned t = vectors_aligned s) \<or>
      execute (i_exec ci) h ci s = Inl Diverges \<and> \<not> vectors_aligned s"
proof -
  let ?al = "vectors_aligned s"
  have r: "ready ?al s" "length (gpr s) = 32" using assms(3) by (simp_all add: ready_def core_ok_def)
  have ty: "typed (i_exec ci) ci \<or> macrc_outside ci"
    using decode_typed[OF assms(1)] by (auto simp: macrc_outside_def)
  show ?thesis
  proof (cases "goes_wrong ci s")
    case True
    have "pair_outside ci \<Longrightarrow> typed (i_exec ci) ci" using ty by (auto simp: pair_outside_def macrc_outside_def)
    with True show ?thesis
      using division_traps_fault macrc_outside_fault[OF _ r(2)] pair_outside_fault[OF _ _ r(1)]
      by (auto simp: goes_wrong_def)
  next
    case False
    then have "typed (i_exec ci) ci" using ty by (simp add: goes_wrong_def)
    from typed_sound[OF this assms(2) r(1) False, of h]
    consider t where "execute (i_exec ci) h ci s = Inr t" "ready ?al t"
      | "execute (i_exec ci) h ci s = Inl Diverges" "\<not> ?al"
      by (auto simp: sound_def)
    then show ?thesis
    proof cases
      case (1 t)
      have "quiet s t"
        using exec_quiet[THEN keeps_quiet] assms(2) 1(1) by (cases "i_exec ci") (auto simp: register_insn_def)
      then have "core_ok t" using assms(3) shape_core_ok[OF quiet_shape] by blast
      with 1 False show ?thesis by (simp add: ready_def)
    qed (use False in simp)
  qed
qed

text \<open>\<^verbatim>\<open>l.add r3,r3,r5\<close>.\<close>

theorem decoded_insn_goes_right_witness:
  "\<exists>ci t. decode_table (decode 0xe0632800) 0xe0632800 0 (zero_insn\<lparr>i_addr := 0x100, i_insn := 0xe0632800\<rparr>) = Inr ci \<and>
     execute (i_exec ci) demo_host ci demo_running = Inr t \<and> core_ok t"
proof -
  have d: "decode 0xe0632800 = O_alu ORBIS32_ADD" by (rule disassembly_demo)
  define ci where "ci = decode_orbis32_add 0xe0632800 (zero_insn\<lparr>i_addr := 0x100, i_insn := 0xe0632800\<rparr>)"
  have c: "decode_table (decode 0xe0632800) 0xe0632800 0 (zero_insn\<lparr>i_addr := 0x100, i_insn := 0xe0632800\<rparr>) = Inr ci"
    by (simp add: d ci_def table_call_def)
  have x: "i_exec ci = X_alu X_add" by (simp add: ci_def decode_orbis32_add_def Let_def)
  have "vectors_aligned demo_running"
    by (simp add: vectors_aligned_def demo_running_def demo_core_fields is_aligned_def)
  with decoded_insn_goes_right[OF c _ demo_running_facts(1), of demo_host] c x
  show ?thesis
    by (auto simp: register_insn_def goes_wrong_def division_traps_def macrc_outside_def pair_outside_def d)
qed

end
