(* ===== verification/Cache_Blind.thy ===== *)
theory Cache_Blind
  imports Typing
begin

text \<open>
  Which operations of the core look at the cache of decoded instructions: none but the fetch and the write
  to the instruction cache's block invalidate register. An operation on a core with another cache does
  what it does on the core itself and takes the other cache along; the lemmas are equations that rewrite
  every execute function, access and exception so.
\<close>

section \<open>The cache of a core replaced\<close>

definition recache :: "decode_cache \<Rightarrow> u64 \<Rightarrow> or1k \<Rightarrow> or1k" where
  "recache d k s = s\<lparr>m_decode_cache := d, m_compiles := k\<rparr>"

lemma recache_read [simp]:
  "m_stop_requested (recache d k s) = m_stop_requested s"
  "m_break_requested (recache d k s) = m_break_requested s"
  "m_instructions (recache d k s) = m_instructions s" "m_cycles (recache d k s) = m_cycles s"
  "m_limit (recache d k s) = m_limit s" "m_sleep_cycles (recache d k s) = m_sleep_cycles s"
  "m_clock (recache d k s) = m_clock s" "m_jump_target (recache d k s) = m_jump_target s"
  "m_jump_insn (recache d k s) = m_jump_insn s" "m_phys_ipg (recache d k s) = m_phys_ipg s"
  "m_virt_ipg (recache d k s) = m_virt_ipg s" "m_prev_pc (recache d k s) = m_prev_pc s"
  "m_next_pc (recache d k s) = m_next_pc s" "m_version (recache d k s) = m_version s"
  "m_version2 (recache d k s) = m_version2 s" "m_avr (recache d k s) = m_avr s"
  "m_dccfgr (recache d k s) = m_dccfgr s" "m_iccfgr (recache d k s) = m_iccfgr s"
  "m_unit (recache d k s) = m_unit s" "m_cpucfg (recache d k s) = m_cpucfg s"
  "m_fpcfg (recache d k s) = m_fpcfg s" "m_status (recache d k s) = m_status s"
  "m_insn (recache d k s) = m_insn s" "m_aecr (recache d k s) = m_aecr s"
  "m_aesr (recache d k s) = m_aesr s" "m_exsr (recache d k s) = m_exsr s"
  "m_expc (recache d k s) = m_expc s" "m_exea (recache d k s) = m_exea s"
  "m_evba (recache d k s) = m_evba s" "m_shadow (recache d k s) = m_shadow s"
  "m_mac (recache d k s) = m_mac s" "m_fmac (recache d k s) = m_fmac s"
  "m_pmr (recache d k s) = m_pmr s" "m_allow_sleep (recache d k s) = m_allow_sleep s"
  "m_pic_level (recache d k s) = m_pic_level s" "m_pic_mr (recache d k s) = m_pic_mr s"
  "m_pic_sr (recache d k s) = m_pic_sr s" "m_core_id (recache d k s) = m_core_id s"
  "m_num_cores (recache d k s) = m_num_cores s" "m_num_excl_read (recache d k s) = m_num_excl_read s"
  "m_num_excl_write (recache d k s) = m_num_excl_write s"
  "m_num_excl_failed (recache d k s) = m_num_excl_failed s"
  "m_tick_stamp (recache d k s) = m_tick_stamp s" "m_tick (recache d k s) = m_tick s"
  "m_dmmu (recache d k s) = m_dmmu s" "m_immu (recache d k s) = m_immu s"
  "m_env (recache d k s) = m_env s" "m_ireq (recache d k s) = m_ireq s"
  "m_dreq (recache d k s) = m_dreq s" "m_breakpoints (recache d k s) = m_breakpoints s"
  "m_watchpoints_r (recache d k s) = m_watchpoints_r s"
  "m_watchpoints_w (recache d k s) = m_watchpoints_w s" "m_wp_event (recache d k s) = m_wp_event s"
  "m_trace_enabled (recache d k s) = m_trace_enabled s" "m_trace_addr (recache d k s) = m_trace_addr s"
  "m_user_trace_stream (recache d k s) = m_user_trace_stream s"
  "m_fp_round_mode (recache d k s) = m_fp_round_mode s" "gpr (recache d k s) = gpr s"
  "g_output (recache d k s) = g_output s" "g_fenv (recache d k s) = g_fenv s"
  "g_calls (recache d k s) = g_calls s"
  by (simp_all add: recache_def)

lemma recache_write [simp]:
  "m_stop_requested_update f1 (recache d k s) = recache d k (m_stop_requested_update f1 s)"
  "m_break_requested_update f2 (recache d k s) = recache d k (m_break_requested_update f2 s)"
  "m_instructions_update f3 (recache d k s) = recache d k (m_instructions_update f3 s)"
  "m_cycles_update f4 (recache d k s) = recache d k (m_cycles_update f4 s)"
  "m_limit_update f5 (recache d k s) = recache d k (m_limit_update f5 s)"
  "m_sleep_cycles_update f6 (recache d k s) = recache d k (m_sleep_cycles_update f6 s)"
  "m_clock_update f7 (recache d k s) = recache d k (m_clock_update f7 s)"
  "m_jump_target_update f8 (recache d k s) = recache d k (m_jump_target_update f8 s)"
  "m_jump_insn_update f9 (recache d k s) = recache d k (m_jump_insn_update f9 s)"
  "m_phys_ipg_update f10 (recache d k s) = recache d k (m_phys_ipg_update f10 s)"
  "m_virt_ipg_update f11 (recache d k s) = recache d k (m_virt_ipg_update f11 s)"
  "m_prev_pc_update f12 (recache d k s) = recache d k (m_prev_pc_update f12 s)"
  "m_next_pc_update f13 (recache d k s) = recache d k (m_next_pc_update f13 s)"
  "m_version_update f14 (recache d k s) = recache d k (m_version_update f14 s)"
  "m_version2_update f15 (recache d k s) = recache d k (m_version2_update f15 s)"
  "m_avr_update f16 (recache d k s) = recache d k (m_avr_update f16 s)"
  "m_dccfgr_update f17 (recache d k s) = recache d k (m_dccfgr_update f17 s)"
  "m_iccfgr_update f18 (recache d k s) = recache d k (m_iccfgr_update f18 s)"
  "m_unit_update f19 (recache d k s) = recache d k (m_unit_update f19 s)"
  "m_cpucfg_update f20 (recache d k s) = recache d k (m_cpucfg_update f20 s)"
  "m_fpcfg_update f21 (recache d k s) = recache d k (m_fpcfg_update f21 s)"
  "m_status_update f22 (recache d k s) = recache d k (m_status_update f22 s)"
  "m_insn_update f23 (recache d k s) = recache d k (m_insn_update f23 s)"
  "m_aecr_update f24 (recache d k s) = recache d k (m_aecr_update f24 s)"
  "m_aesr_update f25 (recache d k s) = recache d k (m_aesr_update f25 s)"
  "m_exsr_update f26 (recache d k s) = recache d k (m_exsr_update f26 s)"
  "m_expc_update f27 (recache d k s) = recache d k (m_expc_update f27 s)"
  "m_exea_update f28 (recache d k s) = recache d k (m_exea_update f28 s)"
  "m_evba_update f29 (recache d k s) = recache d k (m_evba_update f29 s)"
  "m_shadow_update f30 (recache d k s) = recache d k (m_shadow_update f30 s)"
  "m_mac_update f31 (recache d k s) = recache d k (m_mac_update f31 s)"
  "m_fmac_update f32 (recache d k s) = recache d k (m_fmac_update f32 s)"
  "m_pmr_update f33 (recache d k s) = recache d k (m_pmr_update f33 s)"
  "m_allow_sleep_update f34 (recache d k s) = recache d k (m_allow_sleep_update f34 s)"
  "m_pic_level_update f35 (recache d k s) = recache d k (m_pic_level_update f35 s)"
  "m_pic_mr_update f36 (recache d k s) = recache d k (m_pic_mr_update f36 s)"
  "m_pic_sr_update f37 (recache d k s) = recache d k (m_pic_sr_update f37 s)"
  "m_core_id_update f38 (recache d k s) = recache d k (m_core_id_update f38 s)"
  "m_num_cores_update f39 (recache d k s) = recache d k (m_num_cores_update f39 s)"
  "m_num_excl_read_update f40 (recache d k s) = recache d k (m_num_excl_read_update f40 s)"
  "m_num_excl_write_update f41 (recache d k s) = recache d k (m_num_excl_write_update f41 s)"
  "m_num_excl_failed_update f42 (recache d k s) = recache d k (m_num_excl_failed_update f42 s)"
  "m_tick_stamp_update f43 (recache d k s) = recache d k (m_tick_stamp_update f43 s)"
  "m_tick_update f44 (recache d k s) = recache d k (m_tick_update f44 s)"
  "m_dmmu_update f45 (recache d k s) = recache d k (m_dmmu_update f45 s)"
  "m_immu_update f46 (recache d k s) = recache d k (m_immu_update f46 s)"
  "m_env_update f47 (recache d k s) = recache d k (m_env_update f47 s)"
  "m_ireq_update f48 (recache d k s) = recache d k (m_ireq_update f48 s)"
  "m_dreq_update f49 (recache d k s) = recache d k (m_dreq_update f49 s)"
  "m_breakpoints_update f50 (recache d k s) = recache d k (m_breakpoints_update f50 s)"
  "m_watchpoints_r_update f51 (recache d k s) = recache d k (m_watchpoints_r_update f51 s)"
  "m_watchpoints_w_update f52 (recache d k s) = recache d k (m_watchpoints_w_update f52 s)"
  "m_wp_event_update f53 (recache d k s) = recache d k (m_wp_event_update f53 s)"
  "m_trace_enabled_update f54 (recache d k s) = recache d k (m_trace_enabled_update f54 s)"
  "m_trace_addr_update f55 (recache d k s) = recache d k (m_trace_addr_update f55 s)"
  "m_user_trace_stream_update f56 (recache d k s) = recache d k (m_user_trace_stream_update f56 s)"
  "m_fp_round_mode_update f57 (recache d k s) = recache d k (m_fp_round_mode_update f57 s)"
  "gpr_update f58 (recache d k s) = recache d k (gpr_update f58 s)"
  "g_output_update f59 (recache d k s) = recache d k (g_output_update f59 s)"
  "g_fenv_update f60 (recache d k s) = recache d k (g_fenv_update f60 s)"
  "g_calls_update f61 (recache d k s) = recache d k (g_calls_update f61 s)"
  by (simp_all add: recache_def)

lemma recache_cache [simp]:
  "m_decode_cache (recache d k s) = d" "m_compiles (recache d k s) = k"
  "m_decode_cache_update f (recache d k s) = recache (f d) k s"
  "m_compiles_update g (recache d k s) = recache d (g k) s"
  "recache d k (recache d' k' s) = recache d k s"
  "recache d k (s\<lparr>m_decode_cache := c\<rparr>) = recache d k s" "recache d k (s\<lparr>m_compiles := n\<rparr>) = recache d k s"
  "recache (m_decode_cache s) (m_compiles s) s = s"
  by (simp_all add: recache_def)

text \<open>
  What reads no cache gives the same for a core with another cache, and what changes none takes the
  other cache along.
\<close>

lemma recache_queries [simp]:
  "is_supervisor (recache d k s) = is_supervisor s" "is_immu_active (recache d k s) = is_immu_active s"
  "is_dmmu_active (recache d k s) = is_dmmu_active s"
  "next_breakpoint (recache d k s) = next_breakpoint s" "breakpoint_hit (recache d k s) = breakpoint_hit s"
  "watchpoint_hit (recache d k s) = watchpoint_hit s" "quantum_limit (recache d k s) = quantum_limit s"
  "vectors_aligned (recache d k s) = vectors_aligned s"
  "exception_masked type (recache d k s) = exception_masked type s"
  "exception_target type (recache d k s) = exception_target type s"
  "is_delay_insn (recache d k s) = is_delay_insn s" "is_jump_insn (recache d k s) = is_jump_insn s"
  "exception_pc type (recache d k s) = exception_pc type s"
  "get_op ci p (recache d k s) = get_op ci p s" "jump_delay (recache d k s) = jump_delay s"
  "get_mac (recache d k s) = get_mac s" "wp_triggered req (recache d k s) = wp_triggered req s"
  by (simp_all add: is_supervisor_def is_immu_active_def is_dmmu_active_def next_breakpoint_def
      breakpoint_hit_def watchpoint_hit_def quantum_limit_def vectors_aligned_def exception_masked_def
      exception_target_def is_delay_insn_def is_jump_insn_def exception_pc_def get_op_def jump_delay_def
      get_mac_def wp_triggered_def Let_def split: operand.split)

lemma recache_if [simp]:
  "(if b then recache d k s else recache d k t) = recache d k (if b then s else t)" by simp

lemma recache_changes [simp]:
  "exception_enter type addr (recache d k s) = recache d k (exception_enter type addr s)"
  "status_or x (recache d k s) = recache d k (status_or x s)"
  "status_clear x (recache d k s) = recache d k (status_clear x s)"
  "set_mac mac (recache d k s) = recache d k (set_mac mac s)"
  "put_reg n v (recache d k s) = recache d k (put_reg n v s)"
  "emit out (recache d k s) = recache d k (emit out s)"
  "request_stop (recache d k s) = recache d k (request_stop s)"
  "check_watchpoints req (recache d k s) = recache d k (check_watchpoints req s)"
  "count_exclusive req (recache d k s) = recache d k (count_exclusive req s)"
  "clear_requests (recache d k s) = recache d k (clear_requests s)"
  "begin_cycle (recache d k s) = recache d k (begin_cycle s)"
  "restore_fixed (recache d k s) = recache d k (restore_fixed s)"
  "set_round r (recache d k s) = recache d k (set_round r s)"
  "raise_flags fr (recache d k s) = recache d k (raise_flags fr s)"
  by (simp_all add: exception_enter_def status_or_def status_clear_def set_mac_def put_reg_def emit_def
      request_stop_def check_watchpoints_def count_exclusive_def clear_requests_def begin_cycle_def
      restore_fixed_def set_round_def raise_flags_def Let_def)

lemma recache_derived [simp]:
  "set_flag c (recache d k s) = recache d k (set_flag c s)"
  "clear_carry_overflow (recache d k s) = recache d k (clear_carry_overflow s)"
  "reset_fp_round_mode (recache d k s) = recache d k (reset_fp_round_mode s)"
  "exception_taken type addr (recache d k s) = recache d k (exception_taken type addr s)"
  "update_pc l (recache d k s) = map_prod id (recache d k) (update_pc l s)"
  by (simp_all add: set_flag_def clear_carry_overflow_def reset_fp_round_mode_def exception_taken_def
      update_pc_def Let_def)

lemma recache_get_spr [simp]: "get_spr reg debug (recache d k s) = get_spr reg debug s"
proof -
  have "list_all (\<lambda>f. f (recache d k s) = f s) (map snd get_spr_table)"
    by (simp add: get_spr_table_def)
  then have "f (recache d k s) = f s" if "map_of get_spr_table reg = Some f" for f
    using map_of_SomeD[OF that] by (auto simp: list_all_iff)
  then show ?thesis by (simp add: get_spr_def Let_def split: option.split)
qed

section \<open>Operations that may fail\<close>

lemma bind_branches:
  "bindE (if b then m else n) g = (if b then bindE m g else bindE n g)"
  "bindE (case p of (x, y) \<Rightarrow> f x y) g = (case p of (x, y) \<Rightarrow> bindE (f x y) g)"
  by (auto split: prod.split)

lemmas carry = bindE_assoc bind_branches Let_def

lemma recache_operands:
  "put_op p v (recache d k s) = bindE (put_op p v s) (\<lambda>t. Inr (recache d k t))"
  "set_dest ci v (recache d k s) = bindE (set_dest ci v s) (\<lambda>t. Inr (recache d k t))"
  by (simp_all add: put_op_def set_dest_def split: operand.split)

lemma recache_exception:
  "exception type addr (recache d k s) = bindE (exception type addr s) (\<lambda>t. Inr (recache d k t))"
  by (simp add: exception_eq)

lemma recache_jump:
  "schedule_jump target n (recache d k s) = bindE (schedule_jump target n s) (\<lambda>t. Inr (recache d k t))"
  by (simp add: schedule_jump_eq Let_def)

lemma recache_flag_when:
  "range_exception ae (recache d k s) = bindE (range_exception ae s) (\<lambda>t. Inr (recache d k t))"
  "flag_when c flag ae (recache d k s) = bindE (flag_when c flag ae s) (\<lambda>t. Inr (recache d k t))"
  by (simp_all add: range_exception_def flag_when_def recache_exception)

lemma recache_set_link:
  "set_link ci (recache d k s) = bindE (set_link ci s) (\<lambda>t. Inr (recache d k t))"
  by (simp add: set_link_def recache_operands)

lemma recache_fp:
  "setup_fp_round_mode (recache d k s) = bindE (setup_fp_round_mode s) (\<lambda>t. Inr (recache d k t))"
  "fp_flag c flag (recache d k s) = bindE (fp_flag c flag s) (\<lambda>t. Inr (recache d k t))"
  by (simp_all add: setup_fp_round_mode_def fp_flag_def recache_exception Let_def)

lemma recache_fp_flags:
  "reset_fp_flags32 r (recache d k s) = bindE (reset_fp_flags32 r s) (\<lambda>t. Inr (recache d k t))"
  "reset_fp_flags64 r' (recache d k s) = bindE (reset_fp_flags64 r' s) (\<lambda>t. Inr (recache d k t))"
  by (simp_all add: reset_fp_flags32_def reset_fp_flags64_def fp_flags_def recache_fp carry)

lemma recache_float:
  "float_op h op a b (recache d k s) = map_prod id (recache d k) (float_op h op a b s)"
  "double_op h op a' b' (recache d k s) = map_prod id (recache d k) (double_op h op a' b' s)"
  by (simp_all add: float_op_def double_op_def Let_def)

lemma recache_double:
  "get_double ci p n (recache d k s) = get_double ci p n s"
  "put_double ci n v (recache d k s) = bindE (put_double ci n v s) (\<lambda>t. Inr (recache d k t))"
  by (simp_all add: get_double_def put_double_def recache_operands carry)

lemmas recache_ops = recache_operands recache_exception recache_jump recache_flag_when recache_set_link
  recache_fp recache_fp_flags recache_float recache_double

section \<open>Instructions\<close>

text \<open>An instruction that carries the other cache along unchanged.\<close>

definition blind :: "(or1k \<Rightarrow> or1k res) \<Rightarrow> bool" where
  "blind f \<longleftrightarrow> (\<forall>d k s. f (recache d k s) = bindE (f s) (\<lambda>t. Inr (recache d k t)))"

lemma recache_sources:
  "with_src1 ci f (recache d k s) = bindE (get_op ci (i_src1 ci) s) (\<lambda>a. f a (recache d k s))"
  "with_srcs ci g (recache d k s) =
     bindE (get_op ci (i_src1 ci) s) (\<lambda>a. bindE (get_op ci (i_src2 ci) s) (\<lambda>b. g a b (recache d k s)))"
  by (simp_all add: with_src1_def with_srcs_def)

lemmas source_defs = with_src1_def with_srcs_def

lemma blind_alu: "blind (exec_alu x h ci)"
  unfolding blind_def
  by (cases x) (simp_all add: execute_orbis32_extw_def execute_orbis32_exthz_def
      execute_orbis32_exths_def execute_orbis32_extbz_def execute_orbis32_extbs_def
      execute_orbis32_add_def execute_orbis32_addc_def execute_orbis32_sub_def
      execute_orbis32_and_def execute_orbis32_or_def execute_orbis32_xor_def
      execute_orbis32_cmov_def execute_orbis32_ff1_def execute_orbis32_fl1_def
      execute_orbis32_sll_def execute_orbis32_srl_def execute_orbis32_sra_def
      execute_orbis32_ror_def source_defs recache_ops carry cong: if_cong)

lemma blind_muldiv: "blind (exec_muldiv x h ci)"
  unfolding blind_def
  by (cases x) (simp_all add: execute_orbis32_mul_def execute_orbis32_mulu_def execute_orbis32_muld_def
      execute_orbis32_muldu_def execute_orbis32_div_def execute_orbis32_divu_def source_defs recache_ops carry cong: if_cong)

lemma blind_compare: "blind (exec_compare x h ci)"
  unfolding blind_def
  by (cases x) (simp_all add: execute_orbis32_sfeq_def execute_orbis32_sfne_def execute_orbis32_sfgtu_def
      execute_orbis32_sfgeu_def execute_orbis32_sfltu_def execute_orbis32_sfleu_def
      execute_orbis32_sfgts_def execute_orbis32_sfges_def execute_orbis32_sflts_def
      execute_orbis32_sfles_def source_defs recache_ops carry cong: if_cong)

lemma blind_mac: "blind (exec_mac x h ci)"
  unfolding blind_def
  by (cases x) (simp_all add: execute_orbis32_mac_def execute_orbis32_macu_def execute_orbis32_msb_def
      execute_orbis32_msbu_def execute_orbis32_macrc_def source_defs recache_ops carry cong: if_cong)

lemma blind_jump: "blind (exec_jump x h ci)"
  unfolding blind_def
  by (cases x) (simp_all add: execute_orbis32_bf_def execute_orbis32_bnf_def execute_orbis32_jump_rel_def
      execute_orbis32_jump_abs_def recache_ops carry cong: if_cong)

lemma blind_orfpx32: "blind (exec_orfpx32 x h ci)"
  unfolding blind_def
  by (cases x) (simp_all add: execute_orfpx32_add_def execute_orfpx32_sub_def execute_orfpx32_mul_def
      execute_orfpx32_div_def execute_orfpx32_rem_def execute_orfpx32_madd_def
      execute_orfpx32_itof_def execute_orfpx32_ftoi_def execute_orfpx32_sfeq_def
      execute_orfpx32_sfne_def execute_orfpx32_sfgt_def execute_orfpx32_sfge_def
      execute_orfpx32_sflt_def execute_orfpx32_sfle_def float_binary_def float_compare_def
      source_defs recache_ops carry case_prod_beta)

lemma blind_orfpx64: "blind (exec_orfpx64 x h ci)"
  unfolding blind_def
  by (cases x) (simp_all add: execute_orfpx64_add_def execute_orfpx64_sub_def execute_orfpx64_mul_def
      execute_orfpx64_div_def execute_orfpx64_rem_def execute_orfpx64_madd_def
      execute_orfpx64_itof_def execute_orfpx64_ftoi_def execute_orfpx64_sfeq_def
      execute_orfpx64_sfne_def execute_orfpx64_sfgt_def execute_orfpx64_sfge_def
      execute_orfpx64_sflt_def execute_orfpx64_sfle_def double_binary_def double_compare_def
      double_convert_def with_doubles_def source_defs recache_ops carry case_prod_beta)

text \<open>Data accesses.\<close>

abbreviation carried :: "decode_cache \<Rightarrow> u64 \<Rightarrow> ('a \<times> 'b \<times> or1k) res \<Rightarrow> ('a \<times> 'b \<times> or1k) res" where
  "carried d k m \<equiv> bindE m (\<lambda>(x, y, t). Inr (x, y, recache d k t))"

lemma recache_abort:
  "abort_access type req (recache d k s) = carried d k (abort_access type req s)"
  by (simp add: abort_access_def recache_exception carry)

lemma recache_data_translate:
  "data_translate h req (recache d k s) = carried d k (data_translate h req s)"
  by (simp add: data_translate_def carry cong: if_cong)

lemma recache_port_access:
  "port_access h req (recache d k s) = carried d k (port_access h req s)"
  by (auto simp: port_access_def carry recache_abort intro!: bindE_cong split: prod.split response.split)

lemma recache_transact: "transact h req (recache d k s) = carried d k (transact h req s)"
  by (auto simp: transact_def carry recache_abort recache_data_translate recache_port_access
      intro!: bindE_cong split: prod.split mmu_result.split)

lemma recache_data_access:
  "data_access h rd ex sz r ci (recache d k s) =
     bindE (data_access h rd ex sz r ci s) (\<lambda>(ok, t). Inr (ok, recache d k t))"
  by (auto simp: data_access_def carry recache_transact recache_ops intro!: bindE_cong split: prod.split)

lemma recache_then_dest:
  "then_dest f ci (ok, recache d k s) = bindE (then_dest f ci (ok, s)) (\<lambda>t. Inr (recache d k t))"
  by (simp add: then_dest_def recache_ops carry cong: if_cong)

lemma blind_mem: "blind (exec_mem x h ci)"
  unfolding blind_def
  by (cases x) (auto simp: execute_orbis32_lwa_def execute_orbis32_lw_def execute_orbis32_lhz_def
      execute_orbis32_lhs_def execute_orbis32_lbz_def execute_orbis32_lbs_def
      execute_orbis32_swa_def execute_orbis32_sw_def execute_orbis32_sh_def execute_orbis32_sb_def
      recache_data_access recache_then_dest carry intro!: bindE_cong split: prod.split)


section \<open>The timer and the special purpose registers\<close>

lemma recache_update_timer:
  "update_timer (recache d k s) = bindE (update_timer s) (\<lambda>t. Inr (recache d k t))"
  by (simp add: update_timer_def recache_exception carry cong: if_cong)

lemma recache_external:
  "external_exception (recache d k s) = bindE (external_exception s) (\<lambda>t. Inr (recache d k t))"
  by (simp add: external_exception_def recache_exception)

lemma recache_doze: "doze h (recache d k s) = bindE (doze h s) (\<lambda>t. Inr (recache d k t))"
  by (auto simp: doze_def recache_update_timer carry split: prod.split)

lemma recache_set_spr_table:
  assumes "map_of set_spr_table reg = Some f" "reg \<noteq> SPR_ICBIR"
  shows "f v (recache d k s) = recache d k (f v s)"
proof -
  have "list_all (\<lambda>(r, f). r \<noteq> SPR_ICBIR \<longrightarrow> f v (recache d k s) = recache d k (f v s)) set_spr_table"
    by (simp add: set_spr_table_def)
  with map_of_SomeD[OF assms(1)] assms(2) show ?thesis by (auto simp: list_all_iff)
qed

lemma recache_set_spr:
  assumes "reg \<noteq> SPR_ICBIR"
  shows "set_spr h reg v dbg (recache d k s) = bindE (set_spr h reg v dbg s) (\<lambda>t. Inr (recache d k t))"
  using recache_set_spr_table[OF _ assms, of _ v d k "s\<lparr>m_break_requested := True\<rparr>"]
  by (auto simp: set_spr_def recache_doze carry split: option.split)

text \<open>Writing the instruction cache's block invalidate register drops entries of whatever cache there is.\<close>

lemma recache_icbir:
  "set_spr h SPR_ICBIR v dbg (recache d k s) =
     bindE (set_spr h SPR_ICBIR v dbg s) (\<lambda>t. Inr (recache
       (if \<not> dbg \<and> \<not> spr_check_access SPR_ICBIR True (is_supervisor s) then d else dc_invalidate_block v 32 d) k t))"
proof -
  have "map_of set_spr_table SPR_ICBIR =
      Some (\<lambda>v s. s\<lparr>m_decode_cache := dc_invalidate_block v 32 (m_decode_cache s)\<rparr>)"
    "SPR_ICBIR \<noteq> SPR_PMR"
    by (simp_all add: set_spr_table_def spr_number_defs)
  then show ?thesis by (simp add: set_spr_def Let_def is_supervisor_def)
qed

lemma dc_invalidate_size [simp]:
  "dc_size (dc_invalidate a c) = dc_size c" "dc_size (dc_store a i c) = dc_size c"
  by (simp_all add: dc_invalidate_def dc_store_def Let_def)

lemma dc_invalidate_loop_size [simp]: "dc_size (dc_invalidate_loop n a off c) = dc_size c"
  by (induction n arbitrary: off c) simp_all

end
