(* ===== verification/Transparency.thy ===== *)
theory Transparency
  imports Cache_Blind
begin

text \<open>
  The cache of decoded instructions cannot be observed. As long as no fetch hits an entry that memory no
  longer agrees with, a simulator does what it would do with its cache switched off. That is the case for
  every program that does not change its code, which is shown with the invariant that the cache agrees
  with memory.
\<close>

section \<open>A core with its cache switched off\<close>

text \<open>
  The second core is the first one with the decode cache switched off; the statistics of compiled
  instructions differ as well.
\<close>

definition without_cache :: "or1k \<Rightarrow> or1k \<Rightarrow> bool" where
  "without_cache s t \<longleftrightarrow> (\<exists>d k. t = recache d k s \<and> dc_size d = DECODE_CACHE_OFF)"

text \<open>Two computations that fail alike, or whose results are related.\<close>

definition agree :: "('a \<Rightarrow> 'a \<Rightarrow> bool) \<Rightarrow> 'a res \<Rightarrow> 'a res \<Rightarrow> bool" where
  "agree R m n = rel_sum (=) R m n"

named_theorems agree_rules \<open>parts of two runs that agree\<close>

lemma agree_simps [simp]: "agree R (Inr x) (Inr y) = R x y" "agree R (Inl e) (Inl e') = (e = e')"
  by (simp_all add: agree_def)

lemma agree_bind [agree_rules]:
  "agree R m n \<Longrightarrow> (\<And>x y. R x y \<Longrightarrow> agree Q (f x) (g y)) \<Longrightarrow> agree Q (bindE m f) (bindE n g)"
  by (cases m; cases n) (auto simp: agree_def)

lemma agree_carried: "(\<And>x. m = Inr x \<Longrightarrow> R x (g x)) \<Longrightarrow> agree R m (bindE m (\<lambda>x. Inr (g x)))"
  by (cases m) simp_all

lemma without_cacheE:
  assumes "without_cache s t"
  obtains d k where "t = recache d k s" "dc_size d = DECODE_CACHE_OFF"
  using assms by (auto simp: without_cache_def)

lemma without_cacheI [simp]: "dc_size d = DECODE_CACHE_OFF \<Longrightarrow> without_cache s (recache d k s)"
  by (auto simp: without_cache_def)

lemma blind_agree: "blind f \<Longrightarrow> without_cache s t \<Longrightarrow> agree without_cache (f s) (f t)"
  by (elim without_cacheE) (simp add: blind_def agree_carried)

lemma set_spr_agree:
  assumes "without_cache s t"
  shows "agree without_cache (set_spr h reg v dbg s) (set_spr h reg v dbg t)"
  using assms
  by (elim without_cacheE, cases "reg = SPR_ICBIR")
    (simp_all add: recache_icbir recache_set_spr agree_carried dc_invalidate_block_def)

lemma blind_sys:
  assumes "x \<notin> {X_mtspr, X_nop, X_rfe}"
  shows "blind (exec_sys x h ci)"
  using assms unfolding blind_def
  by (cases x) (simp_all add: execute_orbis32_mfspr_def execute_orbis32_movhi_def execute_orbis32_sys_def
      execute_orbis32_trap_def execute_orbis32_csync_def execute_orbis32_msync_def
      execute_orbis32_psync_def source_defs recache_ops carry)

lemma nop_agree:
  assumes "without_cache s t"
  shows "agree without_cache (execute_orbis32_nop h ci s) (execute_orbis32_nop h ci t)"
proof -
  obtain d k where t: "t = recache d k s" "dc_size d = DECODE_CACHE_OFF" using assms by (rule without_cacheE)
  show ?thesis
  proof (cases "i_imm ci = 5")
    case True
    then have "execute_orbis32_nop h ci t = bindE (execute_orbis32_nop h ci s) (\<lambda>u. Inr (recache d 0 u))"
      by (simp add: t(1) recache_def execute_orbis32_nop_def emit_def)
    then show ?thesis using t(2) by (simp add: agree_carried)
  next
    case False
    then have "execute_orbis32_nop h ci t = bindE (execute_orbis32_nop h ci s) (\<lambda>u. Inr (recache d k u))"
      by (simp add: t execute_orbis32_nop_def source_defs carry cong: if_cong)
    then show ?thesis using t(2) by (simp add: agree_carried)
  qed
qed


lemma agree_jump:
  "without_cache s t \<Longrightarrow> agree without_cache (schedule_jump target n s) (schedule_jump target n t)"
  by (elim without_cacheE) (simp add: recache_jump agree_carried)

lemma without_cache_reads:
  assumes "without_cache s t"
  shows "get_spr reg dbg t = get_spr reg dbg s" "get_op ci p t = get_op ci p s"
    "m_trace_enabled t = m_trace_enabled s" "m_cycles t = m_cycles s" "m_limit t = m_limit s"
    "m_stop_requested t = m_stop_requested s" "m_break_requested t = m_break_requested s"
    "m_wp_event t = m_wp_event s" "quantum_limit t = quantum_limit s" "breakpoint_hit t = breakpoint_hit s"
    "watchpoint_hit t = watchpoint_hit s" "without_cache (begin_cycle s) (begin_cycle t)"
    "without_cache (clear_requests s) (clear_requests t)" "without_cache (restore_fixed s) (restore_fixed t)"
  using assms by (auto elim!: without_cacheE)

lemma sys_agree:
  assumes "without_cache s t"
  shows "agree without_cache (exec_sys x h ci s) (exec_sys x h ci t)"
proof -
  have "agree without_cache (execute_orbis32_mtspr h ci s) (execute_orbis32_mtspr h ci t)"
    using without_cache_reads(2)[OF assms, of ci] set_spr_agree[OF assms]
    by (auto simp: execute_orbis32_mtspr_def with_src1_def agree_def sum.rel_refl_strong
        intro!: agree_bind[where R = "(=)", unfolded agree_def])
  moreover have "agree without_cache (execute_orbis32_rfe h ci s) (execute_orbis32_rfe h ci t)"
    unfolding execute_orbis32_rfe_def Let_def without_cache_reads(1)[OF assms]
    by (rule agree_bind[OF agree_jump[OF assms]]) (simp add: without_cache_reads(1) set_spr_agree)
  ultimately show ?thesis
    using nop_agree[OF assms] blind_agree[OF blind_sys assms, of x h ci] by (cases x) auto
qed

lemmas blind_groups = blind_alu blind_muldiv blind_compare blind_mac blind_jump blind_mem blind_orfpx32
  blind_orfpx64

lemma execute_agree:
  "without_cache s t \<Longrightarrow> agree without_cache (execute x h ci s) (execute x h ci t)"
  using sys_agree blind_groups[THEN blind_agree] by (cases x) simp_all

lemma recache_trace: "do_trace ci (recache d k s) = bindE (do_trace ci s) (\<lambda>t. Inr (recache d k t))"
proof -
  have "trace_head w (recache d k s) = trace_head w s" "trace_operands ci (recache d k s) = trace_operands ci s"
    "trace_flag (recache d k s) = trace_flag s" for w
    by (simp_all add: trace_head_def trace_operands_def trace_flag_def Let_def cong: if_cong split: operand.split)
  then show ?thesis by (simp add: do_trace_def carry)
qed

lemma execute_fetched_agree:
  assumes "without_cache s t"
  shows "agree without_cache (execute_fetched h i s) (execute_fetched h i t)"
proof (cases i)
  case (Some ci)
  have "agree without_cache (if m_trace_enabled u then do_trace ci u else Inr u)
      (if m_trace_enabled v then do_trace ci v else Inr v)" if "without_cache u v" for u v
    using that by (auto elim!: without_cacheE simp: recache_trace agree_carried)
  with Some show ?thesis
    by (simp add: execute_fetched_def) (rule agree_bind[OF execute_agree[OF assms]])
qed (use assms in \<open>simp add: execute_fetched_def\<close>)

section \<open>Fetching\<close>

text \<open>
  The instruction that the memory behind the environment's instruction pointer holds at an address,
  decoded; nothing where the word has no meaning.
\<close>

definition code_word :: "env \<Rightarrow> u32 \<Rightarrow> u32 option" where
  "code_word e a =
     (case get_insn_ptr e a of
        None \<Rightarrow> None
      | Some p \<Rightarrow> (case load_bytes (host_mem e) p 4 of
          Inl _ \<Rightarrow> None | Inr bs \<Rightarrow> Some (byte_swap32 (of_le_bytes bs))))"

definition code_at :: "env \<Rightarrow> u32 \<Rightarrow> instruction option" where
  "code_at e a =
     (case code_word e a of
        None \<Rightarrow> None
      | Some w \<Rightarrow>
          (if decode w = INVALID_OPCODE \<or> decode w = O_custom ORBIS32_CUST1 then None
           else case decode_table (decode w) w 0 (zero_insn\<lparr>i_addr := a, i_insn := w\<rparr>) of
                  Inl _ \<Rightarrow> None | Inr i \<Rightarrow> Some i))"

text \<open>The next fetch of the core does not hit an entry of its cache that memory no longer agrees with.\<close>

definition fresh_fetch :: "host \<Rightarrow> or1k \<Rightarrow> bool" where
  "fresh_fetch h s \<longleftrightarrow> (\<forall>u. fetch_translate h (begin_cycle s) = Inr (MMU_OKAY, u) \<longrightarrow>
     (let a = req_addr (m_ireq u); insn = dc_lookup a (m_decode_cache u)
      in i_addr insn = a \<longrightarrow> code_at (m_env u) a = Some insn))"

lemma recache_fetch_translate:
  "fetch_translate h (recache d k s) = bindE (fetch_translate h s) (\<lambda>(r, u). Inr (r, recache d k u))"
  by (auto simp: fetch_translate_def carry cong: if_cong intro!: bindE_cong split: prod.split)

lemma recache_fetch_word:
  "fetch_word h (recache d k s) = bindE (fetch_word h s) (\<lambda>(r, u). Inr (r, recache d k u))"
  by (auto simp: fetch_word_def carry intro!: bindE_cong split: prod.split option.split)

lemma recache_abort_fetch:
  "abort_fetch type (recache d k s) = bindE (abort_fetch type s) (\<lambda>(i, u). Inr (i, recache d k u))"
  by (simp add: abort_fetch_def recache_exception carry)

abbreviation fetched_alike :: "instruction option \<times> or1k \<Rightarrow> instruction option \<times> or1k \<Rightarrow> bool" where
  "fetched_alike \<equiv> rel_prod (=) without_cache"

lemma abort_fetch_agree:
  assumes "without_cache s t"
  shows "agree fetched_alike (abort_fetch type s) (abort_fetch type t)"
proof -
  have "agree without_cache (exception type a s) (exception type a t)" for a
    using assms by (elim without_cacheE) (simp add: recache_exception agree_carried)
  moreover have "m_ireq t = m_ireq s" using assms by (auto elim: without_cacheE)
  ultimately show ?thesis by (simp add: abort_fetch_def) (rule agree_bind[where R = without_cache], simp_all)
qed

lemma fetch_decode_agree:
  assumes "without_cache s t"
  shows "agree fetched_alike (fetch_decode s) (fetch_decode t)"
proof -
  obtain d k where t: "t = recache d k s" "dc_size d = DECODE_CACHE_OFF" using assms by (rule without_cacheE)
  have "agree fetched_alike (abort_fetch type s) (abort_fetch type t)" for type
    by (rule abort_fetch_agree[OF assms])
  moreover have "agree fetched_alike
      (bindE m (\<lambda>insn. Inr (Some insn, s\<lparr>m_decode_cache := dc_store a insn (m_decode_cache s), m_compiles := n\<rparr>)))
      (bindE m (\<lambda>insn. Inr (Some insn, t\<lparr>m_decode_cache := dc_store a insn (m_decode_cache t), m_compiles := n'\<rparr>)))"
    for m a n n'
    by (cases m) (auto simp: t without_cache_def recache_def intro!: exI[of _ "dc_store a _ d"])
  ultimately show ?thesis by (simp add: fetch_decode_def Let_def) (simp add: t)
qed

lemma table_call_word:
  "table_call f w pc ci = Inr ci' \<Longrightarrow> table_call f w pc' ci = Inr ci'"
  by (auto simp: table_call_def decode_na_def split: option.splits)

lemma decode_table_pc: "decode_table c w pc ci = Inr ci' \<Longrightarrow> decode_table c w pc' ci = Inr ci'"
  by (cases c) (auto simp: decode_na_def intro: table_call_word)

definition keeps_word :: "opcode \<Rightarrow> bool" where
  "keeps_word c \<longleftrightarrow> (\<forall>w pc ci ci'. decode_table c w pc ci = Inr ci' \<longrightarrow> i_insn ci' = i_insn ci \<and> i_addr ci' = i_addr ci)"

lemma keeps_word_group:
  "keeps_word (O_misc a)" "keeps_word (O_control b)" "keeps_word (O_memory c)" "keeps_word (O_extend e)"
  "keeps_word (O_alu f)" "keeps_word (O_alui g)" "keeps_word (O_compare i)" "keeps_word (O_comparei j)"
  "keeps_word (O_mac k)" "keeps_word (O_system l)" "keeps_word (O_orfpx32 n)" "keeps_word (O_orfpx64 q)"
  apply (cases a; auto simp: keeps_word_def typed_eval)
  apply (cases b; auto simp: keeps_word_def typed_eval)
  apply (cases c; auto simp: keeps_word_def typed_eval)
  apply (cases e; auto simp: keeps_word_def typed_eval)
  apply (cases f; auto simp: keeps_word_def typed_eval)
  apply (cases g; auto simp: keeps_word_def typed_eval)
  apply (cases i; auto simp: keeps_word_def typed_eval)
  apply (cases j; auto simp: keeps_word_def typed_eval)
  apply (cases k; auto simp: keeps_word_def typed_eval)
  apply (cases l; auto simp: keeps_word_def typed_eval)
  apply (cases n; auto simp: keeps_word_def typed_eval)
  apply (cases q; auto simp: keeps_word_def typed_eval)
  done

lemma decode_table_word: "decode_table c w pc ci = Inr ci' \<Longrightarrow> i_insn ci' = i_insn ci \<and> i_addr ci' = i_addr ci"
  using keeps_word_group by (cases c) (auto simp: keeps_word_def decode_na_def)

text \<open>A fresh entry of the cache is what a fetch from memory gives.\<close>

lemma fetch_from_memory:
  assumes "code_at (m_env s) (req_addr (m_ireq s)) = Some insn"
  shows "bindE (fetch_word h s) (\<lambda>(resp, s). case resp of
      RESP_ERROR \<Rightarrow> abort_fetch EX_INSN_BUS_ERROR s
    | RESP_FAILED \<Rightarrow> Inl Invalid_port_response
    | RESP_SUCCESS \<Rightarrow> fetch_decode s) =
    Inr (Some insn, s\<lparr>m_insn := i_insn insn,
      m_decode_cache := dc_store (req_addr (m_ireq s)) insn (m_decode_cache s), m_compiles := m_compiles s + 1\<rparr>)"
proof -
  obtain w where w: "code_word (m_env s) (req_addr (m_ireq s)) = Some w"
    and v: "decode w \<noteq> INVALID_OPCODE" "decode w \<noteq> O_custom ORBIS32_CUST1"
    and d: "decode_table (decode w) w 0 (zero_insn\<lparr>i_addr := req_addr (m_ireq s), i_insn := w\<rparr>) = Inr insn"
    using assms by (auto simp: code_at_def split: option.splits if_splits sum.splits)
  have "fetch_word h s = Inr (RESP_SUCCESS, s\<lparr>m_insn := w\<rparr>)"
    using w by (auto simp: code_word_def fetch_word_def split: option.splits sum.splits)
  with v decode_table_pc[OF d] decode_table_word[OF d] show ?thesis
    by (simp add: fetch_decode_def Let_def)
qed

lemma fetch_agree:
  assumes "without_cache s t" "fresh_fetch h s"
  shows "agree fetched_alike (fetch h (begin_cycle s)) (fetch h (begin_cycle t))"
proof -
  obtain d k where t: "begin_cycle t = recache d k (begin_cycle s)" "dc_size d = DECODE_CACHE_OFF"
    using assms(1) by (auto elim!: without_cacheE)
  have off: "is_decode_cache_off (recache d k u)" for u
    using t(2) by (simp add: is_decode_cache_off_def dc_is_enabled_def)
  show ?thesis
  proof (cases "fetch_translate h (begin_cycle s)")
    case (Inl e)
    then show ?thesis by (simp add: fetch_def t(1) recache_fetch_translate)
  next
    case (Inr x)
    obtain r u where x: "x = (r, u)" by (cases x)
    have w: "without_cache u (recache d k u)" using t(2) by simp
    let ?miss = "\<lambda>s. bindE (fetch_word h s) (\<lambda>(resp, s). case resp of
        RESP_ERROR \<Rightarrow> abort_fetch EX_INSN_BUS_ERROR s
      | RESP_FAILED \<Rightarrow> Inl Invalid_port_response
      | RESP_SUCCESS \<Rightarrow> fetch_decode s)"
    let ?insn = "dc_lookup (req_addr (m_ireq u)) (m_decode_cache u)"
    have miss: "agree fetched_alike (?miss u) (?miss (recache d k u))"
      using t(2) unfolding recache_fetch_word bindE_assoc
      by (intro agree_bind[where R = "\<lambda>x y. y = x \<and> fst x = fst y"])
        (auto simp: agree_def sum.rel_refl_strong abort_fetch_agree[unfolded agree_def]
          fetch_decode_agree[unfolded agree_def] split: response.split)
    have hit: "?miss (recache d k u) = Inr (Some ?insn, recache (dc_store (req_addr (m_ireq u)) ?insn d) (k + 1)
        (u\<lparr>m_insn := i_insn ?insn\<rparr>))" if "r = MMU_OKAY" "i_addr ?insn = req_addr (m_ireq u)"
      using fetch_from_memory[of "recache d k u" ?insn h] assms(2) Inr x that
      by (simp add: fresh_fetch_def Let_def)
    show ?thesis
      using abort_fetch_agree[OF w] miss hit off[of u] t(2)
      by (auto simp: fetch_def t(1) recache_fetch_translate Inr x Let_def split: mmu_result.split)
  qed
qed


section \<open>Cycles and steps\<close>

lemma cycle_agree:
  assumes "without_cache s t" "fresh_fetch h s"
  shows "agree (rel_prod (=) without_cache) (cycle h l s) (cycle h l t)"
proof -
  have "agree (rel_prod (=) without_cache) (Inr (update_pc l (restore_fixed u))) (Inr (update_pc l (restore_fixed v)))"
    if "without_cache u v" for u v :: or1k
    using that by (auto elim!: without_cacheE simp: prod.rel_map rel_prod_sel)
  then have "agree (rel_prod (=) without_cache)
      (bindE (execute_fetched h i u) (\<lambda>s. Inr (update_pc l (restore_fixed s))))
      (bindE (execute_fetched h i v) (\<lambda>s. Inr (update_pc l (restore_fixed s))))"
    if "without_cache u v" for i u v
    by (rule agree_bind[OF execute_fetched_agree[OF that]])
  with fetch_agree[OF assms] show ?thesis
    unfolding cycle_def by (auto intro: agree_bind)
qed

text \<open>The states in which a mini-quantum, and a step, fetch an instruction.\<close>

inductive fetches :: "host \<Rightarrow> u64 \<Rightarrow> or1k \<Rightarrow> or1k \<Rightarrow> bool" for h where
  fetch_now: "m_cycles s < l \<Longrightarrow> fetches h l s s"
| fetch_later: "\<lbrakk>m_cycles s < l; cycle h l s = Inr (l', t); \<not> m_stop_requested t; \<not> m_break_requested t;
    \<not> wpe_hit (m_wp_event t); fetches h l' t u\<rbrakk> \<Longrightarrow> fetches h l s u"

inductive step_fetches :: "host \<Rightarrow> or1k \<Rightarrow> or1k \<Rightarrow> bool" for h where
  this_quantum: "\<lbrakk>m_cycles s < m_limit s; fetches h (quantum_limit (clear_requests s)) (clear_requests s) u\<rbrakk> \<Longrightarrow>
    step_fetches h s u"
| next_quantum: "\<lbrakk>m_cycles s < m_limit s;
    mini_quantum n h (quantum_limit (clear_requests s)) (clear_requests s) = Some (Inr (False, t));
    bindE (update_timer t) external_exception = Inr v; \<not> breakpoint_hit v; \<not> watchpoint_hit v;
    step_fetches h v u\<rbrakk> \<Longrightarrow> step_fetches h s u"

text \<open>Runs with fuel that agree.\<close>

abbreviation agreeF :: "('a \<Rightarrow> 'a \<Rightarrow> bool) \<Rightarrow> 'a res option \<Rightarrow> 'a res option \<Rightarrow> bool" where
  "agreeF R \<equiv> rel_option (agree R)"

lemma agreeF_bind:
  "agreeF R m n \<Longrightarrow> (\<And>x y. m = Some (Inr x) \<Longrightarrow> R x y \<Longrightarrow> agreeF Q (f x) (g y)) \<Longrightarrow> agreeF Q (bindF m f) (bindF n g)"
  by (auto simp: bindF_def agree_def option_rel_Some1 elim!: option.rel_cases rel_sum.cases split: option.splits)

lemma mini_quantum_agree:
  assumes "without_cache s t" "\<And>u. fetches h l s u \<Longrightarrow> fresh_fetch h u"
  shows "agreeF (rel_prod (=) without_cache) (mini_quantum n h l s) (mini_quantum n h l t)"
  using assms
proof (induction n arbitrary: l s t)
  case (Suc n)
  show ?case
  proof (cases "m_cycles s < l")
    case True
    have c: "agree (rel_prod (=) without_cache) (cycle h l s) (cycle h l t)"
      using Suc.prems fetch_now[of s l h] True by (intro cycle_agree) auto
    show ?thesis
      using True
      by (simp add: without_cache_reads[OF Suc.prems(1)])
        (rule agreeF_bind[where R = "rel_prod (=) without_cache"],
          auto simp: c without_cache_reads intro!: Suc.IH Suc.prems(2) intro: fetch_later)
  qed (use Suc.prems(1) in \<open>simp add: without_cache_reads\<close>)
qed simp

lemma between_agree:
  assumes "without_cache s t"
  shows "agree without_cache (bindE (update_timer s) external_exception) (bindE (update_timer t) external_exception)"
proof -
  have "agree without_cache (update_timer s) (update_timer t)"
    using assms by (elim without_cacheE) (simp add: recache_update_timer agree_carried)
  moreover have "agree without_cache (external_exception u) (external_exception v)" if "without_cache u v" for u v
    using that by (elim without_cacheE) (simp add: recache_external agree_carried)
  ultimately show ?thesis by (rule agree_bind)
qed

lemma quanta_agree:
  assumes "without_cache s t" "\<And>u. step_fetches h s u \<Longrightarrow> fresh_fetch h u"
  shows "agreeF (rel_prod (=) without_cache) (quanta n h s) (quanta n h t)"
  using assms
proof (induction n arbitrary: s t)
  case (Suc n)
  show ?case
  proof (cases "m_cycles s < m_limit s")
    case True
    have q: "agreeF (rel_prod (=) without_cache)
        (mini_quantum (Suc n) h (quantum_limit (clear_requests s)) (clear_requests s))
        (mini_quantum (Suc n) h (quantum_limit (clear_requests s)) (clear_requests t))"
      using Suc.prems this_quantum[OF True] by (intro mini_quantum_agree) (auto simp: without_cache_reads)
    have rest: "agreeF (rel_prod (=) without_cache)
        (bindF (Some (bindE (update_timer u) external_exception)) (\<lambda>s. if breakpoint_hit s then Some (Inr (STEP_BREAKPOINT, s))
           else if watchpoint_hit s then Some (Inr (STEP_WATCHPOINT, s)) else quanta n h s))
        (bindF (Some (bindE (update_timer v) external_exception)) (\<lambda>s. if breakpoint_hit s then Some (Inr (STEP_BREAKPOINT, s))
           else if watchpoint_hit s then Some (Inr (STEP_WATCHPOINT, s)) else quanta n h s))"
      if "without_cache u v"
        "mini_quantum (Suc n) h (quantum_limit (clear_requests s)) (clear_requests s) = Some (Inr (False, u))" for u v
      by (rule agreeF_bind[where R = without_cache])
        (auto simp: between_agree[OF that(1)] without_cache_reads
          intro!: Suc.IH Suc.prems(2) intro: next_quantum[OF True that(2)])
    have r: "m_cycles t = m_cycles s" "m_limit t = m_limit s"
      "quantum_limit (clear_requests t) = quantum_limit (clear_requests s)"
      using without_cache_reads(4,5)[OF Suc.prems(1)]
        without_cache_reads(9)[OF without_cache_reads(13)[OF Suc.prems(1)]] by auto
    show ?thesis
      unfolding quanta.simps Let_def r if_P[OF True]
      by (rule agreeF_bind[OF q]) (auto simp: rest simp del: mini_quantum.simps)
  qed (use Suc.prems(1) in \<open>simp add: without_cache_reads\<close>)
qed simp

text \<open>C6: The cache of decoded instructions is transparent. As long as no instruction that a step fetches
  has an entry in the cache that memory no longer agrees with, the step does the same, result, cycles and
  state, as that of a simulator whose decode cache is switched off.\<close>

theorem decode_cache_transparent:
  assumes "without_cache s t"
    and "\<And>v u. advance_begin h c s = Inr v \<Longrightarrow> step_fetches h v u \<Longrightarrow> fresh_fetch h u"
  shows "case step n h c s of
      None \<Rightarrow> step n h c t = None
    | Some (Inl e) \<Rightarrow> step n h c t = Some (Inl e)
    | Some (Inr (r, k, s')) \<Rightarrow> \<exists>t'. step n h c t = Some (Inr (r, k, t')) \<and> without_cache s' t'"
proof -
  let ?P = "rel_prod (=) without_cache"
  obtain d k where t: "t = recache d k s" "dc_size d = DECODE_CACHE_OFF" using assms(1) by (rule without_cacheE)
  have b: "agree without_cache (advance_begin h c s) (advance_begin h c t)"
    by (simp add: t(1) advance_begin_def recache_external recache_doze bindE_assoc)
      (simp add: t(2) agree_carried bindE_assoc[symmetric])
  have a: "agreeF ?P (advance n h c s) (advance n h c t)"
    unfolding advance_def
    by (rule agreeF_bind[where R = without_cache]) (auto simp: b intro: quanta_agree assms(2))
  have "agreeF (rel_prod (=) ?P) (step n h c s) (step n h c t)"
    unfolding step_def
    by (rule agreeF_bind[OF a]) (auto simp: without_cache_reads)
  then show ?thesis
    by (auto simp: agree_def elim!: option.rel_cases rel_sum.cases split: option.split sum.split)
qed

section \<open>Programs that do not change their code\<close>

text \<open>The cache agrees with memory.\<close>

definition coherent :: "or1k \<Rightarrow> bool" where
  "coherent s \<longleftrightarrow> cache_agrees dc_entry (m_decode_cache s) (code_at (m_env s))"

text \<open>
  The core fetches from memory behind the instruction pointer, which a walk of the page table leaves alone.
\<close>

definition direct_fetch :: "host \<Rightarrow> or1k \<Rightarrow> bool" where
  "direct_fetch h s \<longleftrightarrow> (\<forall>r u. fetch_translate h (begin_cycle s) = Inr (r, u) \<longrightarrow>
     code_at (m_env u) = code_at (m_env s) \<and>
     (r = MMU_OKAY \<longrightarrow> get_insn_ptr (m_env u) (req_addr (m_ireq u)) \<noteq> None \<and> req_addr (m_ireq u) \<noteq> -1))"

lemma blind_keeps_cache:
  assumes "f (recache (m_decode_cache s) (m_compiles s) s) =
      bindE (f s) (\<lambda>t. Inr (recache (m_decode_cache s) (m_compiles s) t))" "f s = Inr t"
  shows "m_decode_cache t = m_decode_cache s"
proof -
  have "t = recache (m_decode_cache s) (m_compiles s) t"
    using assms(1) unfolding recache_cache(8) assms(2) by simp
  then show ?thesis by (metis recache_cache(1))
qed

lemma set_spr_cache:
  assumes "set_spr h reg v dbg s = Inr t"
  shows "m_decode_cache t = m_decode_cache s \<or> (\<exists>a. m_decode_cache t = dc_invalidate_block a 32 (m_decode_cache s))"
proof (cases "reg = SPR_ICBIR")
  case True
  let ?c = "m_decode_cache s" and ?k = "m_compiles s"
  have "t = recache (if \<not> dbg \<and> \<not> spr_check_access SPR_ICBIR True (is_supervisor s) then ?c
      else dc_invalidate_block v 32 ?c) ?k t"
    using recache_icbir[of h v dbg ?c ?k s] unfolding recache_cache(8) assms[unfolded True] by simp
  from arg_cong[OF this, of m_decode_cache] show ?thesis
    unfolding recache_cache(1) by (auto split: if_splits)
next
  case False
  from blind_keeps_cache[of "set_spr h reg v dbg", OF recache_set_spr[OF False] assms] show ?thesis ..
qed

lemma execute_cache:
  assumes "execute x h ci s = Inr t"
  shows "m_decode_cache t = m_decode_cache s \<or> (\<exists>a. m_decode_cache t = dc_invalidate_block a 32 (m_decode_cache s))"
proof -
  have keep: "m_decode_cache t = m_decode_cache s" if "blind f" "f s = Inr t" for f s t
    by (rule blind_keeps_cache[of f, OF _ that(2)]) (use that(1) in \<open>unfold blind_def, blast\<close>)
  show ?thesis
  proof (cases x)
    case (X_sysgrp y)
    consider "y \<notin> {X_mtspr, X_nop, X_rfe}" | "y = X_mtspr" | "y = X_nop" | "y = X_rfe" by auto
    then show ?thesis
    proof cases
      case 1
      from keep[OF blind_sys[OF this], of h ci s t] assms X_sysgrp show ?thesis by simp
    next
      case 2
      with assms X_sysgrp show ?thesis
        by (auto simp: execute_orbis32_mtspr_def with_src1_def bindE_eq_Inr dest: set_spr_cache)
    next
      case 3
      with assms X_sysgrp exec_nop_quiet[of h ci s t] show ?thesis by (auto simp: quiet_def request_stop_def)
    next
      case 4
      with assms X_sysgrp obtain u where u: "schedule_jump (get_spr SPR_EPCR False s) 0 s = Inr u"
        "set_spr h SPR_SR (get_spr SPR_ESR False u) False u = Inr t"
        by (auto simp: execute_orbis32_rfe_def Let_def bindE_eq_Inr)
      with set_spr_cache[OF u(2)] blind_keeps_cache[of "schedule_jump _ 0", OF recache_jump u(1)]
      show ?thesis by simp
    qed
  qed (use assms in \<open>auto dest: blind_groups[THEN keep]\<close>)
qed

lemma execute_fetched_cache:
  assumes "execute_fetched h i s = Inr t"
  shows "m_decode_cache t = m_decode_cache s \<or> (\<exists>a. m_decode_cache t = dc_invalidate_block a 32 (m_decode_cache s))"
proof -
  have trace: "m_decode_cache v = m_decode_cache u" if "do_trace ci u = Inr v" for ci u v
    by (rule blind_keeps_cache[of "do_trace ci", OF recache_trace that])
  show ?thesis
    using assms
    by (auto simp: execute_fetched_def bindE_eq_Inr split: option.splits if_splits dest!: execute_cache trace)
qed

lemma agrees_invalidate:
  "cache_agrees dc_entry c code \<Longrightarrow> cache_agrees dc_entry (dc_invalidate_block a sz c) code"
  by (auto simp: cache_agrees_def dc_invalidate_block_def dc_entry_invalidate_loop split: if_splits)

lemma agrees_store:
  "cache_agrees dc_entry c code \<Longrightarrow> code a = Some insn \<Longrightarrow> i_addr insn = a \<Longrightarrow>
   cache_agrees dc_entry (dc_store a insn c) code"
  by (auto simp: cache_agrees_def dc_entry_def dc_lookup_store split: if_splits)

lemma abort_fetch_cache: "abort_fetch type s = Inr (i, t) \<Longrightarrow> m_decode_cache t = m_decode_cache s"
  by (auto simp: abort_fetch_def bindE_eq_Inr quiet_def dest!: exception_quiet)

lemma fetch_translate_cache: "fetch_translate h s = Inr (r, u) \<Longrightarrow> m_decode_cache u = m_decode_cache s"
  by (auto simp: fetch_translate_def Let_def bindE_eq_Inr split: if_splits prod.splits)

lemma fetch_decode_coherent:
  assumes "fetch_decode s = Inr (i, t)" "code_word e (req_addr (m_ireq s)) = Some (m_insn s)"
    and "cache_agrees dc_entry (m_decode_cache s) (code_at e)"
  shows "cache_agrees dc_entry (m_decode_cache t) (code_at e)"
proof (cases "decode (m_insn s) = INVALID_OPCODE \<or> decode (m_insn s) = O_custom ORBIS32_CUST1")
  case True
  with assms(1) have "abort_fetch EX_ILLEGAL_INSN s = Inr (i, t)"
    by (auto simp: fetch_decode_def Let_def split: if_splits)
  from abort_fetch_cache[OF this] assms(3) show ?thesis by simp
next
  case False
  let ?a = "req_addr (m_ireq s)"
  obtain insn where d: "decode_table (decode (m_insn s)) (m_insn s) (m_next_pc s)
      (zero_insn\<lparr>i_addr := ?a, i_insn := m_insn s\<rparr>) = Inr insn"
    and t: "t = s\<lparr>m_decode_cache := dc_store ?a insn (m_decode_cache s), m_compiles := m_compiles s + 1\<rparr>"
    using assms(1) False by (auto simp: fetch_decode_def Let_def bindE_eq_Inr)
  have "code_at e ?a = Some insn" using assms(2) False decode_table_pc[OF d, of 0] by (simp add: code_at_def)
  with t assms(3) decode_table_word[OF d] show ?thesis by (simp add: agrees_store)
qed

lemma fetch_coherent:
  assumes "coherent s" "direct_fetch h s" "fetch h (begin_cycle s) = Inr (i, t)"
  shows "cache_agrees dc_entry (m_decode_cache t) (code_at (m_env s))"
proof -
  obtain r u where u: "fetch_translate h (begin_cycle s) = Inr (r, u)"
    using assms(3) by (auto simp: fetch_def bindE_eq_Inr)
  have c: "cache_agrees dc_entry (m_decode_cache u) (code_at (m_env u))" "code_at (m_env u) = code_at (m_env s)"
    using assms(1,2) fetch_translate_cache[OF u] u by (simp_all add: coherent_def direct_fetch_def begin_cycle_def)
  let ?a = "req_addr (m_ireq u)"
  show ?thesis
  proof (cases "r = MMU_OKAY \<and> \<not> (i_addr (dc_lookup ?a (m_decode_cache u)) = ?a \<and> \<not> is_decode_cache_off u)")
    case True
    then obtain p where p: "get_insn_ptr (m_env u) ?a = Some p"
      using assms(2) u by (auto simp: direct_fetch_def)
    with True assms(3) obtain bs where bs: "load_bytes (host_mem (m_env u)) p 4 = Inr bs"
      "fetch_decode (u\<lparr>m_insn := byte_swap32 (of_le_bytes bs)\<rparr>) = Inr (i, t)"
      by (auto simp: fetch_def u fetch_word_def bindE_eq_Inr Let_def)
    from fetch_decode_coherent[OF bs(2), of "m_env u"] p c(1) bs(1) show ?thesis
      unfolding c(2) by (simp add: code_word_def)
  next
    case False
    with assms(3) c show ?thesis
      by (auto simp: fetch_def u Let_def split: mmu_result.splits dest!: abort_fetch_cache)
  qed
qed

lemma cycle_coherent:
  assumes "coherent s" "direct_fetch h s" "cycle h l s = Inr (l', t)"
  shows "cache_agrees dc_entry (m_decode_cache t) (code_at (m_env s))"
proof -
  obtain i u v where c: "fetch h (begin_cycle s) = Inr (i, u)" "execute_fetched h i u = Inr v"
    "update_pc l (restore_fixed v) = (l', t)"
    using assms(3) by (auto simp: cycle_def bindE_eq_Inr)
  have "m_decode_cache t = m_decode_cache v"
    using c(3) by (auto simp: update_pc_def restore_fixed_def Let_def split: if_splits)
  then show ?thesis
    using fetch_coherent[OF assms(1,2) c(1)] execute_fetched_cache[OF c(2)]
    by (auto simp: agrees_invalidate)
qed

text \<open>A state whose code is \<open>code\<close> and is fetched directly, and a cache that agrees with it.\<close>

definition same_code :: "host \<Rightarrow> (u32 \<Rightarrow> instruction option) \<Rightarrow> or1k \<Rightarrow> bool" where
  "same_code h code u \<longleftrightarrow> direct_fetch h u \<and> code_at (m_env u) = code"

abbreviation caches :: "(u32 \<Rightarrow> instruction option) \<Rightarrow> or1k \<Rightarrow> bool" where
  "caches code s \<equiv> cache_agrees dc_entry (m_decode_cache s) code"

lemma cycle_caches:
  "caches code s \<Longrightarrow> same_code h code s \<Longrightarrow> cycle h l s = Inr (l', t) \<Longrightarrow> caches code t"
  using cycle_coherent by (auto simp: coherent_def same_code_def)

lemma caches_fresh:
  assumes "caches code u" "same_code h code u"
  shows "fresh_fetch h u"
  unfolding fresh_fetch_def Let_def
proof (intro allI impI)
  fix v assume v: "fetch_translate h (begin_cycle u) = Inr (MMU_OKAY, v)"
  let ?a = "req_addr (m_ireq v)" and ?insn = "dc_lookup (req_addr (m_ireq v)) (m_decode_cache v)"
  have c: "m_decode_cache v = m_decode_cache u"
    using fetch_translate_cache[OF v] by (simp add: begin_cycle_def)
  have "code_at (m_env v) = code" "?a \<noteq> -1"
    using assms(2) v by (simp_all add: same_code_def direct_fetch_def)
  moreover assume "i_addr ?insn = ?a"
  ultimately show "code_at (m_env v) ?a = Some ?insn"
    using assms(1) unfolding c by (simp add: cache_agrees_def dc_entry_def)
qed

lemma fetches_caches:
  assumes "fetches h l s u" "caches code s" "\<And>v. fetches h l s v \<Longrightarrow> same_code h code v"
  shows "caches code u"
  using assms
proof (induction rule: fetches.induct)
  case (fetch_later s l l' t u)
  then have "caches code t" by (blast intro: cycle_caches fetch_now)
  with fetch_later show ?case by (blast intro: fetches.fetch_later)
qed simp

lemma mini_quantum_caches:
  assumes "mini_quantum n h l s = Some (Inr (b, t))" "caches code s"
    and "\<And>v. fetches h l s v \<Longrightarrow> same_code h code v"
  shows "caches code t"
  using assms
proof (induction n arbitrary: l s)
  case (Suc n)
  show ?case
  proof (cases "m_cycles s < l")
    case True
    with Suc.prems(1) obtain l' u where c: "cycle h l s = Inr (l', u)"
      by (auto simp: bindF_def split: sum.splits)
    have "caches code u" using cycle_caches[OF Suc.prems(2) _ c] Suc.prems(3) fetch_now[OF True] by blast
    moreover have "\<And>v. \<not> m_stop_requested u \<Longrightarrow> \<not> m_break_requested u \<Longrightarrow> \<not> wpe_hit (m_wp_event u) \<Longrightarrow>
        fetches h l' u v \<Longrightarrow> same_code h code v"
      using Suc.prems(3) fetch_later[OF True c] by blast
    ultimately show ?thesis
      using Suc.prems(1) True c Suc.IH[of l' u] by (auto simp: bindF_def split: if_splits)
  next
    case False
    then show ?thesis using Suc.prems(1,2) by simp
  qed
qed simp

lemma between_caches:
  assumes "bindE (update_timer t) external_exception = Inr v" "caches code t"
  shows "caches code v"
proof -
  obtain u where u: "update_timer t = Inr u" "external_exception u = Inr v"
    using assms(1) by (auto simp: bindE_eq_Inr)
  have "m_decode_cache v = m_decode_cache t"
    using blind_keeps_cache[of update_timer, OF recache_update_timer u(1)]
      blind_keeps_cache[of external_exception, OF recache_external u(2)] by (rule trans[rotated])
  then show ?thesis using assms(2) by simp
qed

lemma step_fetches_caches:
  assumes "step_fetches h s u" "caches code s" "\<And>v. step_fetches h s v \<Longrightarrow> same_code h code v"
  shows "caches code u"
  using assms
proof (induction rule: step_fetches.induct)
  case (this_quantum s u)
  then show ?case
    using fetches_caches[OF this_quantum(2)] step_fetches.this_quantum[OF this_quantum(1)]
    by (auto simp: clear_requests_def)
next
  case (next_quantum s n t v u)
  have "caches code t"
    using mini_quantum_caches[OF next_quantum(2)] next_quantum.prems step_fetches.this_quantum[OF next_quantum(1)]
    by (auto simp: clear_requests_def)
  then show ?case
    using next_quantum by (blast intro: between_caches step_fetches.next_quantum)
qed

text \<open>C21: Programs that do not change their code never see a stale instruction. If the cache agrees with
  memory when a step begins, and whenever the step fetches an instruction it does so directly and the code
  in memory is what it was, then no fetch of the step hits an entry that memory does not agree with.\<close>

theorem unchanged_code_stays_fresh:
  assumes "coherent s" "advance_begin h c s = Inr v" "step_fetches h v u"
    and "\<And>u. step_fetches h v u \<Longrightarrow> direct_fetch h u \<and> code_at (m_env u) = code_at (m_env s)"
  shows "fresh_fetch h u"
proof -
  have "m_decode_cache v = m_decode_cache s"
  proof (rule blind_keeps_cache[of "advance_begin h c", OF _ assms(2)])
    show "advance_begin h c (recache (m_decode_cache s) (m_compiles s) s) =
        bindE (advance_begin h c s) (\<lambda>t. Inr (recache (m_decode_cache s) (m_compiles s) t))"
      by (simp add: advance_begin_def recache_external recache_doze bindE_assoc del: recache_cache)
  qed
  then have "caches (code_at (m_env s)) v" using assms(1) by (simp add: coherent_def)
  then show ?thesis
    using step_fetches_caches[OF assms(3)] caches_fresh assms(3,4) by (simp add: same_code_def)
qed

section \<open>A core at a cached instruction\<close>

text \<open>The code \<^verbatim>\<open>l.nop 0\<close> at the reset vector, decoded in the cache.\<close>

definition nop_env :: env where
  "nop_env = (new_env ENDIAN_BIG [0x100 \<mapsto> 0x15, 0x101 \<mapsto> 0, 0x102 \<mapsto> 0, 0x103 \<mapsto> 0])
     \<lparr>m_insn_ptr := Some 0, m_insn_end := 0xfff\<rparr>"

definition nop_insn :: instruction where
  "nop_insn = zero_insn\<lparr>i_addr := 0x100, i_insn := 0x15000000, i_src1 := PGpr 3, i_exec := X_sysgrp X_nop\<rparr>"

definition nop_core :: or1k where
  "nop_core = demo_core\<lparr>m_env := nop_env,
     m_decode_cache := dc_store 0x100 nop_insn (new_decode_cache 10 (\<lambda>_. zero_insn))\<rparr>"

definition nop_begun :: or1k where "nop_begun = clear_requests (nop_core\<lparr>m_limit := 1\<rparr>)"

lemma nop_code: "code_at nop_env 0x100 = Some nop_insn"
proof -
  have r: "[0x100..<0x104] = [0x100, 0x101, 0x102, 0x103 :: nat]" by (simp add: upt_rec)
  have w: "code_word nop_env 0x100 = Some 0x15000000"
    by (simp add: code_word_def nop_env_def new_env_def get_insn_ptr_def load_bytes_def r requireE_def
        byte_swap32_def)
  have "decode 0x15000000 = O_misc ORBIS32_NOP"
    by (simp add: decode_def opcode6_table_def Let_def bits32_def)
  then show ?thesis
    by (simp add: code_at_def w table_call_def decode_orbis32_nop_def Let_def nop_insn_def bits32_def gpr_at_def
        zero_insn_def)
qed

lemma nop_fetch_begun:
  "fetch_translate demo_host (begin_cycle nop_begun) =
     Inr (MMU_OKAY, (begin_cycle nop_begun)\<lparr>m_ireq := (m_ireq demo_core)\<lparr>m_super := True, req_addr := 0x100,
       req_cycles := 0\<rparr>\<rparr>)"
  using demo_flags(1) demo_modes(1)
  by (simp add: fetch_translate_def Let_def begin_cycle_def nop_begun_def clear_requests_def nop_core_def
      is_immu_active_def is_supervisor_def demo_core_fields)

lemma nop_fields:
  "m_env nop_begun = nop_env" "dc_lookup 0x100 (m_decode_cache nop_begun) = nop_insn"
  "\<not> is_decode_cache_off nop_begun" "m_cycles nop_begun = 0" "m_limit nop_begun = 1"
  by (simp_all add: nop_begun_def clear_requests_def nop_core_def dc_lookup_def dc_store_def dc_index_def
      demo_core_more is_decode_cache_off_def dc_is_enabled_def new_decode_cache_def dc_invalidate_all_def
      DECODE_CACHE_OFF_def)

lemma nop_fresh: "fresh_fetch demo_host nop_begun"
  unfolding fresh_fetch_def nop_fetch_begun by (simp add: begin_cycle_def nop_fields nop_code)

text \<open>The cycle it runs.\<close>

lemma nop_cycle: "\<exists>t. cycle demo_host 1 nop_begun = Inr (1, t) \<and> m_cycles t = 1 \<and> m_limit t = 1 \<and>
    \<not> tick_enabled (m_tick t) \<and> m_pic_sr t = 0"
proof -
  let ?u = "(begin_cycle nop_begun)\<lparr>m_ireq := (m_ireq demo_core)\<lparr>m_super := True, req_addr := 0x100,
       req_cycles := 0\<rparr>, m_insn := 0x15000000\<rparr>"
  have f: "fetch demo_host (begin_cycle nop_begun) = Inr (Some nop_insn, ?u)"
    unfolding fetch_def nop_fetch_begun
    using nop_fields(3) by (simp add: begin_cycle_def nop_fields is_decode_cache_off_def Let_def) (simp add: nop_insn_def)
  have e: "execute_fetched demo_host (Some nop_insn) ?u = Inr ?u"
    by (simp add: execute_fetched_def nop_insn_def execute_orbis32_nop_def Let_def zero_insn_def begin_cycle_def
        nop_begun_def clear_requests_def nop_core_def demo_core_more)
  have "fst (update_pc 1 (restore_fixed ?u)) = 1"
    by (simp add: update_pc_def restore_fixed_def begin_cycle_def nop_begun_def clear_requests_def nop_core_def
        demo_core_more demo_core_fields Let_def)
  then show ?thesis
    unfolding cycle_def f bindE_Inr prod.case e
    by (intro exI[of _ "snd (update_pc 1 (restore_fixed ?u))"])
      (simp add: prod_eq_iff, simp add: update_pc_def restore_fixed_def begin_cycle_def nop_begun_def
        clear_requests_def nop_core_def demo_core_more demo_core_fields Let_def tick_enabled_def new_tick_def)
qed

lemma nop_begin: "advance_begin demo_host 1 nop_core = Inr (nop_core\<lparr>m_limit := 1\<rparr>)"
  by (simp add: advance_begin_def external_exception_def doze_def nop_core_def demo_core_more)

lemma nop_limit: "quantum_limit nop_begun = 1"
  by (simp add: nop_begun_def nop_core_def demo_core_more quantum_limit_def clear_requests_def Let_def
      next_breakpoint_def tick_enabled_def new_tick_def)

text \<open>The step of one cycle fetches once.\<close>

inductive_cases fetchesE: "fetches h l s u"
inductive_cases step_fetchesE: "step_fetches h s u"

lemma nop_fetches:
  assumes "step_fetches demo_host (nop_core\<lparr>m_limit := 1\<rparr>) u"
  shows "u = nop_begun"
proof -
  obtain t where c: "cycle demo_host 1 nop_begun = Inr (1, t)" and t: "m_cycles t = 1" "m_limit t = 1"
    "\<not> tick_enabled (m_tick t)" "m_pic_sr t = 0" using nop_cycle by blast
  have one: "u = nop_begun" if "fetches demo_host 1 nop_begun u"
    using that by (rule fetchesE) (use c t in \<open>auto elim: fetches.cases\<close>)
  from assms show ?thesis
  proof (cases rule: step_fetches.cases)
    case this_quantum
    then show ?thesis using one nop_limit by (simp add: nop_begun_def)
  next
    case (next_quantum n t' v)
    obtain k where k: "n = Suc k" using next_quantum(2) by (cases n) simp_all
    have "mini_quantum (Suc k) demo_host 1 nop_begun = Some (Inr (False, t'))"
      using next_quantum(2) unfolding k nop_begun_def[symmetric] nop_limit .
    then have "t' = t" using c t nop_fields(4) by (cases k) (auto simp: bindF_def split: if_splits)
    with next_quantum(3) t have "v = t\<lparr>m_tick_stamp := 1\<rparr>"
      by (simp add: update_timer_def external_exception_def)
    with next_quantum(6) t show ?thesis by (auto elim: step_fetchesE)
  qed
qed

theorem decode_cache_transparent_witness:
  "case step 2 demo_host 1 nop_core of
      None \<Rightarrow> step 2 demo_host 1 (recache (new_decode_cache 0 (\<lambda>_. zero_insn)) 0 nop_core) = None
    | Some (Inl e) \<Rightarrow>
        step 2 demo_host 1 (recache (new_decode_cache 0 (\<lambda>_. zero_insn)) 0 nop_core) = Some (Inl e)
    | Some (Inr (r, k, s')) \<Rightarrow>
        \<exists>t'. step 2 demo_host 1 (recache (new_decode_cache 0 (\<lambda>_. zero_insn)) 0 nop_core) = Some (Inr (r, k, t')) \<and>
          without_cache s' t'"
  by (rule decode_cache_transparent)
    (auto simp: new_decode_cache_def dc_invalidate_all_def DECODE_CACHE_OFF_def nop_begin nop_fresh dest: nop_fetches)

lemma nop_coherent: "coherent nop_core"
proof -
  have "dc_entry (m_decode_cache nop_core) a = (if a = 0x100 then Some nop_insn else None)" for a
    using new_decode_cache_empty[of 10 "\<lambda>_. zero_insn" a]
    by (auto simp: nop_core_def dc_entry_def dc_lookup_store nop_insn_def split: if_splits)
  then show ?thesis
    by (simp add: coherent_def cache_agrees_def) (simp add: nop_core_def nop_code)
qed

theorem unchanged_code_stays_fresh_witness:
  "step_fetches demo_host (nop_core\<lparr>m_limit := 1\<rparr>) nop_begun \<and> fresh_fetch demo_host nop_begun"
proof -
  have f: "step_fetches demo_host (nop_core\<lparr>m_limit := 1\<rparr>) nop_begun"
    by (rule this_quantum)
      (use nop_limit nop_fields(4) in \<open>simp_all add: nop_begun_def fetch_now nop_core_def demo_core_more\<close>)
  have d: "direct_fetch demo_host nop_begun" "code_at (m_env nop_begun) = code_at (m_env nop_core)"
    unfolding direct_fetch_def nop_fetch_begun
    by (simp_all add: begin_cycle_def nop_fields nop_core_def nop_env_def new_env_def get_insn_ptr_def)
  from unchanged_code_stays_fresh[OF nop_coherent nop_begin f] f d nop_fetches show ?thesis by blast
qed

end
