(* ===== verification/Control_Flow.thy ===== *)
theory Control_Flow
  imports Typing
begin

text \<open>
  Where the core goes on after an instruction: the delay slot of jumps, exceptions that are taken in it,
  and the return from an exception. The simulator has no program counter of the slot; a jump is scheduled
  for the number of the instruction after which it takes effect, a counter that also serves the
  statistics. Cycles are seen here through the part of the core that decides where it goes on.
\<close>

section \<open>What a fetch and the trace leave alone\<close>

text \<open>The part of the core that decides where it goes on.\<close>

definition control :: "or1k \<Rightarrow> u32 list \<times> u32 \<times> u32 \<times> u32 \<times> u64 \<times> u32 \<times> u64 \<times> u32 \<times> u32 \<times> u32" where
  "control s = (gpr s, m_status s, m_next_pc s, m_prev_pc s, m_instructions s, m_cpucfg s, m_jump_insn s,
     m_jump_target s, m_expc s, m_exsr s)"

lemma abort_fetch_nothing [simp]: "abort_fetch type s \<noteq> Inr (Some ci, t)"
  by (auto simp: abort_fetch_def bindE_eq_Inr)

lemma fetch_translate_control: "fetch_translate h s = Inr (r, t) \<Longrightarrow> control t = control s"
  by (auto simp: fetch_translate_def Let_def bindE_eq_Inr control_def split: if_splits)

lemma fetch_word_control: "fetch_word h s = Inr (r, t) \<Longrightarrow> control t = control s"
  by (auto simp: fetch_word_def bindE_eq_Inr control_def split: option.splits)

lemma fetch_decode_control: "fetch_decode s = Inr (Some ci, t) \<Longrightarrow> control t = control s"
  by (auto simp: fetch_decode_def Let_def bindE_eq_Inr control_def split: if_splits)

lemma fetch_control:
  assumes "fetch h s = Inr (Some ci, t)"
  shows "control t = control s"
proof -
  obtain r u where u: "fetch_translate h s = Inr (r, u)" using assms by (auto simp: fetch_def bindE_eq_Inr)
  have "control t = control u"
  proof (cases "i_addr (dc_lookup (req_addr (m_ireq u)) (m_decode_cache u)) = req_addr (m_ireq u) \<and> \<not> is_decode_cache_off u")
    case True
    then show ?thesis using assms u
      by (auto simp: fetch_def Let_def control_def split: mmu_result.splits)
  next
    case False
    with assms u have "r = MMU_OKAY" by (cases r) (auto simp: fetch_def)
    with assms u False obtain r' w where w: "fetch_word h u = Inr (r', w)"
      "(case r' of RESP_ERROR \<Rightarrow> abort_fetch EX_INSN_BUS_ERROR w | RESP_FAILED \<Rightarrow> Inl Invalid_port_response
        | RESP_SUCCESS \<Rightarrow> fetch_decode w) = Inr (Some ci, t)"
      by (auto simp: fetch_def Let_def bindE_eq_Inr)
    then have "fetch_decode w = Inr (Some ci, t)" by (cases r') simp_all
    with w(1) show ?thesis by (simp add: fetch_word_control fetch_decode_control)
  qed
  then show ?thesis using fetch_translate_control[OF u] by simp
qed

lemma do_trace_control: "do_trace ci s = Inr t \<Longrightarrow> control t = control s"
  by (auto simp: do_trace_def bindE_eq_Inr emit_def control_def)

lemma execute_fetched_control:
  assumes "execute_fetched h (Some ci) s = Inr t"
  shows "\<exists>v. execute (i_exec ci) h ci s = Inr v \<and> control t = control v"
  using assms by (auto simp: execute_fetched_def bindE_eq_Inr split: if_splits dest: do_trace_control)

text \<open>A cycle, seen through that part: what is executed, and then where it goes on.\<close>

definition goes_on :: "or1k \<Rightarrow> or1k \<Rightarrow> bool" where
  "goes_on v t \<longleftrightarrow> m_prev_pc t = m_next_pc v \<and> m_instructions t = m_instructions v \<and>
     m_next_pc t = (if m_instructions v = m_jump_insn v then m_jump_target v else m_next_pc v + 4) \<and>
     m_jump_insn t = m_jump_insn v \<and> m_jump_target t = m_jump_target v \<and> gpr t = (gpr v)[0 := 0] \<and>
     m_status t = m_status v OR SR_FO \<and> m_expc t = m_expc v \<and> m_exsr t = m_exsr v \<and> m_cpucfg t = m_cpucfg v"

lemma goes_on_control: "control v = control w \<Longrightarrow> goes_on v t \<Longrightarrow> goes_on w t"
  by (simp add: goes_on_def control_def)

lemma update_pc_goes_on: "update_pc l (restore_fixed v) = (l', t) \<Longrightarrow> goes_on v t"
  by (auto simp: update_pc_def restore_fixed_def goes_on_def Let_def split: if_splits)

lemma cycle_goes_on:
  assumes "cycle h l s = Inr (l', t)" "fetch h (begin_cycle s) = Inr (Some ci, s1)"
  obtains v where "execute (i_exec ci) h ci s1 = Inr v" "goes_on v t" "control s1 = control (begin_cycle s)"
proof -
  from assms obtain u where u: "execute_fetched h (Some ci) s1 = Inr u" "update_pc l (restore_fixed u) = (l', t)"
    by (auto simp: cycle_def bindE_eq_Inr)
  obtain v where "execute (i_exec ci) h ci s1 = Inr v" "control u = control v"
    using execute_fetched_control[OF u(1)] by blast
  with that update_pc_goes_on[OF u(2)] goes_on_control fetch_control[OF assms(2)] show ?thesis by blast
qed

section \<open>Jumps\<close>

text \<open>
  The offset of a jump is four times a signed number of 26 bits. Where a jump of the word \<open>w\<close> goes, if it
  is one and is taken; and whether it stores a return address.
\<close>

definition jump_offset :: "u32 \<Rightarrow> u32" where
  "jump_offset w = word_of_int (4 * sint (ucast w :: 26 word))"

definition jump_destination :: "u32 \<Rightarrow> or1k \<Rightarrow> u32 option" where
  "jump_destination w s =
     (case decode w of
        O_control ORBIS32_J \<Rightarrow> Some (m_next_pc s + jump_offset w)
      | O_control ORBIS32_JAL \<Rightarrow> Some (m_next_pc s + jump_offset w)
      | O_control ORBIS32_BF \<Rightarrow> if m_status s AND SR_F \<noteq> 0 then Some (m_next_pc s + jump_offset w) else None
      | O_control ORBIS32_BNF \<Rightarrow> if m_status s AND SR_F = 0 then Some (m_next_pc s + jump_offset w) else None
      | O_control ORBIS32_JR \<Rightarrow> Some (gpr s ! unat (bits32 w 15 11))
      | O_control ORBIS32_JALR \<Rightarrow> Some (gpr s ! unat (bits32 w 15 11))
      | _ \<Rightarrow> None)"

definition jump_links :: "u32 \<Rightarrow> bool" where
  "jump_links w \<longleftrightarrow> decode w = O_control ORBIS32_JAL \<or> decode w = O_control ORBIS32_JALR"

lemma jump_offset_field: "sign_extend32 (push_bit 2 (bits32 w 25 0)) 27 = jump_offset w"
proof (rule bit_word_eqI)
  fix n assume "n < LENGTH(32)"
  moreover have "4 * sint (ucast w :: 26 word) = push_bit 2 (sint (ucast w :: 26 word))"
    by (simp add: push_bit_eq_mult)
  ultimately show "bit (sign_extend32 (push_bit 2 (bits32 w 25 0)) 27) n = bit (jump_offset w) n"
    unfolding jump_offset_def
    by (auto simp: bitfield_simps bit_simps min_def not_le)
qed


definition jumped :: "u32 \<Rightarrow> u32 \<Rightarrow> or1k \<Rightarrow> or1k" where
  "jumped w target s =
     (if jump_links w then s\<lparr>gpr := (gpr s)[9 := m_next_pc s + 8]\<rparr> else s)
       \<lparr>m_jump_target := target, m_jump_insn := m_instructions s + 1\<rparr>"

lemma jump_field: "unat (bits32 w 15 11) < 32"
  using unat_bits32_less[of 11 15 w] by simp

lemma jump_registers: "gpr_at 9 = PGpr 9" "gpr_at (bits32 w 15 11) = PGpr (unat (bits32 w 15 11))"
  by (simp_all add: gpr_at_def)

lemma jump_executes:
  assumes "decode_table (decode w) w pc ci0 = Inr ci" "jump_destination w s = Some target"
    and "is_aligned target 4" "m_cpucfg s AND CPUCFGR_ND = 0" "length (gpr s) = 32"
  shows "execute (i_exec ci) h ci s = Inr (jumped w target s)"
proof -
  obtain op where op: "decode w = O_control op"
    using assms(2) by (cases "decode w") (auto simp: jump_destination_def)
  show ?thesis
    using assms op jump_field[of w]
    by (cases op)
      (auto simp: table_call_def handler_defs jump_offset_field jump_registers jump_destination_def jump_links_def
        jumped_def execute_orbis32_bf_def execute_orbis32_bnf_def execute_orbis32_jump_rel_def
        execute_orbis32_jump_abs_def set_link_def put_op_def get_op_def jump_delay_def schedule_jump_eq
        add.commute split: if_splits)
qed


text \<open>An instruction that schedules no jump and takes no exception in a state.\<close>

definition sequential :: "host \<Rightarrow> instruction \<Rightarrow> or1k \<Rightarrow> bool" where
  "sequential h ci s \<longleftrightarrow> (\<forall>v. execute (i_exec ci) h ci s = Inr v \<longrightarrow>
     m_jump_insn v = m_jump_insn s \<and> m_jump_target v = m_jump_target s \<and> m_instructions v = m_instructions s)"

lemma set_flag_jump [simp]:
  "m_jump_insn (set_flag c s) = m_jump_insn s" "m_jump_target (set_flag c s) = m_jump_target s"
  "m_instructions (set_flag c s) = m_instructions s"
  by (simp_all add: set_flag_def status_or_def status_clear_def)

lemma sequential_flag:
  assumes "\<And>s. execute (i_exec ci) h ci s = with_srcs ci (\<lambda>a b s. Inr (set_flag (P a b) s)) s"
  shows "sequential h ci s"
  by (auto simp: sequential_def assms with_srcs_def bindE_eq_Inr)

lemma sequential_compare:
  assumes "i_exec ci = X_compare x"
  shows "sequential h ci s"
  by (cases x; rule sequential_flag; simp add: assms execute_orbis32_sfeq_def execute_orbis32_sfne_def
      execute_orbis32_sfgtu_def execute_orbis32_sfgeu_def execute_orbis32_sfltu_def execute_orbis32_sfleu_def
      execute_orbis32_sfgts_def execute_orbis32_sfges_def execute_orbis32_sflts_def execute_orbis32_sfles_def;
      rule refl)

lemma sequential_nop: "i_exec ci = X_sysgrp X_nop \<Longrightarrow> i_imm ci = 0 \<Longrightarrow> sequential h ci s"
  by (simp add: sequential_def execute_orbis32_nop_def)

lemma control_begin:
  assumes "control s1 = control (begin_cycle s)"
  shows "gpr s1 = gpr s" "m_status s1 = m_status s" "m_next_pc s1 = m_next_pc s" "m_prev_pc s1 = m_prev_pc s"
    "m_instructions s1 = m_instructions s + 1" "m_cpucfg s1 = m_cpucfg s" "m_jump_insn s1 = m_jump_insn s"
    "m_jump_target s1 = m_jump_target s" "m_expc s1 = m_expc s" "m_exsr s1 = m_exsr s"
  using assms by (simp_all add: control_def begin_cycle_def)

text \<open>The cycle of a jump that is taken, with a delay slot: what the slot's instruction starts from.\<close>

lemma jump_cycle:
  assumes "decode_table (decode w) w pc ci0 = Inr ci" "fetch h (begin_cycle s) = Inr (Some ci, s1)"
    and "jump_destination w s = Some target" "is_aligned target 4"
    and "m_cpucfg s AND CPUCFGR_ND = 0" "length (gpr s) = 32" "cycle h l s = Inr (l', t)"
  shows "m_next_pc t = m_next_pc s + 4" "m_prev_pc t = m_next_pc s"
    "gpr t = (if jump_links w then (gpr s)[9 := m_next_pc s + 8] else gpr s)[0 := 0]"
    "m_jump_target t = target" "m_jump_insn t = m_instructions t + 1"
    "m_status t = m_status s OR SR_FO"
proof -
  obtain v where v: "execute (i_exec ci) h ci s1 = Inr v" "goes_on v t" "control s1 = control (begin_cycle s)"
    using cycle_goes_on[OF assms(7,2)] by blast
  note c = control_begin[OF v(3)]
  have "jump_destination w s1 = Some target" using assms(3) unfolding jump_destination_def c .
  from jump_executes[OF assms(1) this assms(4)] v(1) assms(5,6) have "v = jumped w target s1" by (simp add: c)
  with v(2) show "m_next_pc t = m_next_pc s + 4" "m_prev_pc t = m_next_pc s"
    "gpr t = (if jump_links w then (gpr s)[9 := m_next_pc s + 8] else gpr s)[0 := 0]"
    "m_jump_target t = target" "m_jump_insn t = m_instructions t + 1" "m_status t = m_status s OR SR_FO"
    by (simp_all add: goes_on_def jumped_def c)
qed

text \<open>C5: Jumps have one delay slot. A jump that is taken first goes on with the instruction behind it,
  having stored the address behind that one in register 9 if it is a jump and link, and after an
  instruction in the slot that schedules nothing itself it goes on at its destination: the address of
  the jump plus four times its signed offset, or the contents of the register, read before the link
  is stored.\<close>

theorem jump_has_delay_slot:
  assumes "decode_table (decode w) w pc ci0 = Inr ci" "fetch h (begin_cycle s) = Inr (Some ci, s1)"
    and "jump_destination w s = Some target" "is_aligned target 4"
    and "m_cpucfg s AND CPUCFGR_ND = 0" "length (gpr s) = 32" "cycle h l s = Inr (l', t)"
    and "fetch h (begin_cycle t) = Inr (Some slot, t1)" "sequential h slot t1" "cycle h k t = Inr (k', u)"
  shows "m_next_pc t = m_next_pc s + 4 \<and> (jump_links w \<longrightarrow> gpr t ! 9 = m_next_pc s + 8) \<and> m_next_pc u = target"
proof -
  note j = jump_cycle[OF assms(1-7)]
  obtain v where v: "execute (i_exec slot) h slot t1 = Inr v" "goes_on v u" "control t1 = control (begin_cycle t)"
    using cycle_goes_on[OF assms(10,8)] by blast
  have "m_instructions v = m_jump_insn v" "m_jump_target v = target"
    using assms(9) v(1) control_begin[OF v(3)] j(4,5) by (simp_all add: sequential_def)
  then have "m_next_pc u = target" using v(2) by (simp add: goes_on_def)
  then show ?thesis using j(1,3) assms(6) by simp
qed

section \<open>Exceptions in the delay slot\<close>

text \<open>C20: Exceptions in the delay slot of a jump. A trap there saves the address of the jump, so that the
  return executes the jump again, and marks the delay slot in the status register. A system call saves
  the address behind the slot instead and the jump is forgotten: its destination is nowhere kept.\<close>

theorem delay_slot_exceptions:
  assumes "decode_table (decode w) w pc ci0 = Inr ci" "fetch h (begin_cycle s) = Inr (Some ci, s1)"
    and "jump_destination w s = Some target" "is_aligned target 4"
    and "m_cpucfg s AND CPUCFGR_ND = 0" "length (gpr s) = 32" "cycle h l s = Inr (l', t)"
    and "fetch h (begin_cycle t) = Inr (Some slot, t1)" "cycle h k t = Inr (k', u)"
  shows "(i_exec slot = X_sysgrp X_trap \<longrightarrow>
      m_expc u = m_next_pc s \<and> bit (m_status u) 13 \<and> m_exsr u = m_status t) \<and>
    (i_exec slot = X_sysgrp X_sys \<longrightarrow> m_expc u = m_next_pc s + 8 \<and> m_jump_target u = m_next_pc u)"
proof -
  note j = jump_cycle[OF assms(1-7)]
  obtain v where v: "execute (i_exec slot) h slot t1 = Inr v" "goes_on v u" "control t1 = control (begin_cycle t)"
    using cycle_goes_on[OF assms(9,8)] by blast
  note c = control_begin[OF v(3)]
  have d: "is_delay_insn t1" "\<not> is_jump_insn t1"
    using j(5) by (simp_all add: is_delay_insn_def is_jump_insn_def c)
  have e: "exception type 0 t1 = Inr v \<Longrightarrow> \<not> asynchronous type \<Longrightarrow> v = exception_taken type 0 t1" for type
    by (auto simp: exception_eq synchronous_never_masked split: if_splits)
  have "v = exception_taken EX_TRAP 0 t1" if "i_exec slot = X_sysgrp X_trap"
    using e[of EX_TRAP] v(1) that by (simp add: execute_orbis32_trap_def asynchronous_def)
  moreover have "v = exception_taken EX_SYSCALL 0 t1" if "i_exec slot = X_sysgrp X_sys"
    using e[of EX_SYSCALL] v(1) that by (simp add: execute_orbis32_sys_def asynchronous_def)
  ultimately show ?thesis
    using v(2) d j(1,2) c
    by (auto simp: goes_on_def exception_taken_def exception_enter_def exception_pc_def asynchronous_def Let_def
        bit_simps bit_SR)
qed

section \<open>Returning from an exception\<close>

lemma set_status:
  assumes "is_supervisor s"
  shows "set_spr h SPR_SR v False s = Inr (s\<lparr>m_break_requested := True, m_status := v\<rparr>)"
  using assms by (simp add: set_spr_def set_spr_table_def spr_eval_defs is_supervisor_def)

text \<open>C19: Exception and return. Whatever a handler does, if it leaves the saved address and status alone,
  stays in supervisor mode and ends with \<^verbatim>\<open>l.rfe\<close>, the core goes on at the address that the exception saved
  with the status it had before.\<close>

theorem rfe_returns:
  assumes "exception type addr s = Inr s1" "\<not> exception_masked type s"
    and "m_expc r = m_expc s1" "m_exsr r = m_exsr s1" "is_supervisor r" "is_aligned (m_expc r) 4"
    and "fetch h (begin_cycle r) = Inr (Some ci, r1)" "i_exec ci = X_sysgrp X_rfe" "cycle h l r = Inr (l', t)"
  shows "m_next_pc t = exception_pc type s \<and> m_status t = m_status s OR SR_FO"
proof -
  have s1: "m_expc s1 = exception_pc type s" "m_exsr s1 = m_status s"
    using assms(1,2)
    by (auto simp: exception_eq exception_taken_def exception_enter_def Let_def split: if_splits)
  obtain v where v: "execute (i_exec ci) h ci r1 = Inr v" "goes_on v t" "control r1 = control (begin_cycle r)"
    using cycle_goes_on[OF assms(9,7)] by blast
  note c = control_begin[OF v(3)]
  let ?j = "r1\<lparr>m_jump_target := m_expc r, m_jump_insn := m_instructions r + 1\<rparr>"
  have su: "is_supervisor r1" "is_supervisor ?j" using assms(5) by (simp_all add: is_supervisor_def c)
  have "v = ?j\<lparr>m_break_requested := True, m_status := m_exsr r\<rparr>"
    using v(1) assms(6,8) set_status[OF su(2)]
    by (simp add: execute_orbis32_rfe_def plain_spr_get[OF su(1)] plain_spr_get[OF su(2)] schedule_jump_eq Let_def c)
  with v(2) show ?thesis by (simp add: goes_on_def assms(3,4) s1 c)
qed

section \<open>The statistics reset\<close>

text \<open>The instruction that resets them, and a run of cycles of instructions that schedule no jump and go straight on.\<close>

definition resets_statistics :: "instruction \<Rightarrow> bool" where
  "resets_statistics ci \<longleftrightarrow> i_exec ci = X_sysgrp X_nop \<and> i_imm ci = 5"

definition straight :: "host \<Rightarrow> instruction \<Rightarrow> or1k \<Rightarrow> bool" where
  "straight h ci s \<longleftrightarrow> sequential h ci s \<and>
     (\<forall>v. execute (i_exec ci) h ci s = Inr v \<longrightarrow> m_next_pc v = m_next_pc s)"

inductive straight_run :: "host \<Rightarrow> nat \<Rightarrow> or1k \<Rightarrow> or1k \<Rightarrow> bool" for h where
  run_nil: "straight_run h 0 s s"
| run_snoc: "\<lbrakk>straight_run h n s t; fetch h (begin_cycle t) = Inr (Some ci, t1); straight h ci t1;
     cycle h l t = Inr (l', u)\<rbrakk> \<Longrightarrow> straight_run h (Suc n) s u"

inductive_cases straight_run_SucE: "straight_run h (Suc n) s u"

lemma straight_cycle:
  assumes "fetch h (begin_cycle t) = Inr (Some ci, t1)" "straight h ci t1" "cycle h l t = Inr (l', u)"
  shows "m_instructions u = m_instructions t + 1" "m_jump_insn u = m_jump_insn t" "m_jump_target u = m_jump_target t"
    "m_next_pc u = (if m_jump_insn t = m_instructions t + 1 then m_jump_target t else m_next_pc t + 4)"
proof -
  obtain v where v: "execute (i_exec ci) h ci t1 = Inr v" "goes_on v u" "control t1 = control (begin_cycle t)"
    using cycle_goes_on[OF assms(3,1)] by blast
  note c = control_begin[OF v(3)]
  have "m_jump_insn v = m_jump_insn t" "m_jump_target v = m_jump_target t"
    "m_instructions v = m_instructions t + 1" "m_next_pc v = m_next_pc t"
    using assms(2) v(1) by (simp_all add: straight_def sequential_def c)
  with v(2) show "m_instructions u = m_instructions t + 1" "m_jump_insn u = m_jump_insn t"
    "m_jump_target u = m_jump_target t"
    "m_next_pc u = (if m_jump_insn t = m_instructions t + 1 then m_jump_target t else m_next_pc t + 4)"
    by (auto simp: goes_on_def)
qed

lemma straight_run_counts:
  assumes "straight_run h n s u"
  shows "m_instructions u = m_instructions s + of_nat n \<and> m_jump_insn u = m_jump_insn s \<and>
    m_jump_target u = m_jump_target s"
  using assms by induction (auto simp: straight_cycle algebra_simps)

lemma reset_cycle:
  assumes "fetch h (begin_cycle s) = Inr (Some ci, s1)" "resets_statistics ci" "cycle h l s = Inr (l', t)"
  shows "m_instructions t = 0" "m_jump_insn t = m_jump_insn s" "m_jump_target t = m_jump_target s"
    "m_next_pc t = (if m_jump_insn s = 0 then m_jump_target s else m_next_pc s + 4)"
proof -
  obtain v where v: "execute (i_exec ci) h ci s1 = Inr v" "goes_on v t" "control s1 = control (begin_cycle s)"
    using cycle_goes_on[OF assms(3,1)] by blast
  note c = control_begin[OF v(3)]
  have "m_instructions v = 0" "m_jump_insn v = m_jump_insn s" "m_jump_target v = m_jump_target s"
    "m_next_pc v = m_next_pc s"
    using v(1) assms(2) by (auto simp: resets_statistics_def execute_orbis32_nop_def emit_def c)
  with v(2) show "m_instructions t = 0" "m_jump_insn t = m_jump_insn s" "m_jump_target t = m_jump_target s"
    "m_next_pc t = (if m_jump_insn s = 0 then m_jump_target s else m_next_pc s + 4)"
    by (auto simp: goes_on_def)
qed

text \<open>C31: Resetting the statistics misdirects the program. The counter of executed instructions, which
  \<^verbatim>\<open>l.nop 5\<close> sets to zero, is also what a scheduled jump waits for, and the number \<open>j\<close> of the instruction
  behind which the last scheduled jump takes effect is not cleared. If \<open>j\<close> is zero, as at the start and
  after an interrupt, the core goes from the reset to the destination of the last jump. Else it goes on
  behind the reset, also when this is in the delay slot of a jump, and as long as the program goes
  straight on it does so until it has executed \<open>j\<close> instructions more: behind the \<open>j\<close>-th it goes to the
  destination of the jump from before the reset.\<close>

theorem statistics_reset_misdirects:
  assumes "fetch h (begin_cycle s) = Inr (Some ci, s1)" "resets_statistics ci" "cycle h l s = Inr (l', t)"
    and "straight_run h n t u" "fetch h (begin_cycle u) = Inr (Some ci', u1)" "straight h ci' u1"
    and "cycle h k u = Inr (k', v)"
  shows "m_next_pc t = (if m_jump_insn s = 0 then m_jump_target s else m_next_pc s + 4) \<and>
    m_next_pc v = (if m_jump_insn s = of_nat (Suc n) then m_jump_target s else m_next_pc u + 4)"
  using reset_cycle[OF assms(1-3)] straight_run_counts[OF assms(4)] straight_cycle(4)[OF assms(5-7)]
  by (simp add: add.commute)

section \<open>Two instructions in the cache\<close>

text \<open>A core at the reset vector with two decoded instructions, and a cycle that hits the cache.\<close>

definition demo_pair :: "instruction \<Rightarrow> instruction \<Rightarrow> or1k" where
  "demo_pair a b = demo_core\<lparr>m_decode_cache :=
     dc_store 0x104 (b\<lparr>i_addr := 0x104\<rparr>) (dc_store 0x100 (a\<lparr>i_addr := 0x100\<rparr>) (new_decode_cache 10 (\<lambda>_. zero_insn)))\<rparr>"

definition demo_cached :: "instruction \<Rightarrow> instruction \<Rightarrow> or1k \<Rightarrow> bool" where
  "demo_cached a b s \<longleftrightarrow> \<not> is_immu_active s \<and> \<not> m_trace_enabled s \<and> m_decode_cache s = m_decode_cache (demo_pair a b)"

lemma demo_pair_cached: "demo_cached a b (demo_pair a b)"
  using demo_flags(1) by (simp add: demo_cached_def demo_pair_def is_immu_active_def demo_core_more)

lemma demo_pair_lookup:
  assumes "demo_cached a b s"
  shows "dc_lookup 0x100 (m_decode_cache s) = a\<lparr>i_addr := 0x100\<rparr>" "dc_lookup 0x104 (m_decode_cache s) = b\<lparr>i_addr := 0x104\<rparr>"
    "\<not> is_decode_cache_off s"
  using assms
  by (simp_all add: demo_cached_def demo_pair_def dc_lookup_def dc_store_def dc_index_def is_decode_cache_off_def
      dc_is_enabled_def new_decode_cache_def dc_invalidate_all_def DECODE_CACHE_OFF_def mask_eq_exp_minus_1)

definition fetched :: "instruction \<Rightarrow> or1k \<Rightarrow> or1k \<Rightarrow> bool" where
  "fetched i s s1 \<longleftrightarrow> (\<exists>r. s1 = (begin_cycle s)\<lparr>m_ireq := r, m_insn := i_insn i\<rparr>)"

lemma cached_fetch:
  assumes "\<not> is_immu_active s" "\<not> is_decode_cache_off s"
    and "dc_lookup (m_next_pc s) (m_decode_cache s) = i" "i_addr i = m_next_pc s"
  shows "\<exists>s1. fetch h (begin_cycle s) = Inr (Some i, s1) \<and> fetched i s s1"
proof -
  let ?r = "(m_ireq s)\<lparr>m_super := is_supervisor s, req_addr := m_next_pc s, req_cycles := 0\<rparr>"
  have "fetch_translate h (begin_cycle s) = Inr (MMU_OKAY, (begin_cycle s)\<lparr>m_ireq := ?r\<rparr>)"
    using assms(1) by (simp add: fetch_translate_def Let_def is_immu_active_def is_supervisor_def begin_cycle_def)
  then have "fetch h (begin_cycle s) = Inr (Some i, (begin_cycle s)\<lparr>m_ireq := ?r, m_insn := i_insn i\<rparr>)"
    using assms(2,4) unfolding fetch_def
    by (simp add: Let_def begin_cycle_def is_decode_cache_off_def assms(3))
  then show ?thesis unfolding fetched_def by blast
qed

lemma cached_cycle:
  assumes "fetch h (begin_cycle s) = Inr (Some i, s1)" "execute (i_exec i) h i s1 = Inr v" "\<not> m_trace_enabled v"
  shows "\<exists>l' t. cycle h l s = Inr (l', t) \<and> update_pc l (restore_fixed v) = (l', t)"
  using assms by (cases "update_pc l (restore_fixed v)") (auto simp: cycle_def execute_fetched_def)

text \<open>The jump \<^verbatim>\<open>l.j 4\<close> at 0x100, and what the slot behind it starts from.\<close>

definition jump_insn :: instruction where
  "jump_insn = zero_insn\<lparr>i_insn := 4, i_imm := 16, i_src2 := PImm, i_exec := X_jump X_jump_rel\<rparr>"

lemma decode_jump: "decode 4 = O_control ORBIS32_J"
  by (simp add: decode_def opcode6_table_def Let_def bits32_def)

lemma jump_insn_decoded:
  "decode_table (decode 4) 4 0 (zero_insn\<lparr>i_addr := 0x100, i_insn := 4\<rparr>) = Inr (jump_insn\<lparr>i_addr := 0x100\<rparr>)"
  unfolding decode_jump
  by (simp add: table_call_def decode_orbis32_j_def Let_def bits32_def jump_insn_def sign_extend32_def zero_insn_def)

lemma jump_insn_destination: "m_next_pc s = 0x100 \<Longrightarrow> jump_destination 4 s = Some 0x110"
  by (simp add: jump_destination_def decode_jump jump_offset_def)

lemma demo_pair_fields:
  "m_next_pc (demo_pair a b) = 0x100" "m_cpucfg (demo_pair a b) AND CPUCFGR_ND = 0"
  "length (gpr (demo_pair a b)) = 32" "m_jump_insn (demo_pair a b) = 0" "m_jump_target (demo_pair a b) = 0"
  "m_trace_enabled (demo_pair a b) = False" "vectors_aligned (demo_pair a b)"
proof -
  show "m_cpucfg (demo_pair a b) AND CPUCFGR_ND = 0"
    by (simp add: demo_pair_def demo_core_def power_on_def CPUCFGR_OB32S_def CPUCFGR_OF32S_def
        CPUCFGR_AECSRP_def CPUCFGR_AVRP_def CPUCFGR_EVBARP_def CPUCFGR_ND_def)
  show "m_jump_target (demo_pair a b) = 0" by (simp add: demo_pair_def demo_core_def power_on_def)
  show "vectors_aligned (demo_pair a b)"
    using demo_core_aligned by (simp add: demo_pair_def vectors_aligned_def)
qed (simp_all add: demo_pair_def demo_core_fields demo_core_more)

lemma fetched_fields:
  assumes "fetched i s s1"
  shows "control s1 = control (begin_cycle s)" "m_trace_enabled s1 = m_trace_enabled s"
    "m_decode_cache s1 = m_decode_cache s" "vectors_aligned s1 = vectors_aligned s"
    "is_immu_active s1 = is_immu_active s"
  using assms by (auto simp: fetched_def control_def begin_cycle_def vectors_aligned_def is_immu_active_def)

lemma demo_pair_fetch:
  assumes "demo_cached a b s"
  shows "m_next_pc s = 0x100 \<Longrightarrow> \<exists>s1. fetch h (begin_cycle s) = Inr (Some (a\<lparr>i_addr := 0x100\<rparr>), s1) \<and>
      fetched (a\<lparr>i_addr := 0x100\<rparr>) s s1"
    and "m_next_pc s = 0x104 \<Longrightarrow> \<exists>s1. fetch h (begin_cycle s) = Inr (Some (b\<lparr>i_addr := 0x104\<rparr>), s1) \<and>
      fetched (b\<lparr>i_addr := 0x104\<rparr>) s s1"
  using demo_pair_lookup[OF assms] assms by (auto simp: demo_cached_def intro!: cached_fetch)

lemma update_pc_keeps_cached:
  assumes "update_pc l (restore_fixed v) = (l', t)"
  shows "m_trace_enabled t = m_trace_enabled v" "m_decode_cache t = m_decode_cache v"
    "vectors_aligned t = vectors_aligned v" "is_immu_active t = is_immu_active v"
proof -
  have "(x OR SR_FO) AND SR_IME = x AND SR_IME" for x
    by (rule bit_word_eqI) (auto simp: bit_simps bit_SR)
  then show "is_immu_active t = is_immu_active v"
    using assms by (auto simp: update_pc_def restore_fixed_def is_immu_active_def Let_def split: if_splits)
qed (use assms in \<open>auto simp: update_pc_def restore_fixed_def vectors_aligned_def Let_def split: if_splits\<close>)

lemma demo_jump:
  "\<exists>s1 l' t. fetch h (begin_cycle (demo_pair jump_insn b)) = Inr (Some (jump_insn\<lparr>i_addr := 0x100\<rparr>), s1) \<and>
     cycle h l (demo_pair jump_insn b) = Inr (l', t) \<and>
     demo_cached jump_insn b t \<and> m_next_pc t = 0x104 \<and> vectors_aligned t"
proof -
  let ?s = "demo_pair jump_insn b" and ?i = "jump_insn\<lparr>i_addr := 0x100\<rparr>"
  note s = demo_pair_fields[of jump_insn b]
  obtain s1 where s1: "fetch h (begin_cycle ?s) = Inr (Some ?i, s1)" "fetched ?i ?s s1"
    using demo_pair_fetch(1)[OF demo_pair_cached s(1)] by blast
  note f = fetched_fields[OF s1(2)]
  note c = control_begin[OF f(1)]
  have e: "execute (i_exec ?i) h ?i s1 = Inr (jumped 4 0x110 s1)"
    by (rule jump_executes[OF jump_insn_decoded jump_insn_destination]) (simp_all add: c s is_aligned_def)
  have t: "m_trace_enabled (jumped 4 0x110 s1) = False" "m_decode_cache (jumped 4 0x110 s1) = m_decode_cache ?s"
    "vectors_aligned (jumped 4 0x110 s1)" "is_immu_active (jumped 4 0x110 s1) = is_immu_active ?s"
    using f s(6,7) by (simp_all add: jumped_def vectors_aligned_def is_immu_active_def)
  obtain l' t where u: "cycle h l ?s = Inr (l', t)" "update_pc l (restore_fixed (jumped 4 0x110 s1)) = (l', t)"
    using cached_cycle[OF s1(1) e] t(1) by blast
  note k = update_pc_keeps_cached[OF u(2)]
  have "m_next_pc t = 0x104"
    using jump_cycle(1)[OF jump_insn_decoded s1(1) jump_insn_destination[OF s(1)] _ s(2,3) u(1)] s(1)
    by (simp add: is_aligned_def)
  moreover have "demo_cached jump_insn b t"
    using k t demo_pair_cached[of jump_insn b] by (simp add: demo_cached_def)
  ultimately show ?thesis using s1 u(1) k(3) t(3) by blast
qed

lemma demo_slot:
  assumes "demo_cached a b t" "m_next_pc t = 0x104"
    and "\<And>t1. control t1 = control (begin_cycle t) \<Longrightarrow> vectors_aligned t1 = vectors_aligned t \<Longrightarrow>
      m_trace_enabled t1 = False \<Longrightarrow> \<exists>v. execute (i_exec b) h (b\<lparr>i_addr := 0x104\<rparr>) t1 = Inr v \<and> \<not> m_trace_enabled v"
  shows "\<exists>t1 k' u. fetch h (begin_cycle t) = Inr (Some (b\<lparr>i_addr := 0x104\<rparr>), t1) \<and> cycle h k t = Inr (k', u)"
proof -
  obtain t1 where t1: "fetch h (begin_cycle t) = Inr (Some (b\<lparr>i_addr := 0x104\<rparr>), t1)" "fetched (b\<lparr>i_addr := 0x104\<rparr>) t t1"
    using demo_pair_fetch(2)[OF assms(1,2)] by blast
  note f = fetched_fields[OF t1(2)]
  obtain v where "execute (i_exec b) h (b\<lparr>i_addr := 0x104\<rparr>) t1 = Inr v" "\<not> m_trace_enabled v"
    using assms(3)[OF f(1,4)] f(2) assms(1) by (auto simp: demo_cached_def)
  with cached_cycle[OF t1(1), of v k] t1(1) show ?thesis by auto
qed

theorem jump_has_delay_slot_witness:
  "\<exists>l' t k' u. cycle demo_host 9 (demo_pair jump_insn (zero_insn\<lparr>i_exec := X_sysgrp X_nop\<rparr>)) = Inr (l', t) \<and>
     cycle demo_host 9 t = Inr (k', u) \<and> m_next_pc t = 0x104 \<and> m_next_pc u = 0x110"
proof -
  let ?b = "zero_insn\<lparr>i_exec := X_sysgrp X_nop\<rparr>" and ?s = "demo_pair jump_insn (zero_insn\<lparr>i_exec := X_sysgrp X_nop\<rparr>)"
  note s = demo_pair_fields[of jump_insn ?b]
  obtain s1 l' t where j: "fetch demo_host (begin_cycle ?s) = Inr (Some (jump_insn\<lparr>i_addr := 0x100\<rparr>), s1)"
    "cycle demo_host 9 ?s = Inr (l', t)" "demo_cached jump_insn ?b t" "m_next_pc t = 0x104"
    using demo_jump[of demo_host ?b 9] by blast
  obtain t1 k' u where t1: "fetch demo_host (begin_cycle t) = Inr (Some (?b\<lparr>i_addr := 0x104\<rparr>), t1)"
    "cycle demo_host 9 t = Inr (k', u)"
    using demo_slot[OF j(3,4), of demo_host 9] by (auto simp: execute_orbis32_nop_def zero_insn_def)
  have "sequential demo_host (?b\<lparr>i_addr := 0x104\<rparr>) t1"
    by (rule sequential_nop) (simp_all add: zero_insn_def)
  from jump_has_delay_slot[OF jump_insn_decoded j(1) jump_insn_destination[OF s(1)] _ s(2,3) j(2) t1(1) this t1(2)]
  show ?thesis using j t1 by (auto simp: is_aligned_def)
qed

theorem delay_slot_exceptions_witness:
  "\<exists>l' t k' u. cycle demo_host 9 (demo_pair jump_insn (zero_insn\<lparr>i_exec := X_sysgrp X_trap\<rparr>)) = Inr (l', t) \<and>
     cycle demo_host 9 t = Inr (k', u) \<and> m_expc u = 0x100"
proof -
  let ?b = "zero_insn\<lparr>i_exec := X_sysgrp X_trap\<rparr>" and ?s = "demo_pair jump_insn (zero_insn\<lparr>i_exec := X_sysgrp X_trap\<rparr>)"
  note s = demo_pair_fields[of jump_insn ?b]
  have trap: "\<exists>v. exception EX_TRAP 0 u = Inr v \<and> \<not> m_trace_enabled v" if "vectors_aligned u" "\<not> m_trace_enabled u" for u
    using that by (simp add: exception_eq exception_taken_def exception_enter_def asynchronous_def Let_def)
  obtain s1 l' t where j: "fetch demo_host (begin_cycle ?s) = Inr (Some (jump_insn\<lparr>i_addr := 0x100\<rparr>), s1)"
    "cycle demo_host 9 ?s = Inr (l', t)" "demo_cached jump_insn ?b t" "m_next_pc t = 0x104" "vectors_aligned t"
    using demo_jump[of demo_host ?b 9] by blast
  obtain t1 k' u where t1: "fetch demo_host (begin_cycle t) = Inr (Some (?b\<lparr>i_addr := 0x104\<rparr>), t1)"
    "cycle demo_host 9 t = Inr (k', u)"
    using demo_slot[OF j(3,4), of demo_host 9] j(5) trap by (auto simp: execute_orbis32_trap_def zero_insn_def)
  from delay_slot_exceptions[OF jump_insn_decoded j(1) jump_insn_destination[OF s(1)] _ s(2,3) j(2) t1]
  show ?thesis using j t1 s(1) by (auto simp: is_aligned_def)
qed

text \<open>The reset at 0x100 in a core whose last jump, to 0x200, took effect behind the first instruction: the
  instruction behind the reset is executed, and then the core goes to 0x200.\<close>

theorem statistics_reset_misdirects_witness:
  "\<exists>l' t k' v. cycle demo_host 9 ((demo_pair (zero_insn\<lparr>i_exec := X_sysgrp X_nop, i_imm := 5\<rparr>)
       (zero_insn\<lparr>i_exec := X_sysgrp X_nop\<rparr>))\<lparr>m_jump_insn := 1, m_jump_target := 0x200\<rparr>) = Inr (l', t) \<and>
     cycle demo_host 9 t = Inr (k', v) \<and> m_next_pc t = 0x104 \<and> m_next_pc v = 0x200"
proof -
  let ?a = "zero_insn\<lparr>i_exec := X_sysgrp X_nop, i_imm := 5\<rparr>" and ?b = "zero_insn\<lparr>i_exec := X_sysgrp X_nop\<rparr>"
  let ?s = "(demo_pair ?a ?b)\<lparr>m_jump_insn := 1, m_jump_target := 0x200\<rparr>"
  note f = demo_pair_fields[of ?a ?b]
  have d: "demo_cached ?a ?b ?s"
    using demo_pair_cached[of ?a ?b] by (simp add: demo_cached_def is_immu_active_def)
  obtain s1 where s1: "fetch demo_host (begin_cycle ?s) = Inr (Some (?a\<lparr>i_addr := 0x100\<rparr>), s1)"
    "fetched (?a\<lparr>i_addr := 0x100\<rparr>) ?s s1"
    using demo_pair_fetch(1)[OF d] f(1) by auto
  note c = fetched_fields[OF s1(2)]
  let ?v = "(emit Out_stats_reset s1)\<lparr>m_instructions := 0, m_compiles := 0, m_break_requested := True\<rparr>"
  have e: "execute (i_exec (?a\<lparr>i_addr := 0x100\<rparr>)) demo_host (?a\<lparr>i_addr := 0x100\<rparr>) s1 = Inr ?v"
    by (simp add: execute_orbis32_nop_def)
  have w: "\<not> m_trace_enabled ?v" "m_decode_cache ?v = m_decode_cache ?s" "is_immu_active ?v = is_immu_active ?s"
    using c f(6) by (simp_all add: emit_def is_immu_active_def)
  obtain l' t where t: "cycle demo_host 9 ?s = Inr (l', t)" "update_pc 9 (restore_fixed ?v) = (l', t)"
    using cached_cycle[OF s1(1) e w(1)] by blast
  have r: "resets_statistics (?a\<lparr>i_addr := 0x100\<rparr>)" by (simp add: resets_statistics_def)
  have n: "m_next_pc t = 0x104" using reset_cycle(4)[OF s1(1) r t(1)] f(1) by simp
  have "demo_cached ?a ?b t"
    using update_pc_keeps_cached[OF t(2)] w d by (simp add: demo_cached_def)
  from demo_slot[OF this n, of demo_host 9]
  obtain t1 k' v where v: "fetch demo_host (begin_cycle t) = Inr (Some (?b\<lparr>i_addr := 0x104\<rparr>), t1)"
    "cycle demo_host 9 t = Inr (k', v)"
    by (auto simp: execute_orbis32_nop_def zero_insn_def)
  have "straight demo_host (?b\<lparr>i_addr := 0x104\<rparr>) t1"
    by (simp add: straight_def sequential_def execute_orbis32_nop_def zero_insn_def)
  from statistics_reset_misdirects[OF s1(1) r t(1) run_nil v(1) this v(2)] t(1) v(2) n show ?thesis by auto
qed

lemma demo_trap: "\<exists>s1. exception EX_TRAP 0 demo_core = Inr s1 \<and> m_expc s1 = 0x100 \<and> m_exsr s1 = SR_FO OR SR_SM"
  using demo_core_aligned
  by (simp add: exception_eq exception_taken_def exception_enter_def exception_pc_def asynchronous_def
      exception_masked_def is_delay_insn_def demo_core_fields Let_def)

theorem rfe_returns_witness:
  "\<exists>s1 l' t. exception EX_TRAP 0 demo_core = Inr s1 \<and>
     cycle demo_host 9 ((demo_pair (zero_insn\<lparr>i_exec := X_sysgrp X_rfe\<rparr>) zero_insn)
       \<lparr>m_expc := m_expc s1, m_exsr := m_exsr s1\<rparr>) = Inr (l', t) \<and>
     m_next_pc t = 0x100 \<and> m_status t = SR_FO OR SR_SM"
proof -
  let ?a = "zero_insn\<lparr>i_exec := X_sysgrp X_rfe\<rparr>" and ?i = "zero_insn\<lparr>i_exec := X_sysgrp X_rfe, i_addr := 0x100\<rparr>"
  obtain s1 where s1: "exception EX_TRAP 0 demo_core = Inr s1" "m_expc s1 = 0x100" "m_exsr s1 = SR_FO OR SR_SM"
    using demo_trap by blast
  let ?r = "(demo_pair ?a zero_insn)\<lparr>m_expc := m_expc s1, m_exsr := m_exsr s1\<rparr>"
  have r: "demo_cached ?a zero_insn ?r" "is_supervisor ?r" "m_next_pc ?r = 0x100" "m_trace_enabled ?r = False"
    using demo_pair_cached[of ?a zero_insn] demo_modes(1) demo_pair_fields(1,6)[of ?a zero_insn]
    by (simp_all add: demo_cached_def is_immu_active_def is_supervisor_def demo_pair_def)
  obtain r1 where f: "fetch demo_host (begin_cycle ?r) = Inr (Some ?i, r1)" "fetched ?i ?r r1"
    using demo_pair_fetch(1)[OF r(1,3), of demo_host] by auto
  have su: "is_supervisor r1" "m_expc r1 = 0x100" "m_trace_enabled r1 = False"
    using r(2,4) s1(2) f(2) by (auto simp: fetched_def is_supervisor_def begin_cycle_def)
  have "\<exists>v. execute (i_exec ?i) demo_host ?i r1 = Inr v \<and> \<not> m_trace_enabled v"
    using su
    by (auto simp: execute_orbis32_rfe_def plain_spr_get schedule_jump_eq is_aligned_def Let_def set_status
        is_supervisor_def)
  then obtain l' t where c: "cycle demo_host 9 ?r = Inr (l', t)" using cached_cycle[OF f(1)] by blast
  have "\<not> exception_masked EX_TRAP demo_core" by (simp add: exception_masked_def)
  from rfe_returns[OF s1(1) this _ _ r(2) _ f(1) _ c] s1 c show ?thesis
    by (auto simp: is_aligned_def exception_pc_def is_delay_insn_def demo_core_fields or.assoc[symmetric] or.commute)
qed

end
