(* ===== verification/Rsp.thy ===== *)
theory Rsp
  imports Utils
begin

text \<open>
  The remote serial protocol of the debugger (\<^verbatim>\<open>include/or1kiss/rsp.h\<close>, \<^verbatim>\<open>src/or1kiss/rsp.cpp\<close>):
  packets over a byte stream. The socket is a list of the events that \<^verbatim>\<open>recv\<close> and \<^verbatim>\<open>select\<close> will
  see and the bytes that were sent; setting up the connection and the trace output are not modelled.
  The lemmas give the round trip of a packet, what happens to a packet with a wrong checksum, and
  the stray byte of the formatting overload of \<^verbatim>\<open>send\<close>.
\<close>

section \<open>The connection\<close>

definition OR1KISS_RSP_MAX_PACKET_SIZE :: nat where "OR1KISS_RSP_MAX_PACKET_SIZE = 0x4000"

text \<open>
  A byte, a moment without data (which \<^verbatim>\<open>recv\<close> waits through), or an error of the socket. The end of
  the list is the end of the connection.
\<close>

datatype rx_event = Rx_char u8 | Rx_idle | Rx_error

record rsp =
  rsp_open :: bool
  rx :: "rx_event list"
  tx :: "u8 list"
  tx_broken :: bool

definition rsp_close :: "rsp \<Rightarrow> rsp" where
  "rsp_close r = r\<lparr>rsp_open := False\<rparr>"

fun after_idle :: "rx_event list \<Rightarrow> rx_event list" where
  "after_idle (Rx_idle # es) = after_idle es"
| "after_idle es = es"

text \<open>\<^verbatim>\<open>FD_SET\<close> on the descriptor \<open>-1\<close> of a closed connection writes outside the set.\<close>

definition rsp_peek :: "rsp \<Rightarrow> (bool \<times> rsp) res" where
  "rsp_peek r =
     (if \<not> rsp_open r then Inl Host_fault
      else Inr (case rx r of Rx_idle # es \<Rightarrow> (False, r\<lparr>rx := es\<rparr>) | _ \<Rightarrow> (True, r)))"

definition recv_char :: "rsp \<Rightarrow> (u8 \<times> rsp) res" where
  "recv_char r =
     (if \<not> rsp_open r then Inl Receive_error
      else case after_idle (rx r) of
             [] \<Rightarrow> Inr (0, rsp_close (r\<lparr>rx := []\<rparr>))
           | Rx_char c # es \<Rightarrow> Inr (c, r\<lparr>rx := es\<rparr>)
           | _ # es \<Rightarrow> Inl Receive_error)"

definition send_char :: "u8 \<Rightarrow> rsp \<Rightarrow> rsp res" where
  "send_char c r =
     (if \<not> rsp_open r \<or> tx_broken r then Inl Send_error else Inr (r\<lparr>tx := tx r @ [c]\<rparr>))"

section \<open>Packets\<close>

lemma length_after_idle: "length (after_idle es) \<le> length es"
  by (induction es rule: after_idle.induct) auto

lemma recv_char_shorter:
  assumes "recv_char r = Inr (c, r')" "rsp_open r'"
  shows "length (rx r') < length (rx r)"
  using assms length_after_idle[of "rx r"]
  by (auto simp: recv_char_def rsp_close_def split: if_splits list.splits rx_event.splits)

definition recv_end :: "u8 list \<Rightarrow> u32 \<Rightarrow> rsp \<Rightarrow> (u8 list \<times> rsp) res" where
  "recv_end packet ck r =
     bindE (recv_char r) (\<lambda>(c1, r).
     bindE (recv_char r) (\<lambda>(c2, r).
     let check = push_bit 4 (char2int c1) OR push_bit 0 (char2int c2)
     in bindE (send_char (if check = ck then 0x2b else 0x2d) r) (\<lambda>r.
        Inr (packet @ [0], r))))"

text \<open>The loop of \<^verbatim>\<open>recv\<close>; \<open>packet\<close> holds the first \<^verbatim>\<open>idx\<close> bytes of the buffer.\<close>

function recv_loop :: "u8 list \<Rightarrow> u32 \<Rightarrow> rsp \<Rightarrow> (u8 list \<times> rsp) res" where
  "recv_loop packet ck r =
     (if length packet < OR1KISS_RSP_MAX_PACKET_SIZE
      then bindE (recv_char r) (\<lambda>(ch, r').
           if \<not> rsp_open r' then Inr ([], r')
           else if ch = 0x24 then recv_loop [] 0 r'
           else if ch = 0x23 then recv_end packet ck r'
           else recv_loop (packet @ [ch]) ((ck + scast ch) AND 0xff) r')
      else Inl Packet_overflow)"
  by pat_completeness auto
termination
  by (relation "measure (\<lambda>(packet, ck, r). length (rx r))") (auto dest: recv_char_shorter)

declare recv_loop.simps [simp del]

definition rsp_receive :: "rsp \<Rightarrow> (u8 list \<times> rsp) res" where
  "rsp_receive r = recv_loop [] 0 r"

definition c_str :: "u8 list \<Rightarrow> u8 list" where
  "c_str s = takeWhile (\<lambda>c. c \<noteq> 0) s"

definition packet_trailer :: "u32 \<Rightarrow> u8 list" where
  "packet_trailer ck = [0x23, int2char (drop_bit 4 ck AND 0xf), int2char (drop_bit 0 ck AND 0xf)]"

definition transmit :: "u8 list \<Rightarrow> rsp \<Rightarrow> rsp" where
  "transmit bs r = (if tx_broken r then r else r\<lparr>tx := tx r @ bs\<rparr>)"

text \<open>\<^verbatim>\<open>send(const string&)\<close>.\<close>

definition send_string :: "u8 list \<Rightarrow> rsp \<Rightarrow> rsp res" where
  "send_string s r =
     (if \<not> rsp_open r then Inl Not_connected
      else Inr (transmit (0x24 # s @ packet_trailer (checksum (c_str s))) r))"

text \<open>
  \<^verbatim>\<open>send(const char*, ...)\<close> on the formatted text. Its length includes the terminating zero, which is
  sent before the checksum; the final \<^verbatim>\<open>packet[len + 4] = 0\<close> writes one byte behind the allocation of
  \<^verbatim>\<open>len + 4\<close> bytes, which is not modelled further.
\<close>

definition send_format :: "u8 list \<Rightarrow> rsp \<Rightarrow> rsp res" where
  "send_format s r =
     (if \<not> rsp_open r then Inl Not_connected
      else Inr (transmit (0x24 # c_str s @ 0 # packet_trailer (checksum (c_str s))) r))"

section \<open>Receiving what was sent\<close>

lemma c_str_id: "0 \<notin> set s \<Longrightarrow> c_str s = s"
  by (auto simp: c_str_def takeWhile_eq_all_conv)

definition plain :: "u8 list \<Rightarrow> bool" where
  "plain s \<longleftrightarrow> 0x24 \<notin> set s \<and> 0x23 \<notin> set s \<and> length s < OR1KISS_RSP_MAX_PACKET_SIZE"

lemma recv_char_next:
  "rsp_open r \<Longrightarrow> rx r = Rx_char c # es \<Longrightarrow> recv_char r = Inr (c, r\<lparr>rx := es\<rparr>)"
  by (simp add: recv_char_def)

text \<open>The running sum of the receiver.\<close>

lemma recv_loop_text:
  assumes "plain (packet @ s)" "rsp_open r" "rx r = map Rx_char (s @ [0x23, c1, c2]) @ es"
  shows "recv_loop packet (checksum packet) r =
    bindE (send_char (if push_bit 4 (char2int c1) OR char2int c2 = checksum (packet @ s)
                      then 0x2b else 0x2d) (r\<lparr>rx := es\<rparr>)) (\<lambda>r. Inr (packet @ s @ [0], r))"
  using assms
proof (induction s arbitrary: packet r)
  case Nil
  then show ?case
    by (simp add: recv_loop.simps[of packet] recv_char_next plain_def recv_end_def)
next
  case (Cons c s)
  have ck: "(checksum packet + scast c) AND 0xff = checksum (packet @ [c])"
  proof -
    have "take_bit 8 (take_bit 8 a + b) = take_bit 8 (a + b)" for a b :: int
      by (metis min.idem take_bit_add take_bit_take_bit)
    then have "take_bit 8 (take_bit 8 a + b) = take_bit 8 (a + b)" for a b :: u32
      by transfer (simp add: min_def)
    then show ?thesis by (simp add: checksum_def checksum_loop_add and_low_mask)
  qed
  have "recv_loop packet (checksum packet) r =
      recv_loop (packet @ [c]) (checksum (packet @ [c])) (r\<lparr>rx := map Rx_char (s @ [0x23, c1, c2]) @ es\<rparr>)"
    using Cons.prems by (simp add: recv_loop.simps[of packet] recv_char_next plain_def ck)
  also have "\<dots> = bindE (send_char (if push_bit 4 (char2int c1) OR char2int c2 = checksum (packet @ c # s)
                      then 0x2b else 0x2d) (r\<lparr>rx := es\<rparr>)) (\<lambda>r. Inr (packet @ (c # s) @ [0], r))"
    using Cons.IH[of "packet @ [c]" "r\<lparr>rx := map Rx_char (s @ [0x23, c1, c2]) @ es\<rparr>"] Cons.prems
    by simp
  finally show ?case .
qed

lemma checksum_Nil [simp]: "checksum [] = 0" by (simp add: checksum_def)

text \<open>A packet on the wire, whatever its two check digits.\<close>

lemma recv_wire:
  assumes "plain s" "rsp_open r" "\<not> tx_broken r" "rx r = map Rx_char (0x24 # s @ [0x23, c1, c2]) @ es"
  shows "rsp_receive r = Inr (s @ [0], r\<lparr>rx := es, tx := tx r @
    [if push_bit 4 (char2int c1) OR char2int c2 = checksum s then 0x2b else 0x2d]\<rparr>)"
proof -
  let ?r = "r\<lparr>rx := map Rx_char (s @ [0x23, c1, c2]) @ es\<rparr>"
  have "rsp_receive r = recv_loop [] (checksum []) ?r"
    using assms by (simp add: rsp_receive_def recv_loop.simps[of "[]" 0 r] recv_char_next OR1KISS_RSP_MAX_PACKET_SIZE_def)
  also have "\<dots> = bindE (send_char (if push_bit 4 (char2int c1) OR char2int c2 = checksum ([] @ s)
      then 0x2b else 0x2d) (?r\<lparr>rx := es\<rparr>)) (\<lambda>r. Inr ([] @ s @ [0], r))"
    using assms by (intro recv_loop_text) simp_all
  finally show ?thesis using assms by (simp add: send_char_def)
qed

lemma two_nibbles: "push_bit 4 (drop_bit 4 x AND 0xf) OR (x AND 0xf) = x AND 0xff" for x :: u32
  unfolding and_low_mask
  by (rule bit_word_eqI) (auto simp: bit_simps simp del: push_bit_Suc drop_bit_Suc take_bit_Suc)

lemma checksum_mask: "checksum s AND 0xff = checksum s"
  by (simp add: checksum_def and.assoc)

lemma check_digits:
  "push_bit 4 (char2int (int2char (drop_bit 4 (checksum s) AND 0xf))) OR
   char2int (int2char (checksum s AND 0xf)) = checksum s"
  using two_nibbles[of "checksum s"] by (simp add: char2int_int2char checksum_mask and.assoc)

text \<open>C33: The round trip of a packet. What one end sends as a string the other end receives, with the
  terminating zero of its buffer, and acknowledges, for every text without the two framing
  characters that fits into the buffer; nothing else is taken from the stream.\<close>

theorem packet_roundtrip:
  assumes "plain s" "0 \<notin> set s" "rsp_open a" "\<not> tx_broken a" "rsp_open b" "\<not> tx_broken b"
    and "send_string s a = Inr a'" "map Rx_char (tx a') = map Rx_char (tx a) @ wire" "rx b = wire @ es"
  shows "rsp_receive b = Inr (s @ [0], b\<lparr>rx := es, tx := tx b @ [0x2b]\<rparr>)"
proof -
  note c = c_str_id[OF assms(2)]
  have "wire = map Rx_char (0x24 # s @ packet_trailer (checksum s))"
    using assms(3,4,7,8) by (auto simp: send_string_def transmit_def c)
  then have "rx b = map Rx_char (0x24 # s @ [0x23, int2char (drop_bit 4 (checksum s) AND 0xf),
      int2char (checksum s AND 0xf)]) @ es"
    using assms(9) by (simp add: packet_trailer_def)
  from recv_wire[OF assms(1,5,6) this] show ?thesis by (simp add: check_digits)
qed

text \<open>A packet with a wrong checksum is refused and obeyed at the same time: the receiver answers
  \<open>-\<close>, upon which the sender repeats the packet, and still returns its text as a command.\<close>

theorem bad_checksum_is_delivered:
  assumes "plain s" "rsp_open r" "\<not> tx_broken r" "rx r = map Rx_char (0x24 # s @ [0x23, c1, c2]) @ es"
    and "push_bit 4 (char2int c1) OR char2int c2 \<noteq> checksum s"
  shows "rsp_receive r = Inr (s @ [0], r\<lparr>rx := es, tx := tx r @ [0x2d]\<rparr>)"
  using recv_wire[OF assms(1-4)] assms(5) by simp

text \<open>The formatting overload adds a zero byte to the text.\<close>

lemma send_format_stray_zero:
  "rsp_open r \<Longrightarrow> \<not> tx_broken r \<Longrightarrow> 0 \<notin> set s \<Longrightarrow>
   send_format s r = Inr (r\<lparr>tx := tx r @ 0x24 # s @ 0 # packet_trailer (checksum s)\<rparr>)"
  by (simp add: send_format_def transmit_def c_str_id)

definition demo_rsp :: rsp where
  "demo_rsp = \<lparr>rsp_open = True, rx = [], tx = [], tx_broken = False\<rparr>"

theorem packet_roundtrip_witness:
  "rsp_receive (demo_rsp\<lparr>rx := map Rx_char [0x24, 0x4f, 0x4b, 0x23, 0x39, 0x41]\<rparr>) =
     Inr ([0x4f, 0x4b, 0], demo_rsp\<lparr>tx := [0x2b]\<rparr>)"
  using packet_roundtrip[where s = "[0x4f, 0x4b]" and a = demo_rsp and es = "[]"
    and b = "demo_rsp\<lparr>rx := map Rx_char [0x24, 0x4f, 0x4b, 0x23, 0x39, 0x41]\<rparr>"
    and wire = "map Rx_char [0x24, 0x4f, 0x4b, 0x23, 0x39, 0x41]"
    and a' = "demo_rsp\<lparr>tx := [0x24, 0x4f, 0x4b, 0x23, 0x39, 0x41]\<rparr>"]
  by (simp add: plain_def OR1KISS_RSP_MAX_PACKET_SIZE_def demo_rsp_def send_string_def transmit_def
      c_str_def packet_trailer_def checksum_def int2char_def hexchars_def)

theorem bad_checksum_is_delivered_witness:
  "rsp_receive (demo_rsp\<lparr>rx := map Rx_char [0x24, 0x73, 0x23, 0x30, 0x30]\<rparr>) =
     Inr ([0x73, 0], demo_rsp\<lparr>tx := [0x2d]\<rparr>)"
  using bad_checksum_is_delivered[where s = "[0x73]" and ?c1.0 = "0x30" and ?c2.0 = "0x30" and es = "[]"
    and r = "demo_rsp\<lparr>rx := map Rx_char [0x24, 0x73, 0x23, 0x30, 0x30]\<rparr>"]
  by (simp add: plain_def OR1KISS_RSP_MAX_PACKET_SIZE_def demo_rsp_def checksum_def char2int_def)

end
