(* ===== verification/Elf.thy ===== *)
theory Elf
  imports Mmu
begin

text \<open>
  The ELF loader of the simulator (\<^verbatim>\<open>include/or1kiss/elf.h\<close>, \<^verbatim>\<open>src/or1kiss/elf.cpp\<close>): its view of the
  sections and symbols of a program, the address translation and lookups over them, and the copying
  of the sections into the guest's memory. What libelf reads from a file is an argument: the headers,
  the strings that \<^verbatim>\<open>elf_strptr\<close> finds, the symbol entries and the raw data blocks of each section. The
  printing of \<^verbatim>\<open>dump\<close> and the progress messages are left out.
\<close>

section \<open>What libelf provides\<close>

record elf32_sym =
  st_name :: "string option"
  st_value :: u32
  st_info :: u8

record elf32_phdr =
  p_offset :: u32
  p_vaddr :: u32
  p_paddr :: u32
  p_memsz :: u32

text \<open>A raw data block without \<^verbatim>\<open>d_buf\<close> is \<open>None\<close>, as for a section that occupies no space in the file.\<close>

record elf32_shdr =
  sh_name :: "string option"
  sh_type :: u32
  sh_flags :: u32
  sh_addr :: u32
  sh_offset :: u32
  sh_size :: u32
  sh_entsize :: u32
  sh_symbols :: "elf32_sym list"
  sh_rawdata :: "u8 list option list"

record elf32_file =
  ei_data :: u8
  e_entry :: u32
  e_phdrs :: "elf32_phdr list"
  e_shdrs :: "elf32_shdr list"

text \<open>Constants of the ELF format.\<close>

definition ELFDATA2LSB :: u8 where "ELFDATA2LSB = 1"
definition ELFDATA2MSB :: u8 where "ELFDATA2MSB = 2"
definition SHT_SYMTAB :: u32 where "SHT_SYMTAB = 2"
definition SHF_WRITE :: u32 where "SHF_WRITE = 1"
definition SHF_ALLOC :: u32 where "SHF_ALLOC = 2"
definition SHF_EXECINSTR :: u32 where "SHF_EXECINSTR = 4"

section \<open>Symbols and sections\<close>

datatype elf_sym_type = ELF_SYM_OBJECT | ELF_SYM_FUNCTION | ELF_SYM_UNKNOWN

record elf_symbol =
  sym_virt_addr :: u64
  sym_phys_addr :: u64
  sym_name :: string
  sym_type :: elf_sym_type

definition is_function :: "elf_symbol \<Rightarrow> bool" where
  "is_function s \<longleftrightarrow> sym_type s = ELF_SYM_FUNCTION"

definition is_object :: "elf_symbol \<Rightarrow> bool" where
  "is_object s \<longleftrightarrow> sym_type s = ELF_SYM_OBJECT"

definition new_elf_symbol :: "string \<Rightarrow> elf32_sym \<Rightarrow> elf_symbol" where
  "new_elf_symbol name st =
     \<lparr>sym_virt_addr = ucast (st_value st), sym_phys_addr = ucast (st_value st), sym_name = name,
      sym_type = (if st_info st AND 0xf = 1 then ELF_SYM_OBJECT
                  else if st_info st AND 0xf = 2 then ELF_SYM_FUNCTION
                  else ELF_SYM_UNKNOWN)\<rparr>"

record elf_section =
  sec_name :: string
  sec_data :: "u8 list"
  sec_size :: u32
  sec_virt_addr :: u64
  sec_phys_addr :: u64
  sec_flag_alloc :: bool
  sec_flag_write :: bool
  sec_flag_exec :: bool

definition section_contains :: "elf_section \<Rightarrow> u64 \<Rightarrow> bool" where
  "section_contains s addr \<longleftrightarrow> sec_virt_addr s \<le> addr \<and> addr < sec_virt_addr s + ucast (sec_size s)"

definition section_offset :: "elf_section \<Rightarrow> u64 \<Rightarrow> u64" where
  "section_offset s addr = addr - sec_virt_addr s"

definition section_to_phys :: "elf_section \<Rightarrow> u64 \<Rightarrow> u64" where
  "section_to_phys s addr = section_offset s addr + sec_phys_addr s"

text \<open>
  The physical address of a section: the last program header that covers its file offset decides. The
  sums are formed in 32 bits before they are widened.
\<close>

definition covers :: "elf32_phdr \<Rightarrow> elf32_shdr \<Rightarrow> bool" where
  "covers ph sh \<longleftrightarrow> p_offset ph \<noteq> 0 \<and> p_offset ph \<le> sh_offset sh \<and> sh_offset sh < p_offset ph + p_memsz ph"

fun phys_from_headers :: "elf32_phdr list \<Rightarrow> elf32_shdr \<Rightarrow> u64 \<Rightarrow> u64" where
  "phys_from_headers [] sh a = a"
| "phys_from_headers (ph # phs) sh a = phys_from_headers phs sh
     (if covers ph sh then ucast (p_paddr ph + (sh_addr sh - p_vaddr ph)) else a)"

text \<open>
  The copy loop. Its variable \<^verbatim>\<open>copied\<close> stays zero, so that it runs over all blocks and copies each one
  to the start of the buffer.
\<close>

fun copy_rawdata :: "u8 list option list \<Rightarrow> u8 list \<Rightarrow> u8 list res" where
  "copy_rawdata [] data = Inr data"
| "copy_rawdata (None # bs) data = copy_rawdata bs data"
| "copy_rawdata (Some b # bs) data =
     (if length b \<le> length data then copy_rawdata bs (b @ drop (length b) data) else Inl Host_fault)"

text \<open>\<open>heap\<close> gives the contents of the fresh block \<^verbatim>\<open>new unsigned char[m_size]\<close>.\<close>

definition new_elf_section :: "(nat \<Rightarrow> u8) \<Rightarrow> elf32_phdr list \<Rightarrow> elf32_shdr \<Rightarrow> elf_section res" where
  "new_elf_section heap phs sh =
     bindE (requireE Elf_error (sh_name sh)) (\<lambda>name.
     let fresh = map heap [0..<unat (sh_size sh)]
     in bindE (if 0 < sh_size sh then copy_rawdata (sh_rawdata sh) fresh else Inr fresh) (\<lambda>data.
        Inr \<lparr>sec_name = name, sec_data = data, sec_size = sh_size sh, sec_virt_addr = ucast (sh_addr sh),
             sec_phys_addr = phys_from_headers phs sh (ucast (sh_addr sh)),
             sec_flag_alloc = (sh_flags sh AND SHF_ALLOC \<noteq> 0),
             sec_flag_write = (sh_flags sh AND SHF_WRITE \<noteq> 0),
             sec_flag_exec = (sh_flags sh AND SHF_EXECINSTR \<noteq> 0)\<rparr>))"

section \<open>Reading a program\<close>

record elf =
  m_filename :: string
  m_endianess :: endian
  m_entry :: u64
  m_sections :: "elf_section list"
  m_symbols :: "elf_symbol list"

definition sections_to_phys :: "elf_section list \<Rightarrow> u64 \<Rightarrow> u64" where
  "sections_to_phys secs virt_addr =
     (case List.find (\<lambda>s. section_contains s virt_addr) secs of
        None \<Rightarrow> virt_addr
      | Some s \<Rightarrow> section_to_phys s virt_addr)"

definition elf_to_phys :: "elf \<Rightarrow> u64 \<Rightarrow> u64" where
  "elf_to_phys e virt_addr = sections_to_phys (m_sections e) virt_addr"

definition read_symbol :: "elf32_sym list \<Rightarrow> nat \<Rightarrow> elf_symbol res" where
  "read_symbol syms i =
     bindE (assertE (i < length syms) Host_fault) (\<lambda>_.
     bindE (requireE Elf_error (st_name (syms ! i))) (\<lambda>name.
     Inr (new_elf_symbol name (syms ! i))))"

definition read_symbols :: "elf32_shdr \<Rightarrow> elf_symbol list res" where
  "read_symbols sh =
     (if sh_type sh \<noteq> SHT_SYMTAB then Inr []
      else if sh_entsize sh = 0 then Inl Host_fault
      else mapE (read_symbol (sh_symbols sh)) [0..<unat (sh_size sh div sh_entsize sh)])"

fun read_sections :: "(nat \<Rightarrow> u8) \<Rightarrow> elf32_phdr list \<Rightarrow> elf32_shdr list \<Rightarrow>
    elf_section list \<times> elf_symbol list \<Rightarrow> (elf_section list \<times> elf_symbol list) res" where
  "read_sections heap phs [] (secs, syms) = Inr (secs, syms)"
| "read_sections heap phs (sh # shs) (secs, syms) =
     bindE (read_symbols sh) (\<lambda>new.
     bindE (new_elf_section heap phs sh) (\<lambda>sec.
     read_sections heap phs shs (secs @ [sec], syms @ new)))"

text \<open>
  \<^verbatim>\<open>std::sort\<close> with \<^verbatim>\<open>elf_symbol_compare\<close>. It leaves the order of symbols with the same address open; the
  model keeps them in the order of the file, and the lemmas below do not depend on that choice.
\<close>

definition sort_symbols :: "elf_symbol list \<Rightarrow> elf_symbol list" where
  "sort_symbols = sort_key sym_phys_addr"

definition elf_endianess :: "u8 \<Rightarrow> endian res" where
  "elf_endianess d =
     (if d = ELFDATA2LSB then Inr ENDIAN_LITTLE
      else if d = ELFDATA2MSB then Inr ENDIAN_BIG
      else Inl Invalid_elf_header)"

definition new_elf :: "(nat \<Rightarrow> u8) \<Rightarrow> string \<Rightarrow> elf32_file option \<Rightarrow> elf res" where
  "new_elf heap fname file =
     bindE (requireE Elf_error file) (\<lambda>f.
     bindE (elf_endianess (ei_data f)) (\<lambda>en.
     bindE (read_sections heap (e_phdrs f) (e_shdrs f) ([], [])) (\<lambda>(secs, syms).
     let syms' = map (\<lambda>s. s\<lparr>sym_phys_addr := sections_to_phys secs (sym_virt_addr s)\<rparr>) syms
     in Inr \<lparr>m_filename = fname, m_endianess = en, m_entry = sections_to_phys secs (ucast (e_entry f)),
             m_sections = secs, m_symbols = sort_symbols syms'\<rparr>)))"

section \<open>Lookups\<close>

definition find_section_name :: "elf \<Rightarrow> string \<Rightarrow> elf_section option" where
  "find_section_name e name = List.find (\<lambda>s. sec_name s = name) (m_sections e)"

definition find_section_addr :: "elf \<Rightarrow> u64 \<Rightarrow> elf_section option" where
  "find_section_addr e virt_addr = List.find (\<lambda>s. sec_virt_addr s = virt_addr) (m_sections e)"

definition find_symbol_name :: "elf \<Rightarrow> string \<Rightarrow> elf_symbol option" where
  "find_symbol_name e name = List.find (\<lambda>s. sym_name s = name) (m_symbols e)"

definition find_symbol_addr :: "elf \<Rightarrow> u64 \<Rightarrow> elf_symbol option" where
  "find_symbol_addr e virt_addr = List.find (\<lambda>s. sym_virt_addr s = virt_addr) (m_symbols e)"

fun find_function_loop :: "elf_symbol list \<Rightarrow> u64 \<Rightarrow> elf_symbol option \<Rightarrow> elf_symbol option" where
  "find_function_loop [] virt_addr result = result"
| "find_function_loop (s # ss) virt_addr result =
     (if \<not> is_function s then find_function_loop ss virt_addr result
      else if virt_addr < sym_virt_addr s then result
      else find_function_loop ss virt_addr (Some s))"

definition find_function :: "elf \<Rightarrow> u64 \<Rightarrow> elf_symbol option" where
  "find_function e virt_addr = find_function_loop (m_symbols e) virt_addr None"

definition get_functions :: "elf \<Rightarrow> elf_symbol list" where
  "get_functions e = filter is_function (m_symbols e)"

definition get_objects :: "elf \<Rightarrow> elf_symbol list" where
  "get_objects e = filter is_object (m_symbols e)"

section \<open>Loading\<close>

definition section_request :: "elf_section \<Rightarrow> request" where
  "section_request s = new_request\<lparr>m_read := False, m_debug := True, req_addr := ucast (sec_phys_addr s),
     req_data := sec_data s, req_size := sec_size s, m_imem := sec_flag_exec s, req_endian := ENDIAN_BIG\<rparr>"

text \<open>A refused transfer only gives a warning.\<close>

definition section_load :: "env_vtable \<Rightarrow> elf_section \<Rightarrow> env \<Rightarrow> env res" where
  "section_load vt s e =
     (if \<not> sec_flag_alloc s \<or> sec_size s = 0 then Inr e
      else bindE (convert_and_transact vt (section_request s) e) (\<lambda>(_, _, e'). Inr e'))"

fun load_sections :: "env_vtable \<Rightarrow> elf_section list \<Rightarrow> env \<Rightarrow> env res" where
  "load_sections vt [] e = Inr e"
| "load_sections vt (s # ss) e = bindE (section_load vt s e) (load_sections vt ss)"

definition elf_load :: "env_vtable \<Rightarrow> elf \<Rightarrow> env \<Rightarrow> env res" where
  "elf_load vt f e = load_sections vt (m_sections f) e"

section \<open>Looking up a function\<close>

lemma find_function_loop_last:
  assumes "sorted (map sym_virt_addr (filter is_function ss))"
  shows "find_function_loop ss a r =
    (case filter (\<lambda>s. is_function s \<and> sym_virt_addr s \<le> a) ss of [] \<Rightarrow> r | fs \<Rightarrow> Some (last fs))"
  using assms
proof (induction ss arbitrary: r)
  case (Cons s ss)
  have "filter (\<lambda>s. is_function s \<and> sym_virt_addr s \<le> a) ss = []" if "is_function s" "a < sym_virt_addr s"
    using that Cons.prems by (fastforce simp: filter_empty_conv)
  then show ?case
    using Cons by (cases "is_function s"; cases "a < sym_virt_addr s") (auto split: list.split)
qed simp

lemma sorted_last: "sorted (map k xs) \<Longrightarrow> t \<in> set xs \<Longrightarrow> xs \<noteq> [] \<Longrightarrow> k t \<le> k (last xs)"
  by (induction xs) auto

lemma sorted_functions:
  assumes "sorted (map sym_phys_addr ss)"
    and "\<forall>s\<in>set ss. \<forall>t\<in>set ss. is_function s \<and> is_function t \<and> sym_phys_addr s \<le> sym_phys_addr t
      \<longrightarrow> sym_virt_addr s \<le> sym_virt_addr t"
  shows "sorted (map sym_virt_addr (filter is_function ss))"
  using assms by (induction ss) auto

lemma new_elf_sorted: "new_elf heap n f = Inr e \<Longrightarrow> sorted (map sym_phys_addr (m_symbols e))"
  by (auto simp: new_elf_def bindE_eq_Inr Let_def sort_symbols_def)

text \<open>C36: The function lookup. For a program whose functions have the same order by physical as by virtual
  address, the lookup gives a function at or before the address with no other function between the
  two, and nothing exactly when every function lies behind the address.\<close>

theorem find_function_correct:
  assumes "new_elf heap n f = Inr e"
    and "\<forall>s\<in>set (get_functions e). \<forall>t\<in>set (get_functions e).
      sym_phys_addr s \<le> sym_phys_addr t \<longrightarrow> sym_virt_addr s \<le> sym_virt_addr t"
  shows "case find_function e a of
      None \<Rightarrow> \<forall>t\<in>set (get_functions e). a < sym_virt_addr t
    | Some s \<Rightarrow> s \<in> set (get_functions e) \<and> sym_virt_addr s \<le> a \<and>
        (\<forall>t\<in>set (get_functions e). sym_virt_addr t \<le> a \<longrightarrow> sym_virt_addr t \<le> sym_virt_addr s)"
proof -
  let ?F = "filter (\<lambda>s. is_function s \<and> sym_virt_addr s \<le> a) (m_symbols e)"
  have so: "sorted (map sym_virt_addr (filter is_function (m_symbols e)))"
    using sorted_functions[OF new_elf_sorted[OF assms(1)]] assms(2) by (auto simp: get_functions_def)
  have f: "find_function e a = (case ?F of [] \<Rightarrow> None | fs \<Rightarrow> Some (last fs))"
    by (simp add: find_function_def find_function_loop_last[OF so])
  have F: "set ?F = {t \<in> set (get_functions e). sym_virt_addr t \<le> a}" by (auto simp: get_functions_def)
  show ?thesis
  proof (cases "?F = []")
    case True
    then show ?thesis using F by (auto simp: f not_le)
  next
    case False
    have "sorted (map sym_virt_addr ?F)"
      using sorted_filter[OF so, of "\<lambda>s. sym_virt_addr s \<le> a"] by (simp add: conj_commute)
    from sorted_last[OF this _ False]
    have "sym_virt_addr t \<le> sym_virt_addr (last ?F)" if "t \<in> set ?F" for t using that .
    moreover have "last ?F \<in> {t \<in> set (get_functions e). sym_virt_addr t \<le> a}"
      using last_in_set[OF False] unfolding F .
    moreover have "find_function e a = Some (last ?F)" using False by (simp add: f split: list.split)
    ultimately show ?thesis using F by auto
  qed
qed

text \<open>
  The comment in \<^verbatim>\<open>find_function\<close> says that the symbols are sorted by virtual address. They are sorted
  by physical address, and when the orders differ the lookup gives up too early.
\<close>

lemma find_function_gives_up:
  "m_symbols e = s # ss \<Longrightarrow> is_function s \<Longrightarrow> a < sym_virt_addr s \<Longrightarrow> find_function e a = None"
  by (simp add: find_function_def)

section \<open>Loading into directly mapped memory\<close>

definition loadable :: "elf_section \<Rightarrow> bool" where
  "loadable s \<longleftrightarrow> sec_flag_alloc s \<and> sec_size s \<noteq> 0"

definition section_ptr :: "env \<Rightarrow> elf_section \<Rightarrow> nat option" where
  "section_ptr e s = (if sec_flag_exec s then get_insn_ptr e (ucast (sec_phys_addr s))
     else get_data_ptr e (ucast (sec_phys_addr s)))"

text \<open>Where a section goes, and that two sections do not overlap there.\<close>

definition placed :: "env \<Rightarrow> elf_section \<Rightarrow> bool" where
  "placed e s \<longleftrightarrow> (case section_ptr e s of None \<Rightarrow> False | Some p \<Rightarrow> allocated (host_mem e) p (unat (sec_size s)))"

definition extent :: "env \<Rightarrow> elf_section \<Rightarrow> nat set" where
  "extent e s = {the (section_ptr e s)..<the (section_ptr e s) + unat (sec_size s)}"

lemma copy_rawdata_length: "copy_rawdata bs d = Inr d' \<Longrightarrow> length d' = length d"
  by (induction bs d rule: copy_rawdata.induct) (auto split: if_splits)

lemma new_elf_section_length:
  "new_elf_section heap phs sh = Inr s \<Longrightarrow> length (sec_data s) = unat (sec_size s)"
  by (auto simp: new_elf_section_def bindE_eq_Inr Let_def dest!: copy_rawdata_length split: if_splits)

lemma read_sections_length:
  "read_sections heap phs shs acc = Inr (secs, syms) \<Longrightarrow>
   \<forall>s\<in>set (fst acc). length (sec_data s) = unat (sec_size s) \<Longrightarrow>
   \<forall>s\<in>set secs. length (sec_data s) = unat (sec_size s)"
  by (induction heap phs shs acc rule: read_sections.induct)
    (auto simp: bindE_eq_Inr dest: new_elf_section_length)

lemma new_elf_length:
  "new_elf heap n f = Inr e \<Longrightarrow> s \<in> set (m_sections e) \<Longrightarrow> length (sec_data s) = unat (sec_size s)"
  by (auto simp: new_elf_def bindE_eq_Inr Let_def dest: read_sections_length)

lemma section_load_direct:
  assumes "loadable s" "placed e s" "length (sec_data s) = unat (sec_size s)" "env_endian e = ENDIAN_BIG"
  shows "\<exists>m. store_bytes (host_mem e) (the (section_ptr e s)) (sec_data s) = Inr m \<and>
             section_load vt s e = Inr (e\<lparr>host_mem := m\<rparr>)"
proof -
  obtain p where p: "section_ptr e s = Some p" "allocated (host_mem e) p (unat (sec_size s))"
    using assms(2) by (auto simp: placed_def split: option.splits)
  then obtain m where m: "store_bytes (host_mem e) p (sec_data s) = Inr m"
    using assms(3) by (simp add: store_bytes_def)
  have "\<exists>c. direct_memory_ptr (section_request s) e = ((section_request s)\<lparr>req_cycles := c\<rparr>, Some p)"
    using p(1) by (cases "sec_flag_exec s")
      (auto simp: direct_memory_ptr_def section_request_def section_ptr_def is_dmem_def)
  then show ?thesis
    using assms(1,3,4) p(1) m
    by (auto simp: section_load_def loadable_def convert_and_transact_def conversion_necessary_def
        send_request_def write_from_def section_request_def new_request_def)
qed

lemma placement_frame:
  "section_ptr (e\<lparr>host_mem := m\<rparr>) s = section_ptr e s"
  "extent (e\<lparr>host_mem := m\<rparr>) s = extent e s"
proof -
  show p: "section_ptr (e\<lparr>host_mem := m\<rparr>) s = section_ptr e s"
    by (simp add: section_ptr_def get_insn_ptr_def get_data_ptr_def cong: option.case_cong if_cong)
  show "extent (e\<lparr>host_mem := m\<rparr>) s = extent e s" by (simp add: extent_def p)
qed

lemma placed_store:
  "store_bytes (host_mem e) q bs = Inr m \<Longrightarrow> placed (e\<lparr>host_mem := m\<rparr>) s = placed e s"
  by (simp add: placed_def placement_frame allocated_store_bytes split: option.split)

lemma section_load_skip: "\<not> loadable s \<Longrightarrow> section_load vt s e = Inr e"
  by (auto simp: section_load_def loadable_def)

lemma load_sections_places:
  assumes "env_endian e = ENDIAN_BIG"
    and "\<forall>s\<in>set secs. loadable s \<longrightarrow> placed e s \<and> length (sec_data s) = unat (sec_size s)"
    and "sorted_wrt (\<lambda>s t. loadable s \<and> loadable t \<longrightarrow> extent e s \<inter> extent e t = {}) secs"
  shows "\<exists>m. load_sections vt secs e = Inr (e\<lparr>host_mem := m\<rparr>) \<and>
    (\<forall>s\<in>set secs. loadable s \<longrightarrow>
       load_bytes m (the (section_ptr e s)) (unat (sec_size s)) = Inr (sec_data s)) \<and>
    (\<forall>a. (\<forall>s\<in>set secs. loadable s \<longrightarrow> a \<notin> extent e s) \<longrightarrow> m a = host_mem e a)"
  using assms
proof (induction secs arbitrary: e)
  case Nil
  then show ?case by (intro exI[of _ "host_mem e"]) simp
next
  case (Cons s ss)
  show ?case
  proof (cases "loadable s")
    case False
    have "\<exists>m. load_sections vt ss e = Inr (e\<lparr>host_mem := m\<rparr>) \<and>
      (\<forall>s\<in>set ss. loadable s \<longrightarrow> load_bytes m (the (section_ptr e s)) (unat (sec_size s)) = Inr (sec_data s)) \<and>
      (\<forall>a. (\<forall>s\<in>set ss. loadable s \<longrightarrow> a \<notin> extent e s) \<longrightarrow> m a = host_mem e a)"
      using Cons.prems by (intro Cons.IH) simp_all
    then obtain m where "load_sections vt ss e = Inr (e\<lparr>host_mem := m\<rparr>)"
      "\<forall>s\<in>set ss. loadable s \<longrightarrow> load_bytes m (the (section_ptr e s)) (unat (sec_size s)) = Inr (sec_data s)"
      "\<forall>a. (\<forall>s\<in>set ss. loadable s \<longrightarrow> a \<notin> extent e s) \<longrightarrow> m a = host_mem e a" by blast
    with False show ?thesis by (intro exI[of _ m]) (simp add: section_load_skip)
  next
    case True
    let ?p = "the (section_ptr e s)"
    have pl: "placed e s" "length (sec_data s) = unat (sec_size s)" using Cons.prems(2) True by simp_all
    obtain m1 where m1: "store_bytes (host_mem e) ?p (sec_data s) = Inr m1"
      and l: "section_load vt s e = Inr (e\<lparr>host_mem := m1\<rparr>)"
      using section_load_direct[OF True pl Cons.prems(1), of vt] by blast
    have len: "length (sec_data s) = unat (sec_size s)" using Cons.prems(2) True by simp
    let ?e = "e\<lparr>host_mem := m1\<rparr>"
    have "\<exists>m. load_sections vt ss ?e = Inr (?e\<lparr>host_mem := m\<rparr>) \<and>
      (\<forall>s\<in>set ss. loadable s \<longrightarrow> load_bytes m (the (section_ptr ?e s)) (unat (sec_size s)) = Inr (sec_data s)) \<and>
      (\<forall>a. (\<forall>s\<in>set ss. loadable s \<longrightarrow> a \<notin> extent ?e s) \<longrightarrow> m a = host_mem ?e a)"
      using Cons.prems by (intro Cons.IH) (simp_all add: placement_frame placed_store[OF m1])
    then obtain m where m: "load_sections vt ss ?e = Inr (e\<lparr>host_mem := m\<rparr>)"
      "\<forall>s\<in>set ss. loadable s \<longrightarrow> load_bytes m (the (section_ptr e s)) (unat (sec_size s)) = Inr (sec_data s)"
      "\<forall>a. (\<forall>s\<in>set ss. loadable s \<longrightarrow> a \<notin> extent e s) \<longrightarrow> m a = m1 a"
      unfolding placement_frame by auto
    have in_s: "m a = m1 a" if "a \<in> extent e s" for a
      using m(3) Cons.prems(3) True that by auto
    have "load_bytes m ?p (unat (sec_size s)) = load_bytes m1 ?p (unat (sec_size s))"
      unfolding load_bytes_def using in_s by (intro mapE_cong) (auto simp: extent_def)
    then have "load_bytes m ?p (unat (sec_size s)) = Inr (sec_data s)"
      using load_store_same[OF m1] by (simp add: len)
    moreover have "m a = host_mem e a" if "\<forall>t\<in>set (s # ss). loadable t \<longrightarrow> a \<notin> extent e t" for a
      using m(3) that m1 True by (auto simp: store_bytes_def extent_def len split: if_splits)
    ultimately show ?thesis using l m(1,2) by (intro exI[of _ m]) simp
  qed
qed

text \<open>C35: Loading a program. With a big endian environment whose direct memory covers the program's
  sections at their physical addresses without overlaps, loading succeeds, every section that
  occupies memory is found there byte by byte, and nothing else in the environment changes.\<close>

theorem elf_load_places_sections:
  assumes "new_elf heap n f = Inr x" "env_endian e = ENDIAN_BIG"
    and "\<forall>s\<in>set (m_sections x). loadable s \<longrightarrow> placed e s"
    and "sorted_wrt (\<lambda>s t. loadable s \<and> loadable t \<longrightarrow> extent e s \<inter> extent e t = {}) (m_sections x)"
  shows "\<exists>m. elf_load vt x e = Inr (e\<lparr>host_mem := m\<rparr>) \<and>
    (\<forall>s\<in>set (m_sections x). loadable s \<longrightarrow>
       load_bytes m (the (section_ptr e s)) (unat (sec_size s)) = Inr (sec_data s)) \<and>
    (\<forall>a. (\<forall>s\<in>set (m_sections x). loadable s \<longrightarrow> a \<notin> extent e s) \<longrightarrow> m a = host_mem e a)"
  unfolding elf_load_def using assms(2-4) new_elf_length[OF assms(1)]
  by (intro load_sections_places) auto

text \<open>Zero-initialised data is not zero. A section without contents in the file, such as \<^verbatim>\<open>.bss\<close>, is
  loaded with whatever the fresh block of the host's heap holds.\<close>

theorem nobits_section_loads_heap:
  assumes "new_elf_section heap phs sh = Inr s" "\<forall>b\<in>set (sh_rawdata sh). b = None"
    and "loadable s" "placed e s" "env_endian e = ENDIAN_BIG"
  shows "\<exists>m. section_load vt s e = Inr (e\<lparr>host_mem := m\<rparr>) \<and>
    load_bytes m (the (section_ptr e s)) (unat (sec_size s)) = Inr (map heap [0..<unat (sec_size s)])"
proof -
  have c: "copy_rawdata bs d = Inr d" if "\<forall>b\<in>set bs. b = None" for bs d
    using that by (induction bs) auto
  have d: "sec_data s = map heap [0..<unat (sec_size s)]"
    using assms(1) c[OF assms(2)] by (auto simp: new_elf_section_def bindE_eq_Inr Let_def split: if_splits)
  obtain m where "store_bytes (host_mem e) (the (section_ptr e s)) (sec_data s) = Inr m"
    "section_load vt s e = Inr (e\<lparr>host_mem := m\<rparr>)"
    using section_load_direct[OF assms(3,4) new_elf_section_length[OF assms(1)] assms(5)] by blast
  with load_store_same d show ?thesis by fastforce
qed

definition demo_headers :: "elf32_shdr list" where
  "demo_headers =
     [\<lparr>sh_name = Some ''.text'', sh_type = 1, sh_flags = 6, sh_addr = 0xc0000000, sh_offset = 0x100,
       sh_size = 4, sh_entsize = 0, sh_symbols = [], sh_rawdata = [Some [0x15, 0, 0, 1]]\<rparr>,
      \<lparr>sh_name = Some ''.bss'', sh_type = 8, sh_flags = 3, sh_addr = 4, sh_offset = 0,
       sh_size = 2, sh_entsize = 0, sh_symbols = [], sh_rawdata = [None]\<rparr>,
      \<lparr>sh_name = Some ''.symtab'', sh_type = SHT_SYMTAB, sh_flags = 0, sh_addr = 0, sh_offset = 0,
       sh_size = 2, sh_entsize = 1,
       sh_symbols = [\<lparr>st_name = Some ''f'', st_value = 0xc0000002, st_info = 2\<rparr>,
                     \<lparr>st_name = Some ''g'', st_value = 4, st_info = 2\<rparr>], sh_rawdata = []\<rparr>]"

definition demo_phdrs :: "elf32_phdr list" where
  "demo_phdrs = [\<lparr>p_offset = 0x100, p_vaddr = 0xc0000000, p_paddr = 0, p_memsz = 0x10\<rparr>]"

definition demo_file :: elf32_file where
  "demo_file = \<lparr>ei_data = ELFDATA2MSB, e_entry = 0x100, e_phdrs = demo_phdrs, e_shdrs = demo_headers\<rparr>"

definition demo_sections :: "elf_section list" where
  "demo_sections =
     [\<lparr>sec_name = ''.text'', sec_data = [0x15, 0, 0, 1], sec_size = 4, sec_virt_addr = 0xc0000000,
       sec_phys_addr = 0, sec_flag_alloc = True, sec_flag_write = False, sec_flag_exec = True\<rparr>,
      \<lparr>sec_name = ''.bss'', sec_data = [7, 7], sec_size = 2, sec_virt_addr = 4,
       sec_phys_addr = 4, sec_flag_alloc = True, sec_flag_write = True, sec_flag_exec = False\<rparr>,
      \<lparr>sec_name = ''.symtab'', sec_data = [7, 7], sec_size = 2, sec_virt_addr = 0,
       sec_phys_addr = 0, sec_flag_alloc = False, sec_flag_write = False, sec_flag_exec = False\<rparr>]"

definition demo_elf :: elf where
  "demo_elf = \<lparr>m_filename = ''demo'', m_endianess = ENDIAN_BIG, m_entry = 0x100, m_sections = demo_sections,
     m_symbols =
       [\<lparr>sym_virt_addr = 0xc0000002, sym_phys_addr = 2, sym_name = ''f'', sym_type = ELF_SYM_FUNCTION\<rparr>,
        \<lparr>sym_virt_addr = 4, sym_phys_addr = 4, sym_name = ''g'', sym_type = ELF_SYM_FUNCTION\<rparr>]\<rparr>"

lemma demo_sections_read:
  "read_sections (\<lambda>_. 7) demo_phdrs demo_headers ([], []) =
     Inr (demo_sections,
       [\<lparr>sym_virt_addr = 0xc0000002, sym_phys_addr = 0xc0000002, sym_name = ''f'', sym_type = ELF_SYM_FUNCTION\<rparr>,
        \<lparr>sym_virt_addr = 4, sym_phys_addr = 4, sym_name = ''g'', sym_type = ELF_SYM_FUNCTION\<rparr>])"
  by (simp add: demo_headers_def demo_phdrs_def demo_sections_def read_symbols_def SHT_SYMTAB_def
      new_elf_section_def covers_def SHF_ALLOC_def SHF_WRITE_def SHF_EXECINSTR_def read_symbol_def
      new_elf_symbol_def upt_rec)

lemma demo_elf_read: "new_elf (\<lambda>_. 7) ''demo'' (Some demo_file) = Inr demo_elf"
  by (simp add: demo_file_def demo_elf_def new_elf_def elf_endianess_def ELFDATA2MSB_def ELFDATA2LSB_def
      demo_sections_read)
    (simp add: demo_sections_def sections_to_phys_def section_contains_def section_to_phys_def
      section_offset_def sort_symbols_def)

text \<open>Here the two orders differ: the lookup of an address inside \<^verbatim>\<open>g\<close> finds nothing.\<close>

lemma find_function_demo: "find_function demo_elf 5 = None"
  by (simp add: find_function_def demo_elf_def is_function_def)

definition demo_symbols :: elf32_file where
  "demo_symbols = \<lparr>ei_data = ELFDATA2MSB, e_entry = 0x100, e_phdrs = [], e_shdrs = [demo_headers ! 2]\<rparr>"

lemma demo_symbols_read: "new_elf (\<lambda>_. 7) ''demo'' (Some demo_symbols) = Inr (demo_elf
  \<lparr>m_sections := [demo_sections ! 2],
   m_symbols := [\<lparr>sym_virt_addr = 4, sym_phys_addr = 4, sym_name = ''g'', sym_type = ELF_SYM_FUNCTION\<rparr>,
     \<lparr>sym_virt_addr = 0xc0000002, sym_phys_addr = 0xc0000002, sym_name = ''f'', sym_type = ELF_SYM_FUNCTION\<rparr>]\<rparr>)"
  by (simp add: demo_symbols_def demo_elf_def new_elf_def elf_endianess_def ELFDATA2MSB_def ELFDATA2LSB_def
      demo_headers_def demo_sections_def read_symbols_def SHT_SYMTAB_def new_elf_section_def SHF_ALLOC_def
      SHF_WRITE_def SHF_EXECINSTR_def read_symbol_def new_elf_symbol_def upt_rec sections_to_phys_def
      section_contains_def sort_symbols_def)

theorem find_function_correct_witness:
  "\<exists>e s. new_elf (\<lambda>_. 7) ''demo'' (Some demo_symbols) = Inr e \<and> find_function e 0xc0000003 = Some s \<and>
     sym_name s = ''f''"
  using find_function_correct[OF demo_symbols_read, of "0xc0000003"] demo_symbols_read
  by (auto simp: get_functions_def is_function_def split: option.splits)

definition demo_mem_env :: env where
  "demo_mem_env = (new_env ENDIAN_BIG (\<lambda>a. if a < 16 then Some 0 else None))
     \<lparr>m_data_ptr := Some 0, m_data_end := 15, m_insn_ptr := Some 0, m_insn_end := 15\<rparr>"

lemma demo_placed: "s \<in> set demo_sections \<Longrightarrow> placed demo_mem_env s"
  by (auto simp: demo_sections_def demo_mem_env_def new_env_def placed_def section_ptr_def
      get_insn_ptr_def get_data_ptr_def allocated_iff)

theorem elf_load_places_sections_witness:
  "\<exists>m. elf_load demo_vtable demo_elf demo_mem_env = Inr (demo_mem_env\<lparr>host_mem := m\<rparr>) \<and>
    load_bytes m 0 4 = Inr [0x15, 0, 0, 1]"
proof -
  have "sorted_wrt (\<lambda>s t. loadable s \<and> loadable t \<longrightarrow> extent demo_mem_env s \<inter> extent demo_mem_env t = {})
      demo_sections"
    by (auto simp: demo_sections_def demo_mem_env_def new_env_def loadable_def section_ptr_def
        get_insn_ptr_def get_data_ptr_def extent_def)
  with demo_placed elf_load_places_sections[OF demo_elf_read, of demo_mem_env demo_vtable]
  show ?thesis
    by (auto simp: demo_elf_def demo_sections_def demo_mem_env_def new_env_def loadable_def section_ptr_def
        get_insn_ptr_def)
qed

theorem nobits_section_loads_heap_witness:
  "\<exists>m. section_load demo_vtable (demo_sections ! 1) demo_mem_env = Inr (demo_mem_env\<lparr>host_mem := m\<rparr>) \<and>
    load_bytes m 4 2 = Inr [7, 7]"
proof -
  have "new_elf_section (\<lambda>_. 7) demo_phdrs (demo_headers ! 1) = Inr (demo_sections ! 1)"
    by (simp add: demo_headers_def demo_phdrs_def demo_sections_def new_elf_section_def covers_def
        SHF_ALLOC_def SHF_WRITE_def SHF_EXECINSTR_def upt_rec)
  from nobits_section_loads_heap[OF this, of demo_mem_env demo_vtable]
    demo_placed[of "demo_sections ! 1"]
  show ?thesis
    by (auto simp: demo_headers_def demo_sections_def demo_mem_env_def new_env_def loadable_def section_ptr_def
        get_data_ptr_def upt_rec)
qed

end
