(* ===== verification/Gdb.thy ===== *)
theory Gdb
  imports Or1k Rsp Elf
begin

text \<open>
  The debugger stub (\<^verbatim>\<open>include/or1kiss/gdb.h\<close>, \<^verbatim>\<open>src/or1kiss/gdb.cpp\<close>): the commands of the remote
  protocol, their replies, and the two loops that run beside each other, \<^verbatim>\<open>listen\<close> in a thread of its own
  and \<^verbatim>\<open>step\<close> in that of the simulation. A C++ exception leaves the changes made before it in place, so
  that an action gives a state in both cases; only a failing call into the environment itself is taken
  to have changed nothing. The two threads are interleaved at the granularity of one iteration of
  \<^verbatim>\<open>listen\<close> and one call of \<^verbatim>\<open>step\<close>; data races within these are not modelled, and neither are the warnings
  printed for the user.
\<close>

section \<open>Actions\<close>

datatype gdb_mode = GDB_MODE_HALTED | GDB_MODE_STEPPING | GDB_MODE_RUNNING | GDB_MODE_KILLED

text \<open>\<^verbatim>\<open>m_pages\<close> is the map \<^verbatim>\<open>m_tlb\<close> of the class.\<close>

record gdb =
  m_iss :: or1k
  m_elf :: "elf option"
  m_rsp :: rsp
  m_detached :: bool
  m_show_warnings :: bool
  m_mode :: gdb_mode
  m_pages :: "u32 \<rightharpoonup> u32"

type_synonym 'a act = "gdb \<Rightarrow> 'a res \<times> gdb"

definition bindG :: "'a act \<Rightarrow> ('a \<Rightarrow> 'b act) \<Rightarrow> 'b act" where
  "bindG m f g = (case m g of (Inl e, g') \<Rightarrow> (Inl e, g') | (Inr x, g') \<Rightarrow> f x g')"

definition returnG :: "'a \<Rightarrow> 'a act" where
  "returnG x g = (Inr x, g)"

definition throwG :: "or1k_error \<Rightarrow> 'a act" where
  "throwG e g = (Inl e, g)"

definition liftG :: "'a res \<Rightarrow> 'a act" where
  "liftG m g = (m, g)"

definition modifyG :: "(gdb \<Rightarrow> gdb) \<Rightarrow> unit act" where
  "modifyG f g = (Inr (), f g)"

text \<open>Operations of the simulator and of the connection.\<close>

definition issG :: "(or1k \<Rightarrow> or1k res) \<Rightarrow> unit act" where
  "issG f g = (case f (m_iss g) of Inl e \<Rightarrow> (Inl e, g) | Inr s \<Rightarrow> (Inr (), g\<lparr>m_iss := s\<rparr>))"

definition rspG :: "(rsp \<Rightarrow> ('a \<times> rsp) res) \<Rightarrow> 'a act" where
  "rspG f g = (case f (m_rsp g) of Inl e \<Rightarrow> (Inl e, g) | Inr (x, r) \<Rightarrow> (Inr x, g\<lparr>m_rsp := r\<rparr>))"

definition sendG :: "u8 list \<Rightarrow> unit act" where
  "sendG s = rspG (\<lambda>r. bindE (send_format s r) (\<lambda>r. Inr ((), r)))"

definition send_stringG :: "u8 list \<Rightarrow> unit act" where
  "send_stringG s = rspG (\<lambda>r. bindE (send_string s r) (\<lambda>r. Inr ((), r)))"

lemma bindG_cong [fundef_cong]:
  "m = m' \<Longrightarrow> g = g' \<Longrightarrow> (\<And>x s. m' g' = (Inr x, s) \<Longrightarrow> f x s = f' x s) \<Longrightarrow> bindG m f g = bindG m' f' g'"
  by (auto simp: bindG_def split: prod.split sum.split)

section \<open>Texts\<close>

definition ascii :: "string \<Rightarrow> u8 list" where
  "ascii s = map (\<lambda>c. of_nat (of_char c)) s"

definition hex_digit :: "nat \<Rightarrow> u8" where
  "hex_digit n = (if n < 10 then 0x30 + of_nat n else 0x61 + of_nat (n - 10))"

fun hex_text :: "nat \<Rightarrow> u8 list" where
  "hex_text n = (if n < 16 then [hex_digit n] else hex_text (n div 16) @ [hex_digit (n mod 16)])"

definition pad_left :: "u8 \<Rightarrow> nat \<Rightarrow> u8 list \<Rightarrow> u8 list" where
  "pad_left c w s = replicate (w - length s) c @ s"

text \<open>\<^verbatim>\<open>%02x\<close>, \<^verbatim>\<open>%08x\<close> and \<^verbatim>\<open>%8x\<close>.\<close>

definition hex2 :: "u32 \<Rightarrow> u8 list" where "hex2 v = pad_left 0x30 2 (hex_text (unat v))"
definition hex8 :: "u32 \<Rightarrow> u8 list" where "hex8 v = pad_left 0x30 8 (hex_text (unat v))"
definition hex8_spaced :: "u32 \<Rightarrow> u8 list" where "hex8_spaced v = pad_left 0x20 8 (hex_text (unat v))"

text \<open>
  \<^verbatim>\<open>sscanf\<close> with the conversions that occur: a character, white space, and \<^verbatim>\<open>%x\<close> with a width. The values
  converted before the first mismatch are returned, so that their number is the result of the call.
\<close>

datatype scan_item = Lit u8 | White | Hex "nat option"

definition is_space :: "u8 \<Rightarrow> bool" where
  "is_space c \<longleftrightarrow> c = 0x20 \<or> 0x09 \<le> c \<and> c \<le> 0x0d"

definition is_xdigit :: "u8 \<Rightarrow> bool" where
  "is_xdigit c \<longleftrightarrow> 0x30 \<le> c \<and> c \<le> 0x39 \<or> 0x41 \<le> c \<and> c \<le> 0x46 \<or> 0x61 \<le> c \<and> c \<le> 0x66"

definition digits_value :: "u8 list \<Rightarrow> nat" where
  "digits_value ds = foldl (\<lambda>v c. 16 * v + unat (char2int c)) 0 ds"

text \<open>\<^verbatim>\<open>strtoul\<close> saturates at 64 bits; the assignment keeps 32 of them.\<close>

definition hex_result :: "bool \<Rightarrow> nat \<Rightarrow> u32" where
  "hex_result neg v =
     (if 2 ^ 64 \<le> v then - 1 else if neg then - of_nat v else of_nat v)"

definition scan_sign :: "u8 list \<Rightarrow> bool \<times> nat" where
  "scan_sign s =
     (case s of c # _ \<Rightarrow> if c = 0x2d then (True, 1) else if c = 0x2b then (False, 1) else (False, 0)
      | [] \<Rightarrow> (False, 0))"

definition scan_prefix :: "u8 list \<Rightarrow> nat" where
  "scan_prefix s = (case s of c # x # _ \<Rightarrow> if c = 0x30 \<and> (x = 0x78 \<or> x = 0x58) then 2 else 0 | _ \<Rightarrow> 0)"

definition scan_hex :: "nat option \<Rightarrow> u8 list \<Rightarrow> (u32 \<times> u8 list) option" where
  "scan_hex width s =
     (let s = dropWhile is_space s;
          field = (case width of None \<Rightarrow> s | Some w \<Rightarrow> take w s);
          (neg, k) = scan_sign field;
          j = k + scan_prefix (drop k field);
          ds = takeWhile is_xdigit (drop j field)
      in if ds = [] then None
         else Some (hex_result neg (digits_value ds), drop (j + length ds) s))"

fun sscanf :: "scan_item list \<Rightarrow> u8 list \<Rightarrow> u32 list" where
  "sscanf [] s = []"
| "sscanf (Lit c # fs) s = (case s of [] \<Rightarrow> [] | x # xs \<Rightarrow> if x = c then sscanf fs xs else [])"
| "sscanf (White # fs) s = sscanf fs (dropWhile is_space s)"
| "sscanf (Hex w # fs) s = (case scan_hex w s of None \<Rightarrow> [] | Some (v, s') \<Rightarrow> v # sscanf fs s')"

definition scan_lits :: "string \<Rightarrow> scan_item list" where
  "scan_lits s = map Lit (ascii s)"

text \<open>Commands arrive as the buffer behind \<^verbatim>\<open>const char* command\<close>, a byte string with its end marker.\<close>

definition parse1 :: "scan_item list \<Rightarrow> u8 list \<Rightarrow> u32 act" where
  "parse1 fmt buf =
     (case sscanf fmt (c_str buf) of [a] \<Rightarrow> returnG a | _ \<Rightarrow> throwG (Bad_command (c_str buf)))"

definition parse2 :: "scan_item list \<Rightarrow> u8 list \<Rightarrow> (u32 \<times> u32) act" where
  "parse2 fmt buf =
     (case sscanf fmt (c_str buf) of [a, b] \<Rightarrow> returnG (a, b) | _ \<Rightarrow> throwG (Bad_command (c_str buf)))"

definition parse3 :: "scan_item list \<Rightarrow> u8 list \<Rightarrow> (u32 \<times> u32 \<times> u32) act" where
  "parse3 fmt buf =
     (case sscanf fmt (c_str buf) of [a, b, c] \<Rightarrow> returnG (a, b, c) | _ \<Rightarrow> throwG (Bad_command (c_str buf)))"

section \<open>Memory\<close>

definition OR1KISS_GDB_RDBUF_SIZE :: u32 where
  "OR1KISS_GDB_RDBUF_SIZE = drop_bit 2 (of_nat OR1KISS_RSP_MAX_PACKET_SIZE)"
definition OR1KISS_GDB_ERR_INTERNAL :: u32 where "OR1KISS_GDB_ERR_INTERNAL = 3"

definition debug_request :: "bool \<Rightarrow> u32 \<Rightarrow> u8 list \<Rightarrow> u32 \<Rightarrow> request" where
  "debug_request read phys_addr data sz =
     new_request\<lparr>m_imem := False, m_read := read, m_debug := True, req_endian := ENDIAN_BIG,
                 req_addr := phys_addr, req_data := data, req_size := sz\<rparr>"

definition debug_access :: "host \<Rightarrow> request \<Rightarrow> or1k_error \<Rightarrow> u8 list act" where
  "debug_access h req err g =
     (case convert_and_transact (h_env h) req (m_env (m_iss g)) of
        Inl e \<Rightarrow> (Inl e, g)
      | Inr (rs, req', e) \<Rightarrow>
          (if rs = RESP_SUCCESS then Inr (req_data req') else Inl err, g\<lparr>m_iss := (m_iss g)\<lparr>m_env := e\<rparr>\<rparr>))"

definition mem_read :: "host \<Rightarrow> u32 \<Rightarrow> u8 list \<Rightarrow> u32 \<Rightarrow> u8 list act" where
  "mem_read h phys_addr buf sz =
     debug_access h (debug_request True phys_addr buf sz) (Cannot_read_memory phys_addr (unat sz))"

definition mem_write :: "host \<Rightarrow> u32 \<Rightarrow> u8 list \<Rightarrow> u32 \<Rightarrow> u8 list act" where
  "mem_write h phys_addr buf sz =
     debug_access h (debug_request False phys_addr buf sz) (Cannot_write_memory phys_addr (unat sz))"

definition translate_request :: "u32 \<Rightarrow> request" where
  "translate_request addr =
     new_request\<lparr>m_imem := False, m_read := True, m_debug := True, req_addr := addr\<rparr>"

text \<open>One attempt, with the data or the instruction MMU.\<close>

definition translate_data :: "host \<Rightarrow> request \<Rightarrow> (mmu_result \<times> request) act" where
  "translate_data h req g =
     (let s = m_iss g
      in case translate (h_env h) req (m_dmmu s) (m_env s) of
           Inl e \<Rightarrow> (Inl e, g)
         | Inr (r, req', t, e) \<Rightarrow> (Inr (r, req'), g\<lparr>m_iss := s\<lparr>m_dmmu := t, m_env := e\<rparr>\<rparr>))"

definition translate_insn :: "host \<Rightarrow> request \<Rightarrow> (mmu_result \<times> request) act" where
  "translate_insn h req g =
     (let s = m_iss g
      in case translate (h_env h) req (m_immu s) (m_env s) of
           Inl e \<Rightarrow> (Inl e, g)
         | Inr (r, req', t, e) \<Rightarrow> (Inr (r, req'), g\<lparr>m_iss := s\<lparr>m_immu := t, m_env := e\<rparr>\<rparr>))"

definition translate_active :: "host \<Rightarrow> bool \<Rightarrow> bool \<Rightarrow> u32 \<Rightarrow> u32 option act" where
  "translate_active h d i addr =
     (let req = translate_request addr
      in bindG (if d then translate_data h req else returnG (MMU_TLB_MISS, req)) (\<lambda>(r, req).
         if d \<and> r = MMU_OKAY then returnG (Some (req_addr req))
         else bindG (if i then translate_insn h req else returnG (MMU_TLB_MISS, req)) (\<lambda>(r, req).
              if i \<and> r = MMU_OKAY then returnG (Some (req_addr req)) else returnG None)))"

definition gdb_translate :: "host \<Rightarrow> u32 \<Rightarrow> u32 option act" where
  "gdb_translate h addr g =
     (if \<not> is_dmmu_active (m_iss g) \<and> \<not> is_immu_active (m_iss g)
      then (Inr (Some (case m_elf g of
              None \<Rightarrow> addr
            | Some e \<Rightarrow> if 0xc0000000 \<le> addr then ucast (elf_to_phys e (ucast addr)) else addr)), g)
      else translate_active h (is_dmmu_active (m_iss g)) (is_immu_active (m_iss g)) addr g)"

text \<open>Looking a page up in the map enters a zero for it when it is not there.\<close>

definition touch_page :: "u32 \<Rightarrow> u32 act" where
  "touch_page vpn g =
     (case m_pages g vpn of
        None \<Rightarrow> (Inr 0, g\<lparr>m_pages := (m_pages g)(vpn \<mapsto> 0)\<rparr>)
      | Some ppn \<Rightarrow> (Inr ppn, g))"

definition to_phys :: "host \<Rightarrow> u32 \<Rightarrow> u32 act" where
  "to_phys h addr =
     bindG (touch_page (page_number addr)) (\<lambda>ppn.
     if ppn \<noteq> 0 then returnG (mkaddr ppn (page_offset addr))
     else bindG (gdb_translate h addr) (\<lambda>r.
          case r of
            None \<Rightarrow> throwG (Translation_failed addr)
          | Some pa \<Rightarrow> bindG (modifyG (\<lambda>g. g\<lparr>m_pages := (m_pages g)(page_number addr \<mapsto> page_number pa)\<rparr>))
              (\<lambda>_. returnG pa)))"

definition chunk :: "u32 \<Rightarrow> u32 \<Rightarrow> u32" where
  "chunk len phys_addr =
     (let n = min len OR1KISS_GDB_RDBUF_SIZE in min n (OR1KISS_PAGE_SIZE - page_offset phys_addr))"

lemma page_offset_less: "unat (page_offset a) < 2 ^ 13"
  by (simp add: page_offset_def page_mask flip: take_bit_eq_mask) (rule unat_take_bit_less[of 13 a, simplified])

lemma page_size_nat: "unat OR1KISS_PAGE_SIZE = 8192"
  by (simp add: OR1KISS_PAGE_SIZE_def OR1KISS_PAGE_BITS_def)

lemma rdbuf_size: "OR1KISS_GDB_RDBUF_SIZE = 0x1000"
  by (simp add: OR1KISS_GDB_RDBUF_SIZE_def OR1KISS_RSP_MAX_PACKET_SIZE_def)

lemma page_rest: "unat (OR1KISS_PAGE_SIZE - page_offset a) = 8192 - unat (page_offset a)"
  using page_offset_less[of a] by (subst unat_sub) (simp_all add: page_size_nat word_le_nat_alt)

text \<open>A chunk makes progress and stays within the request, the buffer and the page.\<close>

lemma chunk_bounds:
  "unat (chunk len a) \<le> unat len" "unat (chunk len a) \<le> 4096"
  "unat (page_offset a) + unat (chunk len a) \<le> 8192"
  "len \<noteq> 0 \<Longrightarrow> 0 < unat (chunk len a)"
  using page_offset_less[of a] page_rest[of a]
  by (auto simp: chunk_def Let_def unat_min_word rdbuf_size unat_gt_0)

lemma chunk_rest: "unat (len - chunk len a) = unat len - unat (chunk len a)"
  using chunk_bounds(1)[of len a] by (simp add: unat_sub word_le_nat_alt)

lemma chunk_progress: "len \<noteq> 0 \<Longrightarrow> unat (len - chunk len a) < unat len"
  using chunk_bounds(1,4)[of len a] by (simp add: chunk_rest)

text \<open>The loop of \<^verbatim>\<open>handle_mem_read\<close>; \<open>out\<close> is the text of the string stream.\<close>

function mem_read_loop :: "host \<Rightarrow> u32 \<Rightarrow> u32 \<Rightarrow> u8 list \<Rightarrow> u8 list \<Rightarrow> u8 list act" where
  "mem_read_loop h addr len buf out g =
     (if len = 0 then returnG out g
      else bindG (to_phys h addr) (\<lambda>pa.
           bindG (mem_read h pa buf (chunk len pa)) (\<lambda>buf'.
           mem_read_loop h (addr + chunk len pa) (len - chunk len pa) buf'
             (out @ concat (map (\<lambda>b. hex2 (ucast b)) (take (unat (chunk len pa)) buf'))))) g)"
  by pat_completeness auto
termination
  by (relation "measure (\<lambda>(h, addr, len, buf, out, g). unat len)")
    (auto intro: chunk_progress)

declare mem_read_loop.simps [simp del]

text \<open>
  One byte of the data of a write command: \<^verbatim>\<open>M\<close> reads two characters and moves on by one, \<^verbatim>\<open>X\<close> reads an
  escaped byte. The loop of the two handlers is the same.
\<close>

definition hex_byte :: "u8 list \<Rightarrow> (u8 \<times> u8 list) res" where
  "hex_byte data = bindE (assertE (2 \<le> length data) Host_fault) (\<lambda>_. Inr (ucast (str2int data 2), tl data))"

fun get_bytes :: "(u8 list \<Rightarrow> (u8 \<times> u8 list) res) \<Rightarrow> nat \<Rightarrow> u8 list \<Rightarrow> (u8 list \<times> u8 list) res" where
  "get_bytes get 0 data = Inr ([], data)"
| "get_bytes get (Suc n) data =
     bindE (get data) (\<lambda>(b, data). bindE (get_bytes get n data) (\<lambda>(bs, data). Inr (b # bs, data)))"

function mem_write_loop ::
  "host \<Rightarrow> (u8 list \<Rightarrow> (u8 \<times> u8 list) res) \<Rightarrow> u32 \<Rightarrow> u32 \<Rightarrow> u8 list \<Rightarrow> unit act" where
  "mem_write_loop h get addr len data g =
     (if len = 0 then returnG () g
      else bindG (to_phys h addr) (\<lambda>pa.
           bindG (liftG (get_bytes get (unat (chunk len pa)) data)) (\<lambda>(bs, data').
           bindG (mem_write h pa bs (chunk len pa)) (\<lambda>_.
           mem_write_loop h get (addr + chunk len pa) (len - chunk len pa) data'))) g)"
  by pat_completeness auto
termination
  by (relation "measure (\<lambda>(h, get, addr, len, data, g). unat len)")
    (auto intro: chunk_progress)

declare mem_write_loop.simps [simp del]

text \<open>\<^verbatim>\<open>strchr(command, ':') + 1\<close>.\<close>

definition after_colon :: "u8 list \<Rightarrow> u8 list act" where
  "after_colon buf =
     (if 0x3a \<in> set (c_str buf)
      then returnG (drop (length (takeWhile (\<lambda>c. c \<noteq> 0x3a) buf) + 1) buf)
      else throwG (Bad_command (c_str buf)))"

definition handle_mem_read :: "host \<Rightarrow> u8 list \<Rightarrow> unit act" where
  "handle_mem_read h buf =
     bindG (parse2 (scan_lits ''m'' @ [Hex None] @ scan_lits '','' @ [Hex None]) buf) (\<lambda>(addr, len).
     bindG (mem_read_loop h addr len (malloc_block (h_env h) (unat OR1KISS_GDB_RDBUF_SIZE)) []) send_stringG)"

definition handle_mem_write :: "host \<Rightarrow> u8 list \<Rightarrow> unit act" where
  "handle_mem_write h buf =
     bindG (parse2 (scan_lits ''M'' @ [Hex None] @ scan_lits '','' @ [Hex None]) buf) (\<lambda>(addr, len).
     if len mod 4 \<noteq> 0 then throwG (Bad_length len)
     else bindG (after_colon buf) (\<lambda>data.
          bindG (mem_write_loop h hex_byte addr len data) (\<lambda>_.
          sendG (ascii ''OK''))))"

definition handle_mem_write_bin :: "host \<Rightarrow> u8 list \<Rightarrow> unit act" where
  "handle_mem_write_bin h buf =
     bindG (parse2 (scan_lits ''X'' @ [Hex None] @ scan_lits '','' @ [Hex None] @ scan_lits '':'') buf) (\<lambda>(addr, len).
     if len mod 4 \<noteq> 0 then throwG (Bad_length len)
     else if len = 0 then sendG (ascii ''OK'')
     else bindG (after_colon buf) (\<lambda>data.
          bindG (mem_write_loop h char_unescape addr len data) (\<lambda>_.
          sendG (ascii ''OK''))))"

section \<open>Registers\<close>

definition get_sprG :: "u32 \<Rightarrow> u32 act" where
  "get_sprG reg g = (Inr (get_spr reg True (m_iss g)), g)"

definition set_sprG :: "host \<Rightarrow> u32 \<Rightarrow> u32 \<Rightarrow> unit act" where
  "set_sprG h reg val = issG (set_spr h reg val True)"

definition set_gprG :: "nat \<Rightarrow> u32 \<Rightarrow> unit act" where
  "set_gprG n val = issG (\<lambda>s. Inr (s\<lparr>gpr := (gpr s)[n := val]\<rparr>))"

definition get_gprG :: "nat \<Rightarrow> u32 act" where
  "get_gprG n g = (Inr (gpr (m_iss g) ! n), g)"

definition read_reg :: "u32 \<Rightarrow> u32 act" where
  "read_reg reg =
     (if reg = 32 then get_sprG SPR_PPC
      else if reg = 33 then get_sprG SPR_NPC
      else if reg = 34 then get_sprG SPR_SR
      else get_gprG (unat reg))"

definition write_reg :: "host \<Rightarrow> u32 \<Rightarrow> u32 \<Rightarrow> unit act" where
  "write_reg h reg val =
     (if reg = 32 then set_sprG h SPR_PPC val
      else if reg = 33 then set_sprG h SPR_NPC val
      else if reg = 34 then set_sprG h SPR_SR val
      else set_gprG (unat reg) val)"

definition handle_reg_read :: "host \<Rightarrow> u8 list \<Rightarrow> unit act" where
  "handle_reg_read h buf =
     bindG (parse1 (scan_lits ''p'' @ [Hex None]) buf) (\<lambda>reg.
     if 34 < reg then throwG (Register_out_of_range reg)
     else bindG (read_reg reg) (\<lambda>val. sendG (hex8 val)))"

definition handle_reg_write :: "host \<Rightarrow> u8 list \<Rightarrow> unit act" where
  "handle_reg_write h buf =
     bindG (parse2 (scan_lits ''P'' @ [Hex None] @ scan_lits ''='' @ [Hex None]) buf) (\<lambda>(reg, val).
     if 34 < reg then throwG (Register_out_of_range reg)
     else bindG (write_reg h reg val) (\<lambda>_. sendG (ascii ''OK'')))"

fun read_regs :: "u32 list \<Rightarrow> u8 list act" where
  "read_regs [] = returnG []"
| "read_regs (r # rs) = bindG (read_reg r) (\<lambda>v. bindG (read_regs rs) (\<lambda>out. returnG (hex8 v @ out)))"

definition handle_reg_read_all :: "host \<Rightarrow> u8 list \<Rightarrow> unit act" where
  "handle_reg_read_all h buf = bindG (read_regs (map of_nat [0..<35])) sendG"

fun write_regs :: "host \<Rightarrow> u32 list \<Rightarrow> u8 list \<Rightarrow> unit act" where
  "write_regs h [] str = returnG ()"
| "write_regs h (r # rs) str =
     (if length str < 8 then throwG Host_fault
      else bindG (write_reg h r (str2int str 8)) (\<lambda>_. write_regs h rs (drop 8 str)))"

definition handle_reg_write_all :: "host \<Rightarrow> u8 list \<Rightarrow> unit act" where
  "handle_reg_write_all h buf =
     bindG (write_regs h (map of_nat [0..<35]) (drop 1 buf)) (\<lambda>_. sendG (ascii ''OK''))"

section \<open>Queries and remote commands\<close>

fun pairs_to_chars :: "u8 list \<Rightarrow> u8 list" where
  "pairs_to_chars (a # b # cs) = ucast (push_bit 4 (char2int a) OR char2int b) # pairs_to_chars cs"
| "pairs_to_chars cs = []"

definition chars_to_pairs :: "u8 list \<Rightarrow> u8 list" where
  "chars_to_pairs cs = concat (map (\<lambda>c. [int2char (drop_bit 4 (ucast c)), int2char (ucast c AND 0xf)]) cs)"

definition handle_rcmd :: "host \<Rightarrow> u8 list \<Rightarrow> unit act" where
  "handle_rcmd h buf =
     (let cmd = c_str (drop 6 buf)
      in if odd (length cmd) then throwG (Bad_rcmd_length (length cmd))
         else let s = c_str (pairs_to_chars cmd)
              in case sscanf (scan_lits ''readspr'' @ [White, Hex (Some 4)]) s of
                   [reg] \<Rightarrow> bindG (get_sprG reg) (\<lambda>val. sendG (chars_to_pairs (hex8_spaced val)))
                 | _ \<Rightarrow>
                     (case sscanf (scan_lits ''writespr'' @ [White, Hex (Some 4), White, Hex (Some 8)]) s of
                        [reg, val] \<Rightarrow> bindG (set_sprG h reg val) (\<lambda>_. sendG (ascii ''OK''))
                      | _ \<Rightarrow> throwG (Unknown_remote_command s)))"

definition starts_with :: "u8 list \<Rightarrow> string \<Rightarrow> bool" where
  "starts_with buf p \<longleftrightarrow> take (length p) (c_str buf) = ascii p"

definition handle_query :: "host \<Rightarrow> u8 list \<Rightarrow> unit act" where
  "handle_query h buf =
     (if starts_with buf ''qSupported''
      then sendG (ascii ''PacketSize='' @ hex_text OR1KISS_RSP_MAX_PACKET_SIZE)
      else if starts_with buf ''qAttached'' then sendG (ascii ''1'')
      else if starts_with buf ''qOffsets'' then sendG (ascii ''Text=0;Data=0;Bss=0'')
      else if starts_with buf ''qRcmd'' then handle_rcmd h buf
      else sendG [])"

section \<open>Breakpoints\<close>

definition set_point :: "u32 \<Rightarrow> u32 \<Rightarrow> u32 \<Rightarrow> unit act" where
  "set_point type addr len =
     (if type = 0 \<or> type = 1 then issG (\<lambda>s. Inr (insert_breakpoint addr s))
      else if type = 2 then issG (\<lambda>s. Inr (insert_watchpoint_w addr len s))
      else if type = 3 then issG (\<lambda>s. Inr (insert_watchpoint_r addr len s))
      else if type = 4
      then bindG (issG (\<lambda>s. Inr (insert_watchpoint_w addr len s))) (\<lambda>_.
           issG (\<lambda>s. Inr (insert_watchpoint_r addr len s)))
      else throwG (Bad_breakpoint_type type))"

definition delete_point :: "u32 \<Rightarrow> u32 \<Rightarrow> u32 \<Rightarrow> unit act" where
  "delete_point type addr len =
     (if type = 0 \<or> type = 1 then issG (\<lambda>s. Inr (remove_breakpoint addr s))
      else if type = 2 then issG (\<lambda>s. Inr (remove_watchpoint_w addr len s))
      else if type = 3 then issG (\<lambda>s. Inr (remove_watchpoint_r addr len s))
      else if type = 4
      then bindG (issG (\<lambda>s. Inr (remove_watchpoint_w addr len s))) (\<lambda>_.
           issG (\<lambda>s. Inr (remove_watchpoint_r addr len s)))
      else throwG (Bad_breakpoint_type type))"

definition point_format :: "string \<Rightarrow> scan_item list" where
  "point_format c = scan_lits c @ [Hex None] @ scan_lits '','' @ [Hex None] @ scan_lits '','' @ [Hex None]"

definition handle_breakpoint_set :: "host \<Rightarrow> u8 list \<Rightarrow> unit act" where
  "handle_breakpoint_set h buf =
     bindG (parse3 (point_format ''Z'') buf) (\<lambda>(type, addr, len).
     bindG (set_point type addr len) (\<lambda>_. sendG (ascii ''OK'')))"

definition handle_breakpoint_delete :: "host \<Rightarrow> u8 list \<Rightarrow> unit act" where
  "handle_breakpoint_delete h buf =
     bindG (parse3 (point_format ''z'') buf) (\<lambda>(type, addr, len).
     bindG (delete_point type addr len) (\<lambda>_. sendG (ascii ''OK'')))"

section \<open>Execution control\<close>

definition SIGINT :: nat where "SIGINT = 2"
definition SIGTRAP :: nat where "SIGTRAP = 5"

text \<open>\<^verbatim>\<open>S%02u\<close> with the signals above, which have one digit.\<close>

definition stop_reply :: "nat \<Rightarrow> u8 list" where
  "stop_reply sig = ascii ''S'' @ pad_left 0x30 2 [hex_digit sig]"

definition set_mode :: "gdb_mode \<Rightarrow> gdb \<Rightarrow> gdb" where
  "set_mode m g = g\<lparr>m_mode := m\<rparr>"

definition clear_pages :: "gdb \<Rightarrow> gdb" where
  "clear_pages g = g\<lparr>m_pages := (\<lambda>_. None)\<rparr>"

definition handle_step :: "host \<Rightarrow> u8 list \<Rightarrow> unit act" where
  "handle_step h buf = modifyG (\<lambda>g. set_mode GDB_MODE_STEPPING (clear_pages g))"

definition handle_continue :: "host \<Rightarrow> u8 list \<Rightarrow> unit act" where
  "handle_continue h buf = modifyG (\<lambda>g. set_mode GDB_MODE_RUNNING (clear_pages g))"

definition handle_detach :: "host \<Rightarrow> u8 list \<Rightarrow> unit act" where
  "handle_detach h buf =
     bindG (modifyG (\<lambda>g. (set_mode GDB_MODE_RUNNING (clear_pages g))\<lparr>m_detached := True\<rparr>)) (\<lambda>_.
     sendG (ascii ''OK''))"

definition handle_kill :: "host \<Rightarrow> u8 list \<Rightarrow> unit act" where
  "handle_kill h buf = modifyG (set_mode GDB_MODE_KILLED)"

definition handle_exception :: "host \<Rightarrow> u8 list \<Rightarrow> unit act" where
  "handle_exception h buf = sendG (stop_reply SIGTRAP)"

definition handle_thread :: "host \<Rightarrow> u8 list \<Rightarrow> unit act" where
  "handle_thread h buf = sendG (ascii ''OK'')"

definition handle_vcont :: "host \<Rightarrow> u8 list \<Rightarrow> unit act" where
  "handle_vcont h buf = sendG []"

text \<open>The table \<^verbatim>\<open>m_handler\<close> that \<^verbatim>\<open>init\<close> fills.\<close>

definition handlers :: "(u8 \<times> (host \<Rightarrow> u8 list \<Rightarrow> unit act)) list" where
  "handlers =
     [(0x71, handle_query), (0x73, handle_step), (0x63, handle_continue), (0x44, handle_detach),
      (0x6b, handle_kill), (0x70, handle_reg_read), (0x50, handle_reg_write),
      (0x67, handle_reg_read_all), (0x47, handle_reg_write_all), (0x6d, handle_mem_read),
      (0x4d, handle_mem_write), (0x58, handle_mem_write_bin), (0x5a, handle_breakpoint_set),
      (0x7a, handle_breakpoint_delete), (0x48, handle_thread), (0x76, handle_vcont),
      (0x3f, handle_exception)]"

text \<open>What \<^verbatim>\<open>catch (exception&)\<close> catches: everything the code throws itself.\<close>

definition catchable :: "or1k_error \<Rightarrow> bool" where
  "catchable e =
     (case e of Assertion_failed \<Rightarrow> False | Process_exit _ \<Rightarrow> False | Host_fault \<Rightarrow> False
      | Diverges \<Rightarrow> False | _ \<Rightarrow> True)"

definition catchG :: "unit act \<Rightarrow> unit act \<Rightarrow> unit act" where
  "catchG m k g =
     (case m g of
        (Inl e, g') \<Rightarrow> if catchable e then k g' else (Inl e, g')
      | r \<Rightarrow> r)"

definition run_handler :: "host \<Rightarrow> u8 list \<Rightarrow> unit act" where
  "run_handler h buf =
     (case map_of handlers (hd buf) of
        None \<Rightarrow> sendG []
      | Some f \<Rightarrow> catchG (f h buf) (sendG (ascii ''E'' @ hex2 OR1KISS_GDB_ERR_INTERNAL)))"

text \<open>
  One turn of the loop of \<^verbatim>\<open>process_commands\<close>; the result tells whether the loop goes on. The received
  string is never empty while the connection is open.
\<close>

definition process_command :: "host \<Rightarrow> bool act" where
  "process_command h =
     bindG (rspG rsp_receive) (\<lambda>command g.
     if \<not> rsp_open (m_rsp g) then bindG (handle_detach h []) (\<lambda>_. returnG False) g
     else bindG (run_handler h (command @ [0])) (\<lambda>_. returnG True) g)"

fun process_commands :: "nat \<Rightarrow> host \<Rightarrow> gdb \<Rightarrow> (unit res \<times> gdb) option" where
  "process_commands 0 h g = None"
| "process_commands (Suc n) h g =
     (if m_mode g \<noteq> GDB_MODE_HALTED then Some (Inr (), g)
      else case process_command h g of
             (Inl e, g') \<Rightarrow> Some (Inl e, g')
           | (Inr False, g') \<Rightarrow> Some (Inr (), g')
           | (Inr True, g') \<Rightarrow> process_commands n h g')"

definition check_signals :: "unit act" where
  "check_signals =
     bindG (rspG rsp_peek) (\<lambda>ready.
     if \<not> ready then returnG ()
     else bindG (rspG recv_char) (\<lambda>c.
          if c = 0 then modifyG (set_mode GDB_MODE_KILLED)
          else if c = 3
          then bindG (modifyG (set_mode GDB_MODE_HALTED)) (\<lambda>_. sendG (stop_reply SIGINT))
          else returnG ()))"

text \<open>One turn of \<^verbatim>\<open>listen\<close>, and how the loop ends.\<close>

definition listen_turn :: "nat \<Rightarrow> host \<Rightarrow> gdb \<Rightarrow> (unit res \<times> gdb) option" where
  "listen_turn n h g =
     (case m_mode g of
        GDB_MODE_RUNNING \<Rightarrow> Some (check_signals g)
      | GDB_MODE_STEPPING \<Rightarrow> process_commands n h g
      | GDB_MODE_HALTED \<Rightarrow> process_commands n h g
      | GDB_MODE_KILLED \<Rightarrow> Some (Inr (), g))"

section \<open>The simulation under the debugger\<close>

definition new_gdb :: "or1k \<Rightarrow> elf option \<Rightarrow> rsp \<Rightarrow> gdb" where
  "new_gdb iss e r =
     \<lparr>m_iss = iss, m_elf = e, m_rsp = r, m_detached = False, m_show_warnings = False,
      m_mode = GDB_MODE_HALTED, m_pages = (\<lambda>_. None)\<rparr>"

text \<open>What \<^verbatim>\<open>gdb::step\<close> does with the result of the simulator's step; \<open>mode\<close> is the mode at its start.\<close>

definition report_step :: "gdb_mode \<Rightarrow> step_result \<Rightarrow> step_result act" where
  "report_step mode sr =
     (case sr of
        STEP_EXIT \<Rightarrow> bindG (get_gprG 3) (\<lambda>v. bindG (sendG (ascii ''W'' @ hex2 v)) (\<lambda>_. returnG STEP_EXIT))
      | STEP_BREAKPOINT \<Rightarrow>
          bindG (modifyG (set_mode GDB_MODE_HALTED)) (\<lambda>_.
          bindG (sendG (stop_reply SIGTRAP)) (\<lambda>_. returnG STEP_OK))
      | STEP_OK \<Rightarrow>
          if mode = GDB_MODE_STEPPING
          then bindG (modifyG (set_mode GDB_MODE_HALTED)) (\<lambda>_.
               bindG (sendG (stop_reply SIGTRAP)) (\<lambda>_. returnG STEP_OK))
          else returnG STEP_OK
      | STEP_WATCHPOINT \<Rightarrow> throwG Assertion_failed)"

definition step_budget :: "gdb_mode \<Rightarrow> u32 \<Rightarrow> u32" where
  "step_budget mode cycles =
     (case mode of GDB_MODE_STEPPING \<Rightarrow> 1 | GDB_MODE_HALTED \<Rightarrow> 0 | _ \<Rightarrow> cycles)"

definition gdb_step :: "nat \<Rightarrow> host \<Rightarrow> u32 \<Rightarrow> gdb \<Rightarrow> ((step_result \<times> u32) res \<times> gdb) option" where
  "gdb_step n h cycles g =
     (let mode = m_mode g
      in case step n h (step_budget mode cycles) (m_iss g) of
           None \<Rightarrow> None
         | Some (Inl e) \<Rightarrow> Some (Inl e, g)
         | Some (Inr (sr, c, s)) \<Rightarrow>
             let g' = g\<lparr>m_iss := s\<rparr>
             in Some (if mode = GDB_MODE_KILLED then (Inr (sr, c), g')
                      else bindG (report_step mode sr) (\<lambda>r. returnG (r, c)) g'))"

fun gdb_run :: "nat \<Rightarrow> nat \<Rightarrow> host \<Rightarrow> u32 \<Rightarrow> gdb \<Rightarrow> (step_result res \<times> gdb) option" where
  "gdb_run 0 n h quantum g = None"
| "gdb_run (Suc k) n h quantum g =
     (case gdb_step n h quantum g of
        None \<Rightarrow> None
      | Some (Inl e, g') \<Rightarrow> Some (Inl e, g')
      | Some (Inr (sr, _), g') \<Rightarrow>
          if sr = STEP_OK then gdb_run k n h quantum g' else Some (Inr sr, g'))"
end
