(* ===== verification/Debugger.thy ===== *)
theory Debugger
  imports Gdb Invariant
begin

text \<open>
  The debugger stub as a client of the simulator. Three locales are the interface between the command
  handlers and what they change: the connection, by sending (\<open>talk_frame\<close>), in addition the simulator,
  through its public operations only, and the page map (\<open>core_frame\<close>), and in addition the mode
  (\<open>gdb_frame\<close>). A property that these keep is kept by the handlers of the group. The interpretations give
  that the debugger keeps the simulator's invariant, that handlers take nothing from the connection,
  which is why the command loop ends, and which commands change the mode and the core. The last section
  relates the two threads to an abstract machine of a mode and a core.
\<close>

section \<open>Preserved properties\<close>

definition preserves :: "(gdb \<Rightarrow> bool) \<Rightarrow> 'a act \<Rightarrow> bool" where
  "preserves P m \<longleftrightarrow> (\<forall>g. P g \<longrightarrow> P (snd (m g)))"

named_theorems preserves_rules \<open>actions that keep a property of the debugger\<close>

lemma preservesD: "preserves P m \<Longrightarrow> m g = (r, g') \<Longrightarrow> P g \<Longrightarrow> P g'"
  by (metis preserves_def snd_conv)

lemma preserves_bind [preserves_rules]:
  "preserves P m \<Longrightarrow> (\<And>x. preserves P (f x)) \<Longrightarrow> preserves P (bindG m f)"
  by (auto simp: preserves_def bindG_def split: prod.split sum.split)

lemma preserves_bind_result:
  "preserves P m \<Longrightarrow> (\<And>x g g'. m g = (Inr x, g') \<Longrightarrow> preserves P (f x)) \<Longrightarrow> preserves P (bindG m f)"
  by (fastforce simp: preserves_def bindG_def split: prod.split sum.split)

lemma preserves_return [preserves_rules]: "preserves P (returnG x)"
  by (simp add: preserves_def returnG_def)

lemma preserves_throw [preserves_rules]: "preserves P (throwG e)"
  by (simp add: preserves_def throwG_def)

lemma preserves_lift [preserves_rules]: "preserves P (liftG m)"
  by (simp add: preserves_def liftG_def)

lemma preserves_if [preserves_rules]:
  "preserves P m \<Longrightarrow> preserves P m' \<Longrightarrow> preserves P (if b then m else m')"
  by simp

lemma preserves_prod [preserves_rules]: "(\<And>a b. preserves P (f a b)) \<Longrightarrow> preserves P (case x of (a, b) \<Rightarrow> f a b)"
  by (cases x) simp

lemma preserves_option [preserves_rules]:
  "preserves P m \<Longrightarrow> (\<And>x. preserves P (f x)) \<Longrightarrow> preserves P (case y of None \<Rightarrow> m | Some x \<Rightarrow> f x)"
  by (cases y) simp_all

lemma preserves_list [preserves_rules]:
  "preserves P m \<Longrightarrow> (\<And>x xs. preserves P (f x xs)) \<Longrightarrow> preserves P (case ys of [] \<Rightarrow> m | x # xs \<Rightarrow> f x xs)"
  by (cases ys) simp_all

lemma preserves_let [preserves_rules]: "(\<And>x. preserves P (f x)) \<Longrightarrow> preserves P (Let y f)"
  by simp

lemma preserves_catch [preserves_rules]: "preserves P m \<Longrightarrow> preserves P k \<Longrightarrow> preserves P (catchG m k)"
  by (auto simp: preserves_def catchG_def split: prod.split sum.split)

lemma preserves_parse [preserves_rules]:
  "preserves P (parse1 fmt buf)" "preserves P (parse2 fmt buf)" "preserves P (parse3 fmt buf)"
  by (simp_all only: parse1_def parse2_def parse3_def preserves_rules)

lemma preserves_read [preserves_rules]:
  "preserves P (get_sprG reg)" "preserves P (get_gprG n)" "preserves P (after_colon buf)"
  by (simp_all add: preserves_def get_sprG_def get_gprG_def after_colon_def returnG_def throwG_def)

lemma preserves_read_reg [preserves_rules]: "preserves P (read_reg r)"
  by (simp add: read_reg_def preserves_rules)

lemma preserves_read_regs [preserves_rules]: "preserves P (read_regs rs)"
  by (induction rs) (simp_all add: preserves_rules)

section \<open>Translation for the debugger\<close>

text \<open>A debug access leaves the MMU alone.\<close>

lemma tlb_hit_debug: "m_debug req \<Longrightarrow> tlb_hit req st way t = (r, q, t') \<Longrightarrow> t' = t"
  by (auto simp: tlb_hit_def Let_def split: if_splits)

lemma refill_debug: "m_debug req \<Longrightarrow> refill req st vpg pte cyc t = (r, q, t') \<Longrightarrow> t' = t"
  by (auto simp: refill_def Let_def split: if_splits)

lemma translate_debug:
  assumes "m_debug req" "translate vt req t e = Inr (r, q, t', e')"
  shows "t' = t"
proof (cases "find_way t (page_align (req_addr req)) (mmu_set t (req_addr req))")
  case None
  then have "table_walk vt req t e = Inr (r, q, t', e')"
    using assms by (simp add: translate_def Let_def)
  then show ?thesis using refill_debug[OF assms(1)] by (auto elim: table_walk_cases)
next
  case (Some way)
  then have "tlb_hit req (mmu_set t (req_addr req)) way t = (r, q, t')"
    using assms by (auto simp: translate_def Let_def split: prod.splits)
  then show ?thesis using tlb_hit_debug[OF assms(1)] by blast
qed

lemma translate_request_debug: "m_debug req \<Longrightarrow> translate vt req t e = Inr (r, q, t', e') \<Longrightarrow> m_debug q"
  by (auto simp: translate_def Let_def tlb_hit_def refill_def translated_def elim!: table_walk_cases
      split: option.splits if_splits)

lemma debug_translate_request: "m_debug (translate_request a)"
  by (simp add: translate_request_def)

text \<open>The loops as actions.\<close>

lemma mem_read_loop_act:
  "mem_read_loop h a len buf out =
     (if len = 0 then returnG out
      else bindG (to_phys h a) (\<lambda>pa. bindG (mem_read h pa buf (chunk len pa)) (\<lambda>buf'.
           mem_read_loop h (a + chunk len pa) (len - chunk len pa) buf'
             (out @ concat (map (\<lambda>b. hex2 (ucast b)) (take (unat (chunk len pa)) buf'))))))"
  by (rule ext, subst mem_read_loop.simps) simp

lemma mem_write_loop_act:
  "mem_write_loop h get a len data =
     (if len = 0 then returnG ()
      else bindG (to_phys h a) (\<lambda>pa.
           bindG (liftG (get_bytes get (unat (chunk len pa)) data)) (\<lambda>(bs, data').
           bindG (mem_write h pa bs (chunk len pa)) (\<lambda>_.
           mem_write_loop h get (a + chunk len pa) (len - chunk len pa) data'))))"
  by (rule ext, subst mem_write_loop.simps) simp

section \<open>What the handlers do\<close>

text \<open>The operations of the simulator that a command may use.\<close>

inductive debug_operation :: "host \<Rightarrow> or1k \<Rightarrow> or1k \<Rightarrow> bool" for h where
  dop_insert_breakpoint: "debug_operation h s (insert_breakpoint a s)"
| dop_remove_breakpoint: "debug_operation h s (remove_breakpoint a s)"
| dop_insert_watchpoint_r: "debug_operation h s (insert_watchpoint_r a sz s)"
| dop_remove_watchpoint_r: "debug_operation h s (remove_watchpoint_r a sz s)"
| dop_insert_watchpoint_w: "debug_operation h s (insert_watchpoint_w a sz s)"
| dop_remove_watchpoint_w: "debug_operation h s (remove_watchpoint_w a sz s)"
| dop_set_spr: "set_spr h reg v True s = Inr t \<Longrightarrow> debug_operation h s t"
| dop_register: "debug_operation h s (s\<lparr>gpr := (gpr s)[n := v]\<rparr>)"
| dop_environment: "debug_operation h s (s\<lparr>m_env := e\<rparr>)"

lemma debug_operation_public: "debug_operation h s t \<Longrightarrow> operation h s t"
  by (cases rule: debug_operation.cases) (auto intro: operation.intros)

text \<open>The commands that set a mode: \<^verbatim>\<open>s\<close>, \<^verbatim>\<open>c\<close>, \<^verbatim>\<open>D\<close> and \<^verbatim>\<open>k\<close>; and those that have a handler that may change the core:
  \<^verbatim>\<open>q\<close>, \<^verbatim>\<open>P\<close>, \<^verbatim>\<open>G\<close>, \<^verbatim>\<open>m\<close>, \<^verbatim>\<open>M\<close>, \<^verbatim>\<open>X\<close>, \<^verbatim>\<open>Z\<close> and \<^verbatim>\<open>z\<close>.\<close>

definition command_mode :: "u8 \<Rightarrow> gdb_mode option" where
  "command_mode b =
     (if b = 0x73 then Some GDB_MODE_STEPPING else if b = 0x63 then Some GDB_MODE_RUNNING
      else if b = 0x44 then Some GDB_MODE_RUNNING else if b = 0x6b then Some GDB_MODE_KILLED else None)"

definition changes_core :: "u8 \<Rightarrow> bool" where
  "changes_core b \<longleftrightarrow> b \<in> {0x71, 0x50, 0x47, 0x6d, 0x4d, 0x58, 0x5a, 0x7a}"

locale talk_frame =
  fixes P :: "gdb \<Rightarrow> bool" and h :: host
  assumes connection: "P g \<Longrightarrow> rx r = rx (m_rsp g) \<Longrightarrow> rsp_open r = rsp_open (m_rsp g) \<Longrightarrow> P (g\<lparr>m_rsp := r\<rparr>)"
begin

lemma send [preserves_rules]: "preserves P (sendG s)"
  by (auto simp: preserves_def sendG_def rspG_def send_format_def transmit_def
      intro!: connection split: sum.split)

lemma send_string [preserves_rules]: "preserves P (send_stringG s)"
  by (auto simp: preserves_def send_stringG_def rspG_def send_string_def transmit_def
      intro!: connection split: sum.split)

lemma reg_read_keeps [preserves_rules]: "preserves P (handle_reg_read h buf)"
  unfolding handle_reg_read_def by (intro preserves_rules)

lemma reg_read_all_keeps [preserves_rules]: "preserves P (handle_reg_read_all h buf)"
  unfolding handle_reg_read_all_def by (intro preserves_rules)

lemma exception_keeps [preserves_rules]: "preserves P (handle_exception h buf)"
  unfolding handle_exception_def by (intro preserves_rules)

lemma thread_keeps [preserves_rules]: "preserves P (handle_thread h buf)"
  unfolding handle_thread_def by (intro preserves_rules)

lemma vcont_keeps [preserves_rules]: "preserves P (handle_vcont h buf)"
  unfolding handle_vcont_def by (intro preserves_rules)

lemma catching [preserves_rules]: "preserves P m \<Longrightarrow> preserves P (catchG m (sendG s))"
  by (rule preserves_catch) (rule preserves_rules | assumption)+

lemma talk_handler:
  assumes "(b, f) \<in> set handlers" "command_mode b = None" "\<not> changes_core b"
  shows "preserves P (f h buf)"
  using assms by (auto simp: handlers_def command_mode_def changes_core_def intro: preserves_rules)

lemma only_talks:
  assumes "command_mode (hd buf) = None" "\<not> changes_core (hd buf)"
  shows "preserves P (run_handler h buf)"
  using talk_handler[OF map_of_SomeD assms]
  by (auto simp: run_handler_def intro: preserves_rules split: option.split)

end

locale core_frame = talk_frame +
  assumes iss: "P g \<Longrightarrow> debug_operation h (m_iss g) s \<Longrightarrow> P (g\<lparr>m_iss := s\<rparr>)"
    and pages: "P g \<Longrightarrow> P (g\<lparr>m_pages := p\<rparr>)"
begin

lemma iss_operation:
  "(\<And>s t. f s = Inr t \<Longrightarrow> debug_operation h s t) \<Longrightarrow> preserves P (issG f)"
  by (auto simp: preserves_def issG_def intro: iss split: sum.split)

lemma set_spr [preserves_rules]: "preserves P (set_sprG h reg v)"
  unfolding set_sprG_def by (rule iss_operation) (rule dop_set_spr)

lemma set_gpr [preserves_rules]: "preserves P (set_gprG n v)"
  unfolding set_gprG_def by (rule iss_operation) (auto intro: dop_register)

lemma write_reg [preserves_rules]: "preserves P (write_reg h r v)"
  by (simp add: write_reg_def preserves_rules)

lemma write_regs [preserves_rules]: "preserves P (write_regs h rs str)"
  by (induction rs arbitrary: str) (simp_all add: preserves_rules)

lemma points [preserves_rules]:
  "preserves P (set_point type a len)" "preserves P (delete_point type a len)"
  unfolding set_point_def delete_point_def
  by (auto intro!: preserves_rules iss_operation intro: debug_operation.intros)

lemma pages_modify [preserves_rules]: "preserves P (modifyG (\<lambda>g. g\<lparr>m_pages := f g\<rparr>))"
  by (simp add: preserves_def modifyG_def pages)

lemma debug_access_keeps [preserves_rules]: "preserves P (debug_access h req err)"
  by (auto simp: preserves_def debug_access_def intro: iss dop_environment split: sum.split prod.split)

lemma memory [preserves_rules]:
  "preserves P (mem_read h pa buf sz)" "preserves P (mem_write h pa buf sz)"
  by (simp_all add: mem_read_def mem_write_def debug_access_keeps)

lemma translate_data_keeps: "m_debug req \<Longrightarrow> preserves P (translate_data h req)"
  using iss[OF _ dop_environment]
  by (auto simp: preserves_def translate_data_def Let_def dest!: translate_debug split: sum.split prod.split)

lemma translate_insn_keeps: "m_debug req \<Longrightarrow> preserves P (translate_insn h req)"
  using iss[OF _ dop_environment]
  by (auto simp: preserves_def translate_insn_def Let_def dest!: translate_debug split: sum.split prod.split)

lemma active [preserves_rules]: "preserves P (translate_active h d i a)"
proof -
  let ?m = "if d then translate_data h (translate_request a) else returnG (MMU_TLB_MISS, translate_request a)"
  have "m_debug (snd x)" if "?m g = (Inr x, g')" for x g g'
    using that by (auto simp: translate_data_def returnG_def debug_translate_request Let_def
        dest: translate_request_debug[OF debug_translate_request] split: if_splits sum.splits)
  then show ?thesis
    unfolding translate_active_def Let_def
    by (intro preserves_bind_result)
      (auto intro!: preserves_rules translate_data_keeps translate_insn_keeps simp: debug_translate_request)
qed

lemma translation [preserves_rules]: "preserves P (gdb_translate h a)"
  using active by (auto simp: preserves_def gdb_translate_def)

lemma page_map [preserves_rules]: "preserves P (touch_page n)"
  by (auto simp: preserves_def touch_page_def pages split: option.split)

lemma physical [preserves_rules]: "preserves P (to_phys h a)"
  unfolding to_phys_def by (intro preserves_rules)

lemma read_loop [preserves_rules]: "preserves P (mem_read_loop h a len buf out)"
proof (induction "unat len" arbitrary: a len buf out rule: less_induct)
  case less
  then have "preserves P (mem_read_loop h (a + chunk len pa) (len - chunk len pa) buf' out')"
    if "len \<noteq> 0" for pa buf' out'
    using chunk_progress[OF that] by blast
  then show ?case by (subst mem_read_loop_act) (simp add: preserves_rules)
qed

lemma write_loop [preserves_rules]: "preserves P (mem_write_loop h get a len data)"
proof (induction "unat len" arbitrary: a len data rule: less_induct)
  case less
  then have "preserves P (mem_write_loop h get (a + chunk len pa) (len - chunk len pa) data')"
    if "len \<noteq> 0" for pa data'
    using chunk_progress[OF that] by blast
  then show ?case by (subst mem_write_loop_act) (simp add: preserves_rules split: prod.split)
qed

lemma rcmd_keeps [preserves_rules]: "preserves P (handle_rcmd h buf)"
  unfolding handle_rcmd_def by (intro preserves_rules)

lemma query_keeps [preserves_rules]: "preserves P (handle_query h buf)"
  unfolding handle_query_def by (intro preserves_rules)

lemma reg_write_keeps [preserves_rules]: "preserves P (handle_reg_write h buf)"
  unfolding handle_reg_write_def by (intro preserves_rules)

lemma reg_write_all_keeps [preserves_rules]: "preserves P (handle_reg_write_all h buf)"
  unfolding handle_reg_write_all_def by (intro preserves_rules)

lemma mem_read_keeps [preserves_rules]: "preserves P (handle_mem_read h buf)"
  unfolding handle_mem_read_def by (intro preserves_rules)

lemma mem_write_keeps [preserves_rules]: "preserves P (handle_mem_write h buf)"
  unfolding handle_mem_write_def by (intro preserves_rules)

lemma mem_write_bin_keeps [preserves_rules]: "preserves P (handle_mem_write_bin h buf)"
  unfolding handle_mem_write_bin_def by (intro preserves_rules)

lemma breakpoint_set_keeps [preserves_rules]: "preserves P (handle_breakpoint_set h buf)"
  unfolding handle_breakpoint_set_def by (intro preserves_rules)

lemma breakpoint_delete_keeps [preserves_rules]: "preserves P (handle_breakpoint_delete h buf)"
  unfolding handle_breakpoint_delete_def by (intro preserves_rules)

lemma core_handler:
  assumes "(b, f) \<in> set handlers" "command_mode b = None"
  shows "preserves P (f h buf)"
  using assms by (auto simp: handlers_def command_mode_def intro: preserves_rules)

lemma only_operates:
  assumes "command_mode (hd buf) = None"
  shows "preserves P (run_handler h buf)"
  using core_handler[OF map_of_SomeD assms]
  by (auto simp: run_handler_def intro: preserves_rules split: option.split)

end

locale gdb_frame = core_frame +
  assumes mode: "P g \<Longrightarrow> P (g\<lparr>m_mode := m\<rparr>)"
    and detached: "P g \<Longrightarrow> P (g\<lparr>m_detached := b\<rparr>)"
begin

lemma modes [preserves_rules]:
  "preserves P (modifyG (set_mode m))" "preserves P (modifyG (\<lambda>g. set_mode m (clear_pages g)))"
  "preserves P (modifyG (\<lambda>g. (set_mode m (clear_pages g))\<lparr>m_detached := b\<rparr>))"
  by (simp_all add: preserves_def modifyG_def set_mode_def clear_pages_def mode pages detached)

lemma step_keeps [preserves_rules]: "preserves P (handle_step h buf)"
  unfolding handle_step_def by (intro preserves_rules)

lemma continue_keeps [preserves_rules]: "preserves P (handle_continue h buf)"
  unfolding handle_continue_def by (intro preserves_rules)

lemma detach_keeps [preserves_rules]: "preserves P (handle_detach h buf)"
  unfolding handle_detach_def by (intro preserves_rules)

lemma kill_keeps [preserves_rules]: "preserves P (handle_kill h buf)"
  unfolding handle_kill_def by (intro preserves_rules)

lemma every_handler: "(c, f) \<in> set handlers \<Longrightarrow> preserves P (f h buf)"
  by (auto simp: handlers_def intro: preserves_rules)

lemma handler: "preserves P (run_handler h buf)"
proof (cases "map_of handlers (hd buf)")
  case None
  then show ?thesis by (simp add: run_handler_def send)
next
  case (Some f)
  then have "preserves P (f h buf)" using every_handler map_of_SomeD by metis
  with Some show ?thesis by (simp add: run_handler_def preserves_catch send)
qed

end

section \<open>The command loop ends\<close>

interpretation untouched: gdb_frame "\<lambda>g. rx (m_rsp g) = es \<and> rsp_open (m_rsp g) = b" h for es b h
  by unfold_locales simp_all

lemma recv_char_shrinks: "recv_char r = Inr (c, r') \<Longrightarrow> length (rx r') \<le> length (rx r)"
  using length_after_idle[of "rx r"]
  by (auto simp: recv_char_def rsp_close_def split: if_splits list.splits rx_event.splits)

lemma recv_end_keeps: "recv_end p k r = Inr (c, r') \<Longrightarrow> length (rx r') \<le> length (rx r)"
  by (auto simp: recv_end_def bindE_eq_Inr send_char_def Let_def dest!: recv_char_shrinks split: if_splits)

lemma recv_loop_shorter:
  "recv_loop p k r = Inr (c, r') \<Longrightarrow> rsp_open r' \<Longrightarrow> length (rx r') < length (rx r)"
proof (induction "length (rx r)" arbitrary: p k r rule: less_induct)
  case less
  from less(2) obtain ch q where q: "recv_char r = Inr (ch, q)"
    "(if \<not> rsp_open q then Inr ([], q) else if ch = 0x24 then recv_loop [] 0 q
      else if ch = 0x23 then recv_end p k q else recv_loop (p @ [ch]) ((k + scast ch) AND 0xff) q) = Inr (c, r')"
    by (subst (asm) recv_loop.simps) (auto simp: bindE_eq_Inr split: if_splits)
  have o: "rsp_open q" using q(2) less(3) by (auto split: if_splits)
  then have l: "length (rx q) < length (rx r)" using recv_char_shorter[OF q(1)] by simp
  show ?case
    using q(2) o l recv_end_keeps[of p k q c r'] less(1)[OF l _ less(3)]
    by (fastforce split: if_splits)
qed

lemma rsp_receive_shorter:
  "rsp_receive r = Inr (c, r') \<Longrightarrow> rsp_open r' \<Longrightarrow> length (rx r') < length (rx r)"
  unfolding rsp_receive_def by (rule recv_loop_shorter)

lemma process_command_shorter:
  assumes "process_command h g = (Inr True, g')"
  shows "length (rx (m_rsp g')) < length (rx (m_rsp g))"
proof -
  obtain c r where c: "rsp_receive (m_rsp g) = Inr (c, r)" "rsp_open r"
    and k: "run_handler h (c @ [0]) (g\<lparr>m_rsp := r\<rparr>) = (Inr (), g')"
    using assms by (auto simp: process_command_def bindG_def rspG_def returnG_def
        split: sum.splits prod.splits if_splits)
  from preservesD[OF untouched.handler[of "rx r" "rsp_open r"] k] have "rx (m_rsp g') = rx r" by simp
  with rsp_receive_shorter[OF c] show ?thesis by simp
qed

lemma process_command_goes_on: "process_command h g \<noteq> (Inr False, g')"
  by (auto simp: process_command_def handle_detach_def bindG_def rspG_def returnG_def sendG_def
      modifyG_def set_mode_def clear_pages_def send_format_def split: sum.splits prod.splits if_splits)

text \<open>C39: The command loop of the debugger ends: with as many turns as there are events left on the
  connection and one more it returns, and when it returns without an exception the debugger has left
  the halted mode.\<close>

theorem process_commands_returns:
  assumes "length (rx (m_rsp g)) < n"
  shows "\<exists>r g'. process_commands n h g = Some (r, g') \<and> (r = Inr () \<longrightarrow> m_mode g' \<noteq> GDB_MODE_HALTED)"
  using assms
proof (induction n arbitrary: g)
  case (Suc n)
  obtain r g' where p: "process_command h g = (r, g')" by (cases "process_command h g")
  consider "m_mode g \<noteq> GDB_MODE_HALTED" | e where "r = Inl e" | "r = Inr True" | "r = Inr False"
    by (cases r) auto
  then show ?case
  proof cases
    case 3
    with p Suc.prems process_command_shorter have "length (rx (m_rsp g')) < n" by fastforce
    from Suc.IH[OF this] p 3 show ?thesis by auto
  next
    case 4
    with p process_command_goes_on show ?thesis by metis
  qed (use p in auto)
qed simp

text \<open>C40: A debugger that closes its connection while the simulation is halted takes the simulator down:
  the command loop answers the closed connection with \<^verbatim>\<open>OK\<close>, and the exception of that \<^verbatim>\<open>send\<close> is not
  caught anywhere.\<close>

theorem closed_connection_escapes:
  assumes "m_mode g = GDB_MODE_HALTED" "rsp_open (m_rsp g)" "after_idle (rx (m_rsp g)) = []"
  shows "\<exists>g'. process_commands (Suc n) h g = Some (Inl Not_connected, g') \<and>
    m_mode g' = GDB_MODE_RUNNING \<and> m_detached g'"
proof -
  have "rsp_receive (m_rsp g) = Inr ([], rsp_close ((m_rsp g)\<lparr>rx := []\<rparr>))"
    using assms(2,3) unfolding rsp_receive_def
    by (subst recv_loop.simps) (simp add: recv_char_def OR1KISS_RSP_MAX_PACKET_SIZE_def rsp_close_def)
  then show ?thesis
    using assms(1)
    by (simp add: process_command_def bindG_def rspG_def rsp_close_def handle_detach_def modifyG_def sendG_def
        send_format_def set_mode_def clear_pages_def)
qed

section \<open>Properties of the simulator alone\<close>

text \<open>A property that the connection does not matter for is kept by the whole of \<^verbatim>\<open>listen\<close>.\<close>

locale iss_frame = gdb_frame +
  assumes any_connection: "P g \<Longrightarrow> P (g\<lparr>m_rsp := r\<rparr>)"
begin

lemma receive [preserves_rules]: "preserves P (rspG f)"
  by (auto simp: preserves_def rspG_def any_connection split: sum.split)

lemma process_command_keeps: "process_command h g = (r, g') \<Longrightarrow> P g \<Longrightarrow> P g'"
  using preservesD[OF receive] preservesD[OF detach_keeps] preservesD[OF handler]
  by (fastforce simp: process_command_def bindG_def returnG_def split: prod.splits sum.splits if_splits)

lemma process_commands_keeps: "process_commands n h g = Some (r, g') \<Longrightarrow> P g \<Longrightarrow> P g'"
proof (induction n arbitrary: g)
  case (Suc n)
  obtain x u where x: "process_command h g = (x, u)" by (cases "process_command h g")
  with Suc process_command_keeps[OF x] show ?case
    by (auto split: if_splits sum.splits bool.splits)
qed simp

lemma check_signals_keeps: "preserves P check_signals"
  unfolding check_signals_def by (intro preserves_rules)

lemma listen_keeps: "listen_turn n h g = Some (r, g') \<Longrightarrow> P g \<Longrightarrow> P g'"
  using process_commands_keeps preservesD[OF check_signals_keeps]
  by (fastforce simp: listen_turn_def split: gdb_mode.splits)

lemma report_keeps: "preserves P (report_step m sr)"
  by (cases sr) (simp_all add: report_step_def preserves_rules)

lemma simulate_keeps:
  assumes "gdb_step n h c g = Some (r, g')" "P g"
    and "\<And>sr c' s. step n h (step_budget (m_mode g) c) (m_iss g) = Some (Inr (sr, c', s)) \<Longrightarrow> P (g\<lparr>m_iss := s\<rparr>)"
  shows "P g'"
proof -
  show ?thesis
  proof (cases "g' = g")
    case False
    then obtain sr c' s where st: "step n h (step_budget (m_mode g) c) (m_iss g) = Some (Inr (sr, c', s))"
      and k: "g' = g\<lparr>m_iss := s\<rparr> \<or>
        bindG (report_step (m_mode g) sr) (\<lambda>x. returnG (x, c')) (g\<lparr>m_iss := s\<rparr>) = (r, g')"
      using assms(1) by (auto simp: gdb_step_def Let_def split: option.splits sum.splits if_splits)
    have "preserves P (bindG (report_step (m_mode g) sr) (\<lambda>x. returnG (x, c')))"
      by (intro preserves_rules report_keeps)
    from preservesD[OF this] k assms(3)[OF st] show ?thesis by blast
  qed (use assms(2) in simp)
qed

end

interpretation public: iss_frame "\<lambda>g. reachable h (m_iss g)" h for h
  by unfold_locales (auto intro: reachable_op debug_operation_public)

text \<open>No command executes an instruction.\<close>

lemma exception_instructions:
  "exception type a s = Inr t \<Longrightarrow> m_instructions t = m_instructions s \<and> gpr t = gpr s"
  by (auto simp: exception_eq exception_taken_def Let_def split: if_splits)

lemma update_timer_instructions:
  "update_timer s = Inr t \<Longrightarrow> m_instructions t = m_instructions s \<and> gpr t = gpr s"
  by (auto simp: update_timer_def Let_def bindE_eq_Inr split: if_splits dest: exception_instructions)

lemma doze_instructions:
  "doze h s = Inr t \<Longrightarrow> m_instructions t = m_instructions s \<and> gpr t = gpr s"
  by (auto simp: doze_def Let_def split: if_splits prod.splits dest!: update_timer_instructions)

lemma set_spr_instructions:
  assumes "set_spr h reg v dbg s = Inr t"
  shows "m_instructions t = m_instructions s"
proof -
  have "list_all (\<lambda>f. \<forall>v s. m_instructions (f v s) = m_instructions s) (map snd set_spr_table)"
    by (simp add: set_spr_table_def)
  then have "map_of set_spr_table reg = Some f \<Longrightarrow> m_instructions (f v s) = m_instructions s" for f s
    by (auto dest!: map_of_SomeD simp: list_all_iff)
  then show ?thesis
    using assms by (auto simp: set_spr_def Let_def split: if_splits option.splits dest!: doze_instructions)
qed

interpretation counted: iss_frame "\<lambda>g. m_instructions (m_iss g) = k" h for k h
proof
  fix g s assume "m_instructions (m_iss g) = k" "debug_operation h (m_iss g) s"
  then show "m_instructions (m_iss (g\<lparr>m_iss := s\<rparr>)) = k"
    by (auto elim!: debug_operation.cases simp: set_spr_instructions insert_breakpoint_def
      remove_breakpoint_def insert_watchpoint_r_def remove_watchpoint_r_def insert_watchpoint_w_def
      remove_watchpoint_w_def)
qed simp_all

section \<open>The two threads together\<close>

inductive debug_move :: "host \<Rightarrow> gdb \<Rightarrow> gdb \<Rightarrow> bool" for h where
  move_simulate: "gdb_step n h c g = Some (Inr x, g') \<Longrightarrow> debug_move h g g'"
| move_listen: "listen_turn n h g = Some (Inr (), g') \<Longrightarrow> debug_move h g g'"

inductive debugging :: "host \<Rightarrow> gdb \<Rightarrow> bool" for h where
  debug_start: "reachable h s \<Longrightarrow> debugging h (new_gdb s e r)"
| debug_next: "\<lbrakk>debugging h g; debug_move h g g'\<rbrakk> \<Longrightarrow> debugging h g'"

lemma debugging_reachable: "debugging h g \<Longrightarrow> reachable h (m_iss g)"
proof (induction rule: debugging.induct)
  case (debug_next g g')
  from debug_next(2) show ?case
  proof cases
    case (move_simulate n c x)
    then show ?thesis
      by (rule public.simulate_keeps) (auto intro: debug_next reachable_op op_step)
  next
    case (move_listen n)
    from public.listen_keeps[OF this debug_next(3)] show ?thesis .
  qed
qed (simp add: new_gdb_def)

text \<open>C37: The debugger cannot break the simulator. Whatever commands arrive, well formed or not, and
  however they interleave with the simulation, the simulator stays in a state that its public
  operations reach, so that its representation invariant holds.\<close>

theorem debugger_keeps_invariant:
  assumes "debugging h g"
  shows "reachable h (m_iss g) \<and> core_ok (m_iss g)"
  using debugging_reachable[OF assms] reachable_ok by blast

section \<open>Modes\<close>

lemma step_nothing:
  assumes "step n h 0 s = Some (Inr (sr, c, t))"
  shows "sr = STEP_OK \<and> m_instructions t = m_instructions s \<and> gpr t = gpr s"
proof -
  let ?s = "s\<lparr>m_limit := m_cycles s\<rparr>"
  obtain u v where u: "external_exception ?s = Inr u" "doze h u = Inr v" "quanta n h v = Some (Inr (sr, t))"
    using assms by (auto simp: step_def advance_def advance_begin_def bindF_def bindE_eq_Inr
        split: option.splits sum.splits)
  have q: "quiet ?s u"
    using u(1) by (auto simp: external_exception_def split: if_splits dest: exception_quiet)
  have "m_instructions u = m_instructions s \<and> gpr u = gpr s"
    using u(1) by (auto simp: external_exception_def split: if_splits dest: exception_instructions)
  moreover have "m_limit v = m_cycles v"
  proof -
    have l: "m_limit u = m_cycles u" using q by (simp add: quiet_def)
    have t: "m_limit t = m_limit s \<and> m_cycles t = m_cycles s" if "update_timer s = Inr t" for s t
      using that by (auto simp: update_timer_def Let_def bindE_eq_Inr quiet_def split: if_splits
          dest!: exception_quiet)
    show ?thesis using u(2) l by (auto simp: doze_def Let_def dest!: t split: if_splits prod.splits)
  qed
  then have "sr = STEP_OK \<and> t = v" using u(3) by (cases n) auto
  ultimately show ?thesis using doze_instructions[OF u(2)] by simp
qed

text \<open>
  What happens between the two threads, as a sequence of events: the simulation thread asks for a number of
  cycles and gets a result, the listening thread handles a command, by the first byte of its packet, or
  looks for a signal.
\<close>

datatype gdb_event = Simulated u32 step_result | Command u8 | Signal u8 | Silence

inductive run_of :: "('s \<Rightarrow> 'e \<Rightarrow> 's \<Rightarrow> bool) \<Rightarrow> 's \<Rightarrow> 'e list \<Rightarrow> 's \<Rightarrow> bool" for R where
  run_of_nil: "run_of R s [] s"
| run_of_cons: "\<lbrakk>R s e t; run_of R t es u\<rbrakk> \<Longrightarrow> run_of R s (e # es) u"

inductive_simps run_of_nil_iff: "run_of R s [] u"

lemma run_of_single: "R s e t \<Longrightarrow> run_of R s [e] t"
  by (rule run_of_cons[OF _ run_of_nil])

lemma run_of_simulation:
  assumes "run_of R s es t" "\<And>s e t. R s e t \<Longrightarrow> Q (f s) e (f t)"
  shows "run_of Q (f s) es (f t)"
  using assms(1) by induction (auto intro: run_of.intros assms(2))

text \<open>The moves of the stub.\<close>

inductive stub_move :: "host \<Rightarrow> gdb \<Rightarrow> gdb_event \<Rightarrow> gdb \<Rightarrow> bool" for h where
  do_simulate: "gdb_step n h c g = Some (Inr (r, c'), g') \<Longrightarrow> stub_move h g (Simulated c r) g'"
| do_command: "\<lbrakk>m_mode g = GDB_MODE_HALTED; rsp_receive (m_rsp g) = Inr (cmd, r);
     process_command h g = (Inr True, g')\<rbrakk> \<Longrightarrow> stub_move h g (Command (hd (cmd @ [0]))) g'"
| do_signal: "\<lbrakk>m_mode g = GDB_MODE_RUNNING; rsp_peek (m_rsp g) = Inr (True, r); recv_char r = Inr (b, r');
     check_signals g = (Inr (), g')\<rbrakk> \<Longrightarrow> stub_move h g (Signal b) g'"
| do_silence: "\<lbrakk>m_mode g = GDB_MODE_RUNNING; rsp_peek (m_rsp g) = Inr (False, r);
     check_signals g = (Inr (), g')\<rbrakk> \<Longrightarrow> stub_move h g Silence g'"

text \<open>
  The abstract machine: a mode and a core. It has no connection, no packets and no page map. A halted core is
  stepped by no cycle, and neither instructions nor registers change; a stepping core gets one cycle,
  whatever was asked for, and is halted after it, unless the program has exited; a running core gets what
  was asked for and is halted by a breakpoint; a killed debugger leaves the core to itself. Commands come
  only while it is halted: four of them set the mode and leave the core alone, eight may change the core
  by operations of the debugger but execute nothing, the rest does nothing. Signals come only while it is running: 3 halts
  it, 0 ends the debugger.
\<close>

inductive machine_move :: "host \<Rightarrow> gdb_mode \<times> or1k \<Rightarrow> gdb_event \<Rightarrow> gdb_mode \<times> or1k \<Rightarrow> bool" for h where
  stays_halted: "\<lbrakk>step n h 0 s = Some (Inr (STEP_OK, c', t)); m_instructions t = m_instructions s; gpr t = gpr s\<rbrakk> \<Longrightarrow>
    machine_move h (GDB_MODE_HALTED, s) (Simulated c STEP_OK) (GDB_MODE_HALTED, t)"
| single_step: "\<lbrakk>step n h 1 s = Some (Inr (r, c', t)); r = STEP_OK \<or> r = STEP_BREAKPOINT\<rbrakk> \<Longrightarrow>
    machine_move h (GDB_MODE_STEPPING, s) (Simulated c STEP_OK) (GDB_MODE_HALTED, t)"
| single_exit: "step n h 1 s = Some (Inr (STEP_EXIT, c', t)) \<Longrightarrow>
    machine_move h (GDB_MODE_STEPPING, s) (Simulated c STEP_EXIT) (GDB_MODE_STEPPING, t)"
| runs: "\<lbrakk>step n h c s = Some (Inr (r, c', t)); r = STEP_OK \<or> r = STEP_EXIT\<rbrakk> \<Longrightarrow>
    machine_move h (GDB_MODE_RUNNING, s) (Simulated c r) (GDB_MODE_RUNNING, t)"
| breaks: "step n h c s = Some (Inr (STEP_BREAKPOINT, c', t)) \<Longrightarrow>
    machine_move h (GDB_MODE_RUNNING, s) (Simulated c STEP_OK) (GDB_MODE_HALTED, t)"
| free: "step n h c s = Some (Inr (r, c', t)) \<Longrightarrow>
    machine_move h (GDB_MODE_KILLED, s) (Simulated c r) (GDB_MODE_KILLED, t)"
| mode_command: "command_mode b = Some m \<Longrightarrow>
    machine_move h (GDB_MODE_HALTED, s) (Command b) (m, s)"
| core_command: "\<lbrakk>command_mode b = None; changes_core b; (debug_operation h)\<^sup>*\<^sup>* s t; m_instructions t = m_instructions s\<rbrakk> \<Longrightarrow>
    machine_move h (GDB_MODE_HALTED, s) (Command b) (GDB_MODE_HALTED, t)"
| talk_command: "\<lbrakk>command_mode b = None; \<not> changes_core b\<rbrakk> \<Longrightarrow>
    machine_move h (GDB_MODE_HALTED, s) (Command b) (GDB_MODE_HALTED, s)"
| interrupt: "machine_move h (GDB_MODE_RUNNING, s) (Signal 3) (GDB_MODE_HALTED, s)"
| terminate: "machine_move h (GDB_MODE_RUNNING, s) (Signal 0) (GDB_MODE_KILLED, s)"
| ignored: "b \<noteq> 0 \<Longrightarrow> b \<noteq> 3 \<Longrightarrow> machine_move h (GDB_MODE_RUNNING, s) (Signal b) (GDB_MODE_RUNNING, s)"
| silence: "machine_move h (GDB_MODE_RUNNING, s) Silence (GDB_MODE_RUNNING, s)"

definition machine_of :: "gdb \<Rightarrow> gdb_mode \<times> or1k" where
  "machine_of g = (m_mode g, m_iss g)"

text \<open>What the handlers do to mode and core.\<close>

interpretation talking: talk_frame "\<lambda>g. m_mode g = m \<and> m_iss g = s" h for m s h
  by unfold_locales simp

interpretation operating: core_frame "\<lambda>g. m_mode g = m \<and> (debug_operation h)\<^sup>*\<^sup>* s (m_iss g)" h for m s h
  by unfold_locales (auto intro: rtranclp.rtrancl_into_rtrancl)

lemma sendG_mode: "sendG s g = (r, g') \<Longrightarrow> m_mode g' = m_mode g \<and> m_iss g' = m_iss g"
  using preservesD[OF talking.send] by blast

lemma mode_handler:
  assumes "command_mode (hd buf) = Some m" "run_handler h buf g = (r, g')"
  shows "m_mode g' = m \<and> m_iss g' = m_iss g"
  using assms
  by (auto simp: command_mode_def run_handler_def handlers_def catchG_def handle_step_def handle_continue_def
      handle_detach_def handle_kill_def bindG_def modifyG_def set_mode_def clear_pages_def
      dest!: sendG_mode split: if_splits prod.splits sum.splits)

lemma handler_machine:
  assumes "run_handler h buf g = (r, g')" "m_mode g = GDB_MODE_HALTED"
  shows "machine_move h (machine_of g) (Command (hd buf)) (machine_of g')"
proof (cases "command_mode (hd buf)")
  case (Some m)
  with mode_handler[OF Some assms(1)] assms(2) show ?thesis by (simp add: machine_of_def mode_command)
next
  case None
  show ?thesis
  proof (cases "changes_core (hd buf)")
    case True
    have "preserves (\<lambda>u. m_mode u = GDB_MODE_HALTED \<and> (debug_operation h)\<^sup>*\<^sup>* (m_iss g) (m_iss u)) (run_handler h buf)"
      by (rule operating.only_operates[OF None])
    from preservesD[OF this assms(1)] preservesD[OF counted.handler assms(1) refl] True None assms(2)
    show ?thesis by (simp add: machine_of_def core_command)
  next
    case False
    have "preserves (\<lambda>u. m_mode u = GDB_MODE_HALTED \<and> m_iss u = m_iss g) (run_handler h buf)"
      by (rule talking.only_talks[OF None False])
    from preservesD[OF this assms(1)] False None assms(2) show ?thesis
      by (simp add: machine_of_def talk_command)
  qed
qed

lemma command_machine:
  assumes "process_command h g = (Inr True, g')" "rsp_receive (m_rsp g) = Inr (cmd, r)"
    and "m_mode g = GDB_MODE_HALTED"
  shows "machine_move h (machine_of g) (Command (hd (cmd @ [0]))) (machine_of g')"
proof -
  have "run_handler h (cmd @ [0]) (g\<lparr>m_rsp := r\<rparr>) = (Inr (), g')"
    using assms(1,2)
    by (auto simp: process_command_def bindG_def rspG_def returnG_def split: sum.splits prod.splits if_splits)
  from handler_machine[OF this] assms(3) show ?thesis by (simp add: machine_of_def)
qed

lemma report_step_result:
  assumes "report_step m sr g = (Inr r, g')"
  shows "m_iss g' = m_iss g \<and>
    (sr = STEP_EXIT \<and> r = STEP_EXIT \<and> m_mode g' = m_mode g \<or>
     sr = STEP_BREAKPOINT \<and> r = STEP_OK \<and> m_mode g' = GDB_MODE_HALTED \<or>
     sr = STEP_OK \<and> r = STEP_OK \<and> m_mode g' = (if m = GDB_MODE_STEPPING then GDB_MODE_HALTED else m_mode g))"
  using assms
  by (cases sr) (auto simp: report_step_def bindG_def modifyG_def set_mode_def returnG_def get_gprG_def
      throwG_def dest!: sendG_mode split: prod.splits sum.splits if_splits)

lemma gdb_step_cases:
  assumes "gdb_step n h c g = Some (Inr (r, c'), g')"
  obtains sr s where "step n h (step_budget (m_mode g) c) (m_iss g) = Some (Inr (sr, c', s))"
    "if m_mode g = GDB_MODE_KILLED then r = sr \<and> g' = g\<lparr>m_iss := s\<rparr>
     else report_step (m_mode g) sr (g\<lparr>m_iss := s\<rparr>) = (Inr r, g')"
  using assms that
  by (auto simp: gdb_step_def Let_def bindG_def returnG_def split: option.splits sum.splits if_splits prod.splits)

lemma simulate_machine:
  assumes "gdb_step n h c g = Some (Inr (r, c'), g')"
  shows "machine_move h (machine_of g) (Simulated c r) (machine_of g')"
proof -
  obtain sr s where st: "step n h (step_budget (m_mode g) c) (m_iss g) = Some (Inr (sr, c', s))"
    and r: "if m_mode g = GDB_MODE_KILLED then r = sr \<and> g' = g\<lparr>m_iss := s\<rparr>
      else report_step (m_mode g) sr (g\<lparr>m_iss := s\<rparr>) = (Inr r, g')"
    using assms by (rule gdb_step_cases)
  show ?thesis
  proof (cases "m_mode g = GDB_MODE_KILLED")
    case True
    with st r show ?thesis by (auto simp: machine_of_def step_budget_def intro: free)
  next
    case False
    then have "report_step (m_mode g) sr (g\<lparr>m_iss := s\<rparr>) = (Inr r, g')" using r by simp
    note p = report_step_result[OF this]
    show ?thesis
    proof (cases "m_mode g")
      case GDB_MODE_HALTED
      then have z: "step n h 0 (m_iss g) = Some (Inr (sr, c', s))" using st by (simp add: step_budget_def)
      with step_nothing[OF z] p GDB_MODE_HALTED show ?thesis
        by (auto simp: machine_of_def intro: stays_halted)
    next
      case GDB_MODE_STEPPING
      then have "step n h 1 (m_iss g) = Some (Inr (sr, c', s))" using st by (simp add: step_budget_def)
      with p GDB_MODE_STEPPING show ?thesis
        by (auto simp: machine_of_def intro: single_step single_exit)
    next
      case GDB_MODE_RUNNING
      then have "step n h c (m_iss g) = Some (Inr (sr, c', s))" using st by (simp add: step_budget_def)
      with p GDB_MODE_RUNNING show ?thesis
        by (auto simp: machine_of_def intro: runs breaks)
    qed (use False in simp)
  qed
qed

lemma check_signals_result:
  assumes "check_signals g = (Inr (), g')" "rsp_peek (m_rsp g) = Inr (ready, r)"
  shows "m_iss g' = m_iss g \<and>
    (if \<not> ready then m_mode g' = m_mode g
     else \<exists>b r'. recv_char r = Inr (b, r') \<and>
       m_mode g' = (if b = 0 then GDB_MODE_KILLED else if b = 3 then GDB_MODE_HALTED else m_mode g))"
proof (cases ready)
  case False
  with assms show ?thesis by (auto simp: check_signals_def bindG_def rspG_def returnG_def)
next
  case True
  obtain b r' where b: "recv_char r = Inr (b, r')"
    using assms True by (cases "recv_char r") (auto simp: check_signals_def bindG_def rspG_def)
  consider "b = 0" | "b = 3" | "b \<noteq> 0" "b \<noteq> 3" by blast
  then show ?thesis
  proof cases
    case 2
    with assms True b have "sendG (stop_reply SIGINT) (set_mode GDB_MODE_HALTED (g\<lparr>m_rsp := r'\<rparr>)) = (Inr (), g')"
      by (simp add: check_signals_def bindG_def rspG_def modifyG_def)
    from sendG_mode[OF this] 2 True b show ?thesis by (simp add: set_mode_def)
  qed (use assms True b in \<open>auto simp: check_signals_def bindG_def rspG_def modifyG_def returnG_def set_mode_def\<close>)
qed

lemma stub_refines: "stub_move h g e g' \<Longrightarrow> machine_move h (machine_of g) e (machine_of g')"
proof (induction rule: stub_move.induct)
  case (do_signal g r b r' g')
  from check_signals_result[OF do_signal(4,2)] do_signal(1,3) show ?case
    by (auto simp: machine_of_def intro: interrupt terminate ignored)
next
  case (do_silence g r g')
  from check_signals_result[OF do_silence(3,2)] do_silence(1) show ?case
    by (auto simp: machine_of_def intro: silence)
qed (auto intro: simulate_machine command_machine)

text \<open>What a thread does in one turn is a sequence of these moves.\<close>

lemma process_commands_moves:
  "process_commands n h g = Some (Inr (), g') \<Longrightarrow> \<exists>bs. run_of (stub_move h) g (map Command bs) g'"
proof (induction n arbitrary: g)
  case (Suc n)
  show ?case
  proof (cases "m_mode g = GDB_MODE_HALTED")
    case False
    with Suc.prems show ?thesis by (auto intro!: exI[of _ "[]"] run_of_nil)
  next
    case True
    obtain x u where x: "process_command h g = (x, u)" by (cases "process_command h g")
    with Suc.prems True process_command_goes_on[of h g u] have t: "x = Inr True" "process_commands n h u = Some (Inr (), g')"
      by (auto split: sum.splits bool.splits)
    obtain cmd r where "rsp_receive (m_rsp g) = Inr (cmd, r)"
      using x t(1) by (auto simp: process_command_def bindG_def rspG_def split: sum.splits)
    with True x t(1) have "stub_move h g (Command (hd (cmd @ [0]))) u" by (auto intro: do_command)
    moreover obtain bs where "run_of (stub_move h) u (map Command bs) g'" using Suc.IH[OF t(2)] by blast
    ultimately show ?thesis
      by (intro exI[of _ "hd (cmd @ [0]) # bs"]) (simp add: run_of_cons)
  qed
qed simp

lemma check_signals_moves:
  assumes "check_signals g = (Inr (), g')" "m_mode g = GDB_MODE_RUNNING"
  shows "\<exists>e. stub_move h g e g'"
proof -
  obtain ready r where p: "rsp_peek (m_rsp g) = Inr (ready, r)"
    using assms(1) by (auto simp: check_signals_def bindG_def rspG_def split: sum.splits)
  with check_signals_result[OF assms(1) p] assms show ?thesis
    by (cases ready) (auto intro: do_signal do_silence)
qed

lemma debug_move_moves:
  assumes "debug_move h g g'"
  shows "\<exists>es. run_of (stub_move h) g es g'"
  using assms
proof cases
  case (move_simulate n c x)
  then show ?thesis by (cases x) (auto intro: run_of_single do_simulate)
next
  case (move_listen n)
  then show ?thesis
    using process_commands_moves[of n h g g'] check_signals_moves[of g g' h]
    by (cases "m_mode g") (auto simp: listen_turn_def intro: run_of_single run_of_nil)
qed

text \<open>C9: The stub refines a machine of a mode and a core. Each turn of either thread is a sequence of
  events, and mode and core move by the same events on the machine: a halted core executes nothing, a
  single step is one cycle, four commands change the mode and no other, only a signal or a breakpoint
  interrupts a running core, and a killed debugger stays killed.\<close>

theorem debugger_refines_machine:
  assumes "debug_move h g g'"
  shows "\<exists>events. run_of (stub_move h) g events g' \<and>
    run_of (machine_move h) (machine_of g) events (machine_of g')"
proof -
  obtain es where "run_of (stub_move h) g es g'" using debug_move_moves[OF assms] by blast
  with run_of_simulation[of "stub_move h" g es g' "machine_move h" machine_of] stub_refines show ?thesis by blast
qed

text \<open>A halted simulation is not quite at rest. What the simulation thread does while the debugger
  waits for commands, on a core that is awake: nothing but take a pending external interrupt, which
  moves the program counter that the user looks at to the interrupt vector.\<close>

theorem halted_core_takes_interrupts:
  assumes "m_mode g = GDB_MODE_HALTED" "m_pmr (m_iss g) AND PMR_DME = 0"
  defines "s \<equiv> (m_iss g)\<lparr>m_limit := m_cycles (m_iss g)\<rparr>"
  shows "gdb_step (Suc n) h c g = Some (Inr (STEP_OK, 0), g\<lparr>m_iss :=
    (if is_interrupt_pending s \<and> \<not> exception_masked EX_EXTERNAL s then exception_taken EX_EXTERNAL 0 s else s)\<rparr>)"
proof -
  define t where "t = (if is_interrupt_pending s \<and> \<not> exception_masked EX_EXTERNAL s
    then exception_taken EX_EXTERNAL 0 s else s)"
  have e: "external_exception s = Inr t"
    by (simp add: external_exception_def is_interrupt_pending_def exception_eq asynchronous_def t_def)
  have q: "m_pmr t AND PMR_DME = 0 \<and> m_limit t = m_cycles t"
    using assms(2) by (simp add: t_def s_def exception_taken_def exception_enter_def Let_def and.assoc)
  have "advance (Suc n) h 0 (m_iss g) = Some (Inr (STEP_OK, t))"
    using e q by (simp add: advance_def advance_begin_def s_def[symmetric] doze_def bindF_def)
  then have "step (Suc n) h 0 (m_iss g) = Some (Inr (STEP_OK, 0, t))"
    using q by (simp add: step_def bindF_def)
  then show ?thesis
    using assms(1) by (simp add: gdb_step_def step_budget_def report_step_def bindG_def returnG_def t_def)
qed

text \<open>A watchpoint ends the program. When the simulator reports that a watchpoint was hit, which the
  debugger's own commands can set, \<^verbatim>\<open>gdb::step\<close> runs into its \<^verbatim>\<open>assert(0)\<close>.\<close>

theorem watchpoint_aborts:
  assumes "step n h (step_budget (m_mode g) c) (m_iss g) = Some (Inr (STEP_WATCHPOINT, c', s))"
    and "m_mode g \<noteq> GDB_MODE_KILLED"
  shows "gdb_step n h c g = Some (Inl Assertion_failed, g\<lparr>m_iss := s\<rparr>)"
  using assms by (simp add: gdb_step_def report_step_def bindG_def throwG_def)

section \<open>Examples\<close>

text \<open>A core about to load the word at address 2, which is watched. The access is misaligned as well, so
  that the exception for it is taken first.\<close>

definition watched_insn :: instruction where
  "watched_insn = zero_insn\<lparr>i_addr := 0x100, i_exec := X_mem X_lw, i_dest := PGpr 3, i_src1 := PGpr 0, i_imm := 2\<rparr>"

definition demo_watched :: or1k where
  "demo_watched = insert_watchpoint_r 2 4
     (demo_core\<lparr>m_decode_cache := dc_store 0x100 watched_insn (new_decode_cache 10 (\<lambda>_. zero_insn))\<rparr>)"

definition watched_fetched :: or1k where
  "watched_fetched = (begin_cycle (clear_requests (demo_watched\<lparr>m_limit := 1\<rparr>)))
     \<lparr>m_ireq := (m_ireq demo_core)\<lparr>m_super := True, req_addr := 0x100, req_cycles := 0\<rparr>, m_insn := 0\<rparr>"

lemma watched_fetch:
  "fetch demo_host (begin_cycle (clear_requests (demo_watched\<lparr>m_limit := 1\<rparr>))) =
     Inr (Some watched_insn, watched_fetched)"
  using demo_flags(1) demo_modes(1)
  by (simp add: fetch_def fetch_translate_def Let_def begin_cycle_def clear_requests_def insert_watchpoint_r_def
      demo_watched_def watched_insn_def is_immu_active_def is_supervisor_def demo_core_fields demo_core_more dc_lookup_def
      dc_store_def dc_index_def zero_insn_def is_decode_cache_off_def dc_is_enabled_def
      new_decode_cache_def dc_invalidate_all_def DECODE_CACHE_OFF_def watched_fetched_def)

lemma watched_fetched_fields:
  "gpr watched_fetched = replicate 32 0" "m_evba watched_fetched = 0" "m_cycles watched_fetched = 1"
  "m_limit watched_fetched = 1" "m_jump_insn watched_fetched = 0" "m_instructions watched_fetched = 1"
  "m_trace_enabled watched_fetched = False" "m_breakpoints watched_fetched = []"
  "m_tick watched_fetched = new_tick" "m_pic_sr watched_fetched = 0"
  "m_stop_requested watched_fetched = False" "m_break_requested watched_fetched = False"
  "m_dreq watched_fetched = new_request\<lparr>m_imem := False\<rparr>"
  "m_watchpoints_r watched_fetched = [\<lparr>wp_addr = 2, wp_size = 4\<rparr>]"
  by (simp_all add: watched_fetched_def demo_watched_def insert_watchpoint_r_def begin_cycle_def clear_requests_def
      demo_core_fields demo_core_more) (simp add: demo_core_def power_on_def)

definition awaiting :: "or1k \<Rightarrow> bool" where
  "awaiting s \<longleftrightarrow> m_breakpoints s = [] \<and> m_tick s = new_tick \<and> m_pic_sr s = 0 \<and>
     \<not> m_stop_requested s \<and> \<not> m_break_requested s \<and> wpe_hit (m_wp_event s) \<and> m_cycles s = m_limit s \<and>
     \<not> m_trace_enabled s"

lemma watched_executed:
  "\<exists>t. execute_fetched demo_host (Some watched_insn) watched_fetched = Inr t \<and> awaiting t"
proof -
  let ?q = "(m_dreq watched_fetched)\<lparr>m_read := True, m_excl := False, req_addr := 2,
    req_data := le_bytes 4 (0 :: u32), req_size := 4, m_super := is_supervisor watched_fetched, req_cycles := 0\<rparr>"
  let ?s = "check_watchpoints ?q (watched_fetched\<lparr>m_trace_addr := 2\<rparr>)"
  have w: "wp_triggered ?q (watched_fetched\<lparr>m_trace_addr := 2\<rparr>)"
    by (simp add: wp_triggered_def watched_fetched_fields is_dmem_def new_request_def wp_overlaps_def)
  have v: "vectors_aligned ?s"
    by (simp add: check_watchpoints_def w vectors_aligned_def watched_fetched_fields is_aligned_def)
  let ?t = "exception_taken EX_DATA_ALIGNMENT 2 ?s"
  have "transact demo_host ((m_dreq watched_fetched)\<lparr>m_read := True, m_excl := False, req_addr := 2,
      req_data := le_bytes 4 (0 :: u32), req_size := 4\<rparr>) watched_fetched = Inr (False, ?q, ?t)"
    using v by (simp add: transact_def Let_def watched_fetched_fields is_dmem_def new_request_def req_is_aligned_def
        is_aligned_def abort_access_def exception_eq exception_masked_def)
  moreover have g: "gpr ?t = replicate 32 0"
    by (simp add: exception_taken_def Let_def check_watchpoints_def w watched_fetched_fields)
  ultimately have "execute_orbis32_lw demo_host watched_insn watched_fetched =
      Inr (?t\<lparr>gpr := (replicate 32 0)[3 := of_le_bytes (le_bytes 4 (0 :: u32))], m_dreq := ?q\<rparr>)" (is "_ = Inr ?u")
    by (simp add: execute_orbis32_lw_def data_access_def watched_insn_def get_op_def put_op_def
        watched_fetched_fields)
  moreover have "awaiting ?u"
    by (simp add: awaiting_def exception_taken_def exception_enter_def Let_def check_watchpoints_def w
        watched_fetched_fields(1-12))
  moreover have "i_exec watched_insn = X_mem X_lw" by (simp add: watched_insn_def)
  ultimately show ?thesis
    by (intro exI[of _ ?u]) (simp add: execute_fetched_def awaiting_def)
qed

lemma watched_step: "\<exists>t. step 2 demo_host 1 demo_watched = Some (Inr (STEP_WATCHPOINT, 1, t))"
proof -
  let ?s = "demo_watched\<lparr>m_limit := 1\<rparr>"
  have b: "advance_begin demo_host 1 demo_watched = Inr ?s"
    by (simp add: advance_begin_def external_exception_def doze_def demo_watched_def insert_watchpoint_r_def
        demo_core_more)
  have l: "m_cycles ?s < m_limit ?s" "quantum_limit (clear_requests ?s) = 1" "m_cycles (clear_requests ?s) = 0"
    by (simp_all add: demo_watched_def insert_watchpoint_r_def demo_core_more quantum_limit_def clear_requests_def
        Let_def next_breakpoint_def tick_enabled_def new_tick_def)
  obtain u where u: "execute_fetched demo_host (Some watched_insn) watched_fetched = Inr u" "awaiting u"
    using watched_executed by blast
  define x where "x = update_pc 1 (restore_fixed u)"
  obtain k v where x: "x = (k, v)" by (cases x)
  have v: "awaiting v"
    using u(2) x by (auto simp: x_def update_pc_def restore_fixed_def awaiting_def Let_def split: if_splits)
  have c: "cycle demo_host 1 (clear_requests ?s) = Inr (k, v)"
    unfolding cycle_def watched_fetch bindE_Inr prod.case u(1) x_def[symmetric] x ..
  have q: "mini_quantum (Suc (Suc 0)) demo_host 1 (clear_requests ?s) = Some (Inr (False, v))"
    using l c v by (simp add: bindF_def awaiting_def)
  define t where "t = v\<lparr>m_tick_stamp := m_cycles v\<rparr>"
  have e: "bindE (update_timer v) external_exception = Inr t"
    using v by (simp add: update_timer_def tick_enabled_def new_tick_def awaiting_def external_exception_def t_def)
  have "quanta 2 demo_host ?s = Some (Inr (STEP_WATCHPOINT, t))"
    using l q e v
    by (simp add: numeral_2_eq_2 bindF_def Let_def t_def breakpoint_hit_def watchpoint_hit_def awaiting_def
        del: mini_quantum.simps)
  then have "advance 2 demo_host 1 demo_watched = Some (Inr (STEP_WATCHPOINT, t))"
    using b by (simp add: advance_def bindF_def)
  then show ?thesis using v by (simp add: step_def bindF_def t_def awaiting_def)
qed

definition demo_gdb :: "or1k \<Rightarrow> gdb_mode \<Rightarrow> gdb" where
  "demo_gdb s m = (new_gdb s None demo_rsp)\<lparr>m_mode := m\<rparr>"

lemma demo_gdb_fields [simp]:
  "m_iss (demo_gdb s m) = s" "m_mode (demo_gdb s m) = m" "m_rsp (demo_gdb s m) = demo_rsp"
  "m_elf (demo_gdb s m) = None" "m_pages (demo_gdb s m) = (\<lambda>_. None)"
  by (simp_all add: demo_gdb_def new_gdb_def)

theorem watchpoint_aborts_witness:
  "\<exists>g'. gdb_step 2 demo_host 1 (demo_gdb demo_watched GDB_MODE_RUNNING) = Some (Inl Assertion_failed, g')"
proof -
  obtain t where "step 2 demo_host 1 demo_watched = Some (Inr (STEP_WATCHPOINT, 1, t))"
    using watched_step by blast
  then have "step 2 demo_host (step_budget (m_mode (demo_gdb demo_watched GDB_MODE_RUNNING)) 1)
      (m_iss (demo_gdb demo_watched GDB_MODE_RUNNING)) = Some (Inr (STEP_WATCHPOINT, 1, t))"
    by (simp add: step_budget_def)
  from watchpoint_aborts[OF this] show ?thesis by simp
qed

theorem process_commands_returns_witness:
  "\<exists>r g'. process_commands 1 demo_host (demo_gdb demo_core GDB_MODE_HALTED) = Some (r, g')"
  using process_commands_returns[of "demo_gdb demo_core GDB_MODE_HALTED" 1 demo_host]
  by (auto simp: demo_rsp_def)

theorem closed_connection_escapes_witness:
  "\<exists>g'. process_commands (Suc 0) demo_host (demo_gdb demo_core GDB_MODE_HALTED) = Some (Inl Not_connected, g')"
  using closed_connection_escapes[of "demo_gdb demo_core GDB_MODE_HALTED" 0 demo_host]
  by (auto simp: demo_rsp_def)

theorem debugger_keeps_invariant_witness:
  "\<exists>s. debugging demo_host (new_gdb s None demo_rsp) \<and> core_ok s"
proof -
  obtain s where s: "new_or1k (new_env ENDIAN_BIG (\<lambda>_. None)) 0 (\<lambda>_. zero_insn) = Inr s"
    using new_or1k_demo by blast
  have d: "debugging demo_host (new_gdb s None demo_rsp)" by (rule debug_start[OF reachable_new[OF s]])
  from debugger_keeps_invariant[OF d] d show ?thesis by (auto simp: new_gdb_def)
qed

text \<open>A debugger that sends \<^verbatim>\<open>$s#73\<close>, and the single step that the simulation then makes although it was asked for
  a thousand cycles.\<close>

definition demo_session :: gdb where
  "demo_session = (demo_gdb demo_running GDB_MODE_HALTED)
     \<lparr>m_rsp := demo_rsp\<lparr>rx := map Rx_char [0x24, 0x73, 0x23, 0x37, 0x33]\<rparr>\<rparr>"

lemma demo_session_receives:
  "rsp_receive (m_rsp demo_session) = Inr ([0x73, 0], demo_rsp\<lparr>tx := [0x2b]\<rparr>)"
  using recv_wire[where s = "[0x73]" and r = "m_rsp demo_session" and es = "[]" and ?c1.0 = "0x37" and ?c2.0 = "0x33"]
  by (simp add: demo_session_def plain_def OR1KISS_RSP_MAX_PACKET_SIZE_def demo_rsp_def checksum_def char2int_def)

theorem debugger_refines_machine_witness:
  "\<exists>g1 g2 es fs. debug_move demo_host demo_session g1 \<and> debug_move demo_host g1 g2 \<and>
     run_of (machine_move demo_host) (GDB_MODE_HALTED, demo_running) es (GDB_MODE_STEPPING, demo_running) \<and>
     run_of (machine_move demo_host) (GDB_MODE_STEPPING, demo_running) fs (GDB_MODE_HALTED, m_iss g2) \<and>
     m_next_pc (m_iss g2) = 0x104"
proof -
  let ?g1 = "(set_mode GDB_MODE_STEPPING (clear_pages demo_session))\<lparr>m_rsp := demo_rsp\<lparr>tx := [0x2b]\<rparr>\<rparr>"
  have f: "m_mode demo_session = GDB_MODE_HALTED" "m_iss demo_session = demo_running"
    by (simp_all add: demo_session_def)
  have "process_command demo_host demo_session = (Inr True, ?g1)"
    by (simp add: process_command_def bindG_def rspG_def demo_session_receives run_handler_def handlers_def
        catchG_def handle_step_def modifyG_def returnG_def demo_rsp_def set_mode_def clear_pages_def)
  then have "process_commands 2 demo_host demo_session = Some (Inr (), ?g1)"
    by (simp add: numeral_2_eq_2 f set_mode_def clear_pages_def)
  then have d1: "debug_move demo_host demo_session ?g1"
    by (intro move_listen[of 2]) (simp add: listen_turn_def f)
  obtain t where t: "step 2 demo_host 1 demo_running = Some (Inr (STEP_OK, 1, t))" "m_next_pc t = 0x104"
    using demo_step by blast
  have g1: "m_mode ?g1 = GDB_MODE_STEPPING" "m_iss ?g1 = demo_running" "m_rsp ?g1 = demo_rsp\<lparr>tx := [0x2b]\<rparr>"
    by (simp_all add: set_mode_def clear_pages_def f)
  have "\<exists>g2. gdb_step 2 demo_host 1000 ?g1 = Some (Inr (STEP_OK, 1), g2) \<and> m_iss g2 = t \<and> m_mode g2 = GDB_MODE_HALTED"
    using t(1) g1
    by (simp add: gdb_step_def step_budget_def report_step_def bindG_def modifyG_def set_mode_def sendG_def rspG_def
        send_format_def transmit_def returnG_def demo_rsp_def)
  then obtain g2 where g2: "gdb_step 2 demo_host 1000 ?g1 = Some (Inr (STEP_OK, 1), g2)" "m_iss g2 = t"
    "m_mode g2 = GDB_MODE_HALTED"
    by blast
  have d2: "debug_move demo_host ?g1 g2" by (rule move_simulate[OF g2(1)])
  from debugger_refines_machine[OF d1] debugger_refines_machine[OF d2] d1 d2 g1(1,2) g2(2,3) f t(2)
  show ?thesis unfolding machine_of_def by metis
qed

theorem halted_core_takes_interrupts_witness:
  "\<exists>g'. gdb_step (Suc 0) demo_host 7 (demo_gdb (demo_core\<lparr>m_status := SR_IEE, m_pic_mr := 4, m_pic_sr := 4\<rparr>)
       GDB_MODE_HALTED) = Some (Inr (STEP_OK, 0), g') \<and> m_next_pc (m_iss g') = 0x800"
proof -
  let ?s = "demo_core\<lparr>m_status := SR_IEE, m_pic_mr := 4, m_pic_sr := 4\<rparr>"
  have "m_pmr ?s = 0" "m_evba ?s = 0" by (simp_all add: demo_core_more demo_core_fields)
  with halted_core_takes_interrupts[of "demo_gdb ?s GDB_MODE_HALTED" 0 demo_host 7] show ?thesis
    by (simp add: is_interrupt_pending_def exception_masked_def is_ext_irq_enabled_def exception_taken_def
        asynchronous_def exception_target_def EXCEPTION_VECTOR_def exception_enter_def Let_def is_delay_insn_def
        demo_core_fields SR_IEE_def SR_SM_def SR_DSX_def SR_TEE_def SR_IME_def SR_DME_def SR_EPH_def)
qed

end
