(* ===== verification/Data_Access.thy ===== *)
theory Data_Access
  imports Execute
begin

text \<open>
  What loads and stores do to memory, to registers and to the flag when the address is served from
  a direct pointer with the data MMU off: a value that is stored is the value that is loaded, in
  every width and sign extension, and a conditional store succeeds exactly when its reservation is
  for the address and the word has not changed since.
\<close>

section \<open>Transactions on direct memory\<close>

text \<open>A data request as the instructions make them, served from the host address \<open>p\<close>.\<close>

definition served :: "request \<Rightarrow> or1k \<Rightarrow> nat \<Rightarrow> bool" where
  "served req s p \<longleftrightarrow> is_dmem req \<and> \<not> m_debug req \<and> req_endian req = host_endian \<and>
     basic_size (req_size req) \<and> unat (req_size req) \<le> length (req_data req) \<and>
     req_is_aligned req \<and> \<not> is_dmmu_active s \<and>
     get_data_ptr (m_env s) (req_addr req) = Some p"

text \<open>The state before the transfer, and the request as it is sent.\<close>

definition prepared :: "request \<Rightarrow> or1k \<Rightarrow> or1k" where
  "prepared req s =
     (let s = check_watchpoints req (s\<lparr>m_trace_addr := req_addr req\<rparr>)
      in if m_excl req then count_exclusive req s else s)"

definition issued :: "request \<Rightarrow> or1k \<Rightarrow> request" where
  "issued req s = req\<lparr>m_super := is_supervisor s, req_cycles := 0\<rparr>"

lemma check_watchpoints_fields [simp]:
  "m_env (check_watchpoints req s) = m_env s" "gpr (check_watchpoints req s) = gpr s"
  "m_status (check_watchpoints req s) = m_status s" "m_dreq (check_watchpoints req s) = m_dreq s"
  "m_evba (check_watchpoints req s) = m_evba s"
  by (simp_all add: check_watchpoints_def)

lemma prepared_fields [simp]:
  "m_env (prepared req s) = m_env s" "gpr (prepared req s) = gpr s"
  "m_status (prepared req s) = m_status s" "m_dreq (prepared req s) = m_dreq s"
  by (simp_all add: prepared_def Let_def count_exclusive_def)

lemma transact_served:
  assumes "served req s p" "m_excl req \<longrightarrow> req_size req = SIZE_WORD"
  shows "transact h req s = port_access h (issued req s) (prepared (issued req s) s)"
  using assms
  by (simp add: transact_def served_def issued_def prepared_def is_dmem_def req_is_aligned_def
      data_translate_def is_dmmu_active_def Let_def count_exclusive_def is_write_def
      check_watchpoints_def)

lemma served_ptr:
  "served req s p \<Longrightarrow> direct_memory_ptr (issued req s) (m_env s) =
     ((issued req s)\<lparr>req_cycles := m_data_cycles (m_env s)\<rparr>, Some p)"
  by (simp add: served_def issued_def direct_memory_ptr_def is_dmem_def)

text \<open>The cycles of an access are added to the counter and to the limit.\<close>

definition charged :: "u64 \<Rightarrow> or1k \<Rightarrow> or1k" where
  "charged c s = s\<lparr>m_cycles := m_cycles s + c, m_limit := m_limit s + c\<rparr>"

lemma charged_fields [simp]:
  "m_env (charged c s) = m_env s" "gpr (charged c s) = gpr s" "m_status (charged c s) = m_status s"
  "m_dreq (charged c s) = m_dreq s"
  by (simp_all add: charged_def)

lemma prepared_env_same: "(prepared req s)\<lparr>m_env := m_env s\<rparr> = prepared req s"
proof -
  have "x\<lparr>m_env := m_env x\<rparr> = x" for x :: or1k by simp
  from this[of "prepared req s"] show ?thesis by simp
qed

lemma issued_basic:
  assumes "served req s p"
  shows "basic_size (req_size (issued req s))" "unat (req_size (issued req s)) \<le> length (req_data (issued req s))"
    "m_read (issued req s) = m_read req" "m_excl (issued req s) = m_excl req"
    "m_debug (issued req s) = False" "req_size (issued req s) = req_size req"
    "req_data (issued req s) = req_data req"
    "wire_bytes (issued req s) (m_env s) bs = stored_bytes (m_env s) bs"
  using assms by (simp_all add: served_def issued_def wire_bytes_stored)

lemma port_access_success:
  assumes "convert_and_transact (h_env h) req (m_env s) = Inr (RESP_SUCCESS, req', e)"
    and "\<not> m_debug req'" "\<not> m_excl req'"
  shows "port_access h req s = Inr (True, req', charged (req_cycles req') (s\<lparr>m_env := e\<rparr>))"
  using assms by (simp add: port_access_def charged_def Let_def)

lemma transact_write:
  assumes sv: "served req s p" and w: "\<not> m_read req" "\<not> m_excl req"
    and "store_bytes (host_mem (m_env s)) p
           (stored_bytes (m_env s) (take (unat (req_size req)) (req_data req))) = Inr m'"
  shows "\<exists>c. transact h req s = Inr (True, (issued req s)\<lparr>req_cycles := c\<rparr>,
     charged c ((prepared (issued req s) s)\<lparr>m_env := (m_env s)\<lparr>host_mem := m'\<rparr>\<rparr>))"
proof -
  let ?s = "prepared (issued req s) s"
  have "convert_and_transact (h_env h) (issued req s) (m_env ?s) =
      Inr (RESP_SUCCESS, (issued req s)\<lparr>req_cycles := m_data_cycles (m_env s) + m_data_cycles (m_env s)\<rparr>,
           (m_env s)\<lparr>host_mem := m'\<rparr>)"
    using assms issued_basic[OF sv]
    by (subst prepared_fields(1), subst convert_and_transact_direct_write[OF _ _ served_ptr[OF sv]]) simp_all
  from port_access_success[OF this] show ?thesis
    using w issued_basic[OF sv] by (auto simp: transact_served[OF sv])
qed

lemma transact_read:
  assumes sv: "served req s p" and r: "m_read req" "\<not> m_excl req"
    and "load_bytes (host_mem (m_env s)) p (unat (req_size req)) = Inr bs"
  shows "\<exists>c. transact h req s =
     Inr (True, (issued req s)\<lparr>req_cycles := c, req_data := stored_bytes (m_env s) bs @
                   drop (unat (req_size req)) (req_data req)\<rparr>,
          charged c (prepared (issued req s) s))"
proof -
  let ?s = "prepared (issued req s) s"
  have "convert_and_transact (h_env h) (issued req s) (m_env ?s) =
      Inr (RESP_SUCCESS, (issued req s)\<lparr>req_cycles := m_data_cycles (m_env s) + m_data_cycles (m_env s),
             req_data := stored_bytes (m_env s) bs @ drop (unat (req_size req)) (req_data req)\<rparr>, m_env s)"
    using assms issued_basic[OF sv]
    by (subst prepared_fields(1), subst convert_and_transact_direct_read[OF _ _ served_ptr[OF sv]]) simp_all
  from port_access_success[OF this] show ?thesis
    using r issued_basic[OF sv] by (auto simp: transact_served[OF sv] prepared_env_same)
qed

section \<open>Loads and stores\<close>

text \<open>An instruction whose data address is served.\<close>

definition data_request :: "instruction \<Rightarrow> bool \<Rightarrow> bool \<Rightarrow> u32 \<Rightarrow> u32 \<Rightarrow> u32 \<Rightarrow> or1k \<Rightarrow> request" where
  "data_request ci rd excl sz a v s =
     (m_dreq s)\<lparr>m_read := rd, m_excl := excl, req_addr := a + i_imm ci, req_data := le_bytes 4 v,
               req_size := sz\<rparr>"

definition word_access :: "instruction \<Rightarrow> u32 \<Rightarrow> u32 \<Rightarrow> or1k \<Rightarrow> nat \<Rightarrow> bool" where
  "word_access ci sz a s p \<longleftrightarrow>
     is_dmem (m_dreq s) \<and> \<not> m_debug (m_dreq s) \<and> req_endian (m_dreq s) = host_endian \<and>
     sz \<in> {SIZE_BYTE, SIZE_HALFWORD, SIZE_WORD} \<and> is_aligned (a + i_imm ci) sz \<and>
     \<not> is_dmmu_active s \<and> get_data_ptr (m_env s) (a + i_imm ci) = Some p \<and>
     allocated (host_mem (m_env s)) p (unat sz)"

lemma word_access_served:
  "word_access ci sz a s p \<Longrightarrow> served (data_request ci rd excl sz a v s) s p"
  by (auto simp: word_access_def served_def data_request_def is_dmem_def basic_size_def req_is_aligned_def)

lemma put_same: "n < length (gpr s) \<Longrightarrow> gpr s ! n = v \<Longrightarrow> put_op (PGpr n) v s = Inr s"
  by (auto simp: put_op_def)

lemma data_access_store:
  assumes wa: "word_access ci sz a s p"
    and ops: "get_op ci (i_src1 ci) s = Inr a" "n < length (gpr s)" "gpr s ! n = v"
  shows "\<exists>s' m'. data_access h False False sz (PGpr n) ci s = Inr (True, s') \<and>
    store_bytes (host_mem (m_env s)) p (stored_bytes (m_env s) (take (unat sz) (le_bytes 4 v))) = Inr m' \<and>
    m_env s' = (m_env s)\<lparr>host_mem := m'\<rparr> \<and> gpr s' = gpr s \<and> m_status s' = m_status s \<and>
    is_dmem (m_dreq s') \<and> \<not> m_debug (m_dreq s') \<and> req_endian (m_dreq s') = host_endian"
proof -
  let ?r = "data_request ci False False sz a v s"
  have sv: "served ?r s p" using wa by (rule word_access_served)
  have sz: "unat sz \<le> 4" using wa by (auto simp: word_access_def)
  obtain m' where m': "store_bytes (host_mem (m_env s)) p
      (stored_bytes (m_env s) (take (unat sz) (le_bytes 4 v))) = Inr m'"
    using store_bytes_allocated[of "host_mem (m_env s)" p
        "stored_bytes (m_env s) (take (unat sz) (le_bytes 4 v))"] wa sz
    by (auto simp: word_access_def min_def)
  from transact_write[OF sv, of m' h] m' obtain c where
    t: "transact h ?r s = Inr (True, (issued ?r s)\<lparr>req_cycles := c\<rparr>,
       charged c ((prepared (issued ?r s) s)\<lparr>m_env := (m_env s)\<lparr>host_mem := m'\<rparr>\<rparr>))"
    by (auto simp: data_request_def)
  have "put_op (PGpr n) v (charged c ((prepared (issued ?r s) s)\<lparr>m_env := (m_env s)\<lparr>host_mem := m'\<rparr>\<rparr>)) =
      Inr (charged c ((prepared (issued ?r s) s)\<lparr>m_env := (m_env s)\<lparr>host_mem := m'\<rparr>\<rparr>))"
    using ops by (intro put_same) simp_all
  then have "data_access h False False sz (PGpr n) ci s = Inr (True,
      (charged c ((prepared (issued ?r s) s)\<lparr>m_env := (m_env s)\<lparr>host_mem := m'\<rparr>\<rparr>))
        \<lparr>m_dreq := (issued ?r s)\<lparr>req_cycles := c\<rparr>\<rparr>)"
    using ops t unfolding data_access_def
    by (simp add: data_request_def Let_def issued_def)
  then show ?thesis using m' wa
    by (simp add: issued_def data_request_def word_access_def is_dmem_def)
qed

lemma data_access_load:
  assumes wa: "word_access ci sz a s p"
    and ops: "get_op ci (i_src1 ci) s = Inr a" "n < length (gpr s)"
    and ld: "load_bytes (host_mem (m_env s)) p (unat sz) = Inr bs"
  shows "\<exists>s'. data_access h True False sz (PGpr n) ci s = Inr (True, s') \<and> m_env s' = m_env s \<and>
    gpr s' = (gpr s)[n := of_le_bytes (stored_bytes (m_env s) bs @ drop (unat sz) (le_bytes 4 (gpr s ! n)))] \<and>
    m_status s' = m_status s \<and>
    is_dmem (m_dreq s') \<and> \<not> m_debug (m_dreq s') \<and> req_endian (m_dreq s') = host_endian"
proof -
  let ?r = "data_request ci True False sz a (gpr s ! n) s"
  have sv: "served ?r s p" using wa by (rule word_access_served)
  from transact_read[OF sv, of bs h] ld obtain c where
    t: "transact h ?r s = Inr (True, (issued ?r s)\<lparr>req_cycles := c,
          req_data := stored_bytes (m_env s) bs @ drop (unat sz) (le_bytes 4 (gpr s ! n))\<rparr>,
        charged c (prepared (issued ?r s) s))"
    by (auto simp: data_request_def)
  then show ?thesis using ops wa unfolding data_access_def
    by (simp add: data_request_def Let_def issued_def put_op_def word_access_def is_dmem_def)
qed

text \<open>A register whose low bytes have been replaced.\<close>

lemma bit_low_bytes:
  assumes "n \<le> 4" "i < 8 * n"
  shows "bit (of_le_bytes (take n (le_bytes 4 v) @ ys) :: u32) i = bit (v :: u32) i"
proof -
  have i: "i div 8 < n" using assms(2) by (simp add: less_mult_imp_div_less mult.commute)
  have "i < 32" using assms by auto
  moreover have "(take n (le_bytes 4 v) @ ys) ! (i div 8) = le_bytes 4 v ! (i div 8)"
    using assms i by (simp add: nth_append)
  ultimately show ?thesis
    using assms i by (simp add: bit_of_le_bytes nth_le_bytes bit_simps)
qed

lemma low_bytes:
  "of_le_bytes (take 4 (le_bytes 4 v) @ drop 4 (le_bytes 4 w)) = (v :: u32)"
  "of_le_bytes (take 2 (le_bytes 4 v) @ ys) AND 0xffff = v AND (0xffff :: u32)"
  "of_le_bytes (take 1 (le_bytes 4 v) @ ys) AND 0xff = v AND (0xff :: u32)"
  "sign_extend32 (of_le_bytes (take 2 (le_bytes 4 v) @ ys)) 15 = sign_extend32 v 15"
  "sign_extend32 (of_le_bytes (take 1 (le_bytes 4 v) @ ys)) 7 = sign_extend32 v 7"
  subgoal by simp
  subgoal unfolding and_low_mask by (rule bit_word_eqI) (auto simp: bit_take_bit_iff bit_low_bytes)
  subgoal unfolding and_low_mask by (rule bit_word_eqI) (auto simp: bit_take_bit_iff bit_low_bytes)
  subgoal by (rule bit_word_eqI) (auto simp: bit_sign_extend32 bit_low_bytes min_def)
  subgoal by (rule bit_word_eqI) (auto simp: bit_sign_extend32 bit_low_bytes min_def)
  done

lemma get_op_cong: "gpr s = gpr t \<Longrightarrow> get_op ci p s = get_op ci p t"
  by (simp add: get_op_def split: operand.split)

lemma get_data_ptr_mem [simp]: "get_data_ptr (e\<lparr>host_mem := m\<rparr>) = get_data_ptr e"
  by (rule ext) (simp add: get_data_ptr_def split: option.split)

lemma store_then_load_bytes:
  assumes wa: "word_access cs sz a s p"
    and st: "get_op cs (i_src1 cs) s = Inr a" "n < length (gpr s)"
    and ld: "get_op cl (i_src1 cl) s = Inr b" "d < length (gpr s)" "b + i_imm cl = a + i_imm cs"
  shows "\<exists>s1 s2. data_access h False False sz (PGpr n) cs s = Inr (True, s1) \<and>
    data_access h True False sz (PGpr d) cl s1 = Inr (True, s2) \<and> m_status s2 = m_status s \<and>
    gpr s2 = (gpr s)[d := of_le_bytes (take (unat sz) (le_bytes 4 (gpr s ! n)) @
                                       drop (unat sz) (le_bytes 4 (gpr s ! d)))]"
proof -
  let ?bs = "take (unat sz) (le_bytes 4 (gpr s ! n))"
  have sz: "unat sz \<le> 4" using wa by (auto simp: word_access_def)
  from data_access_store[OF wa st refl] obtain s1 m' where s1:
    "data_access h False False sz (PGpr n) cs s = Inr (True, s1)"
    "store_bytes (host_mem (m_env s)) p (stored_bytes (m_env s) ?bs) = Inr m'"
    "m_env s1 = (m_env s)\<lparr>host_mem := m'\<rparr>" "gpr s1 = gpr s" "m_status s1 = m_status s"
    "is_dmem (m_dreq s1)" "\<not> m_debug (m_dreq s1)" "req_endian (m_dreq s1) = host_endian" by blast
  have wa1: "word_access cl sz b s1 p"
    using wa s1 allocated_store_bytes[OF s1(2)] ld(3)
    by (simp add: word_access_def is_dmmu_active_def)
  have "length (stored_bytes (m_env s) ?bs) = unat sz" using sz by simp
  with load_store_same[OF s1(2)] have l: "load_bytes (host_mem (m_env s1)) p (unat sz) = Inr (stored_bytes (m_env s) ?bs)"
    by (simp add: s1(3))
  have e: "stored_bytes (m_env s1) (stored_bytes (m_env s) ?bs) = ?bs"
    by (simp add: s1(3) stored_bytes_def)
  have b: "get_op cl (i_src1 cl) s1 = Inr b" using ld(1) get_op_cong[OF s1(4)] by simp
  from data_access_load[OF wa1 b _ l, of d h] ld(2) s1 e show ?thesis by auto
qed

text \<open>C28: A stored value is the value that is loaded. After a store of a word, half word or byte to
  memory behind a direct pointer, in either byte order of the environment, the load of the same
  width from the same address brings back the word, or the half word or byte extended by zeros or
  by its sign, into its destination, and changes no other register and no flag.\<close>

theorem store_then_load:
  assumes wa: "word_access cs sz a s p"
    and st: "get_op cs (i_src1 cs) s = Inr a" "i_src2 cs = PGpr n" "n < length (gpr s)"
    and ld: "get_op cl (i_src1 cl) s = Inr b" "i_dest cl = PGpr d" "d < length (gpr s)"
      "b + i_imm cl = a + i_imm cs"
    and ops: "(sz, store, load, f) \<in>
      {(SIZE_WORD, execute_orbis32_sw, execute_orbis32_lw, \<lambda>v. v),
       (SIZE_HALFWORD, execute_orbis32_sh, execute_orbis32_lhz, \<lambda>v. v AND 0xffff),
       (SIZE_HALFWORD, execute_orbis32_sh, execute_orbis32_lhs, \<lambda>v. sign_extend32 v 15),
       (SIZE_BYTE, execute_orbis32_sb, execute_orbis32_lbz, \<lambda>v. v AND 0xff),
       (SIZE_BYTE, execute_orbis32_sb, execute_orbis32_lbs, \<lambda>v. sign_extend32 v 7)}"
  shows "\<exists>s1 s2. store h cs s = Inr s1 \<and> load h cl s1 = Inr s2 \<and>
    gpr s2 = (gpr s)[d := f (gpr s ! n)] \<and> m_status s2 = m_status s"
proof -
  from store_then_load_bytes[OF wa st(1,3) ld(1,3,4)] obtain s1 s2 where
    s: "data_access h False False sz (PGpr n) cs s = Inr (True, s1)"
      "data_access h True False sz (PGpr d) cl s1 = Inr (True, s2)" "m_status s2 = m_status s"
      "gpr s2 = (gpr s)[d := of_le_bytes (take (unat sz) (le_bytes 4 (gpr s ! n)) @
                                         drop (unat sz) (le_bytes 4 (gpr s ! d)))]" by blast
  have d: "d < length (gpr s2)" "gpr s2 ! d = of_le_bytes (take (unat sz) (le_bytes 4 (gpr s ! n)) @
                                         drop (unat sz) (le_bytes 4 (gpr s ! d)))"
    using s(4) ld(3) by simp_all
  have p: "(case sz of _ \<Rightarrow> then_dest g cl (True, s2)) = Inr (s2\<lparr>gpr := (gpr s2)[d := g (gpr s2 ! d)]\<rparr>)" for g
    using d(1) ld(2) by (simp add: then_dest_def set_dest_def put_op_def get_op_def)
  from ops show ?thesis
    using s d p st(2) ld(2) low_bytes
    by (elim insertE emptyE)
      (auto simp: execute_orbis32_sw_def execute_orbis32_lw_def execute_orbis32_sh_def
        execute_orbis32_lhz_def execute_orbis32_lhs_def execute_orbis32_sb_def
        execute_orbis32_lbz_def execute_orbis32_lbs_def)
qed

section \<open>Load linked and store conditional\<close>

lemma excl_load:
  assumes "req_size req = 4" "length (req_data req) = 4" "m_read req" "m_excl req"
    and "req_endian req = host_endian" "is_dmem req"
    and "get_data_ptr e (req_addr req) = Some p" "load_bytes (host_mem e) p 4 = Inr bs"
  shows "\<exists>c. convert_and_transact vt req e = Inr (RESP_SUCCESS,
    req\<lparr>req_cycles := c, req_data := stored_bytes e bs\<rparr>,
    e\<lparr>m_excl_addr := req_addr req, m_excl_data := of_le_bytes bs\<rparr>)"
proof -
  have l: "length bs = 4" using assms(8) by (rule length_load_bytes)
  show ?thesis
    using assms l
    by (auto simp: convert_and_transact_def send_request_def direct_memory_ptr_def is_dmem_def
        exclusive_access_def read_into_def conversion_necessary_def stored_bytes_def
        memcpyswp_basic Let_def)
qed

lemma excl_store:
  assumes "req_size req = 4" "length (req_data req) = 4" "\<not> m_read req" "m_excl req"
    and "req_endian req = host_endian" "is_dmem req"
    and "get_data_ptr e (req_addr req) = Some p" "load_bytes (host_mem e) p 4 = Inr bs"
    and m': "store_bytes (host_mem e) p (stored_bytes e (req_data req)) = Inr m'"
  shows "\<exists>c. convert_and_transact vt req e =
      (if req_addr req = m_excl_addr e \<and> bs = reserved_bytes e
       then Inr (RESP_SUCCESS, req\<lparr>req_cycles := c\<rparr>, e\<lparr>host_mem := m'\<rparr>)
       else Inr (RESP_FAILED, req\<lparr>req_cycles := c\<rparr>, e))"
proof -
  let ?val = "req_data req"
  have l: "length bs = 4" using assms(8) by (rule length_load_bytes)
  have eq: "of_le_bytes bs = m_excl_data e \<longleftrightarrow> bs = reserved_bytes e"
    using l le_bytes_of_le_bytes[of bs, where 'a = 32] by (auto simp: reserved_bytes_def)
  have t: "le_bytes 4 (of_le_bytes ?val :: u32) = ?val"
      "le_bytes 4 (of_le_bytes (rev ?val) :: u32) = rev ?val"
    using assms(2) le_bytes_of_le_bytes[of ?val, where 'a = 32]
      le_bytes_of_le_bytes[of "rev ?val", where 'a = 32] by simp_all
  show ?thesis
    using assms l t eq
    by (auto simp: convert_and_transact_def send_request_def direct_memory_ptr_def is_dmem_def
        exclusive_access_def cas_def conversion_necessary_def stored_bytes_def
        memcpyswp_basic Let_def)
qed

lemma port_access_excl:
  assumes "convert_and_transact (h_env h) req (m_env s) = Inr (resp, req', e)"
    and "\<not> m_debug req'" "m_excl req'" "resp = RESP_SUCCESS \<or> resp = RESP_FAILED"
  shows "port_access h req s = Inr (True, req', charged (req_cycles req')
    (if resp = RESP_SUCCESS then s\<lparr>m_env := e, m_status := m_status s OR SR_F\<rparr>
     else s\<lparr>m_env := e, m_status := m_status s AND NOT SR_F,
            m_num_excl_failed := m_num_excl_failed s + 1\<rparr>))"
  using assms by (auto simp: port_access_def charged_def Let_def)

lemma served_excl:
  fixes rd v
  assumes "word_access ci SIZE_WORD a s p"
  defines "req \<equiv> data_request ci rd True SIZE_WORD a v s"
  shows "req_size (issued req s) = 4" "length (req_data (issued req s)) = 4"
    "m_read (issued req s) = rd" "m_excl (issued req s)" "req_endian (issued req s) = host_endian"
    "is_dmem (issued req s)" "get_data_ptr (m_env s) (req_addr (issued req s)) = Some p"
    "req_data (issued req s) = le_bytes 4 v" "req_addr (issued req s) = a + i_imm ci"
    "\<not> m_debug (issued req s)"
    "transact h req s = port_access h (issued req s) (prepared (issued req s) s)"
  using assms(1) word_access_served[OF assms(1), of rd True v]
  by (simp_all add: req_def issued_def data_request_def word_access_def is_dmem_def transact_served)

lemma access_finish:
  assumes "get_op ci (i_src1 ci) s = Inr a" "n < length (gpr s)"
    and "transact h (data_request ci rd ex sz a (gpr s ! n) s) s = Inr (ok, req, t)" "gpr t = gpr s"
  shows "data_access h rd ex sz (PGpr n) ci s =
    Inr (ok, t\<lparr>gpr := (gpr s)[n := of_le_bytes (req_data req)], m_dreq := req\<rparr>)"
  using assms by (simp add: data_access_def data_request_def Let_def put_op_def)

text \<open>Load linked. \<^verbatim>\<open>l.lwa\<close> loads the word, sets the flag, and reserves its address together with
  the four bytes it saw.\<close>

theorem lwa_reserves:
  assumes wa: "word_access ci SIZE_WORD a s p"
    and ops: "get_op ci (i_src1 ci) s = Inr a" "i_dest ci = PGpr d" "d < length (gpr s)"
    and ld: "load_bytes (host_mem (m_env s)) p 4 = Inr bs"
  shows "\<exists>s'. execute_orbis32_lwa h ci s = Inr s' \<and>
    gpr s' = (gpr s)[d := of_le_bytes (stored_bytes (m_env s) bs)] \<and>
    m_status s' = m_status s OR SR_F \<and>
    m_excl_addr (m_env s') = a + i_imm ci \<and> reserved_bytes (m_env s') = bs \<and>
    host_mem (m_env s') = host_mem (m_env s)"
proof -
  let ?r = "data_request ci True True SIZE_WORD a (gpr s ! d) s"
  let ?e = "(m_env s)\<lparr>m_excl_addr := req_addr (issued ?r s), m_excl_data := of_le_bytes bs\<rparr>"
  note sv = served_excl[OF wa, where rd = True and v = "gpr s ! d"]
  have l: "length bs = 4" using ld by (rule length_load_bytes)
  obtain c where c: "convert_and_transact (h_env h) (issued ?r s) (m_env (prepared (issued ?r s) s)) =
      Inr (RESP_SUCCESS, (issued ?r s)\<lparr>req_cycles := c, req_data := stored_bytes (m_env s) bs\<rparr>, ?e)"
    using excl_load[OF sv(1,2) _ sv(4-7) ld, of "h_env h"] sv(3) by auto
  from port_access_excl[OF c] sv have
    "transact h ?r s = Inr (True, (issued ?r s)\<lparr>req_cycles := c, req_data := stored_bytes (m_env s) bs\<rparr>,
      charged c ((prepared (issued ?r s) s)\<lparr>m_env := ?e, m_status := m_status s OR SR_F\<rparr>))"
    by simp
  from access_finish[OF ops(1,3) this]
  have "execute_orbis32_lwa h ci s = Inr ((charged c ((prepared (issued ?r s) s)
      \<lparr>m_env := ?e, m_status := m_status s OR SR_F\<rparr>))
      \<lparr>gpr := (gpr s)[d := of_le_bytes (stored_bytes (m_env s) bs)],
       m_dreq := (issued ?r s)\<lparr>req_cycles := c, req_data := stored_bytes (m_env s) bs\<rparr>\<rparr>)"
    by (simp add: execute_orbis32_lwa_def ops(2))
  moreover have "le_bytes 4 (of_le_bytes bs :: u32) = bs"
    using le_bytes_of_le_bytes[of bs, where 'a = 32] l by simp
  ultimately show ?thesis using sv(9) by (simp add: reserved_bytes_def)
qed

text \<open>C29: Store conditional. \<^verbatim>\<open>l.swa\<close> succeeds, sets the flag and stores exactly when the reservation
  is for its address and memory still holds the reserved bytes; otherwise it clears the flag, counts
  the failure and leaves memory alone. No register changes either way.\<close>

theorem swa_succeeds_iff:
  assumes wa: "word_access ci SIZE_WORD a s p"
    and ops: "get_op ci (i_src1 ci) s = Inr a" "i_src2 ci = PGpr n" "n < length (gpr s)"
    and ld: "load_bytes (host_mem (m_env s)) p 4 = Inr bs"
  shows "\<exists>s' m'. execute_orbis32_swa h ci s = Inr s' \<and> gpr s' = gpr s \<and>
    store_bytes (host_mem (m_env s)) p (stored_bytes (m_env s) (le_bytes 4 (gpr s ! n))) = Inr m' \<and>
    (if a + i_imm ci = m_excl_addr (m_env s) \<and> bs = reserved_bytes (m_env s)
     then m_env s' = (m_env s)\<lparr>host_mem := m'\<rparr> \<and> m_status s' = m_status s OR SR_F
     else m_env s' = m_env s \<and> m_status s' = m_status s AND NOT SR_F)"
proof -
  let ?r = "data_request ci False True SIZE_WORD a (gpr s ! n) s"
  let ?ok = "a + i_imm ci = m_excl_addr (m_env s) \<and> bs = reserved_bytes (m_env s)"
  note sv = served_excl[OF wa, where rd = False and v = "gpr s ! n"]
  have "allocated (host_mem (m_env s)) p 4" using ld by (simp add: load_bytes_Inr)
  then obtain m' where m': "store_bytes (host_mem (m_env s)) p
      (stored_bytes (m_env s) (le_bytes 4 (gpr s ! n))) = Inr m'"
    using store_bytes_allocated[of "host_mem (m_env s)" p "stored_bytes (m_env s) (le_bytes 4 (gpr s ! n))"]
    by auto
  define resp where "resp = (if ?ok then RESP_SUCCESS else RESP_FAILED)"
  define e where "e = (if ?ok then (m_env s)\<lparr>host_mem := m'\<rparr> else m_env s)"
  have m2: "store_bytes (host_mem (m_env s)) p (stored_bytes (m_env s) (req_data (issued ?r s))) = Inr m'"
    unfolding sv(8) by (rule m')
  have rd: "\<not> m_read (issued ?r s)" unfolding sv(3) by simp
  from excl_store[OF sv(1,2) rd sv(4-7) ld m2, of "h_env h"] obtain c where
    c0: "convert_and_transact (h_env h) (issued ?r s) (m_env s) =
      (if req_addr (issued ?r s) = m_excl_addr (m_env s) \<and> bs = reserved_bytes (m_env s)
       then Inr (RESP_SUCCESS, (issued ?r s)\<lparr>req_cycles := c\<rparr>, (m_env s)\<lparr>host_mem := m'\<rparr>)
       else Inr (RESP_FAILED, (issued ?r s)\<lparr>req_cycles := c\<rparr>, m_env s))" by blast
  have c: "convert_and_transact (h_env h) (issued ?r s) (m_env (prepared (issued ?r s) s)) =
      Inr (resp, (issued ?r s)\<lparr>req_cycles := c\<rparr>, e)"
    unfolding prepared_fields(1) c0 sv(9) resp_def e_def by (cases ?ok) simp_all
  have resp: "resp = RESP_SUCCESS \<or> resp = RESP_FAILED" by (simp add: resp_def)
  define s1 where "s1 = prepared (issued ?r s) s"
  have s1: "gpr s1 = gpr s" "m_status s1 = m_status s" by (simp_all add: s1_def)
  define t where "t = charged c (if resp = RESP_SUCCESS then s1\<lparr>m_env := e, m_status := m_status s1 OR SR_F\<rparr>
    else s1\<lparr>m_env := e, m_status := m_status s1 AND NOT SR_F, m_num_excl_failed := m_num_excl_failed s1 + 1\<rparr>)"
  have "transact h ?r s = Inr (True, (issued ?r s)\<lparr>req_cycles := c\<rparr>, t)"
    using port_access_excl[OF c _ _ resp] sv(4,10,11) by (simp add: t_def s1_def)
  moreover have "gpr t = gpr s" by (simp add: t_def s1)
  moreover have "m_env t = e" by (simp add: t_def)
  moreover have "m_status t = (if ?ok then m_status s OR SR_F else m_status s AND NOT SR_F)"
  proof (cases ?ok)
    case True
    then have "resp = RESP_SUCCESS" unfolding resp_def by (rule if_P)
    then show ?thesis using True by (simp add: t_def s1)
  next
    case False
    then have "resp = RESP_FAILED" unfolding resp_def by (rule if_not_P)
    then show ?thesis unfolding if_not_P[OF False] by (simp add: t_def s1)
  qed
  ultimately have t: "transact h ?r s = Inr (True, (issued ?r s)\<lparr>req_cycles := c\<rparr>, t)"
    "gpr t = gpr s" "m_env t = e"
    "m_status t = (if ?ok then m_status s OR SR_F else m_status s AND NOT SR_F)" by blast+
  have v: "of_le_bytes (req_data ((issued ?r s)\<lparr>req_cycles := c\<rparr>)) = gpr s ! n" using sv(8) by simp
  from access_finish[OF ops(1,3) t(1,2)]
  have "execute_orbis32_swa h ci s =
      Inr (t\<lparr>gpr := gpr s, m_dreq := (issued ?r s)\<lparr>req_cycles := c\<rparr>\<rparr>)"
    unfolding v by (simp add: execute_orbis32_swa_def ops(2))
  moreover have "if ?ok then m_env t = (m_env s)\<lparr>host_mem := m'\<rparr> \<and> m_status t = m_status s OR SR_F
     else m_env t = m_env s \<and> m_status t = m_status s AND NOT SR_F"
  proof (cases ?ok)
    case True
    then show ?thesis using t(3,4) by (simp add: e_def)
  next
    case False
    show ?thesis using t(3,4) unfolding e_def if_not_P[OF False] by simp
  qed
  ultimately show ?thesis using m' by (intro exI[of _ "t\<lparr>gpr := gpr s,
    m_dreq := (issued ?r s)\<lparr>req_cycles := c\<rparr>\<rparr>"] exI[of _ m']) simp
qed

section \<open>A word in memory\<close>

text \<open>A core whose word at address 4 is the host memory at address 100.\<close>

definition demo_store :: or1k where
  "demo_store = (demo_regs 0)\<lparr>m_env := (m_env demo_core)
     \<lparr>host_mem := (\<lambda>a. if 100 \<le> a \<and> a < 116 then Some (of_nat a) else None),
      m_data_ptr := Some 100, m_data_start := 0, m_data_end := 15,
      m_excl_addr := 4, m_excl_data := of_le_bytes [104, 105, 106, 107]\<rparr>\<rparr>"

definition demo_store_insn :: instruction where
  "demo_store_insn = zero_insn\<lparr>i_dest := PGpr 3, i_src1 := PGpr 1, i_src2 := PGpr 5, i_imm := 4\<rparr>"

lemma demo_store_fields:
  "m_status demo_store = SR_FO OR SR_SM" "gpr demo_store = replicate 32 0"
  "m_dreq demo_store = m_dreq demo_core"
  "m_env demo_store = (new_env ENDIAN_BIG (\<lambda>_. None))
     \<lparr>host_mem := (\<lambda>a. if 100 \<le> a \<and> a < 116 then Some (of_nat a) else None),
      m_data_ptr := Some 100, m_data_start := 0, m_data_end := 15,
      m_excl_addr := 4, m_excl_data := of_le_bytes [104, 105, 106, 107]\<rparr>"
  by (simp_all add: demo_store_def demo_regs_def demo_core_fields list_update_id[of "replicate 32 0" 1, simplified])
    (simp add: demo_core_def power_on_def)

lemma demo_dreq: "is_dmem (m_dreq demo_core)" "\<not> m_debug (m_dreq demo_core)"
  "req_endian (m_dreq demo_core) = host_endian"
  by (simp_all add: demo_core_def power_on_def new_request_def is_dmem_def)

lemma demo_store_access:
  "word_access demo_store_insn SIZE_WORD 0 demo_store 104"
  "get_op demo_store_insn (i_src1 demo_store_insn) demo_store = Inr 0"
  "i_src2 demo_store_insn = PGpr 5" "i_dest demo_store_insn = PGpr 3"
  "length (gpr demo_store) = 32" "i_imm demo_store_insn = 4"
  "load_bytes (host_mem (m_env demo_store)) 104 4 = Inr [104, 105, 106, 107]"
proof -
  have "\<not> is_dmmu_active demo_store"
    by (simp add: sr_queries demo_store_fields bit_or_iff bit_SR)
  then show "word_access demo_store_insn SIZE_WORD 0 demo_store 104"
    by (simp add: word_access_def demo_store_fields demo_dreq demo_store_insn_def new_env_def
      get_data_ptr_def allocated_iff is_aligned_def)
qed (simp_all add: demo_store_fields demo_store_insn_def get_op_def load_bytes_Inr allocated_iff upt_rec)

theorem store_then_load_witness:
  "\<exists>s1 s2. execute_orbis32_sw demo_host demo_store_insn demo_store = Inr s1 \<and>
     execute_orbis32_lw demo_host demo_store_insn s1 = Inr s2 \<and>
     gpr s2 = (gpr demo_store)[3 := gpr demo_store ! 5] \<and> m_status s2 = m_status demo_store"
  by (rule store_then_load[OF demo_store_access(1-3) _ demo_store_access(2,4)])
    (simp_all add: demo_store_access)

theorem lwa_reserves_witness:
  "\<exists>s'. execute_orbis32_lwa demo_host demo_store_insn demo_store = Inr s' \<and>
     m_excl_addr (m_env s') = 4 \<and> reserved_bytes (m_env s') = [104, 105, 106, 107]"
  using lwa_reserves[OF demo_store_access(1,2,4) _ demo_store_access(7), of demo_host]
  by (auto simp: demo_store_access)

theorem swa_succeeds_iff_witness:
  "\<exists>s'. execute_orbis32_swa demo_host demo_store_insn demo_store = Inr s' \<and>
     m_status s' = m_status demo_store OR SR_F"
proof -
  have "reserved_bytes (m_env demo_store) = [104, 105, 106, 107]"
    using le_bytes_of_le_bytes[of "[104, 105, 106, 107]", where 'a = 32]
    by (simp add: reserved_bytes_def demo_store_fields eval_nat_numeral)
  moreover have "m_excl_addr (m_env demo_store) = 4" by (simp add: demo_store_fields)
  ultimately show ?thesis
    using swa_succeeds_iff[OF demo_store_access(1-3) _ demo_store_access(7), of demo_host]
    by (auto simp: demo_store_access)
qed

end
