(* ===== verification/Debug_Memory.thy ===== *)
theory Debug_Memory
  imports Debugger Data_Access
begin

text \<open>
  The memory and register commands of the debugger on a core whose MMUs are off and whose data memory
  is directly mapped: what \<^verbatim>\<open>m\<close> reads, what \<^verbatim>\<open>X\<close> and \<^verbatim>\<open>M\<close> write, whatever page boundaries and buffer
  limits the transfer crosses, and how register values travel as text.
\<close>

section \<open>Guest memory\<close>

text \<open>The byte that the guest sees at an address of its data memory.\<close>

definition guest :: "env \<Rightarrow> u32 \<Rightarrow> u8 option" where
  "guest e a = (case get_data_ptr e a of None \<Rightarrow> None | Some q \<Rightarrow> host_mem e q)"

definition mapped :: "env \<Rightarrow> u32 \<Rightarrow> nat \<Rightarrow> bool" where
  "mapped e a n \<longleftrightarrow> (\<forall>i<n. guest e (a + of_nat i) \<noteq> None)"

definition guest_bytes :: "env \<Rightarrow> u32 \<Rightarrow> nat \<Rightarrow> u8 list" where
  "guest_bytes e a n = map (\<lambda>i. the (guest e (a + of_nat i))) [0..<n]"

lemma length_guest_bytes [simp]: "length (guest_bytes e a n) = n"
  by (simp add: guest_bytes_def)

lemma guest_bytes_add: "guest_bytes e a (k + n) = guest_bytes e a k @ guest_bytes e (a + of_nat k) n"
  by (induction n) (simp_all add: guest_bytes_def add.assoc)

lemma mapped_add: "mapped e a (k + n) \<longleftrightarrow> mapped e a k \<and> mapped e (a + of_nat k) n"
proof -
  have "(\<forall>i<k + n. P i) \<longleftrightarrow> (\<forall>i<k. P i) \<and> (\<forall>i<n. P (k + i))" for P :: "nat \<Rightarrow> bool"
    by (metis add_diff_inverse_nat nat_add_left_cancel_less trans_less_add1)
  from this[of "\<lambda>i. guest e (a + of_nat i) \<noteq> None"] show ?thesis
    by (simp add: mapped_def add.assoc)
qed

text \<open>Inside a page addresses do not wrap.\<close>

lemma page_split: "unat a = 8192 * (unat a div 8192) + unat (page_offset a)"
proof -
  have "unat (page_offset a) = unat a mod 8192"
    unfolding page_offset_def page_mask take_bit_eq_mask[symmetric]
    by (subst unsigned_take_bit_eq) (simp add: take_bit_eq_mod)
  then show ?thesis by simp
qed

lemma in_page:
  assumes "unat (page_offset a) + n \<le> 8192" "i < n"
  shows "unat (a + of_nat i) = unat a + i"
proof -
  have "unat a < 524288 * 8192" using unsigned_less[of a] by simp
  then have "unat a div 8192 < 524288" by (simp add: less_mult_imp_div_less)
  then have "unat a + i < 4294967296" using assms page_split[of a] by linarith
  then show ?thesis by (simp add: unat_word_ariths(1) unat_of_nat take_bit_nat_eq_self)
qed

lemma get_data_ptr_offset:
  assumes "get_data_ptr e a = Some q" "get_data_ptr e (a + of_nat i) = Some q'" "unat (a + of_nat i) = unat a + i"
  shows "q' = q + i"
  using assms by (auto simp: get_data_ptr_def word_le_nat_alt word_less_nat_alt split: option.splits if_splits)

lemma mapped_block:
  assumes "mapped e a n" "unat (page_offset a) + n \<le> 8192" "0 < n"
  obtains q where "get_data_ptr e a = Some q" "\<And>i. i < n \<Longrightarrow> get_data_ptr e (a + of_nat i) = Some (q + i)"
    "allocated (host_mem e) q n"
proof -
  have g: "\<exists>q. get_data_ptr e (a + of_nat i) = Some q \<and> host_mem e q \<noteq> None" if "i < n" for i
    using assms(1) that by (auto simp: mapped_def guest_def split: option.splits)
  obtain q where q: "get_data_ptr e a = Some q" using g[OF assms(3)] by auto
  have i: "get_data_ptr e (a + of_nat i) = Some (q + i)" if "i < n" for i
    using g[OF that] get_data_ptr_offset[OF q _ in_page[OF assms(2) that]] by auto
  moreover have "allocated (host_mem e) q n"
    unfolding allocated_iff
  proof (intro allI impI)
    fix x assume "q \<le> x \<and> x < q + n"
    then show "host_mem e x \<noteq> None" using g[of "x - q"] i[of "x - q"] by auto
  qed
  ultimately show thesis using that q by blast
qed

lemma load_guest_bytes:
  assumes "mapped e a n" "unat (page_offset a) + n \<le> 8192" "0 < n" "get_data_ptr e a = Some q"
  shows "load_bytes (host_mem e) q n = Inr (guest_bytes e a n)"
proof -
  obtain q' where q: "get_data_ptr e a = Some q'" "\<And>i. i < n \<Longrightarrow> get_data_ptr e (a + of_nat i) = Some (q' + i)"
    "allocated (host_mem e) q' n"
    by (rule mapped_block[OF assms(1-3)]) blast
  then show ?thesis
    using assms(4)
    by (auto simp: load_bytes_allocated guest_bytes_def guest_def intro!: nth_equalityI)
qed

section \<open>A core seen directly\<close>

definition direct_view :: "gdb \<Rightarrow> bool" where
  "direct_view g \<longleftrightarrow> \<not> is_dmmu_active (m_iss g) \<and> \<not> is_immu_active (m_iss g) \<and> m_elf g = None \<and>
     env_endian (m_env (m_iss g)) = ENDIAN_BIG \<and>
     (\<forall>vpn ppn. m_pages g vpn = Some ppn \<longrightarrow> ppn = 0 \<or> ppn = vpn)"

lemma direct_view_simps [simp]:
  "is_dmmu_active (s\<lparr>m_env := e\<rparr>) = is_dmmu_active s" "is_immu_active (s\<lparr>m_env := e\<rparr>) = is_immu_active s"
  by (simp_all add: is_dmmu_active_def is_immu_active_def)

lemma to_phys_direct:
  assumes "direct_view g"
  shows "\<exists>p. to_phys h a g = (Inr a, g\<lparr>m_pages := p\<rparr>) \<and> direct_view (g\<lparr>m_pages := p\<rparr>)"
proof (cases "\<exists>n. m_pages g (page_number a) = Some n \<and> n \<noteq> 0")
  case True
  then have "m_pages g (page_number a) = Some (page_number a)" "page_number a \<noteq> 0"
    using assms by (auto simp: direct_view_def)
  then show ?thesis
    using assms by (intro exI[of _ "m_pages g"])
      (simp add: to_phys_def bindG_def touch_page_def returnG_def mkaddr_page)
next
  case False
  let ?p = "(m_pages g)(page_number a \<mapsto> page_number a)"
  have "to_phys h a g = (Inr a, g\<lparr>m_pages := ?p\<rparr>)"
    using assms False
    by (auto simp: to_phys_def bindG_def touch_page_def returnG_def gdb_translate_def direct_view_def modifyG_def
        split: option.split)
  then show ?thesis using assms by (intro exI[of _ ?p]) (auto simp: direct_view_def)
qed

lemma debug_request_fields:
  "req_endian (debug_request rd a d n) = ENDIAN_BIG" "req_data (debug_request rd a d n) = d"
  "req_size (debug_request rd a d n) = n" "req_addr (debug_request rd a d n) = a"
  "m_excl (debug_request rd a d n) = False" "m_read (debug_request rd a d n) = rd"
  "is_dmem (debug_request rd a d n)"
  by (simp_all add: debug_request_def new_request_def is_dmem_def)

lemma debug_direct:
  assumes "direct_view g" "get_data_ptr (m_env (m_iss g)) a = Some q" "unat n \<le> length d"
  shows "load_bytes (host_mem (m_env (m_iss g))) q (unat n) = Inr bs \<Longrightarrow>
      mem_read h a d n g = (Inr (bs @ drop (unat n) d), g)"
    and "store_bytes (host_mem (m_env (m_iss g))) q (take (unat n) d) = Inr m \<Longrightarrow>
      \<exists>out. mem_write h a d n g = (Inr out, g\<lparr>m_iss := (m_iss g)\<lparr>m_env := (m_env (m_iss g))\<lparr>host_mem := m\<rparr>\<rparr>\<rparr>)"
proof -
  let ?e = "m_env (m_iss g)"
  have p: "\<exists>c. direct_memory_ptr (debug_request rd a d n) ?e = ((debug_request rd a d n)\<lparr>req_cycles := c\<rparr>, Some q)" for rd
    using assms(2) by (auto simp: direct_memory_ptr_def debug_request_fields)
  have c: "\<not> conversion_necessary (debug_request rd a d n) ?e" for rd
    using assms(1) by (simp add: conversion_necessary_def debug_request_fields direct_view_def)
  show "mem_read h a d n g = (Inr (bs @ drop (unat n) d), g)"
    if "load_bytes (host_mem ?e) q (unat n) = Inr bs"
    using p[of True] c[of True] that assms(3)
    by (auto simp: mem_read_def debug_access_def convert_and_transact_def send_request_def read_into_def
        debug_request_fields Let_def)
  show "\<exists>out. mem_write h a d n g = (Inr out, g\<lparr>m_iss := (m_iss g)\<lparr>m_env := ?e\<lparr>host_mem := m\<rparr>\<rparr>\<rparr>)"
    if "store_bytes (host_mem ?e) q (take (unat n) d) = Inr m"
    using p[of False] c[of False] that assms(3)
    by (auto simp: mem_write_def debug_access_def convert_and_transact_def send_request_def write_from_def
        debug_request_fields Let_def)
qed

section \<open>Reading\<close>

definition hex_dump :: "u8 list \<Rightarrow> u8 list" where
  "hex_dump bs = concat (map (\<lambda>b. hex2 (ucast b)) bs)"

lemma hex_dump_append: "hex_dump (xs @ ys) = hex_dump xs @ hex_dump ys"
  by (simp add: hex_dump_def)

lemma mem_read_loop_direct:
  assumes "direct_view g" "mapped (m_env (m_iss g)) a (unat len)" "4096 \<le> length buf"
  shows "\<exists>p. mem_read_loop h a len buf out g =
      (Inr (out @ hex_dump (guest_bytes (m_env (m_iss g)) a (unat len))), g\<lparr>m_pages := p\<rparr>)"
  using assms
proof (induction "unat len" arbitrary: a len buf out g rule: less_induct)
  case less
  show ?case
  proof (cases "len = 0")
    case True
    then show ?thesis
      by (subst mem_read_loop.simps) (auto simp: returnG_def hex_dump_def guest_bytes_def intro!: exI[of _ "m_pages g"])
  next
    case False
    let ?k = "chunk len a" let ?n = "unat (chunk len a)" let ?e = "m_env (m_iss g)"
    obtain p where p: "to_phys h a g = (Inr a, g\<lparr>m_pages := p\<rparr>)" "direct_view (g\<lparr>m_pages := p\<rparr>)"
      using to_phys_direct[OF less(2)] by blast
    have len: "unat len = ?n + unat (len - ?k)" using chunk_bounds(1)[of len a] by (simp add: chunk_rest)
    have m: "mapped ?e a ?n" "mapped ?e (a + ?k) (unat (len - ?k))"
      using less(3) unfolding len mapped_add by simp_all
    have pos: "0 < ?n" by (rule chunk_bounds(4)[OF False])
    obtain q where q: "get_data_ptr ?e a = Some q" using mapped_block[OF m(1) chunk_bounds(3) pos] by blast
    have l: "load_bytes (host_mem ?e) q ?n = Inr (guest_bytes ?e a ?n)"
      by (rule load_guest_bytes[OF m(1) chunk_bounds(3) pos q])
    let ?buf = "guest_bytes ?e a ?n @ drop ?n buf"
    have r: "mem_read h a buf ?k (g\<lparr>m_pages := p\<rparr>) = (Inr ?buf, g\<lparr>m_pages := p\<rparr>)"
      using chunk_bounds(2)[of len a] less(4) l q by (intro debug_direct(1)[OF p(2)]) simp_all
    have "\<exists>p'. mem_read_loop h (a + ?k) (len - ?k) ?buf (out @ hex_dump (guest_bytes ?e a ?n)) (g\<lparr>m_pages := p\<rparr>) =
        (Inr ((out @ hex_dump (guest_bytes ?e a ?n)) @ hex_dump (guest_bytes ?e (a + ?k) (unat (len - ?k)))),
         g\<lparr>m_pages := p\<rparr>\<lparr>m_pages := p'\<rparr>)"
      using less(1)[OF chunk_progress[OF False, of a], where a = "a + ?k" and buf = ?buf and g = "g\<lparr>m_pages := p\<rparr>"
        and out = "out @ hex_dump (guest_bytes ?e a ?n)"] p(2) m(2)
        chunk_bounds(2)[of len a] less(4) by simp
    then show ?thesis
      using False p(1) r len
      by (subst mem_read_loop.simps)
        (auto simp: bindG_def hex_dump_append guest_bytes_add simp flip: hex_dump_def)
  qed
qed

lemma mem_read_effect:
  assumes "direct_view g" "rsp_open (m_rsp g)"
    and "sscanf (scan_lits ''m'' @ [Hex None] @ scan_lits '','' @ [Hex None]) (c_str buf) = [a, len]"
    and "mapped (m_env (m_iss g)) a (unat len)"
  shows "\<exists>r p. send_string (hex_dump (guest_bytes (m_env (m_iss g)) a (unat len))) (m_rsp g) = Inr r \<and>
    handle_mem_read h buf g = (Inr (), g\<lparr>m_pages := p, m_rsp := r\<rparr>)"
proof -
  let ?b = "malloc_block (h_env h) (unat OR1KISS_GDB_RDBUF_SIZE)"
  have "4096 \<le> length ?b" by (simp add: malloc_block_def rdbuf_size)
  from mem_read_loop_direct[OF assms(1,4) this, of h "[]"] obtain p where
    "mem_read_loop h a len ?b [] g = (Inr (hex_dump (guest_bytes (m_env (m_iss g)) a (unat len))), g\<lparr>m_pages := p\<rparr>)"
    by auto
  then show ?thesis
    using assms(2,3)
    by (intro exI[of _ p] exI conjI)
      (auto simp: handle_mem_read_def parse2_def bindG_def returnG_def send_stringG_def rspG_def send_string_def)
qed

text \<open>Reading memory through the debugger. On a core whose MMUs are off and whose data memory is mapped
  directly, the reply to \<^verbatim>\<open>m\<close> is the requested bytes of the guest's memory as text, two digits each, for
  any length and across pages and buffer limits, and the simulator is not changed.\<close>

theorem mem_read_reply:
  assumes "direct_view g" "rsp_open (m_rsp g)"
    and "sscanf (scan_lits ''m'' @ [Hex None] @ scan_lits '','' @ [Hex None]) (c_str buf) = [a, len]"
    and "mapped (m_env (m_iss g)) a (unat len)"
  shows "\<exists>r p. send_string (hex_dump (guest_bytes (m_env (m_iss g)) a (unat len))) (m_rsp g) = Inr r \<and>
    handle_mem_read h buf g = (Inr (), g\<lparr>m_pages := p, m_rsp := r\<rparr>)"
  by (rule mem_read_effect[OF assms])

section \<open>Writing\<close>

lemma get_bytes_add:
  "get_bytes get (k + n) d = bindE (get_bytes get k d) (\<lambda>(xs, d). bindE (get_bytes get n d) (\<lambda>(ys, d). Inr (xs @ ys, d)))"
proof (induction k arbitrary: d)
  case (Suc k)
  then show ?case by (cases "get d") (auto simp: bindE_def split: sum.split prod.split)
qed (auto simp: bindE_def split: sum.split)

lemma get_bytes_length: "get_bytes get n d = Inr (bs, d') \<Longrightarrow> length bs = n"
  by (induction n arbitrary: d bs) (auto simp: bindE_eq_Inr)

text \<open>Distinct guest addresses are distinct host addresses.\<close>

lemma get_data_ptr_inj:
  assumes "get_data_ptr e a = Some q" "get_data_ptr e b = Some q"
  shows "a = b"
proof -
  have "unat a = unat b"
    using assms by (auto simp: get_data_ptr_def word_le_nat_alt word_less_nat_alt split: option.splits if_splits)
  then show ?thesis by (rule unsigned_word_eqI)
qed

text \<open>The host memory after the bytes \<open>bs\<close> have been written from the guest's address \<open>a\<close> on.\<close>

definition written :: "env \<Rightarrow> u32 \<Rightarrow> u8 list \<Rightarrow> hmem \<Rightarrow> bool" where
  "written e a bs m \<longleftrightarrow>
     (\<forall>i<length bs. guest (e\<lparr>host_mem := m\<rparr>) (a + of_nat i) = Some (bs ! i)) \<and>
     (\<forall>q. (\<forall>i<length bs. get_data_ptr e (a + of_nat i) \<noteq> Some q) \<longrightarrow> m q = host_mem e q)"

lemma get_data_ptr_frame [simp]: "get_data_ptr (e\<lparr>host_mem := m\<rparr>) a = get_data_ptr e a"
  by (simp add: get_data_ptr_def cong: option.case_cong if_cong)

lemma written_block:
  assumes "mapped e a (length bs)" "unat (page_offset a) + length bs \<le> 8192" "0 < length bs"
    and "get_data_ptr e a = Some q"
  shows "\<exists>m. store_bytes (host_mem e) q bs = Inr m \<and> written e a bs m"
proof -
  obtain q' where q': "get_data_ptr e a = Some q'"
    "\<And>i. i < length bs \<Longrightarrow> get_data_ptr e (a + of_nat i) = Some (q' + i)"
    "allocated (host_mem e) q' (length bs)"
    by (rule mapped_block[OF assms(1-3)]) blast
  then have q: "get_data_ptr e (a + of_nat i) = Some (q + i)" if "i < length bs" for i
    using assms(4) that by simp
  have "allocated (host_mem e) q (length bs)" using q' assms(4) by simp
  moreover have "\<exists>i<length bs. x = q + i" if "q \<le> x" "x < q + length bs" for x
    using that by (intro exI[of _ "x - q"]) auto
  ultimately show ?thesis
    using q by (auto simp: store_bytes_def written_def guest_def)
qed

lemma of_nat_inj_u32: "i < 2 ^ 32 \<Longrightarrow> j < 2 ^ 32 \<Longrightarrow> a + of_nat i = a + (of_nat j :: u32) \<Longrightarrow> i = j"
  by (simp add: of_nat_inverse word_of_nat_eq_iff take_bit_nat_eq_self)

lemma written_append:
  assumes "written e a xs m" "written (e\<lparr>host_mem := m\<rparr>) (a + of_nat (length xs)) ys m'"
    and "length xs + length ys < 2 ^ 32"
  shows "written e a (xs @ ys) m'"
proof -
  have first: "guest (e\<lparr>host_mem := m'\<rparr>) (a + of_nat i) = Some (xs ! i)" if "i < length xs" for i
  proof -
    from that assms(1) have g: "guest (e\<lparr>host_mem := m\<rparr>) (a + of_nat i) = Some (xs ! i)" by (simp add: written_def)
    then obtain q where q: "get_data_ptr e (a + of_nat i) = Some q" by (auto simp: guest_def split: option.splits)
    have "get_data_ptr e (a + of_nat (length xs) + of_nat j) \<noteq> Some q" if "j < length ys" for j
    proof
      assume "get_data_ptr e (a + of_nat (length xs) + of_nat j) = Some q"
      from get_data_ptr_inj[OF this q] have "a + of_nat (length xs + j) = a + of_nat i" by (simp add: add.assoc)
      from of_nat_inj_u32[OF _ _ this] show False using that \<open>i < length xs\<close> assms(3) by simp
    qed
    with assms(2) q have "m' q = m q" by (simp add: written_def)
    with g q show ?thesis by (simp add: guest_def)
  qed
  have second: "guest (e\<lparr>host_mem := m'\<rparr>) (a + of_nat i) = Some (ys ! (i - length xs))"
    if "length xs \<le> i" "i < length xs + length ys" for i
  proof -
    have "i = length xs + (i - length xs)" using that by simp
    then have "a + of_nat i = a + of_nat (length xs) + (of_nat (i - length xs) :: u32)"
      by (metis add.assoc of_nat_add)
    moreover have "guest (e\<lparr>host_mem := m'\<rparr>) (a + of_nat (length xs) + of_nat (i - length xs)) = Some (ys ! (i - length xs))"
    proof -
      have "\<forall>j<length ys. guest (e\<lparr>host_mem := m'\<rparr>) (a + of_nat (length xs) + of_nat j) = Some (ys ! j)"
        using assms(2) by (simp add: written_def)
      then show ?thesis using that by (auto simp del: of_nat_diff)
    qed
    ultimately show ?thesis by (simp only:)
  qed
  have frame: "m' q = host_mem e q" if "\<forall>i<length xs + length ys. get_data_ptr e (a + of_nat i) \<noteq> Some q" for q
  proof -
    have "m q = host_mem e q" using assms(1) that by (simp add: written_def)
    moreover have "get_data_ptr e (a + of_nat (length xs) + of_nat j) \<noteq> Some q" if "j < length ys" for j
      using \<open>\<forall>i<length xs + length ys. _\<close>[rule_format, of "length xs + j"] that by (simp add: add.assoc)
    ultimately show ?thesis using assms(2) by (simp add: written_def)
  qed
  show ?thesis
    using first second frame by (auto simp: written_def nth_append)
qed

lemma written_nil: "written e a [] (host_mem e)" by (simp add: written_def)

lemma written_bytes: "written e a bs m \<Longrightarrow> guest_bytes (e\<lparr>host_mem := m\<rparr>) a (length bs) = bs"
  by (auto simp: written_def guest_bytes_def intro: nth_equalityI)

lemma mapped_store: "store_bytes (host_mem e) q bs = Inr m \<Longrightarrow> mapped e a n \<Longrightarrow> mapped (e\<lparr>host_mem := m\<rparr>) a n"
  by (fastforce simp: mapped_def guest_def store_bytes_def split: option.splits if_splits)

lemma direct_view_store:
  "direct_view (g\<lparr>m_pages := p\<rparr>) \<Longrightarrow> direct_view (g\<lparr>m_iss := (m_iss g)\<lparr>m_env := (m_env (m_iss g))\<lparr>host_mem := m\<rparr>\<rparr>, m_pages := p\<rparr>)"
  by (simp add: direct_view_def)

lemma mem_write_loop_direct:
  assumes "direct_view g" "mapped (m_env (m_iss g)) a (unat len)" "get_bytes get (unat len) d = Inr (bs, d')"
  shows "\<exists>p m. mem_write_loop h get a len d g =
      (Inr (), g\<lparr>m_iss := (m_iss g)\<lparr>m_env := (m_env (m_iss g))\<lparr>host_mem := m\<rparr>\<rparr>, m_pages := p\<rparr>) \<and>
      written (m_env (m_iss g)) a bs m \<and> direct_view (g\<lparr>m_pages := p\<rparr>)"
  using assms
proof (induction "unat len" arbitrary: a len d g bs rule: less_induct)
  case less
  show ?case
  proof (cases "len = 0")
    case True
    with less(4) have "bs = []" by simp
    with True less(2) show ?thesis
      by (subst mem_write_loop.simps) (auto simp: returnG_def intro!: exI[of _ "m_pages g"] exI[of _ "host_mem (m_env (m_iss g))"] written_nil)
  next
    case False
    let ?k = "chunk len a" let ?n = "unat (chunk len a)" let ?e = "m_env (m_iss g)"
    obtain p where p: "to_phys h a g = (Inr a, g\<lparr>m_pages := p\<rparr>)" "direct_view (g\<lparr>m_pages := p\<rparr>)"
      using to_phys_direct[OF less(2)] by blast
    have len: "unat len = ?n + unat (len - ?k)" using chunk_bounds(1)[of len a] by (simp add: chunk_rest)
    have m: "mapped ?e a ?n" "mapped ?e (a + ?k) (unat (len - ?k))"
      using less(3) unfolding len mapped_add by simp_all
    obtain xs dx ys where x: "get_bytes get ?n d = Inr (xs, dx)"
      and y: "get_bytes get (unat (len - ?k)) dx = Inr (ys, d')" and bs: "bs = xs @ ys"
      using less(4) unfolding len get_bytes_add by (auto simp: bindE_eq_Inr)
    note lx = get_bytes_length[OF x] and ly = get_bytes_length[OF y]
    have pos: "0 < ?n" by (rule chunk_bounds(4)[OF False])
    obtain q where q: "get_data_ptr ?e a = Some q" using mapped_block[OF m(1) chunk_bounds(3) pos] by blast
    obtain m1 where m1: "store_bytes (host_mem ?e) q xs = Inr m1" "written ?e a xs m1"
      using written_block[of ?e a xs q] m(1) chunk_bounds(3)[of a len] pos q lx by auto
    let ?g = "g\<lparr>m_iss := (m_iss g)\<lparr>m_env := ?e\<lparr>host_mem := m1\<rparr>\<rparr>, m_pages := p\<rparr>"
    obtain out where w: "mem_write h a xs ?k (g\<lparr>m_pages := p\<rparr>) = (Inr out, ?g)"
      using debug_direct(2)[OF p(2), of a q ?k xs m1 h] q m1(1) lx by auto
    have g: "direct_view ?g" by (rule direct_view_store[OF p(2)])
    have "\<exists>p' m'. mem_write_loop h get (a + ?k) (len - ?k) dx ?g =
        (Inr (), ?g\<lparr>m_iss := (m_iss ?g)\<lparr>m_env := (m_env (m_iss ?g))\<lparr>host_mem := m'\<rparr>\<rparr>, m_pages := p'\<rparr>) \<and>
        written (m_env (m_iss ?g)) (a + ?k) ys m' \<and> direct_view (?g\<lparr>m_pages := p'\<rparr>)"
      using mapped_store[OF m1(1) m(2)] by (intro less(1)[OF chunk_progress[OF False, of a] g _ y]) simp
    then obtain p' m' where l: "mem_write_loop h get (a + ?k) (len - ?k) dx ?g =
        (Inr (), g\<lparr>m_iss := (m_iss g)\<lparr>m_env := ?e\<lparr>host_mem := m'\<rparr>\<rparr>, m_pages := p'\<rparr>)"
      and v: "written (?e\<lparr>host_mem := m1\<rparr>) (a + ?k) ys m'" "direct_view (g\<lparr>m_pages := p'\<rparr>)"
      by (auto simp: direct_view_def)
    have "written ?e a bs m'"
      unfolding bs
    proof (rule written_append[OF m1(2)])
      show "written (?e\<lparr>host_mem := m1\<rparr>) (a + of_nat (length xs)) ys m'" using v(1) by (simp add: lx)
      have "unat len < 2 ^ LENGTH(32)" by (rule unsigned_less)
      then show "length xs + length ys < 2 ^ 32" using len by (simp add: lx ly)
    qed
    moreover have "mem_write_loop h get a len d g =
        (Inr (), g\<lparr>m_iss := (m_iss g)\<lparr>m_env := ?e\<lparr>host_mem := m'\<rparr>\<rparr>, m_pages := p'\<rparr>)"
      using False p(1) x w l by (subst mem_write_loop.simps) (simp add: bindG_def liftG_def)
    ultimately show ?thesis using v(2) by blast
  qed
qed

definition payload :: "u8 list \<Rightarrow> u8 list" where
  "payload buf = drop (length (takeWhile (\<lambda>c. c \<noteq> 0x3a) buf) + 1) buf"

definition bin_format :: "scan_item list" where
  "bin_format = scan_lits ''X'' @ [Hex None] @ scan_lits '','' @ [Hex None] @ scan_lits '':''"

lemma mem_write_bin_effect:
  assumes "direct_view g" "rsp_open (m_rsp g)" "sscanf bin_format (c_str buf) = [a, len]"
    and "len mod 4 = 0" "len \<noteq> 0" "0x3a \<in> set (c_str buf)"
    and "get_bytes char_unescape (unat len) (payload buf) = Inr (bs, rest)"
    and "mapped (m_env (m_iss g)) a (unat len)"
  shows "\<exists>p m r. handle_mem_write_bin h buf g =
      (Inr (), g\<lparr>m_iss := (m_iss g)\<lparr>m_env := (m_env (m_iss g))\<lparr>host_mem := m\<rparr>\<rparr>, m_pages := p, m_rsp := r\<rparr>) \<and>
      send_format (ascii ''OK'') (m_rsp g) = Inr r \<and> written (m_env (m_iss g)) a bs m \<and>
      direct_view (g\<lparr>m_pages := p\<rparr>)"
proof -
  obtain p m where w: "mem_write_loop h char_unescape a len (payload buf) g =
      (Inr (), g\<lparr>m_iss := (m_iss g)\<lparr>m_env := (m_env (m_iss g))\<lparr>host_mem := m\<rparr>\<rparr>, m_pages := p\<rparr>)"
    "written (m_env (m_iss g)) a bs m" "direct_view (g\<lparr>m_pages := p\<rparr>)"
    using mem_write_loop_direct[OF assms(1,8,7)] by blast
  obtain r where r: "send_format (ascii ''OK'') (m_rsp g) = Inr r" using assms(2) by (simp add: send_format_def)
  have "handle_mem_write_bin h buf g =
      (Inr (), g\<lparr>m_iss := (m_iss g)\<lparr>m_env := (m_env (m_iss g))\<lparr>host_mem := m\<rparr>\<rparr>, m_pages := p, m_rsp := r\<rparr>)"
    using assms(3-6) w(1) r
    by (simp add: handle_mem_write_bin_def parse2_def bindG_def returnG_def after_colon_def payload_def
        bin_format_def sendG_def rspG_def)
  with r w(2,3) show ?thesis by blast
qed

text \<open>C38: What the debugger writes it reads back. After the bytes of an \<^verbatim>\<open>X\<close> command, with its escapes
  resolved, have been stored, which changes no other byte of the host's memory, an \<^verbatim>\<open>m\<close> command for the
  same range replies with exactly these bytes.\<close>

theorem memory_roundtrip:
  assumes "direct_view g" "rsp_open (m_rsp g)" "sscanf bin_format (c_str wbuf) = [a, len]"
    and "len mod 4 = 0" "len \<noteq> 0" "0x3a \<in> set (c_str wbuf)"
    and "get_bytes char_unescape (unat len) (payload wbuf) = Inr (bs, rest)"
    and "mapped (m_env (m_iss g)) a (unat len)"
    and "sscanf (scan_lits ''m'' @ [Hex None] @ scan_lits '','' @ [Hex None]) (c_str rbuf) = [a, len]"
  shows "\<exists>g1 g2 r. handle_mem_write_bin h wbuf g = (Inr (), g1) \<and> handle_mem_read h rbuf g1 = (Inr (), g2) \<and>
    send_string (hex_dump bs) (m_rsp g1) = Inr r \<and> m_rsp g2 = r \<and>
    (\<forall>q. (\<forall>i<unat len. get_data_ptr (m_env (m_iss g)) (a + of_nat i) \<noteq> Some q) \<longrightarrow>
       host_mem (m_env (m_iss g2)) q = host_mem (m_env (m_iss g)) q)"
proof -
  let ?e = "m_env (m_iss g)"
  obtain p m r where w: "handle_mem_write_bin h wbuf g =
      (Inr (), g\<lparr>m_iss := (m_iss g)\<lparr>m_env := ?e\<lparr>host_mem := m\<rparr>\<rparr>, m_pages := p, m_rsp := r\<rparr>)"
    "send_format (ascii ''OK'') (m_rsp g) = Inr r" "written ?e a bs m" "direct_view (g\<lparr>m_pages := p\<rparr>)"
    using mem_write_bin_effect[OF assms(1-8)] by blast
  let ?g1 = "g\<lparr>m_iss := (m_iss g)\<lparr>m_env := ?e\<lparr>host_mem := m\<rparr>\<rparr>, m_pages := p, m_rsp := r\<rparr>"
  note n = get_bytes_length[OF assms(7)]
  have d: "direct_view ?g1" using w(4) by (simp add: direct_view_def)
  have o: "rsp_open (m_rsp ?g1)" using w(2) assms(2) by (auto simp: send_format_def transmit_def)
  have "mapped (m_env (m_iss ?g1)) a (unat len)" using w(3) n by (simp add: mapped_def written_def)
  from mem_read_effect[OF d o assms(9) this, of h] obtain r2 p2 where
    "send_string (hex_dump (guest_bytes (m_env (m_iss ?g1)) a (unat len))) (m_rsp ?g1) = Inr r2"
    "handle_mem_read h rbuf ?g1 = (Inr (), ?g1\<lparr>m_pages := p2, m_rsp := r2\<rparr>)" by blast
  moreover have "guest_bytes (m_env (m_iss ?g1)) a (unat len) = bs" using written_bytes[OF w(3)] n by simp
  ultimately show ?thesis
    using w(1,3) n by (intro exI[of _ ?g1] exI[of _ "?g1\<lparr>m_pages := p2, m_rsp := r2\<rparr>"] exI[of _ r2])
      (simp add: written_def)
qed

section \<open>Hexadecimal writes\<close>

text \<open>
  What one byte of an \<^verbatim>\<open>M\<close> command should be is two digits of its own; the handler moves on by one
  character and reads the digits in reverse.
\<close>

lemma hex_byte_digits:
  "hex_byte (a # b # d) = Inr (ucast (push_bit 4 (char2int b) OR char2int a), b # d)"
  by (simp add: hex_byte_def str2int_def del: push_bit_Suc)

lemma get_bytes_hex:
  "n < length d \<Longrightarrow> get_bytes hex_byte n d =
     Inr (map (\<lambda>i. ucast (push_bit 4 (char2int (d ! Suc i)) OR char2int (d ! i))) [0..<n], drop n d)"
proof (induction n arbitrary: d)
  case (Suc n)
  then obtain x y e where d: "d = x # y # e" by (cases d; cases "tl d") auto
  have "[0..<Suc n] = 0 # map Suc [0..<n]" by (simp add: map_Suc_upt upt_conv_Cons del: upt_Suc)
  then show ?case using Suc.IH[of "y # e"] Suc.prems by (simp add: d hex_byte_digits comp_def del: upt_Suc)
qed simp

definition hex_format :: "scan_item list" where
  "hex_format = scan_lits ''M'' @ [Hex None] @ scan_lits '','' @ [Hex None]"

text \<open>An \<^verbatim>\<open>M\<close> command stores the wrong bytes. It succeeds, and byte \<open>i\<close> of the range becomes the digits
  at positions \<open>i\<close> and \<open>i + 1\<close> of the text, the second one as the high nibble, where the protocol and
  gdb's encoding have the digits \<open>2 * i\<close> and \<open>2 * i + 1\<close> with the first one high.\<close>

theorem hex_write_garbles:
  assumes "direct_view g" "rsp_open (m_rsp g)" "sscanf hex_format (c_str buf) = [a, len]"
    and "len mod 4 = 0" "0x3a \<in> set (c_str buf)" "unat len < length (payload buf)"
    and "mapped (m_env (m_iss g)) a (unat len)"
  shows "\<exists>g'. handle_mem_write h buf g = (Inr (), g') \<and>
    (\<forall>i<unat len. guest (m_env (m_iss g')) (a + of_nat i) =
       Some (ucast (push_bit 4 (char2int (payload buf ! Suc i)) OR char2int (payload buf ! i))))"
proof -
  let ?bs = "map (\<lambda>i. ucast (push_bit 4 (char2int (payload buf ! Suc i)) OR char2int (payload buf ! i)) :: u8) [0..<unat len]"
  obtain p m where w: "mem_write_loop h hex_byte a len (payload buf) g =
      (Inr (), g\<lparr>m_iss := (m_iss g)\<lparr>m_env := (m_env (m_iss g))\<lparr>host_mem := m\<rparr>\<rparr>, m_pages := p\<rparr>)"
    "written (m_env (m_iss g)) a ?bs m"
    using mem_write_loop_direct[OF assms(1,7) get_bytes_hex[OF assms(6)]] by blast
  obtain r where r: "send_format (ascii ''OK'') (m_rsp g) = Inr r" using assms(2) by (simp add: send_format_def)
  have "handle_mem_write h buf g =
      (Inr (), g\<lparr>m_iss := (m_iss g)\<lparr>m_env := (m_env (m_iss g))\<lparr>host_mem := m\<rparr>\<rparr>, m_pages := p, m_rsp := r\<rparr>)"
    using assms(3-5) w(1) r
    by (simp add: handle_mem_write_def parse2_def bindG_def returnG_def after_colon_def payload_def
        hex_format_def sendG_def rspG_def)
  with w(2) show ?thesis by (simp add: written_def)
qed

section \<open>Register values as text\<close>

text \<open>Numbers print to hexadecimal digits that scan to the same number.\<close>

lemma hex_digit_xdigit: "n < 16 \<Longrightarrow> is_xdigit (hex_digit n) \<and> unat (char2int (hex_digit n)) = n"
proof -
  assume "n < 16"
  then have "n \<in> {..<16}" by simp
  moreover have "\<forall>n\<in>{..<16}. is_xdigit (hex_digit n) \<and> unat (char2int (hex_digit n)) = n"
    by (simp add: lessThan_nat_numeral hex_digit_def is_xdigit_def char2int_def)
  ultimately show ?thesis by blast
qed

declare hex_text.simps [simp del]

lemma digits_value_append: "digits_value (xs @ [c]) = 16 * digits_value xs + unat (char2int c)"
  by (simp add: digits_value_def)

lemma hex_text_value: "digits_value (hex_text n) = n"
proof (induction n rule: hex_text.induct)
  case (1 n)
  then show ?case
    using hex_digit_xdigit[of n] hex_digit_xdigit[of "n mod 16"]
    by (subst hex_text.simps) (auto simp: digits_value_append digits_value_def[of "[_]"])
qed

lemma hex_text_digits: "\<forall>c\<in>set (hex_text n). is_xdigit c"
proof (induction n rule: hex_text.induct)
  case (1 n)
  then show ?case
    using hex_digit_xdigit[of n] hex_digit_xdigit[of "n mod 16"] by (subst hex_text.simps) auto
qed

lemma hex_text_nonempty: "hex_text n \<noteq> []"
  by (subst hex_text.simps) simp

text \<open>The digits of a padded number, from the highest position down.\<close>

lemma pad_left_snoc: "pad_left c (Suc w) (xs @ [x]) = pad_left c w xs @ [x]"
  by (simp add: pad_left_def)

lemma rev_upt_Suc: "map f (rev [0..<Suc w]) = map (\<lambda>i. f (Suc i)) (rev [0..<w]) @ [f 0]"
  by (simp add: upt_conv_Cons map_Suc_upt[symmetric] rev_map comp_def del: upt_Suc)

lemma padded_digits:
  "n < 16 ^ Suc w \<Longrightarrow>
   pad_left 0x30 (Suc w) (hex_text n) = map (\<lambda>i. hex_digit (n div 16 ^ i mod 16)) (rev [0..<Suc w])"
proof (induction w arbitrary: n)
  case 0
  then show ?case by (subst hex_text.simps) (simp add: pad_left_def)
next
  case (Suc w)
  show ?case
  proof (cases "n < 16")
    case True
    have "map (\<lambda>i. hex_digit (n div 16 ^ Suc i mod 16)) (rev [0..<Suc w]) = replicate (Suc w) 0x30"
    proof -
      have "n div 16 ^ Suc i mod 16 = 0" for i using True by (simp add: div_mult2_eq)
      then show ?thesis by (simp add: map_replicate_const hex_digit_def del: upt_Suc)
    qed
    with True show ?thesis
      by (subst hex_text.simps) (simp add: pad_left_def rev_upt_Suc del: upt_Suc)
  next
    case False
    then have "hex_text n = hex_text (n div 16) @ [hex_digit (n mod 16)]" by (subst hex_text.simps) simp
    moreover have "pad_left 0x30 (Suc w) (hex_text (n div 16)) =
        map (\<lambda>i. hex_digit (n div 16 div 16 ^ i mod 16)) (rev [0..<Suc w])"
      using Suc.prems by (intro Suc.IH) (simp add: less_mult_imp_div_less mult.commute)
    ultimately show ?thesis
      by (simp add: pad_left_snoc rev_upt_Suc[of _ "Suc w"] div_mult2_eq del: upt_Suc)
  qed
qed

definition nibble :: "u32 \<Rightarrow> nat \<Rightarrow> u32" where
  "nibble v i = drop_bit (4 * i) v AND 0xf"

lemma unat_nibble: "unat (nibble v i) = unat v div 16 ^ i mod 16"
proof -
  have "unat v < 2 ^ LENGTH(32)" by (rule unsigned_less)
  then have "take_bit LENGTH(32) (unat v) = unat v" by (rule take_bit_nat_eq_self)
  then have "unat (nibble v i) = take_bit 4 (drop_bit (4 * i) (unat v))"
    unfolding nibble_def and_low_mask by (simp only: unsigned_take_bit_eq unsigned_drop_bit_eq)
  then show ?thesis by (simp add: take_bit_eq_mod drop_bit_eq_div power_mult)
qed

lemma hex8_digits: "hex8 v = map (\<lambda>i. hex_digit (unat (nibble v i))) (rev [0..<8])"
proof -
  have "unat v < 2 ^ LENGTH(32)" by (rule unsigned_less)
  then have "unat v < 16 ^ Suc 7" by simp
  from padded_digits[OF this] show ?thesis by (simp add: hex8_def unat_nibble del: upt_Suc)
qed

lemma char2int_nibble: "char2int (hex_digit (unat (nibble v i))) = nibble v i"
proof -
  have "unat (nibble v i) < 16" by (simp add: unat_nibble)
  from hex_digit_xdigit[OF this]
  have "unat (char2int (hex_digit (unat (nibble v i)))) = unat (nibble v i)" ..
  then show ?thesis by (rule unsigned_word_eqI)
qed

definition reverse_nibbles :: "u32 \<Rightarrow> u32" where
  "reverse_nibbles v = foldl (\<lambda>acc i. push_bit 4 acc OR nibble v i) 0 [0..<8]"

lemma str2int_loop_foldl: "str2int_loop cs k = foldl (\<lambda>acc c. push_bit 4 acc OR char2int c) k cs"
  by (induction cs arbitrary: k) auto

lemma foldl_map_nibbles:
  "foldl (\<lambda>acc c. push_bit 4 acc OR char2int c) k (map (\<lambda>i. hex_digit (unat (nibble v i))) xs) =
   foldl (\<lambda>acc i. push_bit 4 acc OR nibble v i) k xs"
  by (induction xs arbitrary: k) (simp_all add: char2int_nibble)

text \<open>What \<^verbatim>\<open>str2int\<close> makes of a printed register.\<close>

lemma str2int_hex8: "str2int (hex8 v @ s) 8 = reverse_nibbles v"
proof -
  have "length (hex8 v) = 8" by (simp add: hex8_digits del: upt_Suc)
  then show ?thesis
    by (simp add: str2int_def str2int_loop_foldl hex8_digits rev_map foldl_map_nibbles reverse_nibbles_def
        del: upt_Suc)
qed

lemma hex8_length [simp]: "length (hex8 v) = 8"
  by (simp add: hex8_digits del: upt_Suc)

text \<open>The general registers of a \<^verbatim>\<open>G\<close> command, one after the other.\<close>

lemma small_reg: "i < 32 \<Longrightarrow> (of_nat i :: u32) \<notin> {32, 33, 34} \<and> unat (of_nat i :: u32) = i"
proof -
  assume "i < 32"
  then have "unat (of_nat i :: u32) = i" by (simp add: unat_of_nat take_bit_nat_eq_self)
  with \<open>i < 32\<close> show ?thesis by auto
qed

lemma write_regs_hex8:
  assumes "\<forall>i\<in>set is. i < 32"
  shows "write_regs h (map of_nat is @ rs) (concat (map (\<lambda>i. hex8 (f i)) is) @ s) g =
    write_regs h rs s (g\<lparr>m_iss := (m_iss g)\<lparr>gpr := foldl (\<lambda>r i. r[i := reverse_nibbles (f i)]) (gpr (m_iss g)) is\<rparr>\<rparr>)"
  using assms
proof (induction "is" arbitrary: g)
  case (Cons i "is")
  have r: "write_reg h (of_nat i) v g = (Inr (), g\<lparr>m_iss := (m_iss g)\<lparr>gpr := (gpr (m_iss g))[i := v]\<rparr>\<rparr>)" for v
    using small_reg[of i] Cons.prems by (simp add: write_reg_def set_gprG_def issG_def)
  show ?case
    using Cons.IH[of "g\<lparr>m_iss := (m_iss g)\<lparr>gpr := (gpr (m_iss g))[i := reverse_nibbles (f i)]\<rparr>\<rparr>"] Cons.prems
    by (simp add: str2int_hex8 bindG_def r)
qed simp

lemma foldl_updates:
  "length r = n \<Longrightarrow> foldl (\<lambda>r i. r[i := f i]) r [0..<n] = map f [0..<n]"
proof -
  have "k \<le> length r \<Longrightarrow> foldl (\<lambda>r i. r[i := f i]) r [0..<k] = map f [0..<k] @ drop k r" for k
  proof (induction k)
    case (Suc k)
    then show ?case by (simp add: list_update_append Cons_nth_drop_Suc[symmetric])
  qed simp
  then show "length r = n \<Longrightarrow> ?thesis" by simp
qed

definition reg_value :: "u32 \<Rightarrow> or1k \<Rightarrow> u32" where
  "reg_value r s =
     (if r = 32 then get_spr SPR_PPC True s else if r = 33 then get_spr SPR_NPC True s
      else if r = 34 then get_spr SPR_SR True s else gpr s ! unat r)"

lemma read_reg_value: "read_reg r g = (Inr (reg_value r (m_iss g)), g)"
  by (simp add: read_reg_def reg_value_def get_sprG_def get_gprG_def)

lemma read_regs_text: "read_regs rs g = (Inr (concat (map (\<lambda>r. hex8 (reg_value r (m_iss g))) rs)), g)"
  by (induction rs) (simp_all add: returnG_def bindG_def read_reg_value)

lemma write_special_keeps_gpr:
  "write_reg h r v g = (x, g') \<Longrightarrow> r \<in> {32, 33, 34} \<Longrightarrow> x = Inr () \<and> gpr (m_iss g') = gpr (m_iss g) \<and>
     rsp_open (m_rsp g') = rsp_open (m_rsp g)"
  by (auto simp: write_reg_def set_sprG_def issG_def set_spr_def set_spr_table_def spr_number_defs Let_def)

lemma write_special_regs:
  "\<exists>g'. write_regs h [32, 33, 34] (hex8 a @ hex8 b @ hex8 c @ s) g = (Inr (), g') \<and>
     gpr (m_iss g') = gpr (m_iss g) \<and> rsp_open (m_rsp g') = rsp_open (m_rsp g)"
proof -
  obtain x1 g1 x2 g2 x3 g3 where w: "write_reg h 32 (reverse_nibbles a) g = (x1, g1)"
    "write_reg h 33 (reverse_nibbles b) g1 = (x2, g2)" "write_reg h 34 (reverse_nibbles c) g2 = (x3, g3)"
    by (meson surj_pair)
  note k = write_special_keeps_gpr[OF w(1)] write_special_keeps_gpr[OF w(2)] write_special_keeps_gpr[OF w(3)]
  show ?thesis
    using w k str2int_hex8[of c s] by (intro exI[of _ g3]) (simp add: bindG_def str2int_hex8 returnG_def)
qed

lemma all_registers: "[0..<35] = [0..<32] @ [32, 33, 34]"
  by (simp add: upt_rec)

text \<open>The register file does not survive a round trip through the debugger. The text with which \<^verbatim>\<open>g\<close>
  reports all registers, sent back with \<^verbatim>\<open>G\<close>, is accepted and leaves every general register with its
  eight nibbles in reverse order.\<close>

theorem register_file_reversed:
  assumes "rsp_open (m_rsp g)" "length (gpr (m_iss g)) = 32"
  shows "\<exists>out r g'. handle_reg_read_all h [] g = (Inr (), g\<lparr>m_rsp := r\<rparr>) \<and>
    send_format out (m_rsp g) = Inr r \<and>
    handle_reg_write_all h (0x47 # out @ [0, 0]) (g\<lparr>m_rsp := r\<rparr>) = (Inr (), g') \<and>
    gpr (m_iss g') = map reverse_nibbles (gpr (m_iss g))"
proof -
  let ?s = "m_iss g"
  let ?gen = "concat (map (\<lambda>i. hex8 (gpr ?s ! i)) [0..<32])"
  let ?out = "?gen @ hex8 (reg_value 32 ?s) @ hex8 (reg_value 33 ?s) @ hex8 (reg_value 34 ?s)"
  have gen: "map (\<lambda>r. hex8 (reg_value r ?s)) (map of_nat [0..<32]) = map (\<lambda>i. hex8 (gpr ?s ! i)) [0..<32]"
    using small_reg by (auto simp: reg_value_def)
  have out: "read_regs (map of_nat [0..<35]) g = (Inr ?out, g)"
    unfolding all_registers map_append read_regs_text gen by simp
  obtain r where r: "send_format ?out (m_rsp g) = Inr r" using assms(1) by (simp add: send_format_def)
  then have ro: "rsp_open r" using assms(1) by (auto simp: send_format_def transmit_def)
  have rd: "handle_reg_read_all h [] g = (Inr (), g\<lparr>m_rsp := r\<rparr>)"
    by (simp add: handle_reg_read_all_def bindG_def out sendG_def rspG_def r del: upt_Suc)
  let ?g1 = "g\<lparr>m_rsp := r, m_iss := ?s\<lparr>gpr := map reverse_nibbles (gpr ?s)\<rparr>\<rparr>"
  have "map (\<lambda>i. reverse_nibbles (gpr ?s ! i)) [0..<32] = map reverse_nibbles (gpr ?s)"
    using assms(2) by (intro nth_equalityI) simp_all
  then have "write_regs h (map of_nat [0..<35]) (?out @ [0, 0]) (g\<lparr>m_rsp := r\<rparr>) =
      write_regs h [32, 33, 34] (hex8 (reg_value 32 ?s) @ hex8 (reg_value 33 ?s) @ hex8 (reg_value 34 ?s) @ [0, 0]) ?g1"
    using write_regs_hex8[of "[0..<32]" h "[32, 33, 34]" "\<lambda>i. gpr ?s ! i"
        "hex8 (reg_value 32 ?s) @ hex8 (reg_value 33 ?s) @ hex8 (reg_value 34 ?s) @ [0, 0]" "g\<lparr>m_rsp := r\<rparr>"]
      foldl_updates[OF assms(2), of "\<lambda>i. reverse_nibbles (gpr ?s ! i)"]
    by (simp add: all_registers del: upt_Suc write_regs.simps)
  then obtain g2 where g2: "write_regs h (map of_nat [0..<35]) (?out @ [0, 0]) (g\<lparr>m_rsp := r\<rparr>) = (Inr (), g2)"
    "gpr (m_iss g2) = map reverse_nibbles (gpr ?s)" "rsp_open (m_rsp g2)"
    using write_special_regs[of h "reg_value 32 ?s" "reg_value 33 ?s" "reg_value 34 ?s" "[0, 0]" ?g1] ro by auto
  then have "\<exists>g'. handle_reg_write_all h (0x47 # ?out @ [0, 0]) (g\<lparr>m_rsp := r\<rparr>) = (Inr (), g') \<and>
      gpr (m_iss g') = map reverse_nibbles (gpr ?s)"
    by (auto simp: handle_reg_write_all_def bindG_def sendG_def rspG_def send_format_def simp del: upt_Suc)
  with rd r show ?thesis by blast
qed

text \<open>Numbers as \<^verbatim>\<open>sscanf\<close> reads them.\<close>

lemma xdigit_facts: "is_xdigit c \<Longrightarrow> \<not> is_space c \<and> c \<noteq> 0x2d \<and> c \<noteq> 0x2b \<and> c \<noteq> 0x78 \<and> c \<noteq> 0x58 \<and> c \<noteq> 0"
  by (auto simp: is_xdigit_def is_space_def word_le_nat_alt)

lemma scan_hex_digits:
  assumes "ds \<noteq> []" "\<forall>c\<in>set ds. is_xdigit c" "digits_value ds < 2 ^ 64"
    and "rest = [] \<or> \<not> is_xdigit (hd rest) \<and> hd rest \<noteq> 0x78 \<and> hd rest \<noteq> 0x58"
  shows "scan_hex None (ds @ rest) = Some (of_nat (digits_value ds), rest)"
proof -
  obtain d e where ds: "ds = d # e" using assms(1) by (cases ds) auto
  then have d: "is_xdigit d" using assms(2) by simp
  have "dropWhile is_space (ds @ rest) = ds @ rest" using xdigit_facts[OF d] by (simp add: ds)
  moreover have "scan_sign (ds @ rest) = (False, 0)" using xdigit_facts[OF d] by (simp add: ds scan_sign_def)
  moreover have "scan_prefix (ds @ rest) = 0"
    using assms(2,4) xdigit_facts by (auto simp: ds scan_prefix_def split: list.splits) (cases e; auto)+
  moreover have "takeWhile is_xdigit (ds @ rest) = ds"
    using assms(2,4) by (cases rest) (auto simp: takeWhile_append)
  ultimately show ?thesis
    using assms(1,3) by (simp add: scan_hex_def Let_def hex_result_def)
qed

lemma c_str_command: "0 \<notin> set s \<Longrightarrow> c_str (s @ [0, 0]) = s"
  by (induction s) (auto simp: c_str_def)

lemma hex8_value: "digits_value (hex8 v) = unat v" "\<forall>c\<in>set (hex8 v). is_xdigit c"
proof -
  have "digits_value (replicate k 0x30 @ xs) = digits_value xs" for k xs
    by (induction k) (simp_all add: digits_value_def char2int_def)
  then show "digits_value (hex8 v) = unat v" by (simp add: hex8_def pad_left_def hex_text_value)
  show "\<forall>c\<in>set (hex8 v). is_xdigit c"
    using hex_text_digits by (auto simp: hex8_def pad_left_def is_xdigit_def)
qed

lemma unat_u32_small: "unat (v :: u32) < 2 ^ 64"
proof -
  have "unat v < 2 ^ LENGTH(32)" by (rule unsigned_less)
  then show ?thesis by simp
qed

lemma scan_hex8: "rest = [] \<or> \<not> is_xdigit (hd rest) \<and> hd rest \<noteq> 0x78 \<and> hd rest \<noteq> 0x58 \<Longrightarrow>
  scan_hex None (hex8 v @ rest) = Some (v, rest)"
  using scan_hex_digits[of "hex8 v" rest] hex8_value[of v] unat_u32_small[of v] hex8_length[of v]
  by (cases "hex8 v = []") simp_all

lemma scan_hex_text: "i < 2 ^ 32 \<Longrightarrow> rest = [] \<or> \<not> is_xdigit (hd rest) \<and> hd rest \<noteq> 0x78 \<and> hd rest \<noteq> 0x58 \<Longrightarrow>
  scan_hex None (hex_text i @ rest) = Some (of_nat i, rest)"
  using scan_hex_digits[of "hex_text i" rest] hex_text_digits[of i] hex_text_nonempty[of i]
  by (simp add: hex_text_value)

lemma hex_no_zero: "0 \<notin> set (hex8 v)" "0 \<notin> set (hex_text i)"
  using hex8_value(2)[of v] hex_text_digits[of i] xdigit_facts by blast+

text \<open>A register written through the debugger is read back. The \<^verbatim>\<open>P\<close> command for a general register
  with a value printed in eight digits is answered with \<^verbatim>\<open>OK\<close>, changes that register only, and the \<^verbatim>\<open>p\<close>
  command for it then replies with the same text.\<close>

theorem register_roundtrip:
  assumes "rsp_open (m_rsp g)" "i < 32" "length (gpr (m_iss g)) = 32"
  shows "\<exists>r1 r2. handle_reg_write h (0x50 # hex_text i @ 0x3d # hex8 v @ [0, 0]) g =
      (Inr (), g\<lparr>m_iss := (m_iss g)\<lparr>gpr := (gpr (m_iss g))[i := v]\<rparr>, m_rsp := r1\<rparr>) \<and>
    send_format (ascii ''OK'') (m_rsp g) = Inr r1 \<and>
    handle_reg_read h (0x70 # hex_text i @ [0, 0])
        (g\<lparr>m_iss := (m_iss g)\<lparr>gpr := (gpr (m_iss g))[i := v]\<rparr>, m_rsp := r1\<rparr>) =
      (Inr (), g\<lparr>m_iss := (m_iss g)\<lparr>gpr := (gpr (m_iss g))[i := v]\<rparr>, m_rsp := r2\<rparr>) \<and>
    send_format (hex8 v) r1 = Inr r2"
proof -
  have cw: "c_str (0x50 # hex_text i @ 0x3d # hex8 v @ [0, 0]) = 0x50 # hex_text i @ 0x3d # hex8 v"
    using c_str_command[of "0x50 # hex_text i @ 0x3d # hex8 v"] hex_no_zero by simp
  have cr: "c_str (0x70 # hex_text i @ [0, 0]) = 0x70 # hex_text i"
    using c_str_command[of "0x70 # hex_text i"] hex_no_zero by simp
  have a: "scan_lits ''P'' = [Lit 0x50]" "scan_lits ''='' = [Lit 0x3d]" "scan_lits ''p'' = [Lit 0x70]"
    by (simp_all add: scan_lits_def ascii_def)
  have "\<not> is_xdigit 0x3d" by (simp add: is_xdigit_def)
  then have sw: "sscanf (scan_lits ''P'' @ [Hex None] @ scan_lits ''='' @ [Hex None])
      (0x50 # hex_text i @ 0x3d # hex8 v) = [of_nat i, v]"
    using scan_hex_text[of i "0x3d # hex8 v"] scan_hex8[of "[]" v] assms(2) by (simp add: a)
  have sr: "sscanf (scan_lits ''p'' @ [Hex None]) (0x70 # hex_text i) = [of_nat i]"
    using scan_hex_text[of i "[]"] assms(2) by (simp add: a)
  note sm = small_reg[OF assms(2)]
  have n: "\<not> 34 < (of_nat i :: u32)" using sm assms(2) by (simp add: word_less_nat_alt)
  obtain r1 where r1: "send_format (ascii ''OK'') (m_rsp g) = Inr r1" using assms(1) by (simp add: send_format_def)
  then have "rsp_open r1" using assms(1) by (auto simp: send_format_def transmit_def)
  then obtain r2 where r2: "send_format (hex8 v) r1 = Inr r2" by (simp add: send_format_def)
  show ?thesis
    using sm n r1 r2 assms(2,3)
    by (simp add: handle_reg_write_def handle_reg_read_def parse2_def parse1_def cw cr sw[simplified] sr[simplified] bindG_def returnG_def
        write_reg_def read_reg_value reg_value_def set_gprG_def issG_def sendG_def rspG_def)
qed

section \<open>Examples\<close>

definition demo_debug :: gdb where "demo_debug = demo_gdb demo_store GDB_MODE_HALTED"

lemma demo_debug_view: "direct_view demo_debug" "rsp_open (m_rsp demo_debug)"
proof -
  have "\<not> is_dmmu_active demo_store" "\<not> is_immu_active demo_store"
    by (simp_all add: sr_queries demo_store_fields bit_or_iff bit_SR)
  then show "direct_view demo_debug" "rsp_open (m_rsp demo_debug)"
    by (simp_all add: direct_view_def demo_debug_def demo_store_fields new_env_def demo_rsp_def)
qed

lemma demo_guest: "unat a < 16 \<Longrightarrow> guest (m_env (m_iss demo_debug)) a = Some (of_nat (unat a + 100))"
  by (simp add: guest_def get_data_ptr_def demo_debug_def demo_store_fields new_env_def word_less_nat_alt)

lemma demo_bytes:
  "guest (m_env (m_iss demo_debug)) 4 = Some 104" "guest (m_env (m_iss demo_debug)) 5 = Some 105"
  "guest (m_env (m_iss demo_debug)) 6 = Some 106" "guest (m_env (m_iss demo_debug)) 7 = Some 107"
  by (simp_all add: demo_guest)

lemma demo_mapped: "mapped (m_env (m_iss demo_debug)) 4 4"
  by (auto simp: mapped_def demo_bytes less_Suc_eq numeral_nat)

lemmas scan_eval = scan_lits_def ascii_def scan_hex_def scan_sign_def scan_prefix_def hex_result_def
  is_space_def is_xdigit_def digits_value_def char2int_def c_str_def Let_def

theorem mem_read_reply_witness:
  "\<exists>r p. send_string (hex_dump [104, 105, 106, 107]) (m_rsp demo_debug) = Inr r \<and>
     handle_mem_read demo_host (ascii ''m4,4'' @ [0, 0]) demo_debug = (Inr (), demo_debug\<lparr>m_pages := p, m_rsp := r\<rparr>)"
proof -
  have "sscanf (scan_lits ''m'' @ [Hex None] @ scan_lits '','' @ [Hex None]) (c_str (ascii ''m4,4'' @ [0, 0])) = [4, 4]"
    by (simp add: scan_eval)
  from mem_read_reply[OF demo_debug_view this, of demo_host] demo_mapped show ?thesis
    by (simp add: guest_bytes_def demo_guest upt_rec)
qed

lemma get_bytes_4: "get_bytes get 4 d = get_bytes get (Suc (Suc (Suc (Suc 0)))) d"
  by (simp only: eval_nat_numeral BitM.simps)

theorem memory_roundtrip_witness:
  "\<exists>g1 g2 r. handle_mem_write_bin demo_host (ascii ''X4,4:'' @ [1, 0x7d, 0x5d, 3, 4, 0, 0]) demo_debug = (Inr (), g1) \<and>
     handle_mem_read demo_host (ascii ''m4,4'' @ [0, 0]) g1 = (Inr (), g2) \<and>
     send_string (hex_dump [1, 0x7d, 3, 4]) (m_rsp g1) = Inr r \<and> m_rsp g2 = r"
proof -
  have w: "sscanf bin_format (c_str (ascii ''X4,4:'' @ [1, 0x7d, 0x5d, 3, 4, 0, 0])) = [4, 4]"
    "0x3a \<in> set (c_str (ascii ''X4,4:'' @ [1, 0x7d, 0x5d, 3, 4, 0, 0]))"
    "get_bytes char_unescape (unat (4 :: u32)) (payload (ascii ''X4,4:'' @ [1, 0x7d, 0x5d, 3, 4, 0, 0])) =
      Inr ([1, 0x7d, 3, 4], [0, 0])"
    by (simp_all add: bin_format_def scan_eval payload_def get_bytes_4)
  have r: "sscanf (scan_lits ''m'' @ [Hex None] @ scan_lits '','' @ [Hex None]) (c_str (ascii ''m4,4'' @ [0, 0])) = [4, 4]"
    by (simp add: scan_eval)
  have m: "mapped (m_env (m_iss demo_debug)) 4 (unat (4 :: u32))" using demo_mapped by simp
  show ?thesis using memory_roundtrip[OF demo_debug_view w(1) _ _ w(2,3) m r, of demo_host] by fastforce
qed

theorem hex_write_garbles_witness:
  "\<exists>g'. handle_mem_write demo_host (ascii ''M4,4:01020304'' @ [0, 0]) demo_debug = (Inr (), g') \<and>
     guest (m_env (m_iss g')) 4 = Some 0x10 \<and> guest (m_env (m_iss g')) 5 = Some 0x01"
proof -
  let ?b = "ascii ''M4,4:01020304'' @ [0, 0]"
  have p: "payload ?b = [0x30, 0x31, 0x30, 0x32, 0x30, 0x33, 0x30, 0x34, 0, 0]"
    by (simp add: payload_def ascii_def)
  have w: "sscanf hex_format (c_str ?b) = [4, 4]" "0x3a \<in> set (c_str ?b)"
    by (simp_all add: hex_format_def scan_eval)
  have m: "mapped (m_env (m_iss demo_debug)) 4 (unat (4 :: u32))" using demo_mapped by simp
  obtain g' where "handle_mem_write demo_host ?b demo_debug = (Inr (), g')"
    "\<forall>i<4. guest (m_env (m_iss g')) (4 + of_nat i) =
       Some (ucast (push_bit 4 (char2int (payload ?b ! Suc i)) OR char2int (payload ?b ! i)))"
    using hex_write_garbles[OF demo_debug_view w(1) _ w(2) _ m, of demo_host] by (auto simp: p)
  then show ?thesis
    by (intro exI[of _ g']) (auto simp: p char2int_def dest: spec[of _ 0] spec[of _ 1])
qed

theorem register_roundtrip_witness:
  "\<exists>g1 g2 r. handle_reg_write demo_host (0x50 # hex_text 5 @ 0x3d # hex8 77 @ [0, 0]) demo_debug = (Inr (), g1) \<and>
     gpr (m_iss g1) ! 5 = 77 \<and> handle_reg_read demo_host (0x70 # hex_text 5 @ [0, 0]) g1 = (Inr (), g2)"
proof -
  have "length (gpr (m_iss demo_debug)) = 32" by (simp add: demo_debug_def demo_store_fields)
  from register_roundtrip[OF demo_debug_view(2) _ this, of 5 demo_host 77] this show ?thesis by fastforce
qed

theorem register_file_reversed_witness:
  "\<exists>out g1 g2. handle_reg_read_all demo_host [] (demo_gdb (demo_core\<lparr>gpr := (replicate 32 0)[3 := 0x12345678]\<rparr>)
       GDB_MODE_HALTED) = (Inr (), g1) \<and>
     handle_reg_write_all demo_host (0x47 # out @ [0, 0]) g1 = (Inr (), g2) \<and> gpr (m_iss g2) ! 3 = 0x87654321"
proof -
  let ?g = "demo_gdb (demo_core\<lparr>gpr := (replicate 32 0)[3 := 0x12345678]\<rparr>) GDB_MODE_HALTED"
  have "rsp_open (m_rsp ?g)" "length (gpr (m_iss ?g)) = 32" by (simp_all add: demo_rsp_def)
  from register_file_reversed[OF this, of demo_host] obtain out r g2 where
    "handle_reg_read_all demo_host [] ?g = (Inr (), ?g\<lparr>m_rsp := r\<rparr>)"
    "handle_reg_write_all demo_host (0x47 # out @ [0, 0]) (?g\<lparr>m_rsp := r\<rparr>) = (Inr (), g2)"
    "gpr (m_iss g2) = map reverse_nibbles (gpr (m_iss ?g))" by blast
  moreover have "reverse_nibbles 0x12345678 = 0x87654321"
    by (simp add: reverse_nibbles_def nibble_def upt_rec)
  ultimately show ?thesis by (intro exI[of _ out] exI[of _ "?g\<lparr>m_rsp := r\<rparr>"] exI[of _ g2]) simp
qed

end
