(* ===== verification/Standalone.thy ===== *)
theory Standalone
  imports Progress Gdb
begin

text \<open>
  The standalone simulator (\<^verbatim>\<open>src/main.cpp\<close>): from the options on the command line to the memory, the
  simulator, the loaded program and the run. It puts the other components together: the memory is the
  environment of the simulator and the place the program is loaded to, and with a debugger port the
  simulator is handed to the debugger stub, whose two threads \<open>Debugger\<close> describes. The options are
  what \<^verbatim>\<open>getopt\<close> returns, one character with its argument at a time; the files, the uninitialised
  blocks of the heap and the connection are fields of the \<open>world\<close>. The statistics that are printed at
  the end are not modelled.
\<close>

section \<open>Options\<close>

datatype exit_status = EXIT_SUCCESS | EXIT_FAILURE

record options =
  o_elffile :: "string option"
  o_binary :: "string option"
  o_tracefile :: "string option"
  o_debugport :: u16
  o_memsize :: u32
  o_ninsns :: u32
  o_show_warn :: bool
  o_dcsz :: nat
  o_lines :: "string list"

definition default_options :: options where
  "default_options =
     \<lparr>o_elffile = None, o_binary = None, o_tracefile = None, o_debugport = 0, o_memsize = 0x08000000,
      o_ninsns = 0, o_show_warn = False, o_dcsz = DECODE_CACHE_SIZE_8M, o_lines = []\<rparr>"

text \<open>
  \<^verbatim>\<open>atoi\<close>: leading white space, a sign, decimal digits. The library converts to a 64-bit integer, which
  saturates, and returns its lower half.
\<close>

definition is_white :: "char \<Rightarrow> bool" where
  "is_white c \<longleftrightarrow> c \<in> set '' '' \<or> 9 \<le> (of_char c :: nat) \<and> (of_char c :: nat) \<le> 13"

definition is_decimal :: "char \<Rightarrow> bool" where
  "is_decimal c \<longleftrightarrow> c \<in> set ''0123456789''"

definition atoi :: "string \<Rightarrow> u32" where
  "atoi s =
     (let s = dropWhile is_white s;
          neg = (s \<noteq> [] \<and> hd s = CHR ''-'');
          s = (if s \<noteq> [] \<and> hd s \<in> set ''+-'' then tl s else s);
          v = int (value_base 10 (takeWhile is_decimal s))
      in word_of_int (if neg then max (- (2 ^ 63)) (- v) else min (2 ^ 63 - 1) v))"

text \<open>The loop over the options; it leaves the program for \<^verbatim>\<open>-h\<close> and for what it does not know.\<close>

fun parse_options :: "(char \<times> string) list \<Rightarrow> options \<Rightarrow> exit_status + options" where
  "parse_options [] opt = Inr opt"
| "parse_options ((c, optarg) # cs) opt =
     (if c = CHR ''e'' then parse_options cs (opt\<lparr>o_elffile := Some optarg\<rparr>)
      else if c = CHR ''b'' then parse_options cs (opt\<lparr>o_binary := Some optarg\<rparr>)
      else if c = CHR ''t'' then parse_options cs (opt\<lparr>o_tracefile := Some optarg\<rparr>)
      else if c = CHR ''p'' then parse_options cs (opt\<lparr>o_debugport := ucast (atoi optarg)\<rparr>)
      else if c = CHR ''m'' then parse_options cs (opt\<lparr>o_memsize := atoi optarg\<rparr>)
      else if c = CHR ''i'' then parse_options cs (opt\<lparr>o_ninsns := atoi optarg\<rparr>)
      else if c = CHR ''v'' then parse_options cs (opt\<lparr>o_lines := o_lines opt @ [''CTEST_FULL_OUTPUT'']\<rparr>)
      else if c = CHR ''w'' then parse_options cs (opt\<lparr>o_show_warn := \<not> o_show_warn opt\<rparr>)
      else if c = CHR ''z'' then parse_options cs (opt\<lparr>o_dcsz := DECODE_CACHE_OFF\<rparr>)
      else if c = CHR ''h'' then Inl EXIT_SUCCESS
      else Inl EXIT_FAILURE)"

section \<open>Putting the simulator together\<close>

text \<open>
  \<open>w_heap\<close> and \<open>w_block\<close> are the uninitialised contents of a section buffer and of the decode cache,
  \<open>w_base\<close> is the address of the memory block and \<open>w_host_mem\<close> the rest of the process's memory.
\<close>

record world =
  w_elf :: "string \<Rightarrow> elf32_file option"
  w_raw :: "string \<Rightarrow> u8 list option"
  w_heap :: "nat \<Rightarrow> u8"
  w_block :: "u32 \<Rightarrow> instruction"
  w_base :: nat
  w_host_mem :: hmem
  w_host :: host
  w_rsp :: rsp

definition machine_host :: "world \<Rightarrow> memory_dev \<Rightarrow> host" where
  "machine_host w d = (w_host w)\<lparr>h_env := memory_vtable (w_heap w) d\<rparr>"

definition load_elf :: "world \<Rightarrow> memory_dev \<Rightarrow> options \<Rightarrow> or1k \<Rightarrow> (elf option \<times> or1k) res" where
  "load_elf w d opt s =
     (case o_elffile opt of
        None \<Rightarrow> Inr (None, s)
      | Some name \<Rightarrow>
          bindE (new_elf (w_heap w) name (w_elf w name)) (\<lambda>f.
          bindE (elf_load (memory_vtable (w_heap w) d) f (m_env s)) (\<lambda>e.
          Inr (Some f, s\<lparr>m_env := e\<rparr>))))"

text \<open>Whether the file could be read is not looked at.\<close>

definition load_binary :: "world \<Rightarrow> memory_dev \<Rightarrow> options \<Rightarrow> or1k \<Rightarrow> or1k res" where
  "load_binary w d opt s =
     (case o_binary opt of
        None \<Rightarrow> Inr s
      | Some name \<Rightarrow> bindE (memory_load (w_raw w name) d (m_env s)) (\<lambda>(_, e). Inr (s\<lparr>m_env := e\<rparr>)))"

definition open_trace :: "options \<Rightarrow> or1k \<Rightarrow> or1k res" where
  "open_trace opt s = (case o_tracefile opt of None \<Rightarrow> Inr s | Some _ \<Rightarrow> trace_to Stream_file s)"

definition set_up :: "world \<Rightarrow> options \<Rightarrow> (memory_dev \<times> elf option \<times> or1k) res" where
  "set_up w opt =
     bindE (new_memory (ucast (o_memsize opt)) (w_base w) (w_host_mem w)) (\<lambda>(mem, e).
     bindE (new_or1k e (o_dcsz opt) (w_block w)) (\<lambda>sim.
     bindE (load_elf w mem opt sim) (\<lambda>(elf, sim).
     bindE (load_binary w mem opt sim) (\<lambda>sim.
     bindE (open_trace opt sim) (\<lambda>sim. Inr (mem, elf, sim))))))"

section \<open>The program\<close>

text \<open>
  How the program ends: with its usage message, with a complete run, with an exception that its last
  handler prints, or not at all by its own doing; or it hands over to the debugger.
\<close>

datatype main_end =
    Usage exit_status | Completed or1k | Caught or1k_error | Crashed or1k_error | Attached gdb

definition failed :: "or1k_error \<Rightarrow> main_end" where
  "failed e = (if catchable e then Caught e else Crashed e)"

definition no_program :: "options \<Rightarrow> bool" where
  "no_program opt \<longleftrightarrow> o_elffile opt = None \<and> o_binary opt = None \<and> o_debugport opt = 0"

text \<open>A run is \<open>None\<close> when it has not ended within the fuel.\<close>

definition simulate :: "nat \<Rightarrow> nat \<Rightarrow> host \<Rightarrow> options \<Rightarrow> or1k \<Rightarrow> main_end option" where
  "simulate k n h opt sim =
     (if 0 < o_ninsns opt
      then (case step n h (o_ninsns opt) sim of
              None \<Rightarrow> None | Some (Inl e) \<Rightarrow> Some (failed e) | Some (Inr (_, _, s)) \<Rightarrow> Some (Completed s))
      else (case run k n h (-1) sim of
              None \<Rightarrow> None | Some (Inl e) \<Rightarrow> Some (failed e) | Some (Inr (_, s)) \<Rightarrow> Some (Completed s)))"

definition main_program :: "nat \<Rightarrow> nat \<Rightarrow> world \<Rightarrow> (char \<times> string) list \<Rightarrow> main_end option" where
  "main_program k n w args =
     (case parse_options args default_options of
        Inl status \<Rightarrow> Some (Usage status)
      | Inr opt \<Rightarrow>
          if no_program opt then Some (Usage EXIT_FAILURE)
          else (case set_up w opt of
                  Inl e \<Rightarrow> Some (failed e)
                | Inr (mem, elf, sim) \<Rightarrow>
                    if o_debugport opt = 0 then simulate k n (machine_host w mem) opt sim
                    else Some (Attached ((new_gdb sim None (w_rsp w))
                           \<lparr>m_elf := elf, m_show_warnings := o_show_warn opt\<rparr>))))"


section \<open>The simulator that is run\<close>

lemma standalone_memory_env:
  assumes "new_memory sz base m = Inr (d, e)"
  shows "m_memory d = base" "m_size d = sz" "env_endian e = ENDIAN_BIG" "memory_costs e"
    "m_data_ptr e = Some base" "m_data_start e = 0" "m_data_end e = ucast (sz - 1)"
    "m_insn_ptr e = Some base" "m_insn_start e = 0" "m_insn_end e = ucast (sz - 1)"
    "\<And>a. base \<le> a \<Longrightarrow> a < base + unat sz \<Longrightarrow> host_mem e a = Some 0"
  using assms
  by (auto simp: new_memory_def set_data_ptr_def set_insn_ptr_def new_env_def memory_costs_def split: if_splits)

lemma new_or1k_fields:
  assumes "new_or1k e sz block = Inr s"
  shows "m_env s = e" "m_breakpoints s = []" "m_cycles s = 0"
  using assms by (auto simp: new_or1k_def bindE_eq_Inr power_on_def)

lemma core_ok_env: "core_ok (s\<lparr>m_env := e\<rparr>) = core_ok s"
  "core_ok (s\<lparr>m_user_trace_stream := x, m_trace_enabled := b\<rparr>) = core_ok s"
  by (simp_all add: core_ok_def)

lemma section_load_costs:
  assumes "memory_costs e" "section_load (memory_vtable mal d) s e = Inr e'"
  shows "memory_costs e'"
  using assms memory_port.convert_bounded[of e]
  by (auto simp: section_load_def bindE_eq_Inr split: if_splits)

lemma load_sections_costs:
  "memory_costs e \<Longrightarrow> load_sections (memory_vtable mal d) ss e = Inr e' \<Longrightarrow> memory_costs e'"
  by (induction ss arbitrary: e) (auto simp: bindE_eq_Inr dest: section_load_costs)

text \<open>What every prepared simulator satisfies.\<close>

definition fresh :: "or1k \<Rightarrow> bool" where
  "fresh s \<longleftrightarrow> core_ok s \<and> m_breakpoints s = [] \<and> m_cycles s = 0 \<and> memory_costs (m_env s)"

lemma load_elf_fresh: "fresh s \<Longrightarrow> load_elf w d opt s = Inr (f, t) \<Longrightarrow> fresh t"
  by (auto simp: load_elf_def bindE_eq_Inr fresh_def core_ok_env elf_load_def dest: load_sections_costs
      split: option.splits)

lemma load_binary_fresh: "fresh s \<Longrightarrow> load_binary w d opt s = Inr t \<Longrightarrow> fresh t"
  by (auto simp: load_binary_def memory_load_def bindE_eq_Inr fresh_def core_ok_env memory_costs_def
      split: option.splits)

lemma open_trace_fresh: "fresh s \<Longrightarrow> open_trace opt s = Inr t \<Longrightarrow> fresh t"
  by (auto simp: open_trace_def trace_to_def fresh_def core_ok_env split: option.splits if_splits)

lemma set_up_fresh:
  assumes "set_up w opt = Inr (d, f, s)"
  shows "fresh s"
proof -
  obtain e s0 s1 s2 where m: "new_memory (ucast (o_memsize opt)) (w_base w) (w_host_mem w) = Inr (d, e)"
    and n: "new_or1k e (o_dcsz opt) (w_block w) = Inr s0"
    and l: "load_elf w d opt s0 = Inr (f, s1)" "load_binary w d opt s1 = Inr s2" "open_trace opt s2 = Inr s"
    using assms by (auto simp: set_up_def bindE_eq_Inr)
  have "fresh s0"
    using new_or1k_ok(1)[OF n] new_or1k_fields[OF n] standalone_memory_env(4)[OF m] by (simp add: fresh_def)
  with l show ?thesis by (blast intro: load_elf_fresh load_binary_fresh open_trace_fresh)
qed

lemma simulate_ends:
  assumes "fresh s" "o_ninsns opt \<noteq> 0" "unat (o_ninsns opt) < n"
  shows "\<exists>r. simulate k n (machine_host w d) opt s = Some r \<and> (\<forall>t. r = Completed t \<longrightarrow> core_ok t)"
proof -
  let ?h = "machine_host w d" and ?c = "o_ninsns opt"
  have "unat (m_cycles s) + unat ?c + 1 + 6 * 1 * unat ?c + 2 ^ 32 < 2 ^ 64"
    using assms(1) unsigned_less[of ?c, where 'a = nat] by (simp add: fresh_def)
  from memory_port.advance_returns[OF _ _ _ this assms(3), of ?h "w_heap w" d] assms(1)
  obtain r where r: "advance n ?h ?c s = Some r" by (auto simp: fresh_def machine_host_def)
  have "0 < ?c" using assms(2) by (simp add: word_gt_0)
  show ?thesis
  proof (cases r)
    case (Inl e)
    with r \<open>0 < ?c\<close> show ?thesis by (auto simp: simulate_def step_def bindF_def failed_def)
  next
    case (Inr x)
    obtain sr t where x: "x = (sr, t)" by (cases x)
    have "core_ok t"
      using shape_core_ok[OF advance_keeps(1)] r Inr x assms(1) by (auto simp: fresh_def)
    with r \<open>0 < ?c\<close> Inr x show ?thesis by (simp add: simulate_def step_def bindF_def)
  qed
qed

text \<open>C18:
  The standalone simulator ends. Given a program and a number of instructions to run, without a
  debugger and whatever the program does, the process either fails to set up the simulator or comes
  back from its one simulation step, within as many rounds as instructions; and a simulation that runs
  to its end leaves the core with its invariant.
\<close>

theorem main_program_ends:
  assumes "parse_options args default_options = Inr opt" "\<not> no_program opt"
    and "o_debugport opt = 0" "o_ninsns opt \<noteq> 0" "unat (o_ninsns opt) < n"
  shows "\<exists>r. main_program k n w args = Some r \<and> (\<forall>t. r = Completed t \<longrightarrow> core_ok t)"
proof (cases "set_up w opt")
  case (Inl e)
  with assms show ?thesis by (auto simp: main_program_def failed_def)
next
  case (Inr x)
  obtain d f s where x: "x = (d, f, s)" by (cases x)
  from set_up_fresh Inr x have "fresh s" by simp
  from simulate_ends[OF this assms(4,5), of k w d] Inr x assms show ?thesis
    by (simp add: main_program_def)
qed

section \<open>The program that is run\<close>

definition big_endian_word :: "u8 list \<Rightarrow> u32" where
  "big_endian_word bs = of_le_bytes (rev bs)"

lemma byte_swap_word: "length bs = 4 \<Longrightarrow> byte_swap32 (of_le_bytes bs) = big_endian_word bs"
  using byte_swap_bytes(2)[of bs 4] le_bytes_of_le_bytes[of "rev bs", where 'a = 32]
    le_bytes_inject[of 4 "byte_swap32 (of_le_bytes bs)" "of_le_bytes (rev bs)"]
  by (simp add: big_endian_word_def)

text \<open>Sections that fit into the memory, and that do not overlap there.\<close>

definition fits_memory :: "u32 \<Rightarrow> elf_section \<Rightarrow> bool" where
  "fits_memory sz t \<longleftrightarrow> (loadable t \<longrightarrow> unat (sec_phys_addr t) + unat (sec_size t) \<le> unat sz)"

definition physical_range :: "elf_section \<Rightarrow> nat set" where
  "physical_range t = {unat (sec_phys_addr t) ..< unat (sec_phys_addr t) + unat (sec_size t)}"

definition well_placed :: "u32 \<Rightarrow> elf_section list \<Rightarrow> bool" where
  "well_placed sz ss \<longleftrightarrow> (\<forall>t\<in>set ss. fits_memory sz t) \<and>
     sorted_wrt (\<lambda>t u. loadable t \<and> loadable u \<longrightarrow> physical_range t \<inter> physical_range u = {}) ss"

lemma load_bytes_part:
  assumes "load_bytes m p n = Inr bs" "k + l \<le> n"
  shows "load_bytes m (p + k) l = Inr (take l (drop k bs))"
proof -
  have "allocated m (p + k) l" using assms by (auto simp: load_bytes_Inr allocated_iff)
  moreover have "map f [p + k..<p + k + l] = take l (drop k (map f [p..<p + n]))" for f :: "nat \<Rightarrow> u8"
    using assms(2) by (intro nth_equalityI) (auto simp: add.assoc)
  ultimately show ?thesis using assms(1) by (auto simp: load_bytes_Inr)
qed

lemma unat_narrow: "unat v < 2 ^ 32 \<Longrightarrow> unat (ucast v :: u32) = unat v" for v :: u64
  by (simp add: unsigned_ucast_eq take_bit_nat_eq_self)

lemma last_address:
  assumes "sz \<noteq> (0 :: u32)"
  shows "unat (sz - 1) = unat sz - 1" "ucast ((ucast sz :: u64) - 1) = sz - 1"
proof -
  have one: "1 \<le> unat sz" using assms by (simp add: Suc_leI unat_gt_0)
  then show u: "unat (sz - 1) = unat sz - 1" by (simp add: unat_sub word_le_nat_alt)
  have "unat ((ucast sz :: u64) - 1) = unat sz - 1"
    using one by (simp add: unat_sub word_le_nat_alt)
  then show "ucast ((ucast sz :: u64) - 1) = sz - 1"
    using unsigned_less[of sz, where 'a = nat] unat_narrow[of "(ucast sz :: u64) - 1"]
    by (simp add: word_unat_eq_iff u)
qed

text \<open>An address below the size of the memory is served directly, for data and for instructions.\<close>

lemma memory_ptr:
  assumes "new_memory (ucast sz) base m = Inr (d, e)" "unat a < unat (sz :: u32)"
  shows "get_insn_ptr e a = Some (base + unat a)" "get_data_ptr e a = Some (base + unat a)"
proof -
  have "sz \<noteq> 0" using assms(2) by auto
  then have "\<not> sz - 1 < a" using assms(2) last_address(1)[of sz] by (simp add: word_less_nat_alt)
  then show "get_insn_ptr e a = Some (base + unat a)" "get_data_ptr e a = Some (base + unat a)"
    using standalone_memory_env[OF assms(1)] last_address(2)[OF \<open>sz \<noteq> 0\<close>]
    by (simp_all add: get_insn_ptr_def get_data_ptr_def)
qed

lemma section_in_memory:
  assumes "new_memory (ucast sz) base m = Inr (d, e)" "fits_memory sz t" "loadable t"
  shows "section_ptr e t = Some (base + unat (sec_phys_addr t))" "placed e t"
    "extent e t = (+) base ` physical_range t"
proof -
  have b: "unat (sec_phys_addr t) + unat (sec_size t) \<le> unat sz" "0 < unat (sec_size t)"
    using assms(2,3) by (simp_all add: fits_memory_def loadable_def unat_gt_0)
  have "unat (sec_phys_addr t) < 2 ^ 32" using b unsigned_less[of sz, where 'a = nat] by simp
  then have u: "unat (ucast (sec_phys_addr t) :: u32) = unat (sec_phys_addr t)"
    by (rule unat_narrow)
  show p: "section_ptr e t = Some (base + unat (sec_phys_addr t))"
    using memory_ptr[OF assms(1), of "ucast (sec_phys_addr t)"] b u by (simp add: section_ptr_def)
  show "placed e t"
    using p b standalone_memory_env(11)[OF assms(1)] by (simp add: placed_def allocated_iff)
  show "extent e t = (+) base ` physical_range t"
    by (simp add: extent_def p physical_range_def ac_simps)
qed

lemma elf_load_memory:
  assumes "new_memory (ucast sz) base m = Inr (d, e)" "new_elf heap name file = Inr f" "well_placed sz (m_sections f)"
  shows "\<exists>hm. elf_load vt f e = Inr (e\<lparr>host_mem := hm\<rparr>) \<and>
    (\<forall>t\<in>set (m_sections f). loadable t \<longrightarrow>
       load_bytes hm (base + unat (sec_phys_addr t)) (unat (sec_size t)) = Inr (sec_data t))"
proof -
  have fit: "fits_memory sz t" if "t \<in> set (m_sections f)" for t
    using assms(3) that by (simp add: well_placed_def)
  have "sorted_wrt (\<lambda>t u. loadable t \<and> loadable u \<longrightarrow> extent e t \<inter> extent e u = {}) (m_sections f)"
    using assms(3) section_in_memory(3)[OF assms(1)] unfolding well_placed_def
    by (elim conjE sorted_wrt_mono_rel[rotated]) (auto simp: disjoint_iff)
  with load_sections_places[OF standalone_memory_env(3)[OF assms(1)], of "m_sections f" vt]
    new_elf_length[OF assms(2)] section_in_memory(2)[OF assms(1) fit]
  obtain hm where "load_sections vt (m_sections f) e = Inr (e\<lparr>host_mem := hm\<rparr>)"
    "\<forall>t\<in>set (m_sections f). loadable t \<longrightarrow>
       load_bytes hm (the (section_ptr e t)) (unat (sec_size t)) = Inr (sec_data t)" by blast
  then show ?thesis
    using section_in_memory(1)[OF assms(1) fit] by (auto simp: elf_load_def)
qed

lemma direct_ptr_host_mem:
  "get_insn_ptr (e\<lparr>host_mem := m\<rparr>) a = get_insn_ptr e a" "get_data_ptr (e\<lparr>host_mem := m\<rparr>) a = get_data_ptr e a"
  by (simp_all add: get_insn_ptr_def get_data_ptr_def cong: option.case_cong if_cong)

text \<open>C17:
  The simulator runs the program it was given. After the set-up from an ELF file whose sections fit into
  the memory without overlapping, an instruction fetch from any address of a loaded section, by the
  physical address, gives the big endian word that the file has there.
\<close>

theorem loaded_program_is_fetched:
  assumes "set_up w opt = Inr (d, Some f, s)" "o_binary opt = None"
    and "well_placed (o_memsize opt) (m_sections f)" "t \<in> set (m_sections f)" "loadable t"
    and "unat (sec_phys_addr t) \<le> unat a" "unat a + 4 \<le> unat (sec_phys_addr t) + unat (sec_size t)"
  shows "fetch_word h (s\<lparr>m_ireq := (m_ireq s)\<lparr>req_addr := a\<rparr>\<rparr>) =
    Inr (RESP_SUCCESS, s\<lparr>m_ireq := (m_ireq s)\<lparr>req_addr := a\<rparr>,
      m_insn := big_endian_word (take 4 (drop (unat a - unat (sec_phys_addr t)) (sec_data t)))\<rparr>)"
proof -
  let ?sz = "o_memsize opt" and ?base = "w_base w"
  obtain e s0 s1 where m: "new_memory (ucast ?sz) ?base (w_host_mem w) = Inr (d, e)"
    and n: "new_or1k e (o_dcsz opt) (w_block w) = Inr s0"
    and l: "load_elf w d opt s0 = Inr (Some f, s1)" "open_trace opt s1 = Inr s"
    using assms(1,2) by (auto simp: set_up_def bindE_eq_Inr load_binary_def)
  obtain name e' where el: "new_elf (w_heap w) name (w_elf w name) = Inr f"
    "elf_load (memory_vtable (w_heap w) d) f e = Inr e'" "m_env s1 = e'"
    using l(1) new_or1k_fields(1)[OF n] by (auto simp: load_elf_def bindE_eq_Inr split: option.splits)
  from elf_load_memory[OF m el(1) assms(3), of "memory_vtable (w_heap w) d"] el(2) assms(4,5)
  obtain hm where hm: "e' = e\<lparr>host_mem := hm\<rparr>"
    "load_bytes hm (?base + unat (sec_phys_addr t)) (unat (sec_size t)) = Inr (sec_data t)" by auto
  have fit: "fits_memory ?sz t" using assms(3,4) by (simp add: well_placed_def)
  let ?k = "unat a - unat (sec_phys_addr t)"
  from load_bytes_part[OF hm(2), of ?k 4] assms(6,7)
  have b: "load_bytes hm (?base + unat a) 4 = Inr (take 4 (drop ?k (sec_data t)))" by simp
  have "unat a < unat ?sz" using fit assms(5-7) by (simp add: fits_memory_def)
  from memory_ptr(1)[OF m this] have p: "get_insn_ptr e' a = Some (?base + unat a)"
    by (simp add: hm(1) direct_ptr_host_mem)
  have "m_env s = e'" "host_mem e' = hm"
    using l(2) el(3) hm(1) by (auto simp: open_trace_def trace_to_def split: option.splits if_splits)
  with p b show ?thesis
    using length_load_bytes[OF b] by (simp add: fetch_word_def byte_swap_word)
qed

section \<open>Two command lines\<close>

definition demo_world :: world where
  "demo_world = \<lparr>w_elf = (\<lambda>_. Some demo_file), w_raw = (\<lambda>_. None), w_heap = (\<lambda>_. 7), w_block = (\<lambda>_. zero_insn),
     w_base = 0x1000, w_host_mem = (\<lambda>_. None), w_host = demo_host,
     w_rsp = \<lparr>rsp_open = False, rx = [], tx = [], tx_broken = False\<rparr>\<rparr>"

lemma demo_atoi: "atoi ''10'' = 10" "atoi ''16'' = 16"
  by (simp_all add: atoi_def is_white_def is_decimal_def value_base_def digit_value_def digit_chars_def)

theorem main_program_ends_witness:
  "\<exists>r. main_program 0 11 demo_world [(CHR ''b'', ''image''), (CHR ''i'', ''10'')] = Some r \<and>
     (\<forall>t. r = Completed t \<longrightarrow> core_ok t)"
  by (rule main_program_ends[where opt = "default_options\<lparr>o_binary := Some ''image'', o_ninsns := 10\<rparr>"])
    (simp_all add: demo_atoi default_options_def no_program_def)

definition demo_options :: options where
  "demo_options = default_options\<lparr>o_elffile := Some ''demo'', o_memsize := 16\<rparr>"

lemma demo_well_placed: "well_placed 16 (m_sections demo_elf)"
  by (auto simp: well_placed_def fits_memory_def physical_range_def demo_elf_def demo_sections_def loadable_def)

lemma demo_set_up: "\<exists>d s. set_up demo_world demo_options = Inr (d, Some demo_elf, s)"
proof -
  obtain d e where m: "new_memory (ucast (16 :: u32)) 0x1000 (\<lambda>_. None) = Inr (d, e)"
    by (auto simp: new_memory_def set_data_ptr_def set_insn_ptr_def)
  have n: "\<exists>s. new_or1k e sz block = Inr s" for sz block
    by (simp add: new_or1k_def new_mmu_def Let_def)
  then obtain s where "new_or1k e DECODE_CACHE_SIZE_8M (\<lambda>_. zero_insn) = Inr s" by blast
  moreover obtain hm where "elf_load (memory_vtable (\<lambda>_. 7) d) demo_elf e = Inr (e\<lparr>host_mem := hm\<rparr>)"
    using elf_load_memory[OF m demo_elf_read demo_well_placed] by blast
  ultimately show ?thesis
    using m by (simp add: set_up_def demo_world_def demo_options_def default_options_def load_elf_def
      demo_elf_read new_or1k_fields(1) load_binary_def open_trace_def)
qed

theorem loaded_program_is_fetched_witness:
  "\<exists>d s. set_up demo_world demo_options = Inr (d, Some demo_elf, s) \<and>
     fetch_word demo_host (s\<lparr>m_ireq := (m_ireq s)\<lparr>req_addr := 0\<rparr>\<rparr>) =
       Inr (RESP_SUCCESS, s\<lparr>m_ireq := (m_ireq s)\<lparr>req_addr := 0\<rparr>, m_insn := 0x15000001\<rparr>)"
proof -
  obtain d s where s: "set_up demo_world demo_options = Inr (d, Some demo_elf, s)" using demo_set_up by blast
  have "o_binary demo_options = None" "well_placed (o_memsize demo_options) (m_sections demo_elf)"
    using demo_well_placed by (simp_all add: demo_options_def default_options_def)
  from loaded_program_is_fetched[OF s this, of "demo_sections ! 0" 0 demo_host] s show ?thesis
    by (auto simp: demo_elf_def demo_sections_def loadable_def big_endian_word_def)
qed

end
