(* ===== verification/Error_Text.thy ===== *)
theory Error_Text
  imports Tracing
begin

text \<open>
  The exceptions of the program as objects (\<^verbatim>\<open>include/or1kiss/exception.h\<close>, \<^verbatim>\<open>src/or1kiss/exception.cpp\<close>): a
  position in the source and a text that is composed from a format and its arguments. The other theories
  need to know only which error was raised, and use the constructors of \<open>or1k_error\<close> for it; here is what the
  user reads. A format that asks for an argument that is not there, or for one of another type, has no
  defined result, so composing is partial; the theorems say when it succeeds.
\<close>

section \<open>Formats\<close>

text \<open>
  An argument is passed as an integer or as a pointer to a string. A directive is a percent sign, perhaps
  a zero for padding, perhaps a width, and one of the conversions that occur in the program; \<^verbatim>\<open>%%\<close> takes
  no argument and stands for a percent sign. (What a C library adds to the standard, such as \<^verbatim>\<open>%m\<close>, is left out.)
\<close>

datatype printf_arg = Arg_int u32 | Arg_str string

datatype directive = Percent | Put_d bool nat | Put_u bool nat | Put_x bool nat | Put_s nat

definition is_digit :: "char \<Rightarrow> bool" where "is_digit c \<longleftrightarrow> c \<in> set ''0123456789''"

definition parse_directive :: "string \<Rightarrow> (directive \<times> string) option" where
  "parse_directive f =
     (if take 1 f = ''%'' then Some (Percent, drop 1 f)
      else let padded = (take 1 f = ''0''); w = value_base 10 (takeWhile is_digit f)
           in case dropWhile is_digit f of
                [] \<Rightarrow> None
              | c # g \<Rightarrow>
                  if c = CHR ''d'' then Some (Put_d padded w, g)
                  else if c = CHR ''u'' then Some (Put_u padded w, g)
                  else if c = CHR ''x'' then Some (Put_x padded w, g)
                  else if c = CHR ''s'' \<and> \<not> padded then Some (Put_s w, g)
                  else None)"

definition print_dec :: "int \<Rightarrow> string" where
  "print_dec i = (if i < 0 then ''-'' @ show_dec (nat (- i)) else show_dec (nat i))"

text \<open>A number in its field: a sign goes in front of zeros and behind blanks.\<close>

definition number_field :: "bool \<Rightarrow> nat \<Rightarrow> string \<Rightarrow> string \<Rightarrow> string" where
  "number_field padded w minus_sign digits =
     (if padded then minus_sign @ fill_left (w - length minus_sign) CHR ''0'' digits else fill_left w CHR '' '' (minus_sign @ digits))"

text \<open>The characters of a C string, up to its null character.\<close>

definition chars :: "string \<Rightarrow> string" where "chars t = takeWhile (\<lambda>c. c \<noteq> CHR 0x00) t"

definition print_directive :: "directive \<Rightarrow> printf_arg \<Rightarrow> string option" where
  "print_directive d a =
     (case (d, a) of
        (Put_d padded w, Arg_int v) \<Rightarrow>
          Some (number_field padded w (if sint v < 0 then ''-'' else []) (show_dec (nat \<bar>sint v\<bar>)))
      | (Put_u padded w, Arg_int v) \<Rightarrow> Some (number_field padded w [] (show_dec (unat v)))
      | (Put_x padded w, Arg_int v) \<Rightarrow> Some (number_field padded w [] (show_hex (unat v)))
      | (Put_s w, Arg_str t) \<Rightarrow> Some (fill_left w CHR '' '' (chars t))
      | _ \<Rightarrow> None)"

lemma parse_directive_shorter:
  assumes "parse_directive f = Some (d, g)"
  shows "length g < length f"
proof (cases "take 1 f = ''%''")
  case True
  then have "f \<noteq> []" by auto
  with True assms show ?thesis by (auto simp: parse_directive_def)
next
  case False
  then obtain c where c: "dropWhile is_digit f = c # g"
    using assms by (auto simp: parse_directive_def Let_def split: list.splits if_splits)
  have "length (dropWhile is_digit f) \<le> length f" by (rule length_dropWhile_le)
  with c show ?thesis by simp
qed

function vsnprintf :: "string \<Rightarrow> printf_arg list \<Rightarrow> string option" where
  "vsnprintf [] args = Some []"
| "vsnprintf (c # f) args =
     (if c \<noteq> CHR ''%'' then map_option (\<lambda>u. c # u) (vsnprintf f args)
      else case parse_directive f of
             None \<Rightarrow> None
           | Some (Percent, g) \<Rightarrow> map_option (\<lambda>u. c # u) (vsnprintf g args)
           | Some (d, g) \<Rightarrow>
               (case args of
                  [] \<Rightarrow> None
                | a # rest \<Rightarrow>
                    (case (print_directive d a, vsnprintf g rest) of
                       (Some t, Some u) \<Rightarrow> Some (t @ u)
                     | _ \<Rightarrow> None)))"
  by pat_completeness auto
termination
  by (relation "measure (\<lambda>(f, _). length f)") (auto dest: parse_directive_shorter intro: less_SucI)

section \<open>The class\<close>

definition EXIT_FAILURE :: int where "EXIT_FAILURE = 1"

record exception_object =
  m_code :: int
  m_file :: string
  m_line :: int
  m_text :: string
  m_what :: string

text \<open>
  The constructor measures the text, prints it into a buffer of that size and makes a string of what is in
  front of the first null character.
\<close>

definition new_exception :: "string \<Rightarrow> int \<Rightarrow> string \<Rightarrow> printf_arg list \<Rightarrow> exception_object option" where
  "new_exception file lineno fmt args =
     (case vsnprintf fmt args of
        None \<Rightarrow> None
      | Some printed \<Rightarrow>
          (let sz = length printed + 1;
               str = take (sz - 1) printed;
               text = chars str;
               ss = ''or1kiss exception at '' @ file @ '':'' @ print_dec lineno @ '' '' @ [CHR 0x27] @ text @ [CHR 0x27]
           in Some \<lparr>m_code = EXIT_FAILURE, m_file = file, m_line = lineno, m_text = text, m_what = ss\<rparr>))"

definition copy_exception :: "exception_object \<Rightarrow> exception_object" where
  "copy_exception copy =
     \<lparr>m_code = m_code copy, m_file = m_file copy, m_line = m_line copy, m_text = m_text copy, m_what = m_what copy\<rparr>"

definition assign_exception :: "exception_object \<Rightarrow> exception_object \<Rightarrow> exception_object" where
  "assign_exception other this =
     this\<lparr>m_code := m_code other, m_file := m_file other, m_line := m_line other, m_text := m_text other,
       m_what := m_what other\<rparr>"

definition get_exit_code :: "exception_object \<Rightarrow> int" where "get_exit_code = m_code"
definition get_msg :: "exception_object \<Rightarrow> string" where "get_msg = m_text"
definition get_file_name :: "exception_object \<Rightarrow> string" where "get_file_name = m_file"
definition get_line_number :: "exception_object \<Rightarrow> int" where "get_line_number = m_line"
definition exception_what :: "exception_object \<Rightarrow> string" where "exception_what = m_what"

text \<open>Throwing by value and assigning make an object that says the same.\<close>

lemma copies_agree: "copy_exception x = x" "assign_exception x y = x"
  by (simp_all add: copy_exception_def assign_exception_def)

section \<open>Which texts can be composed\<close>

text \<open>The directives of a format that take an argument, in their order; \<open>None\<close> when one of them is not known.\<close>

function directives :: "string \<Rightarrow> directive list option" where
  "directives [] = Some []"
| "directives (c # f) =
     (if c \<noteq> CHR ''%'' then directives f
      else case parse_directive f of
             None \<Rightarrow> None
           | Some (d, g) \<Rightarrow> map_option (\<lambda>ds. if d = Percent then ds else d # ds) (directives g))"
  by pat_completeness auto
termination
  by (relation "measure length") (auto dest: parse_directive_shorter intro: less_SucI)

fun takes :: "directive \<Rightarrow> printf_arg \<Rightarrow> bool" where
  "takes Percent _ = False"
| "takes (Put_s _) a = (case a of Arg_str _ \<Rightarrow> True | _ \<Rightarrow> False)"
| "takes _ a = (case a of Arg_int _ \<Rightarrow> True | _ \<Rightarrow> False)"

definition fits :: "directive list \<Rightarrow> printf_arg list \<Rightarrow> bool" where
  "fits ds args \<longleftrightarrow> length ds \<le> length args \<and> list_all2 takes ds (take (length ds) args)"

lemma print_directive_takes: "print_directive d a = None \<longleftrightarrow> \<not> takes d a"
  by (cases d; cases a) (simp_all add: print_directive_def)

lemma fits_simps [simp]:
  "fits [] args" "\<not> fits (d # ds) []" "fits (d # ds) (a # args) \<longleftrightarrow> takes d a \<and> fits ds args"
  by (auto simp: fits_def)

text \<open>The directives that the messages use, and the fields that they print.\<close>

lemma parse_used:
  "parse_directive (CHR ''%'' # f) = Some (Percent, f)" "parse_directive (CHR ''d'' # f) = Some (Put_d False 0, f)"
  "parse_directive (CHR ''u'' # f) = Some (Put_u False 0, f)" "parse_directive (CHR ''s'' # f) = Some (Put_s 0, f)"
  "parse_directive (CHR ''0'' # CHR ''8'' # CHR ''x'' # f) = Some (Put_x True 8, f)"
  by (simp_all add: parse_directive_def is_digit_def value_base_def digit_value_def digit_chars_def Let_def)

lemma print_used:
  "print_directive (Put_d False 0) (Arg_int v) = Some (print_dec (sint v))"
  "print_directive (Put_u False 0) (Arg_int v) = Some (show_dec (unat v))"
  "print_directive (Put_x True 8) (Arg_int v) = Some (hex_field 8 v)"
  "print_directive (Put_s 0) (Arg_str t) = Some (chars t)" "print_directive (Put_d False 0) (Arg_str t) = None"
  by (simp_all add: print_directive_def number_field_def print_dec_def fill_left_def hex_field_def)

text \<open>One step of the formatting, by the kind of directive.\<close>

lemma vsnprintf_percent:
  "parse_directive f = Some (Percent, g) \<Longrightarrow>
   vsnprintf (CHR ''%'' # f) args = map_option (\<lambda>u. CHR ''%'' # u) (vsnprintf g args)"
  by simp

lemma vsnprintf_put:
  assumes "parse_directive f = Some (d, g)" "d \<noteq> Percent"
  shows "vsnprintf (CHR ''%'' # f) args =
    (case args of
       [] \<Rightarrow> None
     | a # rest \<Rightarrow> (case (print_directive d a, vsnprintf g rest) of (Some t, Some u) \<Rightarrow> Some (t @ u) | _ \<Rightarrow> None))"
  using assms by (cases d) (simp_all split: list.split)

text \<open>A text is composed exactly if the arguments have the types that the directives ask for.\<close>

lemma vsnprintf_composes:
  "(\<exists>t. vsnprintf f args = Some t) \<longleftrightarrow> (\<exists>ds. directives f = Some ds \<and> fits ds args)"
proof (induction "length f" arbitrary: f args rule: less_induct)
  case less
  show ?case
  proof (cases f)
    case (Cons c f')
    show ?thesis
    proof (cases "c = CHR ''%''")
      case False
      with Cons less[of f'] show ?thesis by simp
    next
      case True
      show ?thesis
      proof (cases "parse_directive f'")
        case None
        with True Cons show ?thesis by simp
      next
        case (Some p)
        obtain d g where p: "p = (d, g)" by (cases p)
        have l: "length g < length f" using parse_directive_shorter[of f' d g] Some p Cons by simp
        show ?thesis
        proof (cases "d = Percent")
          case True
          with Cons \<open>c = CHR ''%''\<close> Some p less[OF l] show ?thesis by (auto simp: vsnprintf_percent)
        next
          case False
          show ?thesis
          proof (cases args)
            case Nil
            with Cons True Some p False vsnprintf_put[of f' d g args] show ?thesis by auto
          next
            case (Cons a rest)
            with \<open>f = c # f'\<close> True Some p False vsnprintf_put[of f' d g args] less[OF l, of rest]
              print_directive_takes[of d a]
            show ?thesis by (cases "takes d a") (auto simp del: vsnprintf.simps split: option.splits)
          qed
        qed
      qed
    qed
  qed simp
qed

lemma new_exception_iff:
  "(\<exists>x. new_exception file lineno fmt args = Some x) \<longleftrightarrow>
   (\<exists>ds. directives fmt = Some ds \<and> fits ds args)"
  by (simp add: new_exception_def Let_def vsnprintf_composes[symmetric] split: option.split)

text \<open>A format without directives is its own text, and the buffer is as long as the text.\<close>

lemma plain_format: "CHR ''%'' \<notin> set fmt \<Longrightarrow> vsnprintf fmt args = Some fmt"
  by (induction fmt) auto

lemma whole_text:
  assumes "vsnprintf fmt args = Some t" "CHR 0x00 \<notin> set t"
  shows "map_option get_msg (new_exception file lineno fmt args) = Some t"
  using assms by (auto simp: new_exception_def get_msg_def chars_def Let_def takeWhile_eq_all_conv)

text \<open>
  The text of a message without arguments that the source holds as \<^verbatim>\<open>OR1KISS_ERROR(text)\<close> is the text; of a
  message of the system that is used as a format, it is the message only when there is no percent sign in it.
\<close>

lemma message_text:
  assumes "CHR ''%'' \<notin> set t" "CHR 0x00 \<notin> set t"
  shows "map_option get_msg (new_exception file lineno t []) = Some t"
  by (rule whole_text[OF plain_format[OF assms(1)] assms(2)])

section \<open>The messages of the program\<close>

text \<open>
  The format and the arguments that \<^verbatim>\<open>OR1KISS_ERROR\<close> has for each error of the model, where \<open>errno\<close> is the
  text of the error that the system reports. The errors of \<^verbatim>\<open>libelf\<close> use its message as the format.
\<close>

definition quoted_s :: string where "quoted_s = [CHR 0x27] @ ''%s'' @ [CHR 0x27]"
definition newline :: string where "newline = [CHR 0x0A]"

definition int_arg :: "nat \<Rightarrow> printf_arg" where "int_arg n = Arg_int (word_of_nat n)"

definition bytes_arg :: "u8 list \<Rightarrow> printf_arg" where "bytes_arg s = Arg_str (map (\<lambda>b. char_of (unat b)) s)"

definition thrown :: "string \<Rightarrow> or1k_error \<Rightarrow> (string \<times> printf_arg list) option" where
  "thrown errno e =
     (case e of
        Invalid_range a b \<Rightarrow> Some (''invalid range specified %u..%u'', [Arg_int a, Arg_int b])
      | Invalid_port_response \<Rightarrow> Some (''invalid response from port'', [])
      | No_memory_access \<Rightarrow> Some (''Hardware TLB refill impossible, no memory access'', [])
      | Unknown_exception n \<Rightarrow> Some (''Unknown exception (%u)'', [int_arg n])
      | Unknown_rounding_mode m \<Rightarrow> Some (''Unknown rounding mode (%d)'', [Arg_int m])
      | Insn_not_supported insn addr \<Rightarrow>
          Some (''Instruction 0x%08x at address 0x%08x not supported'', [Arg_int insn, Arg_int addr])
      | Trace_stream_already_specified \<Rightarrow> Some (''trace stream already specified'', [])
      | Receive_error \<Rightarrow> Some (''Error receiving data (%d)'', [Arg_str errno])
      | Send_error \<Rightarrow> Some (''Error sending data (%s)'', [Arg_str errno])
      | Packet_overflow \<Rightarrow> Some (''Buffer overflow in RSP'', [])
      | Not_connected \<Rightarrow> Some (''No socket connection established'', [])
      | Cannot_read_memory addr sz \<Rightarrow>
          Some (''cannot read memory at 0x%08x (%d bytes)'', [Arg_int addr, int_arg sz])
      | Cannot_write_memory addr sz \<Rightarrow>
          Some (''cannot write memory at 0x%08x (%d bytes)'', [Arg_int addr, int_arg sz])
      | Translation_failed addr \<Rightarrow> Some (''translation of address 0x%08x failed'', [Arg_int addr])
      | Bad_rcmd_length len \<Rightarrow> Some (''RCMD length not a multiple of 2 (%d)'', [int_arg len])
      | Unknown_remote_command s \<Rightarrow> Some (''unknown remote command '' @ quoted_s, [bytes_arg s])
      | Bad_command s \<Rightarrow> Some (''error parsing command '' @ quoted_s @ newline, [bytes_arg s])
      | Register_out_of_range reg \<Rightarrow> Some (''register index %d out of range'' @ newline, [Arg_int reg])
      | Bad_length len \<Rightarrow> Some (''cannot handle length argument: %d'', [Arg_int len])
      | Bad_breakpoint_type t \<Rightarrow> Some (''invalid breakpoint type %d'' @ newline, [Arg_int t])
      | Invalid_elf_header \<Rightarrow> Some (''Invalid endianess specified in ELF header'', [])
      | _ \<Rightarrow> None)"

text \<open>The macro; \<open>None\<close> when there is no such message or when it cannot be composed.\<close>

definition OR1KISS_ERROR :: "string \<Rightarrow> int \<Rightarrow> string \<Rightarrow> or1k_error \<Rightarrow> exception_object option" where
  "OR1KISS_ERROR file lineno errno e =
     (case thrown errno e of
        None \<Rightarrow> None
      | Some (fmt, args) \<Rightarrow> new_exception file lineno fmt args)"

lemmas message_defs = int_arg_def bytes_arg_def quoted_s_def newline_def parse_used print_used

text \<open>
  Every message can be composed, except that a failed reception hands a pointer to a directive that wants a
  number.
\<close>

lemma messages_compose:
  assumes "thrown errno e \<noteq> None"
  shows "OR1KISS_ERROR file lineno errno e = None \<longleftrightarrow> e = Receive_error"
proof -
  obtain fmt args where t: "thrown errno e = Some (fmt, args)" using assms by auto
  have "(\<exists>x. new_exception file lineno fmt args = Some x) \<longleftrightarrow> e \<noteq> Receive_error"
    unfolding new_exception_iff using t by (cases e) (auto simp: thrown_def message_defs)
  then show ?thesis using t by (cases "new_exception file lineno fmt args") (simp_all add: OR1KISS_ERROR_def)
qed

text \<open>What the user reads of an instruction that the decoder does not know.\<close>

lemma unsupported_text:
  assumes "thrown errno (Insn_not_supported insn addr) = Some (fmt, args)"
  shows "vsnprintf fmt args =
    Some (''Instruction 0x'' @ hex_field 8 insn @ '' at address 0x'' @ hex_field 8 addr @ '' not supported'')"
  using assms by (auto simp: thrown_def message_defs)

section \<open>The reports of the debugger\<close>

text \<open>
  \<^verbatim>\<open>gdb::warning\<close> prints into a buffer of 80 bytes. The command loop calls it for an exception with the text of
  the exception in the place of the format.
\<close>

definition gdb_warning :: "bool \<Rightarrow> string \<Rightarrow> printf_arg list \<Rightarrow> string option" where
  "gdb_warning m_show_warnings text args =
     (if \<not> m_show_warnings then Some []
      else case vsnprintf text args of
             None \<Rightarrow> None
           | Some printed \<Rightarrow> Some (''(gdb) warning: '' @ chars (take (80 - 1) printed) @ newline))"

definition report_exception :: "bool \<Rightarrow> exception_object \<Rightarrow> string option" where
  "report_exception shown ex = gdb_warning shown (get_msg ex) []"

text \<open>The text of a format that is given no arguments: every percent sign has to be one of a pair.\<close>

fun literal :: "string \<Rightarrow> string option" where
  "literal [] = Some []"
| "literal (c # f) =
     (if c \<noteq> CHR ''%'' then map_option (\<lambda>u. c # u) (literal f)
      else case f of
             [] \<Rightarrow> None
           | d # g \<Rightarrow> if d = CHR ''%'' then map_option (\<lambda>u. c # u) (literal g) else None)"

lemma parse_percent: "parse_directive f = Some (Percent, g) \<longleftrightarrow> f = CHR ''%'' # g"
  by (cases f) (auto simp: parse_directive_def Let_def split: list.splits if_splits)

lemma vsnprintf_literal: "vsnprintf f [] = literal f"
proof (induction f rule: literal.induct)
  case (2 c f)
  show ?case
  proof (cases "c = CHR ''%''")
    case False
    with 2(1) show ?thesis by simp
  next
    case True
    show ?thesis
    proof (cases "\<exists>g. f = CHR ''%'' # g")
      case pair: True
      then obtain g where "f = CHR ''%'' # g" by blast
      with True 2(2) show ?thesis by (simp add: parse_used)
    next
      case False
      then have "vsnprintf (CHR ''%'' # f) [] = None"
        using vsnprintf_put[of f _ _ "[]"] parse_percent[of f]
        by (cases "parse_directive f") (auto split: directive.split)
      with False True show ?thesis by (cases f) auto
    qed
  qed
qed simp

text \<open>What a message repeats of the command, or of the system.\<close>

definition quoted_text :: "string \<Rightarrow> or1k_error \<Rightarrow> string" where
  "quoted_text errno e =
     (case e of
        Unknown_remote_command s \<Rightarrow> chars (map (\<lambda>b. char_of (unat b)) s)
      | Bad_command s \<Rightarrow> chars (map (\<lambda>b. char_of (unat b)) s)
      | Send_error \<Rightarrow> chars errno
      | _ \<Rightarrow> [])"

text \<open>Text with neither percent signs nor null characters.\<close>

definition clean :: "string \<Rightarrow> bool" where
  "clean t \<longleftrightarrow> CHR ''%'' \<notin> set t \<and> CHR 0x00 \<notin> set t"

lemma clean_simps [simp]:
  "clean []" "clean (c # t) \<longleftrightarrow> c \<noteq> CHR ''%'' \<and> c \<noteq> CHR 0x00 \<and> clean t" "clean (a @ b) \<longleftrightarrow> clean a \<and> clean b"
  by (auto simp: clean_def)

lemma clean_base:
  assumes "2 \<le> b" "b \<le> 16"
  shows "clean (show_base b n)"
proof -
  have "clean digit_chars" by (simp add: digit_chars_def)
  then show ?thesis using set_show_base[OF assms, of n] by (auto simp: clean_def)
qed

lemma clean_digits [simp]: "clean (show_dec n)" "clean (print_dec i)" "clean (hex_field w v)"
proof -
  show d: "clean (show_dec n)" for n by (simp add: show_dec_def clean_base)
  then show "clean (print_dec i)" by (simp add: print_dec_def)
  have "clean (replicate k CHR ''0'')" for k by (induction k) simp_all
  then show "clean (hex_field w v)" by (simp add: hex_field_def fill_left_def show_hex_def clean_base)
qed

lemma chars_id: "CHR 0x00 \<notin> set a \<Longrightarrow> chars a = a"
  unfolding chars_def by (induction a) auto

lemma chars_no_null [simp]: "CHR 0x00 \<notin> set (chars a)"
  by (auto simp: chars_def dest: set_takeWhileD)

lemma message_parts:
  assumes "thrown errno e = Some (fmt, args)" "vsnprintf fmt args = Some t"
  shows "\<exists>pre post. t = pre @ quoted_text errno e @ post \<and> clean pre \<and> clean post"
proof (cases "e = Send_error \<or> (\<exists>s. e = Bad_command s \<or> e = Unknown_remote_command s)")
  case True
  have "t = ''Error sending data ('' @ quoted_text errno e @ '')'' \<or>
      t = ''error parsing command '' @ [CHR 0x27] @ quoted_text errno e @ [CHR 0x27] @ newline \<or>
      t = ''unknown remote command '' @ [CHR 0x27] @ quoted_text errno e @ [CHR 0x27]"
    using True assms by (auto simp: thrown_def message_defs quoted_text_def)
  then show ?thesis
  proof (elim disjE)
    assume "t = ''Error sending data ('' @ quoted_text errno e @ '')''"
    then show ?thesis by (intro exI[of _ "''Error sending data (''"] exI[of _ "'')''"]) simp
  next
    assume "t = ''error parsing command '' @ [CHR 0x27] @ quoted_text errno e @ [CHR 0x27] @ newline"
    then show ?thesis
      by (intro exI[of _ "''error parsing command '' @ [CHR 0x27]"] exI[of _ "[CHR 0x27] @ newline"])
        (simp add: newline_def)
  next
    assume "t = ''unknown remote command '' @ [CHR 0x27] @ quoted_text errno e @ [CHR 0x27]"
    then show ?thesis
      by (intro exI[of _ "''unknown remote command '' @ [CHR 0x27]"] exI[of _ "[CHR 0x27]"]) simp
  qed
next
  case False
  then have "quoted_text errno e = []" by (cases e) (simp_all add: quoted_text_def)
  moreover have "clean t"
    using assms False by (cases e) (auto simp: thrown_def message_defs)
  ultimately show ?thesis by (intro exI[of _ t] exI[of _ "[]"]) simp
qed

text \<open>Text around the repeated part stays as it is.\<close>

lemma literal_prefix: "clean pre \<Longrightarrow> literal (pre @ x) = map_option (\<lambda>u. pre @ u) (literal x)"
  by (cases "literal x"; induction pre) simp_all

lemma literal_suffix: "clean post \<Longrightarrow> literal (q @ post) = map_option (\<lambda>u. u @ post) (literal q)"
proof (induction q rule: literal.induct)
  case 1
  then show ?case using literal_prefix[of post "[]"] by simp
next
  case (2 c f)
  show ?case
  proof (cases "c = CHR ''%''")
    case False
    with 2 show ?thesis by (cases "literal f") simp_all
  next
    case True
    show ?thesis
    proof (cases f)
      case Nil
      with True 2(3) show ?thesis by (cases post) simp_all
    next
      case (Cons d g)
      with True 2 show ?thesis by (cases "literal g") simp_all
    qed
  qed
qed

lemma literal_set: "literal f = Some t \<Longrightarrow> set t \<subseteq> set f"
proof (induction f arbitrary: t rule: literal.induct)
  case (2 c f)
  show ?case
  proof (cases "c = CHR ''%''")
    case False
    with 2(3) obtain u where "literal f = Some u" "t = c # u" by auto
    with 2(1)[OF False] show ?thesis by auto
  next
    case True
    with 2(3) obtain g u where "f = CHR ''%'' # g" "literal g = Some u" "t = c # u"
      by (auto split: list.splits if_splits)
    with 2(2) True show ?thesis by auto
  qed
qed simp

lemma get_msg_parts:
  assumes "OR1KISS_ERROR file lineno errno e = Some ex"
  shows "\<exists>pre post. get_msg ex = pre @ quoted_text errno e @ post \<and> clean pre \<and> clean post \<and>
    CHR 0x00 \<notin> set (get_msg ex)"
proof -
  obtain fmt args t where t: "thrown errno e = Some (fmt, args)" "vsnprintf fmt args = Some t"
    using assms by (auto simp: OR1KISS_ERROR_def new_exception_def split: option.splits)
  obtain pre post where p: "t = pre @ quoted_text errno e @ post" "clean pre" "clean post"
    using message_parts[OF t] by blast
  have "CHR 0x00 \<notin> set t"
    using p by (auto simp: clean_def quoted_text_def split: or1k_error.splits)
  moreover have "get_msg ex = chars t"
    using assms t by (auto simp: OR1KISS_ERROR_def new_exception_def get_msg_def Let_def)
  ultimately show ?thesis using p by (auto simp: chars_id)
qed

text \<open>C34:
  With warnings shown, the debugger uses the message of an exception as a format once more. The report is
  a defined text exactly if in what the message repeats, such as a command that the debugger sent and
  the stub does not know, the percent signs come in pairs, of which one is printed; then it is the
  message with that part so changed, cut at 79 characters. Without warnings nothing is printed.
\<close>

theorem report_uses_message_as_format:
  assumes "OR1KISS_ERROR file lineno errno e = Some ex"
  shows "\<exists>pre post. get_msg ex = pre @ quoted_text errno e @ post \<and>
    report_exception shown ex =
      (if \<not> shown then Some []
       else map_option (\<lambda>q. ''(gdb) warning: '' @ take 79 (pre @ q @ post) @ newline)
              (literal (quoted_text errno e)))"
proof -
  obtain pre post where p: "get_msg ex = pre @ quoted_text errno e @ post" "clean pre" "clean post"
    "CHR 0x00 \<notin> set (get_msg ex)"
    using get_msg_parts[OF assms] by blast
  have l: "literal (get_msg ex) = map_option (\<lambda>q. pre @ q @ post) (literal (quoted_text errno e))"
    by (simp add: p(1) literal_prefix[OF p(2)] literal_suffix[OF p(3)] option.map_comp comp_def)
  have c: "chars (take 79 t) = take 79 t" if "literal (get_msg ex) = Some t" for t
    using literal_set[OF that] p(4) by (intro chars_id) (meson in_set_takeD subsetD)
  have "report_exception shown ex =
      (if \<not> shown then Some []
       else map_option (\<lambda>q. ''(gdb) warning: '' @ take 79 (pre @ q @ post) @ newline)
              (literal (quoted_text errno e)))"
    using l c by (cases "literal (quoted_text errno e)")
      (auto simp: report_exception_def gdb_warning_def vsnprintf_literal)
  with p(1) show ?thesis by blast
qed

text \<open>A remote command with \<^verbatim>\<open>%n\<close> has no defined report, one with \<^verbatim>\<open>%%\<close> has.\<close>

theorem report_uses_message_as_format_witness:
  "(\<exists>ex. OR1KISS_ERROR ''gdb.cpp'' 253 [] (Unknown_remote_command [0x25, 0x6e]) = Some ex \<and>
     report_exception True ex = None) \<and>
   (\<exists>ex. OR1KISS_ERROR ''gdb.cpp'' 253 [] (Unknown_remote_command [0x25, 0x25]) = Some ex \<and>
     report_exception True ex \<noteq> None)"
proof -
  have "\<exists>ex. OR1KISS_ERROR ''gdb.cpp'' 253 [] (Unknown_remote_command s) = Some ex" for s
    using messages_compose[of "[]" "Unknown_remote_command s" "''gdb.cpp''" 253] by (auto simp: thrown_def)
  then obtain x y where x: "OR1KISS_ERROR ''gdb.cpp'' 253 [] (Unknown_remote_command [0x25, 0x6e]) = Some x"
    and y: "OR1KISS_ERROR ''gdb.cpp'' 253 [] (Unknown_remote_command [0x25, 0x25]) = Some y"
    by blast
  have "literal (quoted_text [] (Unknown_remote_command [0x25, 0x6e])) = None" by code_simp
  moreover have "literal (quoted_text [] (Unknown_remote_command [0x25, 0x25])) = Some ''%''" by code_simp
  ultimately show ?thesis
    using report_uses_message_as_format[OF x, of True] report_uses_message_as_format[OF y, of True] x y by auto
qed

end
