(* ===== verification/Socket.thy ===== *)
theory Socket
  imports Rsp Error_Text
begin

text \<open>
  The sockets of the debugger's connection (\<^verbatim>\<open>include/or1kiss/rsp.h\<close>, the constructors, \<^verbatim>\<open>open\<close>, \<^verbatim>\<open>close\<close> and
  the destructor in \<^verbatim>\<open>src/or1kiss/rsp.cpp\<close>). The operating system is a function from the calls made so far
  and the next one to its answer; the calls are recorded. The lemmas follow the descriptors: a connection
  that was opened and closed holds none, an attempt that fails on the way keeps those it has got, and the
  constructor then gives them up without closing them, as no object is left to do so.
\<close>

section \<open>System calls\<close>

datatype sys_call =
    Sys_socket | Sys_reuse_address int | Sys_bind int u16 | Sys_listen int | Sys_accept int
  | Sys_no_delay int | Sys_close int

type_synonym kernel = "sys_call list \<Rightarrow> sys_call \<Rightarrow> int"

text \<open>The members of the class; the messages of the calls that failed.\<close>

record endpoint =
  m_trace :: bool
  m_socket :: int
  m_connection :: int
  m_port :: u16
  g_syscalls :: "sys_call list"

datatype socket_error =
    Cannot_open_socket | Setsockopt_failed | Cannot_bind_socket | Listening_failed | Error_connecting

definition call_system :: "kernel \<Rightarrow> sys_call \<Rightarrow> endpoint \<Rightarrow> int \<times> endpoint" where
  "call_system k c e = (k (g_syscalls e) c, e\<lparr>g_syscalls := g_syscalls e @ [c]\<rparr>)"

text \<open>
  \<open>if (call == -1) OR1KISS_ERROR(...)\<close>, with the member that keeps the answer, if any. The object survives an
  exception as it is.
\<close>

definition try_call ::
  "kernel \<Rightarrow> sys_call \<Rightarrow> socket_error \<Rightarrow> (int \<Rightarrow> endpoint \<Rightarrow> endpoint) \<Rightarrow> endpoint \<Rightarrow>
   (socket_error + int) \<times> endpoint" where
  "try_call k c err keep e =
     (let (r, e) = call_system k c e; e = keep r e in (if r = -1 then Inl err else Inr r, e))"

definition bindS ::
  "(socket_error + 'a) \<times> endpoint \<Rightarrow> ('a \<Rightarrow> endpoint \<Rightarrow> (socket_error + 'b) \<times> endpoint) \<Rightarrow>
   (socket_error + 'b) \<times> endpoint" where
  "bindS m f = (case m of (Inl x, e) \<Rightarrow> (Inl x, e) | (Inr r, e) \<Rightarrow> f r e)"

section \<open>The class\<close>

definition ep_is_open :: "endpoint \<Rightarrow> bool" where
  "ep_is_open e \<longleftrightarrow> m_socket e \<noteq> -1"

definition ep_is_connected :: "endpoint \<Rightarrow> bool" where
  "ep_is_connected e \<longleftrightarrow> m_connection e \<noteq> -1"

definition ep_get_port :: "endpoint \<Rightarrow> u16" where
  "ep_get_port e = m_port e"

definition ep_close :: "kernel \<Rightarrow> endpoint \<Rightarrow> endpoint" where
  "ep_close k e =
     (if ep_is_open e
      then let (_, e) = call_system k (Sys_close (m_connection e)) e;
               (_, e) = call_system k (Sys_close (m_socket e)) e
           in e\<lparr>m_connection := -1, m_socket := -1\<rparr>
      else e)"

text \<open>
  \<^verbatim>\<open>accept\<close> is given the address of \<^verbatim>\<open>m_addr\<close> and writes the client's address there, so that the port
  of the object is the client's (\<open>peer\<close>) from then on.
\<close>

definition ep_accepted :: "(sys_call list \<Rightarrow> u16) \<Rightarrow> int \<Rightarrow> endpoint \<Rightarrow> endpoint" where
  "ep_accepted peer r e =
     (let e = e\<lparr>m_connection := r\<rparr> in if r = -1 then e else e\<lparr>m_port := peer (g_syscalls e)\<rparr>)"

definition ep_open ::
  "kernel \<Rightarrow> (sys_call list \<Rightarrow> u16) \<Rightarrow> u16 \<Rightarrow> endpoint \<Rightarrow> (socket_error + unit) \<times> endpoint" where
  "ep_open k peer port e =
     (let e = (if ep_is_open e then ep_close k e else e)
      in bindS (try_call k Sys_socket Cannot_open_socket (\<lambda>r. m_socket_update (\<lambda>_. r)) e) (\<lambda>s e.
         bindS (try_call k (Sys_reuse_address s) Setsockopt_failed (\<lambda>_ e. e) e) (\<lambda>_ e.
         bindS (try_call k (Sys_bind s port) Cannot_bind_socket (\<lambda>_ e. e) (e\<lparr>m_port := port\<rparr>)) (\<lambda>_ e.
         bindS (try_call k (Sys_listen s) Listening_failed (\<lambda>_ e. e) e) (\<lambda>_ e.
         bindS (try_call k (Sys_accept s) Error_connecting (ep_accepted peer) e) (\<lambda>c e.
         bindS (try_call k (Sys_no_delay c) Setsockopt_failed (\<lambda>_ e. e) e) (\<lambda>_ e.
         (Inr (), e))))))))"

text \<open>
  \<^verbatim>\<open>OR1KISS_TRACE_RSP\<close> turns the trace on unless it begins with a zero. The object whose constructor throws
  does not come to be, and what is left are the calls it made.
\<close>

definition new_endpoint :: "string option \<Rightarrow> sys_call list \<Rightarrow> endpoint" where
  "new_endpoint var calls =
     \<lparr>m_trace = (case var of None \<Rightarrow> False | Some v \<Rightarrow> take 1 v \<noteq> ''0''), m_socket = -1, m_connection = -1,
      m_port = 0, g_syscalls = calls\<rparr>"

definition new_connection ::
  "kernel \<Rightarrow> (sys_call list \<Rightarrow> u16) \<Rightarrow> string option \<Rightarrow> u16 \<Rightarrow> sys_call list \<Rightarrow>
   socket_error \<times> sys_call list + endpoint" where
  "new_connection k peer var port calls =
     (case ep_open k peer port (new_endpoint var calls) of
        (Inl x, e) \<Rightarrow> Inl (x, g_syscalls e)
      | (Inr _, e) \<Rightarrow> Inr e)"

definition delete_endpoint :: "kernel \<Rightarrow> endpoint \<Rightarrow> sys_call list" where
  "delete_endpoint k e = g_syscalls (ep_close k e)"

section \<open>Descriptors\<close>

text \<open>The descriptors that a sequence of calls has got and not given back.\<close>

definition gets :: "sys_call \<Rightarrow> bool" where
  "gets c \<longleftrightarrow> (case c of Sys_socket \<Rightarrow> True | Sys_accept _ \<Rightarrow> True | _ \<Rightarrow> False)"

fun held_after :: "kernel \<Rightarrow> sys_call list \<Rightarrow> sys_call list \<Rightarrow> int set \<Rightarrow> int set" where
  "held_after k done [] fds = fds"
| "held_after k done (c # cs) fds = held_after k (done @ [c]) cs
     (case c of Sys_close d \<Rightarrow> fds - {d}
      | _ \<Rightarrow> if gets c \<and> k done c \<noteq> -1 then insert (k done c) fds else fds)"

definition held :: "kernel \<Rightarrow> sys_call list \<Rightarrow> int set" where
  "held k cs = held_after k [] cs {}"

lemma held_after_append: "held_after k d (xs @ ys) fds = held_after k (d @ xs) ys (held_after k d xs fds)"
  by (induction xs arbitrary: d fds) simp_all

lemma held_snoc:
  "held k (cs @ [c]) = (case c of Sys_close d \<Rightarrow> held k cs - {d}
      | _ \<Rightarrow> if gets c \<and> k cs c \<noteq> -1 then insert (k cs c) (held k cs) else held k cs)"
  unfolding held_def held_after_append by (cases c) simp_all

lemma held_call:
  "held k (cs @ [Sys_socket]) = (if k cs Sys_socket \<noteq> -1 then insert (k cs Sys_socket) (held k cs) else held k cs)"
  "held k (cs @ [Sys_accept s]) =
     (if k cs (Sys_accept s) \<noteq> -1 then insert (k cs (Sys_accept s)) (held k cs) else held k cs)"
  "held k (cs @ [Sys_reuse_address s]) = held k cs"
  "held k (cs @ [Sys_bind s p]) = held k cs"
  "held k (cs @ [Sys_listen s]) = held k cs"
  "held k (cs @ [Sys_no_delay s]) = held k cs"
  by (simp_all add: held_snoc gets_def)

lemma held_closes: "held k (cs @ [Sys_close a, Sys_close b]) = held k cs - {a} - {b}"
  using held_snoc[of k "cs @ [Sys_close a]" "Sys_close b"] held_snoc[of k cs "Sys_close a"] by simp

text \<open>The members name the descriptors that are held.\<close>

definition keeps_track :: "kernel \<Rightarrow> endpoint \<Rightarrow> bool" where
  "keeps_track k e \<longleftrightarrow> held k (g_syscalls e) \<subseteq> {m_socket e, m_connection e} - {-1} \<and>
     (ep_is_connected e \<longrightarrow> ep_is_open e)"

lemmas endpoint_defs = call_system_def try_call_def bindS_def ep_is_open_def ep_is_connected_def

lemma new_endpoint_track: "held k calls = {} \<Longrightarrow> keeps_track k (new_endpoint var calls)"
  by (simp add: keeps_track_def new_endpoint_def endpoint_defs)

lemma close_track:
  assumes "keeps_track k e"
  shows "keeps_track k (ep_close k e)" "\<not> ep_is_open (ep_close k e)" "held k (g_syscalls (ep_close k e)) = {}"
  using assms by (auto simp: keeps_track_def ep_close_def endpoint_defs held_closes)

text \<open>The calls that get no descriptor, after the socket is there.\<close>

definition waiting :: "kernel \<Rightarrow> int \<Rightarrow> endpoint \<Rightarrow> bool" where
  "waiting k s e \<longleftrightarrow> s \<noteq> -1 \<and> m_socket e = s \<and> m_connection e = -1 \<and> held k (g_syscalls e) = {s}"

lemma try_state [simp]:
  "snd (try_call k c err keep e) =
     keep (k (g_syscalls e) c) (e\<lparr>g_syscalls := g_syscalls e @ [c]\<rparr>)"
  by (simp add: try_call_def call_system_def Let_def)

lemma try_plain:
  assumes "waiting k s e" "c \<in> {Sys_reuse_address s, Sys_bind s p, Sys_listen s}"
  shows "waiting k s (snd (try_call k c err (\<lambda>_ e. e) e))"
proof -
  have "held k (g_syscalls e @ [c]) = held k (g_syscalls e)"
    using assms(2) by (elim insertE) (simp_all add: held_call)
  with assms(1) show ?thesis by (simp add: waiting_def)
qed

text \<open>
  The descriptors of an endpoint after \<^verbatim>\<open>open\<close>, where \<open>s\<close> is the socket: none is lost sight of, and the socket
  is held as soon as it was got.
\<close>

definition tracked :: "kernel \<Rightarrow> endpoint \<Rightarrow> bool" where
  "tracked k e \<longleftrightarrow> keeps_track k e \<and> (ep_is_open e \<longrightarrow> m_socket e \<in> held k (g_syscalls e))"

lemma waiting_tracked: "waiting k s e \<Longrightarrow> tracked k e"
  by (auto simp: waiting_def tracked_def keeps_track_def endpoint_defs)

lemma accepted_fields [simp]:
  "m_socket (ep_accepted peer r e) = m_socket e" "m_connection (ep_accepted peer r e) = r"
  "g_syscalls (ep_accepted peer r e) = g_syscalls e"
  by (simp_all add: ep_accepted_def Let_def)

lemma try_accept:
  assumes "waiting k s e"
  shows "tracked k (snd (try_call k (Sys_accept s) err (ep_accepted peer) e))"
    "m_socket (snd (try_call k (Sys_accept s) err (ep_accepted peer) e)) = s"
  using assms
  by (auto simp add: waiting_def tracked_def keeps_track_def ep_is_open_def ep_is_connected_def held_call)

lemma try_no_delay:
  assumes "tracked k e"
  shows "tracked k (snd (try_call k (Sys_no_delay c) err (\<lambda>_ e. e) e))"
  using assms
  by (simp add: tracked_def keeps_track_def ep_is_open_def ep_is_connected_def held_call)

lemma try_socket:
  assumes "held k (g_syscalls e) = {}" "m_connection e = -1"
    and "try_call k Sys_socket err (\<lambda>r. m_socket_update (\<lambda>_. r)) e = (r, e')"
  shows "case r of Inl _ \<Rightarrow> tracked k e' \<and> \<not> ep_is_open e' | Inr s \<Rightarrow> waiting k s e'"
proof (cases "k (g_syscalls e) Sys_socket = -1")
  case True
  with assms show ?thesis
    by (simp add: try_call_def call_system_def Let_def)
      (auto simp: tracked_def keeps_track_def ep_is_open_def ep_is_connected_def held_call)
next
  case False
  with assms show ?thesis
    by (simp add: try_call_def call_system_def Let_def) (auto simp: waiting_def held_call)
qed

text \<open>
  How \<^verbatim>\<open>open\<close> ends: with the object open unless the first call has failed, and connected after the last.
\<close>

definition well_ended :: "kernel \<Rightarrow> (socket_error + unit) \<times> endpoint \<Rightarrow> bool" where
  "well_ended k m \<longleftrightarrow> tracked k (snd m) \<and> (ep_is_open (snd m) \<longleftrightarrow> fst m \<noteq> Inl Cannot_open_socket) \<and>
     (fst m = Inr () \<longrightarrow> ep_is_connected (snd m))"

lemma plain_then:
  assumes "waiting k s e" "c \<in> {Sys_reuse_address s, Sys_bind s p, Sys_listen s}" "err \<noteq> Cannot_open_socket"
    and "\<And>x e. waiting k s e \<Longrightarrow> well_ended k (f x e)"
  shows "well_ended k (bindS (try_call k c err (\<lambda>_ e. e) e) f)"
proof (cases "try_call k c err (\<lambda>_ e. e) e")
  case (Pair r e')
  then have w: "waiting k s e'" "\<forall>x. r = Inl x \<longrightarrow> x = err"
    using try_plain[OF assms(1,2), of err] by (auto simp: endpoint_defs Let_def split: if_splits)
  then have "ep_is_open e'" by (simp add: waiting_def ep_is_open_def)
  then show ?thesis
    using Pair w assms(3,4) waiting_tracked[OF w(1)] by (cases r) (auto simp: bindS_def well_ended_def)
qed

lemma accept_then:
  assumes "waiting k s e"
  shows "well_ended k (bindS (try_call k (Sys_accept s) Error_connecting (ep_accepted peer) e)
    (\<lambda>c e. bindS (try_call k (Sys_no_delay c) Setsockopt_failed (\<lambda>_ e. e) e) (\<lambda>_ e. (Inr (), e))))"
proof (cases "try_call k (Sys_accept s) Error_connecting (ep_accepted peer) e")
  case (Pair r e')
  then have t: "tracked k e'" "m_socket e' = s" "s \<noteq> -1"
    using try_accept[OF assms, of Error_connecting peer] assms by (auto simp: waiting_def)
  have r: "\<forall>x. r = Inl x \<longrightarrow> x = Error_connecting" "\<forall>c. r = Inr c \<longrightarrow> ep_is_connected e'"
    using Pair by (auto simp: endpoint_defs Let_def split: if_splits)
  show ?thesis
  proof (cases r)
    case (Inl x)
    with Pair t r show ?thesis by (simp add: bindS_def well_ended_def ep_is_open_def)
  next
    case (Inr c)
    from try_no_delay[OF t(1), of c Setsockopt_failed] Inr Pair t(2,3) r(2) show ?thesis
      by (auto simp: endpoint_defs well_ended_def Let_def)
  qed
qed

lemma open_endpoint:
  assumes "keeps_track k e"
  shows "well_ended k (ep_open k peer port e)"
proof -
  define e0 where "e0 = (if ep_is_open e then ep_close k e else e)"
  have e0: "held k (g_syscalls e0) = {}" "m_connection e0 = -1"
    using assms close_track[OF assms]
    by (auto simp: e0_def keeps_track_def endpoint_defs ep_close_def split: if_splits)
  obtain x e1 where s: "try_call k Sys_socket Cannot_open_socket (\<lambda>r. m_socket_update (\<lambda>_. r)) e0 = (x, e1)"
    by fastforce
  note w = try_socket[OF e0 s]
  show ?thesis
  proof (cases x)
    case (Inl err)
    then have "err = Cannot_open_socket" using s by (auto simp: endpoint_defs Let_def split: if_splits)
    with Inl w s show ?thesis by (simp add: ep_open_def e0_def[symmetric] Let_def bindS_def well_ended_def)
  next
    case (Inr fd)
    then have w1: "waiting k fd e1" using w by simp
    have port: "waiting k fd (u\<lparr>m_port := port\<rparr>)" if "waiting k fd u" for u using that by (simp add: waiting_def)
    have "ep_open k peer port e = bindS (try_call k (Sys_reuse_address fd) Setsockopt_failed (\<lambda>_ e. e) e1) (\<lambda>_ e.
         bindS (try_call k (Sys_bind fd port) Cannot_bind_socket (\<lambda>_ e. e) (e\<lparr>m_port := port\<rparr>)) (\<lambda>_ e.
         bindS (try_call k (Sys_listen fd) Listening_failed (\<lambda>_ e. e) e) (\<lambda>_ e.
         bindS (try_call k (Sys_accept fd) Error_connecting (ep_accepted peer) e) (\<lambda>c e.
         bindS (try_call k (Sys_no_delay c) Setsockopt_failed (\<lambda>_ e. e) e) (\<lambda>_ e. (Inr (), e))))))"
      unfolding ep_open_def e0_def[symmetric] Let_def s by (simp add: Inr bindS_def[of "(Inr fd, e1)"])
    also have "well_ended k \<dots>"
      by (intro plain_then[of k fd] w1 port accept_then) auto
    finally show ?thesis .
  qed
qed

text \<open>Opening and closing in any order loses no descriptor, and the destructor gives all of them back.\<close>

lemma opened_then_deleted:
  assumes "held k calls = {}" "new_connection k peer var port calls = Inr e"
  shows "ep_is_connected e \<and> held k (delete_endpoint k e) = {}"
proof -
  have n: "well_ended k (ep_open k peer port (new_endpoint var calls))"
    by (rule open_endpoint[OF new_endpoint_track[OF assms(1)]])
  moreover have "ep_open k peer port (new_endpoint var calls) = (Inr (), e)"
    using assms(2) by (auto simp: new_connection_def split: prod.splits sum.splits)
  ultimately show ?thesis
    using close_track(3)[of k e] by (simp add: well_ended_def tracked_def delete_endpoint_def)
qed

text \<open>The port of a connection is the one the client has got, whatever the port that was opened.\<close>

lemma port_of_the_client:
  assumes "ep_open k peer port e = (Inr (), e')"
  shows "\<exists>s c calls. ep_get_port e' = peer calls \<and> calls @ [Sys_no_delay c] = g_syscalls e' \<and>
    last calls = Sys_accept s"
  using assms
  by (auto simp: ep_open_def ep_get_port_def try_call_def call_system_def bindS_def ep_accepted_def Let_def
      split: if_splits)

text \<open>
  A constructor that throws after the first call leaves a descriptor behind that nobody closes.
\<close>

lemma failed_constructor_leaks:
  assumes "held k calls = {}" "new_connection k peer var port calls = Inl (err, calls')"
  shows "held k calls' = {} \<longleftrightarrow> err = Cannot_open_socket"
proof -
  obtain e where o: "ep_open k peer port (new_endpoint var calls) = (Inl err, e)" "calls' = g_syscalls e"
    using assms(2) by (auto simp: new_connection_def split: prod.splits sum.splits)
  have "well_ended k (Inl err, e)"
    using open_endpoint[OF new_endpoint_track[OF assms(1)], of peer port var] o(1) by simp
  then have "tracked k e" "ep_is_open e \<longleftrightarrow> err \<noteq> Cannot_open_socket" by (simp_all add: well_ended_def)
  then show ?thesis
    by (auto simp: o(2) tracked_def keeps_track_def endpoint_defs)
qed

section \<open>Messages\<close>

definition socket_message :: "string \<Rightarrow> socket_error \<Rightarrow> string \<times> printf_arg list" where
  "socket_message errno err =
     (case err of
        Cannot_open_socket \<Rightarrow> (''Cannot open socket (%s)'', [Arg_str errno])
      | Setsockopt_failed \<Rightarrow> (''setsockopt failed (%s)'', [Arg_str errno])
      | Cannot_bind_socket \<Rightarrow> (''Cannot bind socket (%s)'', [Arg_str errno])
      | Listening_failed \<Rightarrow> (''Listening for connections failed (%s)'', [])
      | Error_connecting \<Rightarrow> (''Error connecting to client (%s)'', [Arg_str errno]))"

text \<open>The message of a failed \<^verbatim>\<open>listen\<close> asks for an argument that it is not given.\<close>

lemma socket_messages_compose:
  "(\<exists>x. new_exception file lineno (fst (socket_message errno err)) (snd (socket_message errno err)) = Some x) \<longleftrightarrow>
   err \<noteq> Listening_failed"
  unfolding new_exception_iff by (cases err) (simp_all add: socket_message_def parse_used)

end
