(* ===== verification/Elf_Dump.thy ===== *)
theory Elf_Dump
  imports Elf Error_Text
begin

text \<open>
  The listing of a program file (\<^verbatim>\<open>elf::dump\<close> in \<^verbatim>\<open>src/or1kiss/elf.cpp\<close>) as the text that it prints: the header,
  a line for each section, and a line for each symbol that is a function, with its number among all symbols.
\<close>

definition nat_field :: "nat \<Rightarrow> nat \<Rightarrow> string" where
  "nat_field w n = fill_left w CHR '' '' (show_dec n)"

definition long_hex :: "u64 \<Rightarrow> string" where
  "long_hex v = ''0x'' @ fill_left 8 CHR ''0'' (show_hex (unat v))"

definition endstr :: "endian \<Rightarrow> string" where
  "endstr e = (case e of ENDIAN_LITTLE \<Rightarrow> ''little'' | ENDIAN_BIG \<Rightarrow> ''big'' | ENDIAN_UNKNOWN \<Rightarrow> ''unknown'')"

definition typestr :: "elf_sym_type \<Rightarrow> string" where
  "typestr t = (case t of ELF_SYM_OBJECT \<Rightarrow> ''OBJECT  '' | ELF_SYM_FUNCTION \<Rightarrow> ''FUNCTION'' | ELF_SYM_UNKNOWN \<Rightarrow> ''UNKNOWN '')"

definition section_line :: "nat \<Rightarrow> elf_section \<Rightarrow> string" where
  "section_line i sec =
     ''['' @ nat_field 2 i @ ''] '' @ long_hex (sec_virt_addr sec) @ '' '' @ long_hex (sec_phys_addr sec) @ '' 0x'' @
     hex_field 8 (sec_size sec) @ '' '' @ sec_name sec @ newline"

definition symbol_line :: "nat \<Rightarrow> elf_symbol \<Rightarrow> string" where
  "symbol_line i fn =
     ''['' @ nat_field 5 i @ ''] '' @ long_hex (sym_virt_addr fn) @ '' '' @ long_hex (sym_phys_addr fn) @ '' '' @
     typestr (sym_type fn) @ '' '' @ sym_name fn @ newline"

fun section_lines :: "nat \<Rightarrow> elf_section list \<Rightarrow> string" where
  "section_lines i [] = []"
| "section_lines i (sec # secs) = section_line i sec @ section_lines (i + 1) secs"

fun symbol_lines :: "nat \<Rightarrow> elf_symbol list \<Rightarrow> string" where
  "symbol_lines i [] = []"
| "symbol_lines i (fn # syms) =
     (if sym_type fn \<noteq> ELF_SYM_FUNCTION then [] else symbol_line i fn) @ symbol_lines (i + 1) syms"

definition elf_dump :: "elf \<Rightarrow> string" where
  "elf_dump e =
     m_filename e @ '' has '' @ show_dec (length (m_sections e)) @ '' sections:'' @ newline @
     ''name     : '' @ m_filename e @ newline @
     ''entry    : '' @ long_hex (m_entry e) @ newline @
     ''endian   : '' @ endstr (m_endianess e) @ newline @
     ''sections : '' @ show_dec (length (m_sections e)) @ newline @
     ''symbols  : '' @ show_dec (length (m_symbols e)) @ newline @
     newline @ ''sections:'' @ newline @
     ''[nr] vaddr      paddr      size       name'' @ newline @
     section_lines 0 (m_sections e) @
     newline @ ''symbols:'' @ newline @
     ''[   nr] vaddr      paddr      type     name'' @ newline @
     symbol_lines 0 (m_symbols e)"

text \<open>
  The listing shows the functions of the program, in their order and each with its number, and no other
  symbol.
\<close>

lemma symbol_lines_functions:
  "symbol_lines k syms = concat (map (\<lambda>(i, fn). symbol_line i fn)
     (filter (\<lambda>(i, fn). is_function fn) (zip [k..<k + length syms] syms)))"
proof (induction syms arbitrary: k)
  case (Cons fn syms)
  have "[k..<k + length (fn # syms)] = k # [k + 1..<k + 1 + length syms]"
    by (simp add: upt_rec[of k] Suc_le_eq)
  with Cons[of "k + 1"] show ?case by (simp add: is_function_def)
qed simp

lemma symbol_listed:
  assumes "j < length (m_symbols e)" "is_function (m_symbols e ! j)"
  shows "\<exists>pre post. elf_dump e = pre @ symbol_line j (m_symbols e ! j) @ post"
proof -
  have "\<exists>pre post. symbol_lines k syms = pre @ symbol_line (k + i) (syms ! i) @ post"
    if "i < length syms" "is_function (syms ! i)" for i k syms
    using that
  proof (induction syms arbitrary: i k)
    case (Cons fn syms)
    show ?case
    proof (cases i)
      case 0
      with Cons.prems show ?thesis
        by (intro exI[of _ "[]"] exI[of _ "symbol_lines (k + 1) syms"]) (simp add: is_function_def)
    next
      case (Suc n)
      with Cons.IH[of n "k + 1"] Cons.prems obtain pre post
        where p: "symbol_lines (k + 1) syms = pre @ symbol_line (k + i) ((fn # syms) ! i) @ post" by auto
      show ?thesis
        by (rule exI[of _ "(if sym_type fn \<noteq> ELF_SYM_FUNCTION then [] else symbol_line k fn) @ pre"],
            rule exI[of _ post]) (use p in simp)
    qed
  qed simp
  from this[OF assms, of 0] obtain pre post
    where "symbol_lines 0 (m_symbols e) = pre @ symbol_line j (m_symbols e ! j) @ post" by auto
  then show ?thesis
    unfolding elf_dump_def by (metis append.assoc)
qed

end
