(* ===== verification/Spec2Isabelle.thy ===== *)
theory Spec2Isabelle
  imports Progress Transparency Control_Flow Debug_Memory Standalone Socket Elf_Dump
begin

text \<open>
  A verification library for or1kiss, an instruction set simulator for the OpenRISC 1000 architecture
  written in C++.

  \<^bold>\<open>The program.\<close> The class \<^verbatim>\<open>or1k\<close> holds a processor core: registers, special purpose registers, two
  memory management units, a tick timer and a cache of decoded instructions. Its \<^verbatim>\<open>step\<close> runs a number of
  cycles; a cycle fetches an instruction through the cache, decodes it if it is new, calls its execute
  function through a member pointer, and moves the program counter. Memory is behind the class \<^verbatim>\<open>env\<close>:
  an access either goes to a block of host memory, for an address range that the environment has
  registered, or to the virtual function \<^verbatim>\<open>transact\<close>. The class \<^verbatim>\<open>gdb\<close> wraps a core for a debugger that
  speaks the remote serial protocol (\<^verbatim>\<open>rsp\<close>): one thread simulates, the other serves the connection. The
  class \<^verbatim>\<open>elf\<close> loads programs, \<^verbatim>\<open>disassemble\<close> and \<^verbatim>\<open>do_trace\<close> print instructions, and \<^verbatim>\<open>main\<close> puts all of
  it together with the plain memory of \<^verbatim>\<open>memory.cpp\<close>.

  \<^bold>\<open>The theories\<close>, each importing what it calls, with the files under \<^verbatim>\<open>include/or1kiss\<close> and \<^verbatim>\<open>src\<close>:

  \<^item> \<open>Prelude\<close>: words, the errors of the program as one datatype, the result type and its sequencing.
  \<^item> \<open>Bitops\<close>, \<open>Endian\<close>, \<open>Utils\<close>: \<^verbatim>\<open>bitops.h\<close>, \<^verbatim>\<open>endian.h\<close>, \<^verbatim>\<open>utils.h\<close>.
  \<^item> \<open>Cache\<close>: the contract of a lookup cache as a locale, with no code of its own.
  \<^item> \<open>Env\<close>, \<open>Memory\<close>: requests, direct pointers, exclusive accesses and byte order conversion of \<^verbatim>\<open>env.h\<close>
    and \<^verbatim>\<open>env.cpp\<close>; the memory of \<^verbatim>\<open>memory.cpp\<close>.
  \<^item> \<open>Tick\<close>, \<open>Mmu\<close>: \<^verbatim>\<open>tick.cpp\<close>, \<^verbatim>\<open>mmu.cpp\<close>.
  \<^item> \<open>Insn\<close>, \<open>Decode\<close>, \<open>Decode_Handlers\<close>: \<^verbatim>\<open>insn.h\<close>, and the two stages of \<^verbatim>\<open>decode.cpp\<close> with the decode table
    that the constructor of \<^verbatim>\<open>or1k\<close> fills.
  \<^item> \<open>Or1k_State\<close>, \<open>Core\<close>, \<open>Transact\<close>, \<open>Spr\<close>, \<open>Execute\<close>, \<open>Execute_Fp\<close>: the state of \<^verbatim>\<open>or1k.h\<close>; exceptions, jumps,
    timer and sleep; \<^verbatim>\<open>or1k::transact\<close>; \<^verbatim>\<open>spr.cpp\<close>; the execute functions of \<^verbatim>\<open>execute.cpp\<close>.
  \<^item> \<open>Disasm\<close>, \<open>Tracing\<close>, \<open>Error_Text\<close>: \<^verbatim>\<open>disasm.cpp\<close>, \<^verbatim>\<open>tracing.cpp\<close>, \<^verbatim>\<open>exception.cpp\<close>.
  \<^item> \<open>Or1k\<close>: the constructor, fetch, cycle, \<^verbatim>\<open>advance\<close>, \<^verbatim>\<open>step\<close> and \<^verbatim>\<open>run\<close> of \<^verbatim>\<open>or1k.cpp\<close>.
  \<^item> \<open>Effect\<close>, \<open>Invariant\<close>, \<open>Typing\<close>, \<open>Progress\<close>, \<open>Data_Access\<close>, \<open>Cache_Blind\<close>, \<open>Transparency\<close>,
    \<open>Control_Flow\<close>: theorems about the simulator.
  \<^item> \<open>Rsp\<close> and \<open>Socket\<close>, \<open>Elf\<close> and \<open>Elf_Dump\<close>, \<open>Gdb\<close>: \<^verbatim>\<open>rsp.cpp\<close>, \<^verbatim>\<open>elf.cpp\<close>, \<^verbatim>\<open>gdb.cpp\<close>; \<open>Debugger\<close>, \<open>Debug_Memory\<close>: theorems about the stub.
  \<^item> \<open>Standalone\<close>: \<^verbatim>\<open>main.cpp\<close>.

  \<^bold>\<open>State and operations.\<close> A class is a record with a field per member, named like it; a member function
  is a definition that takes the object last and returns it changed, with the name of the function
  (prefixed where two classes share one). Members that a theory does not read, such as file handles
  and sockets, are left out. Objects that C++ shares by pointers are one value here: the environment is
  the field \<open>m_env\<close> of the core, host memory is one partial map from addresses to bytes inside it, an
  instruction's operand pointers are register numbers or its own immediate, and the debugger's core is
  the field \<open>m_iss\<close>. What the functions print is collected in \<open>g_output\<close>. Machine integers are words of
  their width, so additions wrap as they do in the code; the two integers of \<^verbatim>\<open>main\<close> and \<^verbatim>\<open>libelf\<close> that
  are read as numbers are widened with \<open>unat\<close>.

  \<^bold>\<open>Errors.\<close> A fallible operation returns \<open>or1k_error + 'a\<close>. The errors are one constructor for each
  \<^verbatim>\<open>OR1KISS_ERROR\<close>, and \<open>Assertion_failed\<close>, \<open>Process_exit\<close>, \<open>Host_fault\<close> for undefined behaviour of the host
  program (an access behind an array or through a null pointer, a trapping division) and \<open>Diverges\<close> for
  a recursion that does not end. Handlers that catch exceptions catch the first kind only. In the
  debugger stub the state survives an exception, so its actions return the state in both cases.

  \<^bold>\<open>Loops.\<close> Loops with a bound in the code are recursions on it. The loops of \<^verbatim>\<open>advance\<close>, \<^verbatim>\<open>run\<close> and
  \<^verbatim>\<open>gdb::run\<close> take fuel and are \<open>None\<close> when it runs out. How much is enough is a theorem: a step by \<open>c\<close>
  cycles needs \<open>c + 1\<close> rounds on an environment that charges a bounded number of cycles for an access
  (\<open>step_returns\<close>), and with a breakpoint inside a word no fuel is enough (\<open>unaligned_breakpoint_hangs\<close>).
  The mutual recursion of \<^verbatim>\<open>exception\<close> and \<^verbatim>\<open>schedule_jump\<close> has fuel two, which \<open>exception_ends_iff\<close> shows to
  be all or nothing: what has not ended then does not end with any fuel. The command loop of the
  debugger recurses on the events that are left on its connection.

  \<^bold>\<open>Parameters.\<close> What is not in the repository is an argument: the environment's virtual functions, \<^verbatim>\<open>rand\<close>,
  the time of day and the floating-point unit of the host (the record \<open>host\<close>), the events of the
  connection, the answers of the operating system to socket calls, the tables that \<^verbatim>\<open>libelf\<close> reads from
  a file, and the contents of uninitialised memory.
  The floating-point unit is not constrained at all, so nothing is claimed of floating-point results
  beyond rounding mode, flags and the place where they are stored.

  \<^bold>\<open>Contracts.\<close> \<open>lookup_cache\<close> is what a cache owes its client, interpreted by the TLB and by the cache of
  decoded instructions; \<open>env_device\<close> what a device behind \<^verbatim>\<open>transact\<close> owes the port, interpreted by the
  memory; \<open>quiet_timer\<close> and \<open>timer\<close> what the tick timer owes the simulation loop; \<open>bounded_env\<close> what the
  loop needs of an environment to end, interpreted by the memory; \<open>talk_frame\<close>, \<open>core_frame\<close>,
  \<open>gdb_frame\<close> and \<open>iss_frame\<close>, each an extension of the one before, what a command of the debugger may do to
  the connection, the core and the mode, interpreted for the connection, for reachability, for the count
  of executed instructions and for the mode.

  \<^bold>\<open>What the theorems show\<close>, by component.

  \<^item> Memory path: the direct path and \<^verbatim>\<open>memory::transact\<close> agree; loads return what was stored, in every
    width, sign and byte order; the conditional store succeeds exactly with a live reservation.
  \<^item> MMU: a successful translation has one valid entry that grants the right; a page translated once
    hits; after a flush it is not in the TLB and misses, or is translated by the page tables. The TLB and the decode cache are coherent caches.
  \<^item> Timer: the announced distance to the next tick is exact, and when it never ticks.
  \<^item> Exceptions: what entry saves and where it goes, and when it ends.
  \<^item> Integer instructions: results and flags against arithmetic on integers, on every branch; with the
    cases in which the code departs from the architecture stated as what it does.
  \<^item> Special purpose registers: user mode can change nothing; a supervisor reads back what it wrote.
  \<^item> Control flow: the delay slot of a jump, exceptions in it, the return from an exception, and how a
    reset of the statistics sends the core to an old destination.
  \<^item> Decode cache: a step does what it does with the cache switched off as long as no fetch hits a stale
    entry, and a program that leaves its code alone never sees one.
  \<^item> Simulator: a representation invariant of every reachable state; no assertion fails; register zero
    stays zero; decoded instructions on registers complete, with three exceptions; steps return.
  \<^item> Disassembler and trace: the text determines the decoded instruction; the trace line and the one
    instruction for which it overflows its buffer.
  \<^item> Protocol and debugger: packets round trip; memory and register commands round trip; every turn
    of the stub's two threads is a run of a machine of a mode and a core, by the same commands, signals
    and steps, and keeps the core reachable; the command loop returns; and the ends that the code does not handle.
  \<^item> Sockets and messages: which descriptors are given back, and which are not when opening fails; which
    messages can be composed, and what becomes of one that repeats a percent sign.
  \<^item> Loader and main program: sections arrive at their physical addresses, and are what the simulator
    fetches; symbol lookup; the process ends.

  \<^bold>\<open>Not modelled.\<close> The creation of threads, their signals and the warnings of the simulator about special
  purpose registers, which are input and output only; the statistics that \<^verbatim>\<open>main\<close> prints, the decode cache
  hit rate among them, which are floating-point output, and its usage text; data races between the
  debugger's threads below the granularity of one command and one step; the string that \<^verbatim>\<open>l.nop\<close> with
  \<^verbatim>\<open>NOP_PUTS\<close> prints, of which the host address is recorded; destructors that only free memory; the guest
  programs under \<^verbatim>\<open>sw\<close>, third-party benchmarks that run on the simulator and are not part of it. The rest of
  the headers are declarations of what the sources define and constants that the code never uses.
\<close>

end
